(* ===== verification/Prelude.thy ===== *)
theory Prelude
  imports Complex_Main "HOL-Library.Sublist"
begin

text \<open>
  Shared base of the development: the model's primitive types, the state-and-error
  monad in which every fallible or database-backed operation is written, a small
  calculus for "this operation keeps that fact" (used for every invariant and frame
  property), and the string and list helpers the components share.
\<close>

section \<open>Primitive types\<close>

text \<open>
  A \<open>Uuid\<close> is identified with its canonical hyphenated text, so \<open>to_string\<close> is the
  identity and equality of ids is equality of strings.  A \<open>DateTime\<close> is its number of
  nanoseconds since the Unix epoch.  Text is a list of bytes (UTF-8).
\<close>

type_synonym uuid = string
type_synonym time = int

definition uuid_nil :: uuid where
  "uuid_nil = ''00000000-0000-0000-0000-000000000000''"

definition secs :: "int \<Rightarrow> time" where
  "secs n = n * 1000000000"

definition days :: "int \<Rightarrow> time" where
  "days n = secs (86400 * n)"

definition hours :: "int \<Rightarrow> time" where
  "hours n = secs (3600 * n)"

lemma days_mono [simp]: "days m \<le> days n \<longleftrightarrow> m \<le> n"
  by (simp add: days_def secs_def)

section \<open>Collections of facts\<close>

named_theorems keep_intros \<open>rules that an operation keeps a predicate of the state\<close>
named_theorems frame_simps \<open>fields an operation does not write\<close>
named_theorems op_defs \<open>definitions of the monadic operations\<close>

section \<open>The state and error monad\<close>

text \<open>
  An operation maps a state to an outcome (\<open>Inl\<close> the error, \<open>Inr\<close> the value) and the
  state it leaves.  The state is kept on the error path too: what was written before a
  failing statement stays written, as in the code, which runs each statement on the
  pool without a surrounding transaction.
\<close>

type_synonym ('s, 'e, 'a) op = "'s \<Rightarrow> ('e + 'a) \<times> 's"

definition ret :: "'a \<Rightarrow> ('s, 'e, 'a) op" where
  "ret x = (\<lambda>s. (Inr x, s))"

definition throw :: "'e \<Rightarrow> ('s, 'e, 'a) op" where
  "throw e = (\<lambda>s. (Inl e, s))"

text \<open>\<open>bindE m f\<close> is \<open>m?\<close> followed by \<open>f\<close>: an error returns early.\<close>

definition bindE :: "('s, 'e, 'a) op \<Rightarrow> ('a \<Rightarrow> ('s, 'e, 'b) op) \<Rightarrow> ('s, 'e, 'b) op" where
  "bindE m f = (\<lambda>s. case m s of (Inl e, s') \<Rightarrow> (Inl e, s') | (Inr x, s') \<Rightarrow> f x s')"

text \<open>\<open>map_err\<close> and a \<open>match\<close> on the whole \<open>Result\<close>.\<close>

definition map_err :: "('e \<Rightarrow> 'f) \<Rightarrow> ('s, 'e, 'a) op \<Rightarrow> ('s, 'f, 'a) op" where
  "map_err h m = (\<lambda>s. case m s of (Inl e, s') \<Rightarrow> (Inl (h e), s') | (Inr x, s') \<Rightarrow> (Inr x, s'))"

definition tryE :: "('s, 'e, 'a) op \<Rightarrow> ('e + 'a \<Rightarrow> ('s, 'f, 'b) op) \<Rightarrow> ('s, 'f, 'b) op" where
  "tryE m f = (\<lambda>s. case m s of (r, s') \<Rightarrow> f r s')"

definition gets :: "('s \<Rightarrow> 'a) \<Rightarrow> ('s, 'e, 'a) op" where
  "gets f = (\<lambda>s. (Inr (f s), s))"

definition modify :: "('s \<Rightarrow> 's) \<Rightarrow> ('s, 'e, unit) op" where
  "modify f = (\<lambda>s. (Inr (), f s))"

definition ok_or :: "'a option \<Rightarrow> 'e \<Rightarrow> ('s, 'e, 'a) op" where
  "ok_or v e = (case v of None \<Rightarrow> throw e | Some x \<Rightarrow> ret x)"

lemmas monad_defs =
  ret_def throw_def bindE_def map_err_def tryE_def gets_def modify_def ok_or_def

lemma bindE_ret [simp]: "bindE (ret x) f = f x"
  by (simp add: bindE_def ret_def)

lemma bindE_throw [simp]: "bindE (throw e) f = throw e"
  by (simp add: bindE_def throw_def)

lemma bindE_assoc: "bindE (bindE m f) g = bindE m (\<lambda>x. bindE (f x) g)"
  by (auto simp: bindE_def fun_eq_iff split: prod.splits sum.splits)

lemma bindE_Inr_iff:
  "bindE m f s = (Inr y, t) \<longleftrightarrow> (\<exists>x s'. m s = (Inr x, s') \<and> f x s' = (Inr y, t))"
  by (auto simp: bindE_def split: prod.splits sum.splits)

lemma bindE_Inl_iff:
  "bindE m f s = (Inl e, t) \<longleftrightarrow>
     m s = (Inl e, t) \<or> (\<exists>x s'. m s = (Inr x, s') \<and> f x s' = (Inl e, t))"
  by (auto simp: bindE_def split: prod.splits sum.splits)

lemma map_err_Inr_iff [simp]: "map_err h m s = (Inr x, t) \<longleftrightarrow> m s = (Inr x, t)"
  by (auto simp: map_err_def split: prod.splits sum.splits)

lemma bindE_InrE:
  assumes "bindE m f s = (Inr y, t)"
  obtains x s' where "m s = (Inr x, s')" and "f x s' = (Inr y, t)"
  using assms by (auto simp: bindE_Inr_iff)

lemma bindE_E:
  assumes "bindE m f s = (r, t)"
  obtains (err) e where "m s = (Inl e, t)" and "r = Inl e"
  | (step) x s' where "m s = (Inr x, s')" and "f x s' = (r, t)"
  using assms by (auto simp: bindE_def split: prod.splits sum.splits)

lemma map_err_E:
  assumes "map_err h m s = (r, t)"
  obtains (err) e where "m s = (Inl e, t)" and "r = Inl (h e)"
  | (val) x where "m s = (Inr x, t)" and "r = Inr x"
  using assms by (auto simp: map_err_def split: prod.splits sum.splits)

section \<open>Keeping a predicate\<close>

text \<open>
  \<open>keeps P m\<close>: whatever the outcome, error or value, \<open>m\<close> leaves a state with \<open>P\<close> when
  started in one.  Every invariant and every frame property of the development is
  stated with it and proved by the rules collected in \<open>keep_intros\<close>.
\<close>

definition keeps :: "('s \<Rightarrow> bool) \<Rightarrow> ('s, 'e, 'a) op \<Rightarrow> bool" where
  "keeps P m \<longleftrightarrow> (\<forall>s. P s \<longrightarrow> P (snd (m s)))"

lemma keepsD: "keeps P m \<Longrightarrow> P s \<Longrightarrow> m s = (r, t) \<Longrightarrow> P t"
  by (auto simp: keeps_def dest!: spec [of _ s])

lemma keepsI: "(\<And>s r t. P s \<Longrightarrow> m s = (r, t) \<Longrightarrow> P t) \<Longrightarrow> keeps P m"
  by (simp add: keeps_def prod_eq_iff)

lemma keeps_ret [keep_intros]: "keeps P (ret x)"
  by (simp add: keeps_def ret_def)

lemma keeps_throw [keep_intros]: "keeps P (throw e)"
  by (simp add: keeps_def throw_def)

lemma keeps_gets [keep_intros]: "keeps P (gets f)"
  by (simp add: keeps_def gets_def)

lemma keeps_ok_or [keep_intros]: "keeps P (ok_or v e)"
  by (cases v) (simp_all add: ok_or_def keeps_ret keeps_throw)

lemma keeps_modify [keep_intros]: "(\<And>s. P s \<Longrightarrow> P (f s)) \<Longrightarrow> keeps P (modify f)"
  by (simp add: keeps_def modify_def)

lemma keeps_bindE [keep_intros]:
  "keeps P m \<Longrightarrow> (\<And>x. keeps P (f x)) \<Longrightarrow> keeps P (bindE m f)"
  by (fastforce simp: keeps_def bindE_def split: prod.splits sum.splits)

lemma keeps_map_err [keep_intros]: "keeps P m \<Longrightarrow> keeps P (map_err h m)"
  by (fastforce simp: keeps_def map_err_def split: prod.splits sum.splits)

lemma keeps_tryE [keep_intros]:
  "keeps P m \<Longrightarrow> (\<And>x. keeps P (f x)) \<Longrightarrow> keeps P (tryE m f)"
  by (fastforce simp: keeps_def tryE_def split: prod.splits)

lemma keeps_if [keep_intros]:
  "(b \<Longrightarrow> keeps P m) \<Longrightarrow> (\<not> b \<Longrightarrow> keeps P n) \<Longrightarrow> keeps P (if b then m else n)"
  by simp

lemma keeps_case_option [keep_intros]:
  "(v = None \<Longrightarrow> keeps P m) \<Longrightarrow> (\<And>x. v = Some x \<Longrightarrow> keeps P (f x)) \<Longrightarrow>
     keeps P (case v of None \<Rightarrow> m | Some x \<Rightarrow> f x)"
  by (cases v) simp_all

lemma keeps_case_sum [keep_intros]:
  "(\<And>e. r = Inl e \<Longrightarrow> keeps P (f e)) \<Longrightarrow> (\<And>x. r = Inr x \<Longrightarrow> keeps P (g x)) \<Longrightarrow>
     keeps P (case r of Inl e \<Rightarrow> f e | Inr x \<Rightarrow> g x)"
  by (cases r) simp_all

lemma keeps_conj: "keeps P m \<Longrightarrow> keeps Q m \<Longrightarrow> keeps (\<lambda>s. P s \<and> Q s) m"
  by (simp add: keeps_def)

section \<open>Strings\<close>

text \<open>\<open>str::contains\<close>, \<open>str::starts_with\<close> and ASCII character classes.\<close>

definition str_contains :: "string \<Rightarrow> string \<Rightarrow> bool" where
  "str_contains h n = sublist n h"

definition str_starts_with :: "string \<Rightarrow> string \<Rightarrow> bool" where
  "str_starts_with h p = prefix p h"

definition quoted :: "string \<Rightarrow> string" where
  "quoted s = CHR 0x27 # s @ [CHR 0x27]"

definition is_ascii_digit :: "char \<Rightarrow> bool" where
  "is_ascii_digit c \<longleftrightarrow> 48 \<le> (of_char c :: nat) \<and> (of_char c :: nat) \<le> 57"

definition is_ascii_uppercase :: "char \<Rightarrow> bool" where
  "is_ascii_uppercase c \<longleftrightarrow> 65 \<le> (of_char c :: nat) \<and> (of_char c :: nat) \<le> 90"

definition is_ascii_lowercase :: "char \<Rightarrow> bool" where
  "is_ascii_lowercase c \<longleftrightarrow> 97 \<le> (of_char c :: nat) \<and> (of_char c :: nat) \<le> 122"

definition is_ascii_alphabetic :: "char \<Rightarrow> bool" where
  "is_ascii_alphabetic c \<longleftrightarrow> is_ascii_uppercase c \<or> is_ascii_lowercase c"

definition is_ascii_alphanumeric :: "char \<Rightarrow> bool" where
  "is_ascii_alphanumeric c \<longleftrightarrow> is_ascii_alphabetic c \<or> is_ascii_digit c"

definition is_ascii_hexdigit :: "char \<Rightarrow> bool" where
  "is_ascii_hexdigit c \<longleftrightarrow> is_ascii_digit c \<or>
     65 \<le> (of_char c :: nat) \<and> (of_char c :: nat) \<le> 70 \<or>
     97 \<le> (of_char c :: nat) \<and> (of_char c :: nat) \<le> 102"

lemmas char_class_defs =
  is_ascii_digit_def is_ascii_uppercase_def is_ascii_lowercase_def is_ascii_alphabetic_def
  is_ascii_alphanumeric_def is_ascii_hexdigit_def

text \<open>
  \<open>str::to_lowercase\<close> follows the Unicode tables and is a parameter of the definitions
  that use it.  On ASCII text it is the map below, the instance the witnesses use.
\<close>

type_synonym lowercase = "string \<Rightarrow> string"

definition ascii_lower_char :: "char \<Rightarrow> char" where
  "ascii_lower_char c =
     (if is_ascii_uppercase c then char_of ((of_char c :: nat) + 32) else c)"

definition ascii_lowercase :: lowercase where
  "ascii_lowercase = map ascii_lower_char"

text \<open>Decimal text of a number (\<open>{}\<close> of a \<open>usize\<close>).\<close>

fun show_nat :: "nat \<Rightarrow> string" where
  "show_nat n = (if n < 10 then [char_of (48 + n)] else show_nat (n div 10) @ [char_of (48 + n mod 10)])"

declare show_nat.simps [simp del]

text \<open>\<open>slice::join\<close> on strings.\<close>

fun join :: "string \<Rightarrow> string list \<Rightarrow> string" where
  "join sep [] = []"
| "join sep [x] = x"
| "join sep (x # y # ys) = x @ sep @ join sep (y # ys)"

section \<open>Lists\<close>

lemma find_Some_in_set: "find P xs = Some x \<Longrightarrow> x \<in> set xs \<and> P x"
  by (induction xs) (auto split: if_splits)

lemma find_None_notin: "find P xs = None \<longleftrightarrow> (\<forall>x \<in> set xs. \<not> P x)"
  by (induction xs) auto

lemma find_key_None: "k \<notin> key ` set xs \<Longrightarrow> find (\<lambda>x. key x = k) xs = None"
  by (induction xs) auto

lemma find_append: "find P (xs @ ys) = (case find P xs of None \<Rightarrow> find P ys | Some x \<Rightarrow> Some x)"
  by (induction xs) auto

lemma find_map_same:
  "(\<And>x. x \<in> set xs \<Longrightarrow> P (f x) = P x) \<Longrightarrow> find P (map f xs) = map_option f (find P xs)"
  by (induction xs) auto

lemma distinct_map_update:
  "(\<And>x. x \<in> set xs \<Longrightarrow> key (f x) = key x) \<Longrightarrow> map key (map f xs) = map key xs"
  by simp

lemma distinct_key_unique:
  "distinct (map key xs) \<Longrightarrow> x \<in> set xs \<Longrightarrow> y \<in> set xs \<Longrightarrow> key x = key y \<Longrightarrow> x = y"
  by (meson distinct_map inj_onD)

lemma find_key_distinct:
  assumes "distinct (map key xs)" and "x \<in> set xs"
  shows "find (\<lambda>y. key y = key x) xs = Some x"
proof -
  obtain y where y: "find (\<lambda>y. key y = key x) xs = Some y"
    using assms(2) find_None_notin [of "\<lambda>y. key y = key x" xs] by fastforce
  then have "y = x"
    using find_Some_in_set [OF y] assms distinct_key_unique by metis
  with y show ?thesis by simp
qed

end
