(* ===== verification/Float32.thy ===== *)
theory Float32
  imports Prelude "HOL-Library.Log_Nat"
begin

text \<open>
  The part of IEEE-754 single precision the program relies on: comparisons with
  unordered \<open>NaN\<close>, and \<open>+\<close> and \<open>*\<close> with round-to-nearest, ties to even.  A finite value
  is the rational number it denotes; a decimal literal of the source is the rational its
  nearest single denotes, written exactly (for instance \<open>0.7_f32\<close> is \<open>11744051 / 2^24\<close>).
  The sign of a zero is not represented.
\<close>

datatype f32 = Fin rat | PosInf | NegInf | NaN

fun f32_lt :: "f32 \<Rightarrow> f32 \<Rightarrow> bool" where
  "f32_lt (Fin a) (Fin b) = (a < b)"
| "f32_lt NaN _ = False"
| "f32_lt _ NaN = False"
| "f32_lt PosInf _ = False"
| "f32_lt _ NegInf = False"
| "f32_lt _ _ = True"

fun f32_ge :: "f32 \<Rightarrow> f32 \<Rightarrow> bool" where
  "f32_ge (Fin a) (Fin b) = (a \<ge> b)"
| "f32_ge NaN _ = False"
| "f32_ge _ NaN = False"
| "f32_ge NegInf PosInf = False"
| "f32_ge NegInf (Fin _) = False"
| "f32_ge (Fin _) PosInf = False"
| "f32_ge _ _ = True"

fun f32_finite :: "f32 \<Rightarrow> bool" where
  "f32_finite (Fin _) = True"
| "f32_finite _ = False"

text \<open>\<open>a < b\<close> and \<open>a >= b\<close> are complementary on ordered operands and both false on \<open>NaN\<close>.\<close>

lemma f32_lt_ge: "a \<noteq> NaN \<Longrightarrow> b \<noteq> NaN \<Longrightarrow> f32_lt a b \<longleftrightarrow> \<not> f32_ge a b"
  by (cases a; cases b) auto

lemma f32_NaN_unordered [simp]: "\<not> f32_lt NaN b" "\<not> f32_ge NaN b" "\<not> f32_lt a NaN" "\<not> f32_ge a NaN"
  by (cases a; cases b; simp)+

section \<open>Rounding\<close>

definition ilog2 :: "rat \<Rightarrow> int" where
  "ilog2 x = (let (p, q) = quotient_of x; e = bitlen p - bitlen q
              in if 2 powi e \<le> x then e else e - 1)"

definition round_half_even :: "rat \<Rightarrow> int" where
  "round_half_even x = (let f = \<lfloor>x\<rfloor>; d = x - of_int f
     in if d < 1 / 2 then f else if d > 1 / 2 then f + 1 else if even f then f else f + 1)"

definition f32_max :: rat where
  "f32_max = (2 ^ 24 - 1) * 2 ^ 104"

definition f32_round :: "rat \<Rightarrow> f32" where
  "f32_round x =
     (if x = 0 then Fin 0
      else let u = 2 powi (max (ilog2 \<bar>x\<bar>) (-126) - 23);
               y = of_int (round_half_even (x / u)) * u
           in if y > f32_max then PosInf else if y < - f32_max then NegInf else Fin y)"

fun f32_mul :: "f32 \<Rightarrow> f32 \<Rightarrow> f32" where
  "f32_mul (Fin a) (Fin b) = f32_round (a * b)"
| "f32_mul NaN _ = NaN"
| "f32_mul _ NaN = NaN"
| "f32_mul (Fin a) PosInf = (if a > 0 then PosInf else if a < 0 then NegInf else NaN)"
| "f32_mul (Fin a) NegInf = (if a > 0 then NegInf else if a < 0 then PosInf else NaN)"
| "f32_mul PosInf (Fin b) = (if b > 0 then PosInf else if b < 0 then NegInf else NaN)"
| "f32_mul NegInf (Fin b) = (if b > 0 then NegInf else if b < 0 then PosInf else NaN)"
| "f32_mul PosInf PosInf = PosInf"
| "f32_mul PosInf NegInf = NegInf"
| "f32_mul NegInf PosInf = NegInf"
| "f32_mul NegInf NegInf = PosInf"

fun f32_add :: "f32 \<Rightarrow> f32 \<Rightarrow> f32" where
  "f32_add (Fin a) (Fin b) = f32_round (a + b)"
| "f32_add NaN _ = NaN"
| "f32_add _ NaN = NaN"
| "f32_add PosInf NegInf = NaN"
| "f32_add NegInf PosInf = NaN"
| "f32_add PosInf _ = PosInf"
| "f32_add NegInf _ = NegInf"
| "f32_add _ PosInf = PosInf"
| "f32_add _ NegInf = NegInf"

section \<open>The literals of the source\<close>

definition f32_half :: f32 where "f32_half = Fin (1 / 2)"
definition f32_one :: f32 where "f32_one = Fin 1"
definition f32_0_1 :: f32 where "f32_0_1 = Fin (13421773 / 134217728)"
definition f32_0_2 :: f32 where "f32_0_2 = Fin (13421773 / 67108864)"
definition f32_0_3 :: f32 where "f32_0_3 = Fin (10066330 / 33554432)"
definition f32_0_4 :: f32 where "f32_0_4 = Fin (13421773 / 33554432)"
definition f32_0_7 :: f32 where "f32_0_7 = Fin (11744051 / 16777216)"
definition f32_0_8 :: f32 where "f32_0_8 = Fin (13421773 / 16777216)"
definition f32_0_85 :: f32 where "f32_0_85 = Fin (14260634 / 16777216)"
definition f32_0_9 :: f32 where "f32_0_9 = Fin (15099494 / 16777216)"

lemmas f32_literals = f32_half_def f32_one_def f32_0_1_def f32_0_2_def f32_0_3_def f32_0_4_def
  f32_0_7_def f32_0_8_def f32_0_85_def f32_0_9_def

text \<open>
  Each literal is the rounding of its decimal, checked by evaluating \<open>f32_round\<close>.
\<close>

lemma f32_literals_rounded:
  "f32_round (3 / 10) = f32_0_3" "f32_round (7 / 10) = f32_0_7"
  "f32_round (8 / 10) = f32_0_8" "f32_round (9 / 10) = f32_0_9"
  "f32_round (1 / 10) = f32_0_1" "f32_round (2 / 10) = f32_0_2"
  "f32_round (4 / 10) = f32_0_4" "f32_round (85 / 100) = f32_0_85"
  by code_simp+

end
