(* ===== verification/Json.thy ===== *)
theory Json
  imports Float32 "HOL-Library.Char_ord" "HOL-Library.List_Lexorder"
begin

text \<open>
  \<open>serde_json::Value\<close> as a datatype, with the accessors and the object update the
  program calls.  The \<open>Map\<close> of an object is a \<open>BTreeMap\<close> (the crate's default), here an
  association list with one entry per key in the order of the keys' bytes, so equality of
  JSON values is equality of this datatype.
\<close>

datatype json =
    JNull
  | JBool bool
  | JInt int
  | JFloat f32
  | JString string
  | JArray "json list"
  | JObject "(string \<times> json) list"

fun json_get :: "json \<Rightarrow> string \<Rightarrow> json option" where
  "json_get (JObject m) k = map_of m k"
| "json_get _ _ = None"

fun as_str :: "json \<Rightarrow> string option" where
  "as_str (JString s) = Some s"
| "as_str _ = None"

fun as_u64 :: "json \<Rightarrow> nat option" where
  "as_u64 (JInt n) = (if 0 \<le> n \<and> n < 2 ^ 64 then Some (nat n) else None)"
| "as_u64 _ = None"

fun as_array :: "json \<Rightarrow> json list option" where
  "as_array (JArray xs) = Some xs"
| "as_array _ = None"

text \<open>\<open>Map::insert\<close>: replace the entry of a key or add one.\<close>

fun obj_insert :: "string \<Rightarrow> json \<Rightarrow> (string \<times> json) list \<Rightarrow> (string \<times> json) list" where
  "obj_insert k v [] = [(k, v)]"
| "obj_insert k v ((k', v') # m) =
     (if k = k' then (k, v) # m
      else if k < k' then (k, v) # (k', v') # m
      else (k', v') # obj_insert k v m)"

lemma map_of_obj_insert [simp]: "map_of (obj_insert k v m) = (map_of m)(k \<mapsto> v)"
  by (induction m rule: obj_insert.induct) auto

lemma keys_obj_insert [simp]: "fst ` set (obj_insert k v m) = insert k (fst ` set m)"
  by (induction m rule: obj_insert.induct) auto

text \<open>An insertion keeps the entries in strict key order.\<close>

lemma sorted_obj_insert [simp]:
  "sorted_wrt (<) (map fst m) \<Longrightarrow> sorted_wrt (<) (map fst (obj_insert k v m))"
proof (induction k v m rule: obj_insert.induct)
  case (2 k v k' v' m)
  then show ?case
    using keys_obj_insert [of k v m] by (fastforce simp: image_iff)
qed simp

text \<open>\<open>unwrap_or_default()\<close> of \<open>as_array().cloned()\<close>.\<close>

definition array_or_empty :: "json \<Rightarrow> json list" where
  "array_or_empty v = (case as_array v of Some xs \<Rightarrow> xs | None \<Rightarrow> [])"

text \<open>
  JSONB containment \<open>@>\<close> of an array against a one-element array of a string: the array
  has an element equal to that string.
\<close>

definition jsonb_array_has :: "json \<Rightarrow> string \<Rightarrow> bool" where
  "jsonb_array_has v s \<longleftrightarrow> JString s \<in> set (array_or_empty v)"

text \<open>
  JSONB \<open>||\<close>: two arrays are appended, two objects merged with the right one's entries winning,
  anything else is taken as a one-element array.
\<close>

fun jsonb_elements :: "json \<Rightarrow> json list" where
  "jsonb_elements (JArray xs) = xs"
| "jsonb_elements v = [v]"

fun jsonb_concat :: "json \<Rightarrow> json \<Rightarrow> json" where
  "jsonb_concat (JObject m) (JObject n) = JObject (fold (\<lambda>(k, v). obj_insert k v) n m)"
| "jsonb_concat a b = JArray (jsonb_elements a @ jsonb_elements b)"

lemma jsonb_concat_arrays [simp]: "jsonb_concat (JArray xs) (JArray ys) = JArray (xs @ ys)"
  by simp

text \<open>
  JSONB containment \<open>@>\<close>: objects by key, arrays by element, and never across the two; a scalar
  counts as a one-element array.  Scalars are compared for equality (the program's templates
  hold strings only, so the comparison of numbers does not arise).
\<close>

fun jsonb_within :: "json \<Rightarrow> json \<Rightarrow> bool" where
  "jsonb_within (JObject m) (JObject t) =
     list_all (\<lambda>(k, v). case map_of m k of None \<Rightarrow> False | Some u \<Rightarrow> jsonb_within u v) t"
| "jsonb_within (JArray xs) (JArray t) = list_all (\<lambda>v. list_ex (\<lambda>u. jsonb_within u v) xs) t"
| "jsonb_within (JObject m) v = False"
| "jsonb_within (JArray xs) v = False"
| "jsonb_within u v = (u = v)"

definition is_object :: "json \<Rightarrow> bool" where
  "is_object v = (case v of JObject _ \<Rightarrow> True | _ \<Rightarrow> False)"

definition jsonb_contains :: "json \<Rightarrow> json \<Rightarrow> bool" where
  "jsonb_contains u v =
     (if is_object u \<noteq> is_object v then False
      else if is_object u then jsonb_within u v
      else jsonb_within (JArray (jsonb_elements u)) (JArray (jsonb_elements v)))"

text \<open>\<open>Value::to_string\<close> (compact JSON text) is a parameter.\<close>

type_synonym json_text = "json \<Rightarrow> string"

end
