(* ===== verification/MemoryTypes.thy ===== *)
theory MemoryTypes
  imports Json
begin

text \<open>
  The domain types of \<open>oris-memory-contract/src/memory_types.rs\<close>: the enums with their
  text forms, the memory record and candidate, the user profile, the shared task context
  and the outbox event.  Field names carry a prefix per struct, because record selectors
  share one name space.  The lemmas say that every text form can be read back, which is
  what the row mappers of the repositories rely on.
\<close>

section \<open>Enums\<close>

datatype memory_type = Semantic | Episodic | Decision | Experience | UserPreference

fun memory_type_as_str :: "memory_type \<Rightarrow> string" where
  "memory_type_as_str Semantic = ''semantic''"
| "memory_type_as_str Episodic = ''episodic''"
| "memory_type_as_str Decision = ''decision''"
| "memory_type_as_str Experience = ''experience''"
| "memory_type_as_str UserPreference = ''user_preference''"

datatype scope = Personal | Agent | Task | Team | Process | Factory | Enterprise

fun scope_as_str :: "scope \<Rightarrow> string" where
  "scope_as_str Personal = ''personal''"
| "scope_as_str Agent = ''agent''"
| "scope_as_str Task = ''task''"
| "scope_as_str Team = ''team''"
| "scope_as_str Process = ''process''"
| "scope_as_str Factory = ''factory''"
| "scope_as_str Enterprise = ''enterprise''"

definition scope_from_str :: "string \<Rightarrow> scope option" where
  "scope_from_str s =
     (if s = ''personal'' then Some Personal
      else if s = ''agent'' then Some Agent
      else if s = ''task'' then Some Task
      else if s = ''team'' then Some Team
      else if s = ''process'' then Some Process
      else if s = ''factory'' then Some Factory
      else if s = ''enterprise'' then Some Enterprise
      else None)"

datatype source_type = Iam | Hr | UserExplicit | AgentInferred | ToolResult | BusinessEvent

fun source_type_as_str :: "source_type \<Rightarrow> string" where
  "source_type_as_str Iam = ''iam''"
| "source_type_as_str Hr = ''hr''"
| "source_type_as_str UserExplicit = ''user_explicit''"
| "source_type_as_str AgentInferred = ''agent_inferred''"
| "source_type_as_str ToolResult = ''tool_result''"
| "source_type_as_str BusinessEvent = ''business_event''"

datatype authority_level = L0SourceOfTruth | L1Authoritative | L2Verified | L3Inferred

fun authority_level_as_str :: "authority_level \<Rightarrow> string" where
  "authority_level_as_str L0SourceOfTruth = ''L0_source_of_truth''"
| "authority_level_as_str L1Authoritative = ''L1_authoritative''"
| "authority_level_as_str L2Verified = ''L2_verified''"
| "authority_level_as_str L3Inferred = ''L3_inferred''"

fun authority_rank :: "authority_level \<Rightarrow> nat" where
  "authority_rank L3Inferred = 0"
| "authority_rank L2Verified = 1"
| "authority_rank L1Authoritative = 2"
| "authority_rank L0SourceOfTruth = 3"

datatype privacy_class = Public | Internal | Confidential | Restricted

fun privacy_class_as_str :: "privacy_class \<Rightarrow> string" where
  "privacy_class_as_str Public = ''public''"
| "privacy_class_as_str Internal = ''internal''"
| "privacy_class_as_str Confidential = ''confidential''"
| "privacy_class_as_str Restricted = ''restricted''"

datatype memory_status = Candidate | Active | Archived | Revoked | Quarantined

fun memory_status_as_str :: "memory_status \<Rightarrow> string" where
  "memory_status_as_str Candidate = ''candidate''"
| "memory_status_as_str Active = ''active''"
| "memory_status_as_str Archived = ''archived''"
| "memory_status_as_str Revoked = ''revoked''"
| "memory_status_as_str Quarantined = ''quarantined''"

section \<open>Records\<close>

text \<open>\<open>MemoryItem\<close>, the unified storage unit.\<close>

record memory_item =
  mi_memory_id :: uuid
  mi_tenant_id :: string
  mi_memory_type :: memory_type
  mi_scope :: scope
  mi_subject_type :: "string option"
  mi_subject_id :: "string option"
  mi_entity_refs :: "json list"
  mi_content :: "string option"
  mi_structured_payload :: "json option"
  mi_embedding :: "f32 list option"
  mi_source_type :: source_type
  mi_source_reference :: "string option"
  mi_evidence_refs :: "json list"
  mi_confidence :: f32
  mi_authority_level :: authority_level
  mi_importance :: f32
  mi_observed_at :: "time option"
  mi_valid_from :: "time option"
  mi_valid_to :: "time option"
  mi_privacy_class :: privacy_class
  mi_acl :: json
  mi_retention_policy :: "string option"
  mi_status :: memory_status
  mi_version :: int
  mi_derived_from :: "json list"
  mi_created_by_user :: "string option"
  mi_created_by_agent :: "string option"
  mi_last_verified_at :: "time option"
  mi_created_at :: time
  mi_updated_at :: time

record memory_candidate =
  mc_tenant_id :: string
  mc_memory_type :: memory_type
  mc_scope :: scope
  mc_subject_type :: "string option"
  mc_subject_id :: "string option"
  mc_content :: "string option"
  mc_structured_payload :: "json option"
  mc_source_type :: source_type
  mc_source_reference :: "string option"
  mc_confidence :: f32
  mc_authority_level :: authority_level
  mc_privacy_class :: privacy_class
  mc_created_by_user :: "string option"
  mc_created_by_agent :: "string option"

text \<open>\<open>SharedTaskContext\<close>, the cross-agent task record.\<close>

record shared_task_context =
  st_task_id :: uuid
  st_parent_task_id :: "uuid option"
  st_initiator_user_id :: string
  st_organization_scope :: string
  st_goal :: string
  st_constraints :: "json list"
  st_success_criteria :: "json list"
  st_entities :: "json list"
  st_business_refs :: "json list"
  st_current_findings :: "json list"
  st_evidence_refs :: "json list"
  st_decisions :: "json list"
  st_assumptions :: "json list"
  st_completed_steps :: "json list"
  st_pending_steps :: "json list"
  st_current_owner_agent :: "string option"
  st_participant_agents :: "json list"
  st_artifact_refs :: "json list"
  st_source_system_refs :: "json list"
  st_status :: string
  st_version :: int
  st_expires_at :: "time option"
  st_acl :: json
  st_privacy_class :: privacy_class
  st_audit_ref :: "string option"
  st_created_at :: time
  st_updated_at :: time

section \<open>Outbox events\<close>

datatype event_type =
    UserContextUpdated | PreferenceUpdated | TaskContextUpdated | MemoryPromoted
  | MemoryRevoked | MemoryExpired | PermissionChanged | EngineProjectionFailed
  | MemoryProposed | MemoryQuarantined | ExperienceOutcomeRecorded

fun event_type_as_str :: "event_type \<Rightarrow> string" where
  "event_type_as_str UserContextUpdated = ''USER_CONTEXT_UPDATED''"
| "event_type_as_str PreferenceUpdated = ''PREFERENCE_UPDATED''"
| "event_type_as_str TaskContextUpdated = ''TASK_CONTEXT_UPDATED''"
| "event_type_as_str MemoryPromoted = ''MEMORY_PROMOTED''"
| "event_type_as_str MemoryRevoked = ''MEMORY_REVOKED''"
| "event_type_as_str MemoryExpired = ''MEMORY_EXPIRED''"
| "event_type_as_str PermissionChanged = ''PERMISSION_CHANGED''"
| "event_type_as_str EngineProjectionFailed = ''ENGINE_PROJECTION_FAILED''"
| "event_type_as_str MemoryProposed = ''MEMORY_PROPOSED''"
| "event_type_as_str MemoryQuarantined = ''MEMORY_QUARANTINED''"
| "event_type_as_str ExperienceOutcomeRecorded = ''EXPERIENCE_OUTCOME_RECORDED''"

datatype outbox_status = Pending | Processing | Done | Failed

fun outbox_status_as_str :: "outbox_status \<Rightarrow> string" where
  "outbox_status_as_str Pending = ''pending''"
| "outbox_status_as_str Processing = ''processing''"
| "outbox_status_as_str Done = ''done''"
| "outbox_status_as_str Failed = ''failed''"

record outbox_event =
  oe_event_id :: uuid
  oe_event_type :: event_type
  oe_aggregate_id :: string
  oe_payload :: json
  oe_status :: outbox_status
  oe_created_at :: time
  oe_processed_at :: "time option"

section \<open>Text forms determine their values\<close>

lemma scope_from_as_str [simp]: "scope_from_str (scope_as_str s) = Some s"
  by (cases s) (simp_all add: scope_from_str_def)

lemma scope_from_str_Some: "scope_from_str t = Some s \<longleftrightarrow> t = scope_as_str s"
  by (cases s) (auto simp: scope_from_str_def)

lemma scope_as_str_inject [simp]: "scope_as_str a = scope_as_str b \<longleftrightarrow> a = b"
  by (cases a; cases b; simp)

lemma memory_type_as_str_inject [simp]: "memory_type_as_str a = memory_type_as_str b \<longleftrightarrow> a = b"
  by (cases a; cases b; simp)

lemma memory_status_as_str_inject [simp]:
  "memory_status_as_str a = memory_status_as_str b \<longleftrightarrow> a = b"
  by (cases a; cases b; simp)

lemma event_type_as_str_inject [simp]: "event_type_as_str a = event_type_as_str b \<longleftrightarrow> a = b"
  by (cases a; cases b; simp)

lemma outbox_status_as_str_inject [simp]:
  "outbox_status_as_str a = outbox_status_as_str b \<longleftrightarrow> a = b"
  by (cases a; cases b; simp)

lemma authority_rank_inject [simp]: "authority_rank a = authority_rank b \<longleftrightarrow> a = b"
  by (cases a; cases b; simp)

end
