(* ===== verification/Schema.thy ===== *)
theory Schema
  imports MemoryTypes
begin

text \<open>
  The state the service works on and the primitive statements on it.

  \<^item> \<open>env\<close> is what the program does not control: a step counter, and for every step the
    wall clock, the next random UUID, and whether a server (PostgreSQL or Redis) fails
    the call made at that step.  Every theorem quantifies over all environments.
  \<^item> \<open>world\<close> adds the tables of \<open>postgres/schema.rs\<close> (and \<open>legal_hold\<close> of
    \<open>compliance.rs\<close>) as lists of rows, and the Redis key space.  The order of a list is
    the order a scan without \<open>ORDER BY\<close> returns.
  \<^item> \<open>exec\<close> runs one statement: it may fail, and then leaves the tables alone; statements
    are not grouped in transactions, as in the code.
\<close>

section \<open>Rows\<close>

text \<open>A row of \<open>memory_item\<close>: enum columns are text, array columns are JSONB.\<close>

record memory_row =
  c_memory_id :: uuid
  c_tenant_id :: string
  c_memory_type :: string
  c_scope :: string
  c_subject_type :: "string option"
  c_subject_id :: "string option"
  c_entity_refs :: json
  c_content :: "string option"
  c_structured_payload :: "json option"
  c_embedding :: "f32 list option"
  c_source_type :: string
  c_source_reference :: "string option"
  c_evidence_refs :: json
  c_confidence :: f32
  c_authority_level :: string
  c_importance :: f32
  c_observed_at :: "time option"
  c_valid_from :: "time option"
  c_valid_to :: "time option"
  c_privacy_class :: string
  c_acl :: json
  c_retention_policy :: "string option"
  c_status :: string
  c_version :: int
  c_derived_from :: json
  c_created_by_user :: "string option"
  c_created_by_agent :: "string option"
  c_last_verified_at :: "time option"
  c_created_at :: time
  c_updated_at :: time

text \<open>A row of \<open>memory_version\<close>; \<open>'p\<close> is the snapshot stored in \<open>payload\<close>.\<close>

record 'p version_row =
  v_version_id :: uuid
  v_memory_id :: uuid
  v_version :: int
  v_payload :: 'p
  v_changed_by :: string
  v_change_reason :: "string option"
  v_created_at :: time

record outbox_row =
  o_event_id :: uuid
  o_event_type :: string
  o_aggregate_id :: string
  o_payload :: json
  o_status :: string
  o_created_at :: time
  o_processed_at :: "time option"

record audit_row =
  a_audit_id :: uuid
  a_memory_id :: "uuid option"
  a_accessor_user :: "string option"
  a_accessor_agent :: "string option"
  a_action :: string
  a_purpose :: "string option"
  a_task_id :: "uuid option"
  a_trace_id :: "string option"
  a_policy_decision_id :: "string option"
  a_created_at :: time

record hold_row =
  h_memory_id :: uuid
  h_tenant_id :: string
  h_reason :: string
  h_case_id :: "string option"
  h_placed_at :: time

record approval_row =
  p_id :: uuid
  p_memory_id :: uuid
  p_target_scope :: string
  p_requester :: string
  p_justification :: "string option"
  p_approver_role :: string
  p_status :: string
  p_created_at :: time
  p_decided_at :: "time option"
  p_decided_by :: "string option"
  p_expires_at :: time

record entity_row =
  en_entity_id :: uuid
  en_tenant_id :: string
  en_entity_type :: string
  en_name :: string
  en_attributes :: json
  en_source :: string
  en_created_at :: time

record relation_row =
  re_relation_id :: uuid
  re_from_entity :: uuid
  re_to_entity :: uuid
  re_relation_type :: string
  re_attributes :: json
  re_valid_from :: "time option"
  re_valid_to :: "time option"
  re_source :: string
  re_created_at :: time

record task_row =
  t_task_id :: uuid
  t_parent_task_id :: "uuid option"
  t_initiator_user_id :: string
  t_organization_scope :: string
  t_goal :: string
  t_constraints :: json
  t_success_criteria :: json
  t_entities :: json
  t_business_refs :: json
  t_current_findings :: json
  t_evidence_refs :: json
  t_decisions :: json
  t_assumptions :: json
  t_completed_steps :: json
  t_pending_steps :: json
  t_current_owner_agent :: "string option"
  t_participant_agents :: json
  t_artifact_refs :: json
  t_source_system_refs :: json
  t_status :: string
  t_version :: int
  t_expires_at :: "time option"
  t_acl :: json
  t_privacy_class :: string
  t_audit_ref :: "string option"
  t_created_at :: time
  t_updated_at :: time

record profile_row =
  u_user_id :: string
  u_organization_id :: string
  u_factory_id :: "string option"
  u_identity_links :: json
  u_role :: "string option"
  u_position :: "string option"
  u_language :: "string option"
  u_timezone :: "string option"
  u_preferences :: json
  u_explicit_preferences :: json
  u_inferred_preferences :: json
  u_common_entities :: json
  u_active_projects :: json
  u_consent_scope :: json
  u_privacy_class :: string
  u_source :: string
  u_authority_level :: string
  u_version :: int
  u_valid_from :: "time option"
  u_valid_to :: "time option"
  u_last_verified_at :: "time option"
  u_updated_at :: time

section \<open>Environment and world\<close>

record env =
  tick :: nat
  clock :: "nat \<Rightarrow> time"
  uuids :: "nat \<Rightarrow> uuid"
  fails :: "nat \<Rightarrow> bool"

record world = env +
  memory_items :: "memory_row list"
  memory_versions :: "memory_item version_row list"
  outbox_events :: "outbox_row list"
  access_audit :: "audit_row list"
  legal_holds :: "hold_row list"
  approval_requests :: "approval_row list"
  task_contexts :: "task_row list"
  user_profiles :: "profile_row list"
  entities :: "entity_row list"
  entity_relations :: "relation_row list"
  redis_keys :: "string \<Rightarrow> (string \<times> time) option"

text \<open>\<open>sqlx::Error\<close> is opaque to the program, which only passes it on.\<close>

datatype db_error = DbError

definition new_v4 :: "('z env_scheme, 'e, uuid) op" where
  "new_v4 = (\<lambda>w. (Inr (uuids w (tick w)), w\<lparr>tick := Suc (tick w)\<rparr>))"

definition utc_now :: "('z env_scheme, 'e, time) op" where
  "utc_now = (\<lambda>w. (Inr (clock w (tick w)), w\<lparr>tick := Suc (tick w)\<rparr>))"

definition sql_now :: "'z env_scheme \<Rightarrow> time" where
  "sql_now w = clock w (tick w)"

definition exec :: "('z env_scheme, db_error, 'a) op \<Rightarrow> ('z env_scheme, db_error, 'a) op" where
  "exec f = (\<lambda>w. if fails w (tick w) then (Inl DbError, w\<lparr>tick := Suc (tick w)\<rparr>)
                 else f (w\<lparr>tick := Suc (tick w)\<rparr>))"

section \<open>Table operations\<close>

definition sql_update :: "('r \<Rightarrow> bool) \<Rightarrow> ('r \<Rightarrow> 'r) \<Rightarrow> 'r list \<Rightarrow> 'r list" where
  "sql_update p f rows = map (\<lambda>r. if p r then f r else r) rows"

definition sql_delete :: "('r \<Rightarrow> bool) \<Rightarrow> 'r list \<Rightarrow> 'r list" where
  "sql_delete p rows = filter (\<lambda>r. \<not> p r) rows"

definition rows_matching :: "('r \<Rightarrow> bool) \<Rightarrow> 'r list \<Rightarrow> nat" where
  "rows_matching p rows = length (filter p rows)"

definition order_desc :: "('r \<Rightarrow> int) \<Rightarrow> 'r list \<Rightarrow> 'r list" where
  "order_desc k rows = sort_key (\<lambda>r. - k r) rows"

text \<open>\<open>LIMIT n OFFSET m\<close>; PostgreSQL rejects negative values.\<close>

definition sql_limit :: "int \<Rightarrow> int \<Rightarrow> 'r list \<Rightarrow> ('s, db_error, 'r list) op" where
  "sql_limit n m rows =
     (if n < 0 \<or> m < 0 then throw DbError else ret (take (nat n) (drop (nat m) rows)))"

text \<open>\<open>INTEGER + 1\<close>: PostgreSQL rejects the statement on overflow.\<close>

definition int4_max :: int where
  "int4_max = 2147483647"

text \<open>
  An empty deployment: no rows, no keys, a clock that advances one nanosecond per step, no
  fault.  The witnesses are evaluated on it and on worlds built from it.
\<close>

definition empty_world :: world where
  "empty_world = \<lparr>
     tick = 0, clock = int, uuids = (\<lambda>n. replicate (Suc n) CHR ''a''), fails = (\<lambda>_. False),
     memory_items = [], memory_versions = [], outbox_events = [], access_audit = [],
     legal_holds = [], approval_requests = [], task_contexts = [], user_profiles = [], entities = [], entity_relations = [],
     redis_keys = (\<lambda>_. None)\<rparr>"

definition row_of_id :: "uuid \<Rightarrow> memory_row" where
  "row_of_id i = \<lparr>
     c_memory_id = i, c_tenant_id = ''t'', c_memory_type = ''semantic'', c_scope = ''personal'',
     c_subject_type = None, c_subject_id = None, c_entity_refs = JArray [], c_content = Some ''fact'',
     c_structured_payload = None, c_embedding = None, c_source_type = ''user_explicit'',
     c_source_reference = None, c_evidence_refs = JArray [], c_confidence = f32_0_9,
     c_authority_level = ''L2_verified'', c_importance = f32_half, c_observed_at = None,
     c_valid_from = None, c_valid_to = None, c_privacy_class = ''internal'', c_acl = JObject [],
     c_retention_policy = None, c_status = ''active'', c_version = 1, c_derived_from = JArray [],
     c_created_by_user = Some ''u'', c_created_by_agent = None, c_last_verified_at = None,
     c_created_at = 0, c_updated_at = 0\<rparr>"

section \<open>Facts about the primitives\<close>

lemma rows_matching_0_iff: "rows_matching p rows = 0 \<longleftrightarrow> (\<forall>r \<in> set rows. \<not> p r)"
  by (auto simp: rows_matching_def filter_empty_conv)

lemma sql_update_unmatched [simp]: "(\<And>r. r \<in> set rows \<Longrightarrow> \<not> p r) \<Longrightarrow> sql_update p f rows = rows"
  by (auto simp: sql_update_def intro: map_idI)

lemma set_sql_update: "set (sql_update p f rows) = {r \<in> set rows. \<not> p r} \<union> f ` {r \<in> set rows. p r}"
  by (auto simp: sql_update_def)

lemma set_sql_delete [simp]: "set (sql_delete p rows) = {r \<in> set rows. \<not> p r}"
  by (auto simp: sql_delete_def)

lemma length_sql_update [simp]: "length (sql_update p f rows) = length rows"
  by (simp add: sql_update_def)

lemma map_key_sql_update [simp]:
  "(\<And>r. key (f r) = key r) \<Longrightarrow> map key (sql_update p f rows) = map key rows"
  by (simp add: sql_update_def)

lemma distinct_sql_delete [simp]:
  "distinct (map key rows) \<Longrightarrow> distinct (map key (sql_delete p rows))"
  by (simp add: sql_delete_def distinct_map_filter)

lemma set_order_desc [simp]: "set (order_desc k rows) = set rows"
  by (simp add: order_desc_def)

lemma sorted_order_desc: "sorted_wrt (\<lambda>a b. k a \<ge> k b) (order_desc k rows)"
proof -
  have "sorted (map (\<lambda>r. - k r) (order_desc k rows))"
    unfolding order_desc_def by (rule sorted_sort_key)
  then show ?thesis by (simp add: sorted_map)
qed

lemma find_sql_update_other:
  assumes "\<And>r. key (f r) = key r" and "\<And>r. p r \<Longrightarrow> key r \<noteq> i"
  shows "find (\<lambda>r. key r = i) (sql_update p f rows) = find (\<lambda>r. key r = i) rows"
  using assms by (induction rows) (auto simp: sql_update_def)

lemma find_sql_update_same:
  assumes "\<And>r. key (f r) = key r"
  shows "find (\<lambda>r. key r = i) (sql_update (\<lambda>r. key r = i) f rows) =
           map_option f (find (\<lambda>r. key r = i) rows)"
  using assms by (induction rows) (auto simp: sql_update_def)

text \<open>
  A predicate that does not read the environment's counter is kept by the three
  environment steps, and by a statement whose body keeps it.
\<close>

lemma keeps_new_v4 [keep_intros]: "(\<And>w t. P w \<Longrightarrow> P (w\<lparr>tick := t\<rparr>)) \<Longrightarrow> keeps P new_v4"
  by (simp add: keeps_def new_v4_def)

lemma keeps_utc_now [keep_intros]: "(\<And>w t. P w \<Longrightarrow> P (w\<lparr>tick := t\<rparr>)) \<Longrightarrow> keeps P utc_now"
  by (simp add: keeps_def utc_now_def)

lemma keeps_exec [keep_intros]:
  "(\<And>w t. P w \<Longrightarrow> P (w\<lparr>tick := t\<rparr>)) \<Longrightarrow> keeps P f \<Longrightarrow> keeps P (exec f)"
  by (simp add: keeps_def exec_def)

lemma keeps_sql_limit [keep_intros]: "keeps P (sql_limit n m rows)"
  by (simp add: sql_limit_def keeps_ret keeps_throw)

lemma exec_InrE:
  assumes "exec f w = (Inr x, w')"
  obtains "\<not> fails w (tick w)" and "f (w\<lparr>tick := Suc (tick w)\<rparr>) = (Inr x, w')"
  using assms by (auto simp: exec_def split: if_splits)

lemma exec_no_fault [simp]:
  "\<not> fails w (tick w) \<Longrightarrow> exec f w = f (w\<lparr>tick := Suc (tick w)\<rparr>)"
  by (simp add: exec_def)

lemma exec_fault [simp]: "fails w (tick w) \<Longrightarrow> exec f w = (Inl DbError, w\<lparr>tick := Suc (tick w)\<rparr>)"
  by (simp add: exec_def)

text \<open>A database on which no statement fails.\<close>

definition healthy :: "'z env_scheme \<Rightarrow> bool" where
  "healthy s \<longleftrightarrow> (\<forall>n. \<not> fails s n)"

lemma exec_healthy: "healthy s \<Longrightarrow> exec f s = f (s\<lparr>tick := Suc (tick s)\<rparr>)"
  by (simp add: exec_def healthy_def)

lemma healthy_tick [simp]: "healthy (s\<lparr>tick := t\<rparr>) = healthy s"
  by (simp add: healthy_def)

lemmas prim_defs = new_v4_def utc_now_def sql_now_def exec_def sql_limit_def

end
