(* ===== verification/MemoryRepo.thy ===== *)
theory MemoryRepo
  imports Schema
begin

text \<open>
  \<open>oris-memory-store/src/postgres/memory_repo.rs\<close>: the row mapper of \<open>memory_item\<close> and the
  CRUD statements.  The text forms written by the statements are read back by the mapper
  (\<open>parse_as_str\<close>), an inserted candidate is found again with all its fields, and every
  operation keeps the table's primary key and the text columns readable
  (\<open>wf_memory\<close>).
\<close>

section \<open>Row mapping\<close>

definition parse_memory_type :: "string \<Rightarrow> memory_type" where
  "parse_memory_type s =
     (if s = ''semantic'' then Semantic
      else if s = ''episodic'' then Episodic
      else if s = ''decision'' then Decision
      else if s = ''experience'' then Experience
      else if s = ''user_preference'' then UserPreference
      else Semantic)"

definition parse_scope :: "string \<Rightarrow> scope" where
  "parse_scope s =
     (if s = ''personal'' then Personal
      else if s = ''agent'' then Agent
      else if s = ''task'' then Task
      else if s = ''team'' then Team
      else if s = ''process'' then Process
      else if s = ''factory'' then Factory
      else if s = ''enterprise'' then Enterprise
      else Personal)"

definition parse_source_type :: "string \<Rightarrow> source_type" where
  "parse_source_type s =
     (if s = ''iam'' then Iam
      else if s = ''hr'' then Hr
      else if s = ''user_explicit'' then UserExplicit
      else if s = ''agent_inferred'' then AgentInferred
      else if s = ''tool_result'' then ToolResult
      else if s = ''business_event'' then BusinessEvent
      else AgentInferred)"

definition parse_authority_level :: "string \<Rightarrow> authority_level" where
  "parse_authority_level s =
     (if s = ''L0_source_of_truth'' then L0SourceOfTruth
      else if s = ''L1_authoritative'' then L1Authoritative
      else if s = ''L2_verified'' then L2Verified
      else if s = ''L3_inferred'' then L3Inferred
      else L3Inferred)"

definition parse_privacy_class :: "string \<Rightarrow> privacy_class" where
  "parse_privacy_class s =
     (if s = ''public'' then Public
      else if s = ''internal'' then Internal
      else if s = ''confidential'' then Confidential
      else if s = ''restricted'' then Restricted
      else Internal)"

definition parse_memory_status :: "string \<Rightarrow> memory_status" where
  "parse_memory_status s =
     (if s = ''candidate'' then Candidate
      else if s = ''active'' then Active
      else if s = ''archived'' then Archived
      else if s = ''revoked'' then Revoked
      else if s = ''quarantined'' then Quarantined
      else Active)"

definition map_row_to_memory_item :: "memory_row \<Rightarrow> memory_item" where
  "map_row_to_memory_item r = \<lparr>
     mi_memory_id = c_memory_id r,
     mi_tenant_id = c_tenant_id r,
     mi_memory_type = parse_memory_type (c_memory_type r),
     mi_scope = parse_scope (c_scope r),
     mi_subject_type = c_subject_type r,
     mi_subject_id = c_subject_id r,
     mi_entity_refs = array_or_empty (c_entity_refs r),
     mi_content = c_content r,
     mi_structured_payload = c_structured_payload r,
     mi_embedding = None,
     mi_source_type = parse_source_type (c_source_type r),
     mi_source_reference = c_source_reference r,
     mi_evidence_refs = array_or_empty (c_evidence_refs r),
     mi_confidence = c_confidence r,
     mi_authority_level = parse_authority_level (c_authority_level r),
     mi_importance = c_importance r,
     mi_observed_at = c_observed_at r,
     mi_valid_from = c_valid_from r,
     mi_valid_to = c_valid_to r,
     mi_privacy_class = parse_privacy_class (c_privacy_class r),
     mi_acl = c_acl r,
     mi_retention_policy = c_retention_policy r,
     mi_status = parse_memory_status (c_status r),
     mi_version = c_version r,
     mi_derived_from = array_or_empty (c_derived_from r),
     mi_created_by_user = c_created_by_user r,
     mi_created_by_agent = c_created_by_agent r,
     mi_last_verified_at = c_last_verified_at r,
     mi_created_at = c_created_at r,
     mi_updated_at = c_updated_at r\<rparr>"

lemma parse_as_str [simp]:
  "parse_memory_type (memory_type_as_str mt) = mt"
  "parse_scope (scope_as_str sc) = sc"
  "parse_source_type (source_type_as_str so) = so"
  "parse_authority_level (authority_level_as_str al) = al"
  "parse_privacy_class (privacy_class_as_str pc) = pc"
  "parse_memory_status (memory_status_as_str ms) = ms"
proof -
  show "parse_memory_type (memory_type_as_str mt) = mt"
    by (cases mt) (simp_all add: parse_memory_type_def)
  show "parse_scope (scope_as_str sc) = sc"
    by (cases sc) (simp_all add: parse_scope_def)
  show "parse_source_type (source_type_as_str so) = so"
    by (cases so) (simp_all add: parse_source_type_def)
  show "parse_authority_level (authority_level_as_str al) = al"
    by (cases al) (simp_all add: parse_authority_level_def)
  show "parse_privacy_class (privacy_class_as_str pc) = pc"
    by (cases pc) (simp_all add: parse_privacy_class_def)
  show "parse_memory_status (memory_status_as_str ms) = ms"
    by (cases ms) (simp_all add: parse_memory_status_def)
qed

section \<open>Statements\<close>

datatype memory_repo_error = RepoNotFound | RepoDatabase db_error

definition row_of_candidate :: "uuid \<Rightarrow> memory_candidate \<Rightarrow> time \<Rightarrow> memory_row" where
  "row_of_candidate i c t = \<lparr>
     c_memory_id = i,
     c_tenant_id = mc_tenant_id c,
     c_memory_type = memory_type_as_str (mc_memory_type c),
     c_scope = scope_as_str (mc_scope c),
     c_subject_type = mc_subject_type c,
     c_subject_id = mc_subject_id c,
     c_entity_refs = JArray [],
     c_content = mc_content c,
     c_structured_payload = mc_structured_payload c,
     c_embedding = None,
     c_source_type = source_type_as_str (mc_source_type c),
     c_source_reference = mc_source_reference c,
     c_evidence_refs = JArray [],
     c_confidence = mc_confidence c,
     c_authority_level = authority_level_as_str (mc_authority_level c),
     c_importance = f32_half,
     c_observed_at = None,
     c_valid_from = None,
     c_valid_to = None,
     c_privacy_class = privacy_class_as_str (mc_privacy_class c),
     c_acl = JObject [],
     c_retention_policy = None,
     c_status = ''candidate'',
     c_version = 1,
     c_derived_from = JArray [],
     c_created_by_user = mc_created_by_user c,
     c_created_by_agent = mc_created_by_agent c,
     c_last_verified_at = None,
     c_created_at = t,
     c_updated_at = t\<rparr>"

definition repo_insert :: "memory_candidate \<Rightarrow> (world, memory_repo_error, uuid) op" where
  "repo_insert c =
     bindE new_v4 (\<lambda>i.
     bindE (map_err RepoDatabase (exec (\<lambda>w.
        if i \<in> c_memory_id ` set (memory_items w) then (Inl DbError, w)
        else (Inr (), w\<lparr>memory_items := memory_items w @ [row_of_candidate i c (sql_now w)]\<rparr>)))) (\<lambda>_.
     ret i))"

definition repo_get_by_id :: "uuid \<Rightarrow> (world, memory_repo_error, memory_item option) op" where
  "repo_get_by_id i =
     bindE (map_err RepoDatabase (exec (gets (\<lambda>w. find (\<lambda>r. c_memory_id r = i) (memory_items w))))) (\<lambda>row.
     ret (map_option map_row_to_memory_item row))"

text \<open>
  \<open>UPDATE memory_item SET .. WHERE memory_id = $1\<close>, returning \<open>rows_affected\<close>.  The
  function on rows receives \<open>NOW()\<close>.
\<close>

definition update_memory_row :: "uuid \<Rightarrow> (time \<Rightarrow> memory_row \<Rightarrow> memory_row) \<Rightarrow> (world, db_error, nat) op" where
  "update_memory_row i f = exec (\<lambda>w.
     (Inr (rows_matching (\<lambda>r. c_memory_id r = i) (memory_items w)),
      w\<lparr>memory_items := sql_update (\<lambda>r. c_memory_id r = i) (f (sql_now w)) (memory_items w)\<rparr>))"

definition repo_update_status :: "uuid \<Rightarrow> memory_status \<Rightarrow> (world, memory_repo_error, unit) op" where
  "repo_update_status i new_status =
     bindE (map_err RepoDatabase (update_memory_row i (\<lambda>t r.
        r\<lparr>c_status := memory_status_as_str new_status, c_updated_at := t\<rparr>))) (\<lambda>n.
     if n = 0 then throw RepoNotFound else ret ())"

definition repo_archive :: "uuid \<Rightarrow> (world, memory_repo_error, unit) op" where
  "repo_archive i = repo_update_status i Archived"

definition repo_revoke :: "uuid \<Rightarrow> (world, memory_repo_error, unit) op" where
  "repo_revoke i = repo_update_status i Revoked"

definition repo_quarantine :: "uuid \<Rightarrow> (world, memory_repo_error, unit) op" where
  "repo_quarantine i = repo_update_status i Quarantined"

definition repo_promote :: "uuid \<Rightarrow> (world, memory_repo_error, unit) op" where
  "repo_promote i = repo_update_status i Active"

definition repo_list_by_tenant ::
  "string \<Rightarrow> memory_status option \<Rightarrow> int \<Rightarrow> int \<Rightarrow> (world, memory_repo_error, memory_item list) op" where
  "repo_list_by_tenant tenant status_filter limit offset =
     bindE (map_err RepoDatabase (exec (\<lambda>w. sql_limit limit offset
        (order_desc c_created_at (filter (\<lambda>r. c_tenant_id r = tenant \<and>
           (case status_filter of Some st \<Rightarrow> c_status r = memory_status_as_str st | None \<Rightarrow> True))
         (memory_items w))) w))) (\<lambda>rows.
     ret (map map_row_to_memory_item rows))"

definition repo_list_by_subject ::
  "string \<Rightarrow> string \<Rightarrow> string \<Rightarrow> int \<Rightarrow> (world, memory_repo_error, memory_item list) op" where
  "repo_list_by_subject tenant subject_type subject_id limit =
     bindE (map_err RepoDatabase (exec (\<lambda>w. sql_limit limit 0
        (order_desc c_created_at (filter (\<lambda>r. c_tenant_id r = tenant
            \<and> c_subject_type r = Some subject_type \<and> c_subject_id r = Some subject_id
            \<and> c_status r = ''active'')
         (memory_items w))) w))) (\<lambda>rows.
     ret (map map_row_to_memory_item rows))"

text \<open>
  The column is \<open>vector(1536)\<close>: pgvector rejects another length and non-finite entries.
\<close>

definition pgvector_ok :: "f32 list \<Rightarrow> bool" where
  "pgvector_ok v \<longleftrightarrow> length v = 1536 \<and> list_all f32_finite v"

definition repo_set_embedding :: "uuid \<Rightarrow> f32 list \<Rightarrow> (world, memory_repo_error, unit) op" where
  "repo_set_embedding i embedding =
     bindE (map_err RepoDatabase (exec (\<lambda>w.
        if \<not> pgvector_ok embedding then (Inl DbError, w)
        else (Inr (rows_matching (\<lambda>r. c_memory_id r = i) (memory_items w)), w\<lparr>memory_items := sql_update (\<lambda>r. c_memory_id r = i)
               (\<lambda>r. r\<lparr>c_embedding := Some embedding, c_updated_at := sql_now w\<rparr>) (memory_items w)\<rparr>)))) (\<lambda>n.
     if n = 0 then throw RepoNotFound else ret ())"

text \<open>\<open>memory_version\<close> has \<open>UNIQUE(memory_id, version)\<close> and a primary key \<open>version_id\<close>.\<close>

definition insert_version_row :: "memory_item version_row \<Rightarrow> (world, db_error, unit) op" where
  "insert_version_row v = (\<lambda>w.
     if (\<exists>x \<in> set (memory_versions w). v_version_id x = v_version_id v \<or>
            (v_memory_id x = v_memory_id v \<and> v_version x = v_version v))
     then (Inl DbError, w)
     else (Inr (), w\<lparr>memory_versions := memory_versions w @ [v]\<rparr>))"

definition repo_record_version ::
  "uuid \<Rightarrow> int \<Rightarrow> memory_item \<Rightarrow> string \<Rightarrow> string option \<Rightarrow> (world, memory_repo_error, unit) op" where
  "repo_record_version i version payload changed_by change_reason =
     bindE new_v4 (\<lambda>vid.
     map_err RepoDatabase (exec (\<lambda>w. insert_version_row \<lparr>v_version_id = vid, v_memory_id = i,
        v_version = version, v_payload = payload, v_changed_by = changed_by,
        v_change_reason = change_reason, v_created_at = sql_now w\<rparr> w)))"

definition repo_bump_version :: "uuid \<Rightarrow> (world, memory_repo_error, int) op" where
  "repo_bump_version i =
     map_err RepoDatabase (exec (\<lambda>w.
        case find (\<lambda>r. c_memory_id r = i) (memory_items w) of
          None \<Rightarrow> (Inl DbError, w)
        | Some r \<Rightarrow>
            if c_version r \<ge> int4_max then (Inl DbError, w)
            else (Inr (c_version r + 1),
                  w\<lparr>memory_items := sql_update (\<lambda>r. c_memory_id r = i)
                      (\<lambda>r. r\<lparr>c_version := c_version r + 1, c_updated_at := sql_now w\<rparr>) (memory_items w)\<rparr>)))"

lemmas repo_defs = repo_insert_def repo_get_by_id_def repo_update_status_def repo_archive_def
  repo_revoke_def repo_quarantine_def repo_promote_def repo_list_by_tenant_def
  repo_list_by_subject_def repo_set_embedding_def repo_record_version_def repo_bump_version_def
  update_memory_row_def

declare repo_defs [op_defs]

section \<open>The invariant of the table\<close>

text \<open>
  Ids are unique, and every enum column holds a text form the mapper reads back, so no
  row is ever read through a mapper's fallback branch.
\<close>

definition readable_row :: "memory_row \<Rightarrow> bool" where
  "readable_row r \<longleftrightarrow>
     memory_type_as_str (parse_memory_type (c_memory_type r)) = c_memory_type r \<and>
     scope_as_str (parse_scope (c_scope r)) = c_scope r \<and>
     source_type_as_str (parse_source_type (c_source_type r)) = c_source_type r \<and>
     authority_level_as_str (parse_authority_level (c_authority_level r)) = c_authority_level r \<and>
     privacy_class_as_str (parse_privacy_class (c_privacy_class r)) = c_privacy_class r \<and>
     memory_status_as_str (parse_memory_status (c_status r)) = c_status r"

definition wf_memory :: "world \<Rightarrow> bool" where
  "wf_memory w \<longleftrightarrow> distinct (map c_memory_id (memory_items w)) \<and> (\<forall>r \<in> set (memory_items w). readable_row r)"

definition wf_versions :: "world \<Rightarrow> bool" where
  "wf_versions w \<longleftrightarrow> distinct (map v_version_id (memory_versions w)) \<and>
     distinct (map (\<lambda>v. (v_memory_id v, v_version v)) (memory_versions w))"

lemma wf_memory_tick [simp]: "wf_memory (w\<lparr>tick := t\<rparr>) = wf_memory w"
  by (simp add: wf_memory_def)

lemma wf_versions_tick [simp]: "wf_versions (w\<lparr>tick := t\<rparr>) = wf_versions w"
  by (simp add: wf_versions_def)

lemma row_of_candidate_id [simp]: "c_memory_id (row_of_candidate i c t) = i"
  by (simp add: row_of_candidate_def)

lemma readable_row_of_candidate: "readable_row (row_of_candidate i c t)"
  using parse_as_str(6) [of Candidate] by (simp add: readable_row_def row_of_candidate_def)

lemma wf_memory_update:
  assumes "wf_memory w" and "\<And>r. c_memory_id (f r) = c_memory_id r"
    and "\<And>r. readable_row r \<Longrightarrow> readable_row (f r)"
  shows "wf_memory (w\<lparr>memory_items := sql_update p f (memory_items w)\<rparr>)"
  using assms by (auto simp: wf_memory_def set_sql_update)

lemma wf_memory_delete:
  "wf_memory w \<Longrightarrow> wf_memory (w\<lparr>memory_items := sql_delete p (memory_items w)\<rparr>)"
  by (auto simp: wf_memory_def)

lemma readable_status [simp]: "readable_row r \<Longrightarrow> readable_row (r\<lparr>c_status := memory_status_as_str st\<rparr>)"
  by (simp add: readable_row_def)

lemma readable_neutral [simp]:
  "readable_row (r\<lparr>c_updated_at := t\<rparr>) = readable_row r"
  "readable_row (r\<lparr>c_version := v\<rparr>) = readable_row r"
  "readable_row (r\<lparr>c_embedding := e\<rparr>) = readable_row r"
  "readable_row (r\<lparr>c_importance := f\<rparr>) = readable_row r"
  "readable_row (r\<lparr>c_valid_from := vf\<rparr>) = readable_row r"
  by (simp_all add: readable_row_def)

lemma readable_scope [simp]: "readable_row r \<Longrightarrow> readable_row (r\<lparr>c_scope := scope_as_str sc\<rparr>)"
  by (simp add: readable_row_def)

lemma keeps_memory_frame:
  assumes "\<And>w t. P w \<Longrightarrow> P (w\<lparr>tick := t\<rparr>)"
    and "\<And>w t. P w \<Longrightarrow> P (w\<lparr>memory_items := sql_update (\<lambda>r. c_memory_id r = i) (f t) (memory_items w)\<rparr>)"
  shows "keeps P (update_memory_row i f)"
  unfolding update_memory_row_def by (rule keeps_exec) (auto intro!: keepsI assms)

lemma keeps_update_memory_row:
  assumes "\<And>t r. c_memory_id (f t r) = c_memory_id r"
    and "\<And>t r. readable_row r \<Longrightarrow> readable_row (f t r)"
  shows "keeps wf_memory (update_memory_row i f)"
  unfolding update_memory_row_def
  by (rule keeps_exec) (auto intro!: keepsI wf_memory_update assms)

lemma keeps_wf_update_status [keep_intros]: "keeps wf_memory (repo_update_status i st)"
  unfolding repo_update_status_def
  by (intro keep_intros keeps_update_memory_row) auto

lemma keeps_wf_insert [keep_intros]: "keeps wf_memory (repo_insert c)"
  unfolding repo_insert_def
proof (intro keep_intros)
  fix i
  show "keeps wf_memory (\<lambda>w. if i \<in> c_memory_id ` set (memory_items w) then (Inl DbError, w)
        else (Inr (), w\<lparr>memory_items := memory_items w @ [row_of_candidate i c (sql_now w)]\<rparr>))"
    by (rule keepsI)
      (auto simp: wf_memory_def readable_row_of_candidate split: if_splits)
qed auto

lemma keeps_wf_set_embedding [keep_intros]: "keeps wf_memory (repo_set_embedding i v)"
  unfolding repo_set_embedding_def
  by (intro keep_intros) (auto intro!: keepsI wf_memory_update simp: Let_def split: if_splits)

lemma keeps_wf_bump_version [keep_intros]: "keeps wf_memory (repo_bump_version i)"
  unfolding repo_bump_version_def
  by (intro keep_intros)
    (auto intro!: keepsI wf_memory_update split: if_splits option.splits)

lemma wf_versions_insert: "wf_versions w \<Longrightarrow> wf_versions (snd (insert_version_row v w))"
  by (auto simp: wf_versions_def insert_version_row_def)

section \<open>What the statements do\<close>

lemma get_by_id_wf:
  assumes "wf_memory w" and "r \<in> set (memory_items w)" and "\<not> fails w (tick w)"
  shows "repo_get_by_id (c_memory_id r) w =
           (Inr (Some (map_row_to_memory_item r)), w\<lparr>tick := Suc (tick w)\<rparr>)"
  using assms find_key_distinct [of c_memory_id "memory_items w" r]
  by (simp add: repo_get_by_id_def wf_memory_def monad_defs)

lemma update_status_spec:
  assumes "\<not> fails w (tick w)"
  shows "repo_update_status i st w =
     (if i \<in> c_memory_id ` set (memory_items w) then Inr () else Inl RepoNotFound,
      w\<lparr>tick := Suc (tick w), memory_items := sql_update (\<lambda>r. c_memory_id r = i)
         (\<lambda>r. r\<lparr>c_status := memory_status_as_str st, c_updated_at := clock w (Suc (tick w))\<rparr>) (memory_items w)\<rparr>)"
  using assms rows_matching_0_iff [of "\<lambda>r. c_memory_id r = i" "memory_items w"]
  by (auto simp: repo_update_status_def update_memory_row_def monad_defs sql_now_def)

end
