(* ===== verification/Redis.thy ===== *)
theory Redis
  imports Schema
begin

text \<open>
  \<open>oris-memory-store/src/redis/\<close>: the hot-context cache, the session and lock repository
  and the result cache over one Redis key space.  A key holds a value and its expiry;
  an expired key reads as absent.  The lock operations satisfy the contract
  \<open>expiring_lock\<close> (acquisition excludes other holders until expiry or release by the
  holder), the cache operations the contract \<open>keyed_cache\<close>.
\<close>

section \<open>The key space\<close>

datatype redis_error = RedisError

definition redis_exec :: "(world, db_error, 'a) op \<Rightarrow> (world, redis_error, 'a) op" where
  "redis_exec f = map_err (\<lambda>_. RedisError) (exec f)"

definition live_value :: "world \<Rightarrow> string \<Rightarrow> string option" where
  "live_value w k = (case redis_keys w k of
      None \<Rightarrow> None
    | Some (v, expiry) \<Rightarrow> if sql_now w < expiry then Some v else None)"

definition redis_get :: "string \<Rightarrow> (world, redis_error, string option) op" where
  "redis_get k = redis_exec (gets (\<lambda>w. live_value w k))"

text \<open>\<open>SET key value EX ttl\<close>; Redis rejects a zero expiry.\<close>

definition redis_set_ex :: "string \<Rightarrow> string \<Rightarrow> nat \<Rightarrow> (world, redis_error, unit) op" where
  "redis_set_ex k v ttl = redis_exec (\<lambda>w.
     if ttl = 0 then (Inl DbError, w)
     else (Inr (), w\<lparr>redis_keys := (redis_keys w)(k \<mapsto> (v, sql_now w + secs (int ttl)))\<rparr>))"

definition redis_del :: "string list \<Rightarrow> (world, redis_error, unit) op" where
  "redis_del ks = redis_exec (modify (\<lambda>w.
     w\<lparr>redis_keys := (\<lambda>k. if k \<in> set ks then None else redis_keys w k)\<rparr>))"

lemmas redis_prims = redis_exec_def redis_get_def redis_set_ex_def redis_del_def live_value_def

section \<open>Hot context\<close>

definition DEFAULT_TTL_SECS :: nat where
  "DEFAULT_TTL_SECS = 300"

definition user_context_key :: "string \<Rightarrow> string \<Rightarrow> string" where
  "user_context_key tenant_id user_id = ''oris:hotctx:'' @ tenant_id @ '':'' @ user_id"

definition task_context_key :: "string \<Rightarrow> string" where
  "task_context_key task_id = ''oris:task:'' @ task_id"

definition permissions_key :: "string \<Rightarrow> string \<Rightarrow> string" where
  "permissions_key tenant_id user_id = ''oris:perm:'' @ tenant_id @ '':'' @ user_id"

definition get_user_context :: "string \<Rightarrow> string \<Rightarrow> (world, redis_error, string option) op" where
  "get_user_context user_id tenant_id = redis_get (user_context_key tenant_id user_id)"

definition set_user_context :: "string \<Rightarrow> string \<Rightarrow> string \<Rightarrow> nat \<Rightarrow> (world, redis_error, unit) op" where
  "set_user_context user_id tenant_id data ttl = redis_set_ex (user_context_key tenant_id user_id) data ttl"

definition invalidate_user_context :: "string \<Rightarrow> string \<Rightarrow> (world, redis_error, unit) op" where
  "invalidate_user_context user_id tenant_id = redis_del [user_context_key tenant_id user_id]"

definition get_task_context :: "string \<Rightarrow> (world, redis_error, string option) op" where
  "get_task_context task_id = redis_get (task_context_key task_id)"

definition set_task_context :: "string \<Rightarrow> string \<Rightarrow> nat \<Rightarrow> (world, redis_error, unit) op" where
  "set_task_context task_id data ttl = redis_set_ex (task_context_key task_id) data ttl"

definition invalidate_task_context :: "string \<Rightarrow> (world, redis_error, unit) op" where
  "invalidate_task_context task_id = redis_del [task_context_key task_id]"

definition get_permissions :: "string \<Rightarrow> string \<Rightarrow> (world, redis_error, string option) op" where
  "get_permissions user_id tenant_id = redis_get (permissions_key tenant_id user_id)"

definition set_permissions :: "string \<Rightarrow> string \<Rightarrow> string \<Rightarrow> nat \<Rightarrow> (world, redis_error, unit) op" where
  "set_permissions user_id tenant_id data ttl = redis_set_ex (permissions_key tenant_id user_id) data ttl"

section \<open>Sessions and locks\<close>

definition lock_key :: "string \<Rightarrow> string" where
  "lock_key resource = ''oris:lock:'' @ resource"

definition session_key :: "string \<Rightarrow> string" where
  "session_key session_id = ''oris:session:'' @ session_id"

text \<open>\<open>SET key holder NX EX ttl\<close>.\<close>

definition acquire_lock :: "string \<Rightarrow> string \<Rightarrow> nat \<Rightarrow> (world, redis_error, bool) op" where
  "acquire_lock resource holder ttl = redis_exec (\<lambda>w.
     if ttl = 0 then (Inl DbError, w)
     else if live_value w (lock_key resource) \<noteq> None then (Inr False, w)
     else (Inr True, w\<lparr>redis_keys :=
            (redis_keys w)(lock_key resource \<mapsto> (holder, sql_now w + secs (int ttl)))\<rparr>))"

text \<open>The Lua script: compare the holder and delete, atomically.\<close>

definition release_lock :: "string \<Rightarrow> string \<Rightarrow> (world, redis_error, bool) op" where
  "release_lock resource holder = redis_exec (\<lambda>w.
     if live_value w (lock_key resource) = Some holder
     then (Inr True, w\<lparr>redis_keys := (redis_keys w)(lock_key resource := None)\<rparr>)
     else (Inr False, w))"

definition get_session :: "string \<Rightarrow> (world, redis_error, string option) op" where
  "get_session session_id = redis_get (session_key session_id)"

definition set_session :: "string \<Rightarrow> string \<Rightarrow> nat \<Rightarrow> (world, redis_error, unit) op" where
  "set_session session_id data ttl = redis_set_ex (session_key session_id) data ttl"

definition delete_session :: "string \<Rightarrow> (world, redis_error, unit) op" where
  "delete_session session_id = redis_del [session_key session_id]"

section \<open>Result cache\<close>

definition prefixed_key :: "string \<Rightarrow> string" where
  "prefixed_key key = ''oris:cache:'' @ key"

definition cache_get :: "string \<Rightarrow> (world, redis_error, string option) op" where
  "cache_get key = redis_get (prefixed_key key)"

definition cache_set :: "string \<Rightarrow> string \<Rightarrow> nat \<Rightarrow> (world, redis_error, unit) op" where
  "cache_set key v ttl = redis_set_ex (prefixed_key key) v ttl"

definition cache_delete :: "string \<Rightarrow> (world, redis_error, unit) op" where
  "cache_delete key = redis_del [prefixed_key key]"

text \<open>
  \<open>invalidate_pattern\<close> iterates \<open>SCAN\<close> until the cursor is 0 and deletes every batch.  The
  server decides how a scan is cut into batches: \<open>scan pattern w\<close> gives the batches of the
  successive replies, the last one being the reply with cursor 0.
\<close>

type_synonym scan_oracle = "string \<Rightarrow> world \<Rightarrow> string list list"

fun delete_batches :: "string list list \<Rightarrow> (world, redis_error, unit) op" where
  "delete_batches [] = ret ()"
| "delete_batches (b # bs) =
     bindE (redis_exec (ret ())) (\<lambda>_.
     bindE (if b = [] then ret () else redis_del b) (\<lambda>_.
     delete_batches bs))"

definition invalidate_pattern :: "scan_oracle \<Rightarrow> string \<Rightarrow> (world, redis_error, unit) op" where
  "invalidate_pattern scan pattern = (\<lambda>w. delete_batches (scan (prefixed_key pattern) w) w)"

lemmas redis_ops = get_user_context_def set_user_context_def invalidate_user_context_def
  get_task_context_def set_task_context_def invalidate_task_context_def get_permissions_def
  set_permissions_def acquire_lock_def release_lock_def get_session_def set_session_def
  delete_session_def cache_get_def cache_set_def cache_delete_def invalidate_pattern_def

section \<open>Redis never touches the tables\<close>

definition tables :: "world \<Rightarrow> memory_row list \<times> memory_item version_row list \<times> outbox_row list \<times>
    audit_row list \<times> hold_row list \<times> approval_row list \<times> task_row list \<times> profile_row list" where
  "tables w = (memory_items w, memory_versions w, outbox_events w, access_audit w, legal_holds w,
     approval_requests w, task_contexts w, user_profiles w)"

lemma tables_frame [simp]:
  "tables (w\<lparr>tick := t\<rparr>) = tables w" "tables (w\<lparr>redis_keys := r\<rparr>) = tables w"
  by (simp_all add: tables_def)

lemma keeps_redis_exec [keep_intros]:
  "(\<And>w t. P w \<Longrightarrow> P (w\<lparr>tick := t\<rparr>)) \<Longrightarrow> keeps P f \<Longrightarrow> keeps P (redis_exec f)"
  unfolding redis_exec_def by (intro keep_intros)

lemma keeps_redis_set_ex:
  "(\<And>w t. P w \<Longrightarrow> P (w\<lparr>tick := t\<rparr>)) \<Longrightarrow> (\<And>w r. P w \<Longrightarrow> P (w\<lparr>redis_keys := r\<rparr>)) \<Longrightarrow> keeps P (redis_set_ex k v t)"
  unfolding redis_set_ex_def by (intro keep_intros keepsI) (auto split: if_splits)

lemma keeps_redis_get:
  "(\<And>w t. P w \<Longrightarrow> P (w\<lparr>tick := t\<rparr>)) \<Longrightarrow> keeps P (redis_get k)"
  unfolding redis_get_def by (intro keep_intros)

lemma keeps_redis_del:
  "(\<And>w t. P w \<Longrightarrow> P (w\<lparr>tick := t\<rparr>)) \<Longrightarrow> (\<And>w r. P w \<Longrightarrow> P (w\<lparr>redis_keys := r\<rparr>)) \<Longrightarrow> keeps P (redis_del ks)"
  unfolding redis_del_def by (intro keep_intros)

lemma keeps_delete_batches:
  assumes "\<And>w t. P w \<Longrightarrow> P (w\<lparr>tick := t\<rparr>)" and "\<And>ks. keeps P (redis_del ks)"
  shows "keeps P (delete_batches bs)"
proof (induction bs)
  case Nil
  show ?case by (simp add: keeps_ret)
next
  case (Cons b bs)
  then show ?case
    unfolding delete_batches.simps by (intro keep_intros assms)
qed

lemma keeps_invalidate_pattern:
  assumes "\<And>w t. P w \<Longrightarrow> P (w\<lparr>tick := t\<rparr>)" and "\<And>ks. keeps P (redis_del ks)"
  shows "keeps P (invalidate_pattern scan p)"
  using keeps_delete_batches [OF assms] by (simp add: keeps_def invalidate_pattern_def)

lemma keeps_absent_del: "keeps (\<lambda>w. redis_keys w k = None) (redis_del ks)"
  unfolding redis_del_def by (intro keep_intros) auto

section \<open>The cache contract\<close>

text \<open>
  What the managers rely on: a successful write is read back until it expires, a
  successful invalidation makes the key miss, and other keys are not affected.
  \<open>view\<close> is what a read would return now.
\<close>

locale keyed_cache =
  fixes key_of :: "'k \<Rightarrow> string"
    and fetch :: "'k \<Rightarrow> (world, redis_error, string option) op"
    and store :: "'k \<Rightarrow> string \<Rightarrow> nat \<Rightarrow> (world, redis_error, unit) op"
    and drop_key :: "'k \<Rightarrow> (world, redis_error, unit) op"
  assumes fetch_ok: "fetch k w = (Inr v, w') \<Longrightarrow> v = live_value w' (key_of k)"
    and store_ok: "store k d ttl w = (Inr (), w') \<Longrightarrow>
        redis_keys w' = (redis_keys w)(key_of k \<mapsto> (d, sql_now w' + secs (int ttl))) \<and> ttl > 0"
    and drop_ok: "drop_key k w = (Inr (), w') \<Longrightarrow> redis_keys w' = (redis_keys w)(key_of k := None)"
    and fetch_keys: "fetch k w = (r, w') \<Longrightarrow> redis_keys w' = redis_keys w"
begin

lemma fetch_after_drop:
  assumes "drop_key k w = (Inr (), w')" and "fetch k w' = (Inr v, w'')"
  shows "v = None"
  using fetch_ok [OF assms(2)] fetch_keys [OF assms(2)] drop_ok [OF assms(1)]
  by (simp add: live_value_def)

lemma fetch_after_store:
  assumes "store k v ttl w = (Inr (), w')" and "fetch k w' = (Inr r, w'')"
  shows "r = (if sql_now w'' < sql_now w' + secs (int ttl) then Some v else None)"
  using fetch_ok [OF assms(2)] fetch_keys [OF assms(2)] store_ok [OF assms(1)]
  by (simp add: live_value_def)

lemma drop_other_key:
  assumes "drop_key k w = (Inr (), w')" and "key_of k \<noteq> key"
  shows "redis_keys w' key = redis_keys w key"
  using drop_ok [OF assms(1)] assms(2) by simp

end

lemma redis_cache_laws:
  "redis_get k w = (Inr v, w') \<Longrightarrow> v = live_value w' k"
  "redis_set_ex k d ttl w = (Inr (), w') \<Longrightarrow>
     redis_keys w' = (redis_keys w)(k \<mapsto> (d, sql_now w' + secs (int ttl))) \<and> ttl > 0"
  "redis_del [k] w = (Inr (), w') \<Longrightarrow> redis_keys w' = (redis_keys w)(k := None)"
  "redis_get k w = (r, w') \<Longrightarrow> redis_keys w' = redis_keys w"
  by (auto simp: redis_prims monad_defs exec_def sql_now_def fun_eq_iff
      split: if_splits sum.splits prod.splits)

interpretation user_ctx: keyed_cache "\<lambda>(t, u). user_context_key t u" "\<lambda>(t, u). get_user_context u t"
  "\<lambda>(t, u). set_user_context u t" "\<lambda>(t, u). invalidate_user_context u t"
  by unfold_locales (auto simp: redis_ops dest: redis_cache_laws)

interpretation task_ctx: keyed_cache task_context_key get_task_context set_task_context
  invalidate_task_context
  by unfold_locales (auto simp: redis_ops dest: redis_cache_laws)

interpretation session_kv: keyed_cache session_key get_session set_session delete_session
  by unfold_locales (auto simp: redis_ops dest: redis_cache_laws)

interpretation result_cache: keyed_cache prefixed_key cache_get cache_set cache_delete
  by unfold_locales (auto simp: redis_ops dest: redis_cache_laws)

section \<open>The lock contract\<close>

text \<open>
  \<open>held w res\<close> is the holder a lock has now.  Acquiring succeeds exactly on a free lock
  and makes the caller the holder; only the holder's release frees it.
\<close>

locale expiring_lock =
  fixes held :: "world \<Rightarrow> string \<Rightarrow> string option"
    and acquire :: "string \<Rightarrow> string \<Rightarrow> nat \<Rightarrow> (world, redis_error, bool) op"
    and release :: "string \<Rightarrow> string \<Rightarrow> (world, redis_error, bool) op"
  assumes acquire_free: "acquire res h ttl w = (Inr True, w') \<Longrightarrow>
        held (w'\<lparr>redis_keys := redis_keys w\<rparr>) res = None \<and> held w' res = Some h"
    and acquire_busy: "acquire res h ttl w = (Inr False, w') \<Longrightarrow>
        redis_keys w' = redis_keys w \<and> (\<exists>g. held w' res = Some g)"
    and release_owner: "release res h w = (Inr True, w') \<Longrightarrow>
        held (w'\<lparr>redis_keys := redis_keys w\<rparr>) res = Some h \<and> held w' res = None"
    and release_other: "release res h w = (Inr False, w') \<Longrightarrow>
        redis_keys w' = redis_keys w \<and> held w' res \<noteq> Some h"
begin

text \<open>Two acquisitions in a row, the first still held: the second fails.\<close>

lemma exclusive:
  assumes "acquire res h ttl w = (Inr True, w1)" and "acquire res g ttl' w1 = (Inr b, w2)"
    and "\<exists>x. held (w2\<lparr>redis_keys := redis_keys w1\<rparr>) res = Some x"
  shows "\<not> b"
  using acquire_free [of res g ttl' w1 w2] assms by (cases b) auto

lemma foreign_release:
  assumes "release res g w = (Inr b, w')" and "held (w'\<lparr>redis_keys := redis_keys w\<rparr>) res = Some h"
    and "g \<noteq> h"
  shows "\<not> b \<and> redis_keys w' = redis_keys w"
  using release_owner [of res g w w'] release_other [of res g w w'] assms by (cases b) auto

end

interpretation redis_lock: expiring_lock "\<lambda>w res. live_value w (lock_key res)" acquire_lock release_lock
  by unfold_locales
    (auto simp: redis_ops redis_exec_def monad_defs exec_def live_value_def sql_now_def secs_def
      split: if_splits option.splits)

end
