(* ===== verification/Outbox.thy ===== *)
theory Outbox
  imports Redis
begin

text \<open>
  The transactional outbox: \<open>postgres/outbox.rs\<close> (the queue) and \<open>outbox_worker.rs\<close> (the
  worker that turns events into cache invalidations, with retries and dead-lettering).
  The lemmas give the state machine of a row (pending, processing, done or failed), what
  a dequeue returns, and the retry budget, which bounds how long the queue can stay
  busy.
\<close>

section \<open>The queue\<close>

datatype outbox_error = OutboxDatabase db_error

definition parse_event_type :: "string \<Rightarrow> event_type" where
  "parse_event_type s =
     (if s = ''USER_CONTEXT_UPDATED'' then UserContextUpdated
      else if s = ''PREFERENCE_UPDATED'' then PreferenceUpdated
      else if s = ''TASK_CONTEXT_UPDATED'' then TaskContextUpdated
      else if s = ''MEMORY_PROMOTED'' then MemoryPromoted
      else if s = ''MEMORY_REVOKED'' then MemoryRevoked
      else if s = ''MEMORY_EXPIRED'' then MemoryExpired
      else if s = ''PERMISSION_CHANGED'' then PermissionChanged
      else if s = ''ENGINE_PROJECTION_FAILED'' then EngineProjectionFailed
      else UserContextUpdated)"

definition parse_outbox_status :: "string \<Rightarrow> outbox_status" where
  "parse_outbox_status s =
     (if s = ''pending'' then Pending
      else if s = ''processing'' then Processing
      else if s = ''done'' then Done
      else if s = ''failed'' then Failed
      else Pending)"

definition map_row_to_outbox_event :: "outbox_row \<Rightarrow> outbox_event" where
  "map_row_to_outbox_event r = \<lparr>
     oe_event_id = o_event_id r,
     oe_event_type = parse_event_type (o_event_type r),
     oe_aggregate_id = o_aggregate_id r,
     oe_payload = o_payload r,
     oe_status = parse_outbox_status (o_status r),
     oe_created_at = o_created_at r,
     oe_processed_at = o_processed_at r\<rparr>"

definition new_outbox_row :: "uuid \<Rightarrow> event_type \<Rightarrow> string \<Rightarrow> json \<Rightarrow> time \<Rightarrow> outbox_row" where
  "new_outbox_row i ty agg payload t = \<lparr>
     o_event_id = i, o_event_type = event_type_as_str ty, o_aggregate_id = agg,
     o_payload = payload, o_status = ''pending'', o_created_at = t, o_processed_at = None\<rparr>"

definition outbox_enqueue :: "event_type \<Rightarrow> string \<Rightarrow> json \<Rightarrow> (world, outbox_error, uuid) op" where
  "outbox_enqueue ty aggregate_id payload =
     bindE new_v4 (\<lambda>event_id.
     bindE (map_err OutboxDatabase (exec (\<lambda>w.
        if event_id \<in> o_event_id ` set (outbox_events w) then (Inl DbError, w)
        else (Inr (), w\<lparr>outbox_events := outbox_events w @
               [new_outbox_row event_id ty aggregate_id payload (sql_now w)]\<rparr>)))) (\<lambda>_.
     ret event_id))"

text \<open>
  The inner \<open>SELECT\<close> picks the oldest pending ids; the \<open>UPDATE\<close> flips exactly those rows and
  returns them in table order.
\<close>

definition oldest_pending :: "int \<Rightarrow> outbox_row list \<Rightarrow> uuid list" where
  "oldest_pending n rows =
     take (nat n) (map o_event_id (sort_key o_created_at (filter (\<lambda>r. o_status r = ''pending'') rows)))"

definition outbox_dequeue :: "int \<Rightarrow> (world, outbox_error, outbox_event list) op" where
  "outbox_dequeue batch_size =
     bindE (map_err OutboxDatabase (exec (\<lambda>w.
        if batch_size < 0 then (Inl DbError, w)
        else let picked = (\<lambda>r. o_event_id r \<in> set (oldest_pending batch_size (outbox_events w)));
                 rows = sql_update picked (\<lambda>r. r\<lparr>o_status := ''processing''\<rparr>) (outbox_events w)
             in (Inr (filter picked rows), w\<lparr>outbox_events := rows\<rparr>)))) (\<lambda>rows.
     ret (map map_row_to_outbox_event rows))"

definition update_outbox_row :: "uuid \<Rightarrow> (time \<Rightarrow> outbox_row \<Rightarrow> outbox_row) \<Rightarrow> (world, outbox_error, unit) op" where
  "update_outbox_row i f = map_err OutboxDatabase (exec (modify (\<lambda>w.
     w\<lparr>outbox_events := sql_update (\<lambda>r. o_event_id r = i) (f (sql_now w)) (outbox_events w)\<rparr>)))"

definition outbox_mark_done :: "uuid \<Rightarrow> (world, outbox_error, unit) op" where
  "outbox_mark_done i = update_outbox_row i (\<lambda>t r. r\<lparr>o_status := ''done'', o_processed_at := Some t\<rparr>)"

definition outbox_mark_failed :: "uuid \<Rightarrow> (world, outbox_error, unit) op" where
  "outbox_mark_failed i = update_outbox_row i (\<lambda>t r. r\<lparr>o_status := ''failed''\<rparr>)"

definition outbox_count_by_status :: "outbox_status \<Rightarrow> (world, outbox_error, nat) op" where
  "outbox_count_by_status st = map_err OutboxDatabase (exec (gets (\<lambda>w.
     rows_matching (\<lambda>r. o_status r = outbox_status_as_str st) (outbox_events w))))"

section \<open>Dispatch\<close>

datatype worker_error = DbErr db_error | RedisErr | SerializationErr string

datatype invalidation_action =
    InvalidateUserContext string string
  | InvalidateTaskContext string
  | InvalidatePermissions string string
  | InvalidateCachePattern string
  | LogWarning

definition payload_str :: "json \<Rightarrow> string \<Rightarrow> worker_error + string" where
  "payload_str payload field =
     (case Option.bind (json_get payload field) as_str of
        Some s \<Rightarrow> Inr s
      | None \<Rightarrow> Inl (SerializationErr (''missing or invalid field: '' @ field)))"

text \<open>\<open>as_u64().unwrap_or(0) as u32\<close>: the cast truncates.\<close>

definition extract_retry_count :: "json \<Rightarrow> nat" where
  "extract_retry_count payload =
     (case Option.bind (json_get payload ''retry_count'') as_u64 of Some n \<Rightarrow> n | None \<Rightarrow> 0) mod 2 ^ 32"

definition augment_retry_count :: "json \<Rightarrow> nat \<Rightarrow> json" where
  "augment_retry_count payload new_count =
     (case payload of
        JObject m \<Rightarrow> JObject (obj_insert ''retry_count'' (JInt (int new_count)) m)
      | _ \<Rightarrow> JObject (obj_insert ''retry_count'' (JInt (int new_count))
                (obj_insert ''original_payload'' payload [])))"

definition compute_invalidation_actions :: "outbox_event \<Rightarrow> worker_error + invalidation_action list" where
  "compute_invalidation_actions e =
     (let p = oe_payload e;
          user_action = (\<lambda>k. case payload_str p ''tenant_id'' of Inl er \<Rightarrow> Inl er | Inr t \<Rightarrow>
                          (case payload_str p ''user_id'' of Inl er \<Rightarrow> Inl er | Inr u \<Rightarrow> Inr (k t u)))
      in case oe_event_type e of
           UserContextUpdated \<Rightarrow> user_action (\<lambda>t u. [InvalidateUserContext t u])
         | PreferenceUpdated \<Rightarrow>
             user_action (\<lambda>t u. [InvalidateUserContext t u, InvalidateCachePattern (''*'' @ u @ ''*'')])
         | TaskContextUpdated \<Rightarrow>
             (case payload_str p ''task_id'' of Inl er \<Rightarrow> Inl er | Inr t \<Rightarrow> Inr [InvalidateTaskContext t])
         | MemoryPromoted \<Rightarrow>
             (case payload_str p ''tenant_id'' of Inl er \<Rightarrow> Inl er
              | Inr t \<Rightarrow> Inr [InvalidateCachePattern (''tenant:'' @ t @ ''*'')])
         | MemoryRevoked \<Rightarrow> user_action (\<lambda>t u. [InvalidateUserContext t u])
         | MemoryExpired \<Rightarrow> user_action (\<lambda>t u. [InvalidateUserContext t u])
         | PermissionChanged \<Rightarrow> user_action (\<lambda>t u. [InvalidatePermissions t u])
         | EngineProjectionFailed \<Rightarrow> Inr [LogWarning]
         | _ \<Rightarrow> Inr [InvalidateCachePattern (''tenant:'' @
                   (case payload_str p ''tenant_id'' of Inl _ \<Rightarrow> ''default'' | Inr t \<Rightarrow> t) @ ''*'')])"

section \<open>The worker\<close>

text \<open>Configuration: which Redis repositories are attached, batch size, retry limit.\<close>

record worker =
  wk_hot_context :: bool
  wk_cache :: bool
  wk_batch_size :: int
  wk_max_retries :: nat

definition worker_new :: worker where
  "worker_new = \<lparr>wk_hot_context = False, wk_cache = False, wk_batch_size = 50, wk_max_retries = 3\<rparr>"

definition with_hot_context :: "worker \<Rightarrow> worker" where
  "with_hot_context wk = wk\<lparr>wk_hot_context := True\<rparr>"

definition with_cache :: "worker \<Rightarrow> worker" where
  "with_cache wk = wk\<lparr>wk_cache := True\<rparr>"

definition run_action :: "scan_oracle \<Rightarrow> worker \<Rightarrow> invalidation_action \<Rightarrow> (world, worker_error, unit) op" where
  "run_action scan wk act =
     (case act of
        InvalidateUserContext t u \<Rightarrow>
          if wk_hot_context wk then map_err (\<lambda>_. RedisErr) (invalidate_user_context u t) else ret ()
      | InvalidateTaskContext t \<Rightarrow>
          if wk_hot_context wk then map_err (\<lambda>_. RedisErr) (invalidate_task_context t) else ret ()
      | InvalidatePermissions t u \<Rightarrow>
          if wk_hot_context wk then map_err (\<lambda>_. RedisErr) (invalidate_user_context u t) else ret ()
      | InvalidateCachePattern p \<Rightarrow>
          if wk_cache wk then map_err (\<lambda>_. RedisErr) (invalidate_pattern scan p) else ret ()
      | LogWarning \<Rightarrow> ret ())"

fun run_actions :: "scan_oracle \<Rightarrow> worker \<Rightarrow> invalidation_action list \<Rightarrow> (world, worker_error, unit) op" where
  "run_actions scan wk [] = ret ()"
| "run_actions scan wk (a # as) = bindE (run_action scan wk a) (\<lambda>_. run_actions scan wk as)"

definition process_event :: "scan_oracle \<Rightarrow> worker \<Rightarrow> outbox_event \<Rightarrow> (world, worker_error, unit) op" where
  "process_event scan wk e =
     (case compute_invalidation_actions e of
        Inl er \<Rightarrow> throw er
      | Inr acts \<Rightarrow> run_actions scan wk acts)"

definition worker_db :: "(world, outbox_error, 'a) op \<Rightarrow> (world, worker_error, 'a) op" where
  "worker_db m = map_err (\<lambda>e. case e of OutboxDatabase d \<Rightarrow> DbErr d) m"

definition handle_failure :: "worker \<Rightarrow> outbox_event \<Rightarrow> (world, worker_error, unit) op" where
  "handle_failure wk e =
     (let retry_count = extract_retry_count (oe_payload e)
      in if retry_count < wk_max_retries wk
         then bindE (worker_db (outbox_enqueue (oe_event_type e) (oe_aggregate_id e)
                (augment_retry_count (oe_payload e) (retry_count + 1)))) (\<lambda>_.
              worker_db (outbox_mark_done (oe_event_id e)))
         else worker_db (outbox_mark_failed (oe_event_id e)))"

text \<open>
  One dequeued event: process it, then mark it done or handle the failure.  The result
  carries the error whose text the code reports.
\<close>

record processing_result =
  pr_event_id :: uuid
  pr_success :: bool
  pr_error :: "worker_error option"

definition process_one :: "scan_oracle \<Rightarrow> worker \<Rightarrow> outbox_event \<Rightarrow> (world, worker_error, processing_result) op" where
  "process_one scan wk e =
     tryE (process_event scan wk e) (\<lambda>r. case r of
       Inr _ \<Rightarrow> tryE (outbox_mark_done (oe_event_id e)) (\<lambda>d. case d of
                  Inr _ \<Rightarrow> ret \<lparr>pr_event_id = oe_event_id e, pr_success = True, pr_error = None\<rparr>
                | Inl er \<Rightarrow> ret \<lparr>pr_event_id = oe_event_id e, pr_success = False,
                               pr_error = Some (case er of OutboxDatabase x \<Rightarrow> DbErr x)\<rparr>)
     | Inl er \<Rightarrow> tryE (handle_failure wk e) (\<lambda>_.
                  ret \<lparr>pr_event_id = oe_event_id e, pr_success = False, pr_error = Some er\<rparr>))"

fun process_all :: "scan_oracle \<Rightarrow> worker \<Rightarrow> outbox_event list \<Rightarrow> (world, worker_error, processing_result list) op" where
  "process_all scan wk [] = ret []"
| "process_all scan wk (e # es) =
     bindE (process_one scan wk e) (\<lambda>r. bindE (process_all scan wk es) (\<lambda>rs. ret (r # rs)))"

definition process_batch :: "scan_oracle \<Rightarrow> worker \<Rightarrow> (world, worker_error, processing_result list) op" where
  "process_batch scan wk =
     tryE (outbox_dequeue (wk_batch_size wk)) (\<lambda>r. case r of
       Inl _ \<Rightarrow> ret []
     | Inr events \<Rightarrow> process_all scan wk events)"

text \<open>
  The polling loop without its sleeps: \<open>n\<close> iterations before the shutdown signal.
\<close>

fun run_worker :: "scan_oracle \<Rightarrow> worker \<Rightarrow> nat \<Rightarrow> world \<Rightarrow> world" where
  "run_worker scan wk 0 w = w"
| "run_worker scan wk (Suc n) w = run_worker scan wk n (snd (process_batch scan wk w))"

section \<open>Decoding\<close>

text \<open>
  The decoder knows eight of the eleven event types; the other three come back as
  \<open>UserContextUpdated\<close>.
\<close>

lemma parse_event_type_iff:
  "parse_event_type (event_type_as_str t) = t \<longleftrightarrow>
     t \<notin> {MemoryProposed, MemoryQuarantined, ExperienceOutcomeRecorded}"
  by (cases t) (simp_all add: parse_event_type_def)

lemma parse_event_type_unknown:
  "t \<in> {MemoryProposed, MemoryQuarantined, ExperienceOutcomeRecorded} \<Longrightarrow>
     parse_event_type (event_type_as_str t) = UserContextUpdated"
  by (auto simp: parse_event_type_def)

lemma parse_outbox_as_str [simp]: "parse_outbox_status (outbox_status_as_str st) = st"
  by (cases st) (simp_all add: parse_outbox_status_def)

lemma extract_augment:
  "n < 2 ^ 32 \<Longrightarrow> extract_retry_count (augment_retry_count p n) = n"
  by (cases p) (simp_all add: extract_retry_count_def augment_retry_count_def)

lemma payload_str_augment:
  "field \<noteq> ''retry_count'' \<Longrightarrow> p = JObject m \<Longrightarrow>
     payload_str (augment_retry_count p n) field = payload_str p field"
  by (simp add: payload_str_def augment_retry_count_def)

section \<open>The invariant of the queue\<close>

definition wf_outbox :: "world \<Rightarrow> bool" where
  "wf_outbox w \<longleftrightarrow> distinct (map o_event_id (outbox_events w)) \<and>
     (\<forall>r \<in> set (outbox_events w). o_status r \<in> range outbox_status_as_str)"

lemma wf_outbox_frame [simp]:
  "wf_outbox (w\<lparr>tick := t\<rparr>) = wf_outbox w" "wf_outbox (w\<lparr>redis_keys := k\<rparr>) = wf_outbox w"
  by (simp_all add: wf_outbox_def)

lemma status_text_in_range [simp]:
  "''pending'' \<in> range outbox_status_as_str" "''processing'' \<in> range outbox_status_as_str"
  "''done'' \<in> range outbox_status_as_str" "''failed'' \<in> range outbox_status_as_str"
  by (auto intro: range_eqI [of _ _ Pending] range_eqI [of _ _ Processing]
      range_eqI [of _ _ Done] range_eqI [of _ _ Failed])

lemma wf_outbox_update:
  assumes "wf_outbox w" and "\<And>r. o_event_id (f r) = o_event_id r"
    and "\<And>r. o_status (f r) \<in> range outbox_status_as_str"
  shows "wf_outbox (w\<lparr>outbox_events := sql_update p f (outbox_events w)\<rparr>)"
  using assms by (auto simp: wf_outbox_def set_sql_update)

lemma keeps_update_outbox_row:
  assumes "\<And>w t. P w \<Longrightarrow> P (w\<lparr>tick := t\<rparr>)"
    and "\<And>w t. P w \<Longrightarrow>
      P (w\<lparr>outbox_events := sql_update (\<lambda>r. o_event_id r = i) (f t) (outbox_events w)\<rparr>)"
  shows "keeps P (update_outbox_row i f)"
  unfolding update_outbox_row_def by (intro keep_intros) (auto intro: assms)

lemma keeps_wf_mark [keep_intros]:
  "keeps wf_outbox (outbox_mark_done i)" "keeps wf_outbox (outbox_mark_failed i)"
  unfolding outbox_mark_done_def outbox_mark_failed_def
  by (auto intro!: keeps_update_outbox_row wf_outbox_update)

lemma keeps_wf_enqueue [keep_intros]: "keeps wf_outbox (outbox_enqueue ty agg p)"
  unfolding outbox_enqueue_def
  by (intro keep_intros) (auto intro!: keepsI simp: wf_outbox_def new_outbox_row_def split: if_splits)

lemma keeps_wf_dequeue [keep_intros]: "keeps wf_outbox (outbox_dequeue n)"
  unfolding outbox_dequeue_def
  by (intro keep_intros) (auto intro!: keepsI wf_outbox_update simp: Let_def split: if_splits)

text \<open>
  Processing an event only deletes Redis keys: a predicate kept by \<open>redis_del\<close> is kept by
  it, and one kept by enqueueing and by the two marks as well is kept by the whole worker.
\<close>

lemma keeps_run_action:
  assumes "\<And>w t. P w \<Longrightarrow> P (w\<lparr>tick := t\<rparr>)" and "\<And>ks. keeps P (redis_del ks)"
  shows "keeps P (run_action scan wk a)"
  unfolding run_action_def
  by (cases a) (auto intro!: keep_intros keeps_invalidate_pattern assms
      simp: invalidate_user_context_def invalidate_task_context_def)

lemma keeps_run_actions:
  assumes "\<And>w t. P w \<Longrightarrow> P (w\<lparr>tick := t\<rparr>)" and "\<And>ks. keeps P (redis_del ks)"
  shows "keeps P (run_actions scan wk as)"
  using keeps_run_action [of P, OF assms] by (induction as) (auto intro!: keep_intros)

lemma keeps_process_event:
  assumes "\<And>w t. P w \<Longrightarrow> P (w\<lparr>tick := t\<rparr>)" and "\<And>ks. keeps P (redis_del ks)"
  shows "keeps P (process_event scan wk e)"
  unfolding process_event_def
  using keeps_run_actions [of P, OF assms] by (auto intro!: keep_intros split: sum.split)

lemma keeps_process_one:
  assumes "\<And>w t. P w \<Longrightarrow> P (w\<lparr>tick := t\<rparr>)" and "\<And>ks. keeps P (redis_del ks)"
    and "\<And>ty a p. keeps P (outbox_enqueue ty a p)"
    and "\<And>i. keeps P (outbox_mark_done i)" and "\<And>i. keeps P (outbox_mark_failed i)"
  shows "keeps P (process_one scan wk e)"
  unfolding process_one_def handle_failure_def worker_db_def Let_def
  by (intro keep_intros keeps_process_event assms)

lemma keeps_process_all:
  assumes "\<And>e. keeps P (process_one scan wk e)"
  shows "keeps P (process_all scan wk es)"
  using assms by (induction es) (auto intro!: keep_intros)

lemma keeps_process_batch:
  assumes "\<And>e. keeps P (process_one scan wk e)" and "keeps P (outbox_dequeue (wk_batch_size wk))"
  shows "keeps P (process_batch scan wk)"
  unfolding process_batch_def by (intro keep_intros keeps_process_all assms)

lemma keeps_wf_process_batch [keep_intros]: "keeps wf_outbox (process_batch scan wk)"
  by (intro keeps_process_batch keeps_process_one keeps_redis_del keep_intros) auto

text \<open>Whatever reads neither the queue nor the step counter is kept by the queue operations.\<close>

lemma keeps_outbox_frame:
  assumes "\<And>w t. P w \<Longrightarrow> P (w\<lparr>tick := t\<rparr>)" and "\<And>w rows. P w \<Longrightarrow> P (w\<lparr>outbox_events := rows\<rparr>)"
  shows "keeps P (outbox_enqueue ty agg p)" "keeps P (outbox_mark_done i)"
    "keeps P (outbox_mark_failed i)" "keeps P (outbox_dequeue n)"
  unfolding outbox_enqueue_def outbox_mark_done_def outbox_mark_failed_def outbox_dequeue_def
  by (intro keep_intros keeps_update_outbox_row keepsI;
      auto simp: Let_def intro: assms split: if_splits)+

section \<open>What a dequeue returns\<close>

lemma set_oldest_pending:
  "set (oldest_pending n rows) \<subseteq> o_event_id ` {r \<in> set rows. o_status r = ''pending''}"
  by (auto simp: oldest_pending_def dest!: in_set_takeD)

lemma picked_is_pending:
  assumes "distinct (map o_event_id rows)" and "r \<in> set rows"
    and "o_event_id r \<in> set (oldest_pending n rows)"
  shows "o_status r = ''pending''"
proof -
  obtain x where x: "x \<in> set rows" "o_status x = ''pending''" "o_event_id x = o_event_id r"
    using subsetD [OF set_oldest_pending assms(3)] by auto
  then have "x = r"
    using assms(1,2) distinct_key_unique by metis
  with x show ?thesis by simp
qed

lemma dequeue_run:
  assumes "\<not> fails w (tick w)" and "0 \<le> n"
  shows "outbox_dequeue n w =
    (let picked = (\<lambda>r. o_event_id r \<in> set (oldest_pending n (outbox_events w)))
     in (Inr (map (\<lambda>r. map_row_to_outbox_event (r\<lparr>o_status := ''processing''\<rparr>)) (filter picked (outbox_events w))),
         w\<lparr>tick := Suc (tick w),
           outbox_events := sql_update picked (\<lambda>r. r\<lparr>o_status := ''processing''\<rparr>) (outbox_events w)\<rparr>))"
proof -
  have filter_upd: "filter p (sql_update p (\<lambda>r. r\<lparr>o_status := ''processing''\<rparr>) rows) =
      map (\<lambda>r. r\<lparr>o_status := ''processing''\<rparr>) (filter p rows)"
    if "\<And>r. p (r\<lparr>o_status := ''processing''\<rparr>) = p r" for p :: "outbox_row \<Rightarrow> bool" and rows
    using that by (induction rows) (auto simp: sql_update_def)
  show ?thesis
    using assms by (simp add: outbox_dequeue_def monad_defs Let_def filter_upd o_def)
qed

section \<open>The retry budget\<close>

text \<open>
  A pending row is worth one attempt plus the retries it has left; other rows are worth
  nothing.
\<close>

definition row_budget :: "worker \<Rightarrow> outbox_row \<Rightarrow> nat" where
  "row_budget wk r = (if o_status r = ''pending''
     then 1 + (wk_max_retries wk - extract_retry_count (o_payload r)) else 0)"

definition outbox_budget :: "worker \<Rightarrow> world \<Rightarrow> nat" where
  "outbox_budget wk w = sum_list (map (row_budget wk) (outbox_events w))"

lemma outbox_budget_frame [simp]:
  "outbox_budget wk (w\<lparr>tick := t\<rparr>) = outbox_budget wk w"
  "outbox_budget wk (w\<lparr>redis_keys := k\<rparr>) = outbox_budget wk w"
  by (simp_all add: outbox_budget_def)

lemma sum_list_update_le:
  "(\<And>r. g (f r) \<le> (g r :: nat)) \<Longrightarrow> sum_list (map g (sql_update p f rows)) \<le> sum_list (map g rows)"
  by (induction rows) (auto simp: sql_update_def intro: add_mono)

lemma sum_list_update_zero:
  "(\<And>r. p r \<Longrightarrow> g (f r) = (0::nat)) \<Longrightarrow>
     sum_list (map g (sql_update p f rows)) + sum_list (map g (filter p rows)) = sum_list (map g rows)"
  by (induction rows) (auto simp: sql_update_def)

lemma budget_mark: "keeps (\<lambda>w. outbox_budget wk w \<le> B) (outbox_mark_done i)"
  "keeps (\<lambda>w. outbox_budget wk w \<le> B) (outbox_mark_failed i)"
  unfolding outbox_mark_done_def outbox_mark_failed_def
  by (auto intro!: keeps_update_outbox_row elim!: order_trans [rotated]
      simp: outbox_budget_def row_budget_def intro!: sum_list_update_le)

lemma budget_enqueue:
  "outbox_budget wk (snd (outbox_enqueue ty agg p w)) \<le>
     outbox_budget wk w + (1 + (wk_max_retries wk - extract_retry_count p))"
  by (auto simp: outbox_enqueue_def prim_defs monad_defs outbox_budget_def new_outbox_row_def row_budget_def)

lemma budget_handle_failure:
  assumes "wk_max_retries wk < 2 ^ 32"
  shows "outbox_budget wk (snd (handle_failure wk e w)) \<le>
     outbox_budget wk w + (wk_max_retries wk - extract_retry_count (oe_payload e))"
proof (cases "extract_retry_count (oe_payload e) < wk_max_retries wk")
  case True
  let ?n = "extract_retry_count (oe_payload e)"
  let ?B = "outbox_budget wk w + (wk_max_retries wk - ?n)"
  have "extract_retry_count (augment_retry_count (oe_payload e) (?n + 1)) = ?n + 1"
    using True assms by (intro extract_augment) simp
  then have enq: "outbox_budget wk (snd (outbox_enqueue (oe_event_type e) (oe_aggregate_id e)
       (augment_retry_count (oe_payload e) (?n + 1)) w)) \<le> ?B"
    using budget_enqueue [of wk "oe_event_type e" "oe_aggregate_id e"
        "augment_retry_count (oe_payload e) (?n + 1)" w] True by simp
  then show ?thesis
    using True budget_mark(1) [of wk ?B "oe_event_id e"]
    by (auto simp: handle_failure_def worker_db_def Let_def bindE_def map_err_def keeps_def
        split: prod.splits sum.splits)
next
  case False
  then show ?thesis
    using budget_mark(2) [of wk "outbox_budget wk w" "oe_event_id e"]
    by (auto simp: handle_failure_def worker_db_def map_err_def keeps_def
        split: prod.splits sum.splits)
qed

lemma budget_process_one:
  assumes "wk_max_retries wk < 2 ^ 32"
  shows "outbox_budget wk (snd (process_one scan wk e w)) \<le>
     outbox_budget wk w + (wk_max_retries wk - extract_retry_count (oe_payload e))"
proof -
  obtain r w' where pe: "process_event scan wk e w = (r, w')" by fastforce
  have same: "outbox_budget wk w' = outbox_budget wk w"
    using keepsD [OF keeps_process_event [OF _ keeps_redis_del,
        of "\<lambda>x. outbox_budget wk x = outbox_budget wk w"] _ pe] by simp
  show ?thesis
  proof (cases r)
    case (Inl er)
    obtain a w2 where hf: "handle_failure wk e w' = (a, w2)" by fastforce
    with pe same Inl show ?thesis
      using budget_handle_failure [OF assms, of e w']
      by (simp add: process_one_def tryE_def ret_def)
  next
    case (Inr u)
    obtain d w2 where md: "outbox_mark_done (oe_event_id e) w' = (d, w2)" by fastforce
    then have "outbox_budget wk w2 \<le> outbox_budget wk w'"
      using keepsD [OF budget_mark(1) [of wk "outbox_budget wk w'"] _ md] by simp
    with pe same Inr md show ?thesis
      by (cases d) (simp_all add: process_one_def tryE_def ret_def)
  qed
qed

lemma process_one_total: "\<exists>x. fst (process_one scan wk e w) = Inr x"
  by (auto simp: process_one_def monad_defs split: prod.splits sum.splits)

lemma budget_process_all:
  assumes "wk_max_retries wk < 2 ^ 32"
  shows "outbox_budget wk (snd (process_all scan wk es w)) \<le> outbox_budget wk w +
     sum_list (map (\<lambda>e. wk_max_retries wk - extract_retry_count (oe_payload e)) es)"
proof (induction es arbitrary: w)
  case Nil
  show ?case by (simp add: ret_def)
next
  case (Cons e es)
  obtain x w' where p: "process_one scan wk e w = (Inr x, w')"
    using process_one_total [of scan wk e w] by (metis prod.collapse)
  have "snd (process_all scan wk (e # es) w) = snd (process_all scan wk es w')"
    using p by (simp add: bindE_def ret_def split: prod.splits sum.splits)
  then show ?case
    using Cons.IH [of w'] budget_process_one [OF assms, of scan e w] p by simp
qed

lemma process_all_results:
  "\<exists>rs. fst (process_all scan wk es w) = Inr rs \<and> map pr_event_id rs = map oe_event_id es"
proof (induction es arbitrary: w)
  case Nil
  show ?case by (simp add: ret_def)
next
  case (Cons e es)
  obtain x w' where p: "process_one scan wk e w = (Inr x, w')"
    using process_one_total [of scan wk e w] by (metis prod.collapse)
  then have id: "pr_event_id x = oe_event_id e"
    by (auto simp: process_one_def monad_defs split: prod.splits sum.splits)
  obtain rs where "fst (process_all scan wk es w') = Inr rs" "map pr_event_id rs = map oe_event_id es"
    using Cons.IH by blast
  with p id show ?case
    by (auto simp: bindE_def ret_def split: prod.splits sum.splits)
qed

text \<open>
  A batch pays one unit of budget per event it takes, whatever fails afterwards.
\<close>

lemma row_budget_pending:
  "(\<And>r. r \<in> set rows \<Longrightarrow> o_status r = ''pending'') \<Longrightarrow>
     sum_list (map (row_budget wk) rows) =
       sum_list (map (\<lambda>e. wk_max_retries wk - extract_retry_count (oe_payload e))
         (map (\<lambda>r. map_row_to_outbox_event (r\<lparr>o_status := ''processing''\<rparr>)) rows)) + length rows"
  by (induction rows) (simp_all add: row_budget_def map_row_to_outbox_event_def)

lemma budget_process_batch:
  assumes wf: "wf_outbox w" and ok: "\<not> fails w (tick w)" and n: "0 \<le> wk_batch_size wk"
    and mr: "wk_max_retries wk < 2 ^ 32"
  shows "outbox_budget wk (snd (process_batch scan wk w)) +
      length (filter (\<lambda>r. o_event_id r \<in> set (oldest_pending (wk_batch_size wk) (outbox_events w))) (outbox_events w))
    \<le> outbox_budget wk w"
proof -
  define picked :: "outbox_row \<Rightarrow> bool" where "picked = (\<lambda>r. o_event_id r \<in> set (oldest_pending (wk_batch_size wk) (outbox_events w)))"
  let ?rows = "filter picked (outbox_events w)"
  let ?f = "\<lambda>r :: outbox_row. r\<lparr>o_status := ''processing''\<rparr>"
  define es where "es = map (\<lambda>r. map_row_to_outbox_event (?f r)) ?rows"
  define w' where "w' = w\<lparr>tick := Suc (tick w), outbox_events := sql_update picked ?f (outbox_events w)\<rparr>"
  have dq: "outbox_dequeue (wk_batch_size wk) w = (Inr es, w')"
    using dequeue_run [OF ok n] by (simp add: Let_def picked_def es_def w'_def)
  have pend: "o_status r = ''pending''" if "r \<in> set ?rows" for r
    using that picked_is_pending wf by (auto simp: picked_def wf_outbox_def)
  have "sum_list (map (row_budget wk) ?rows) =
      sum_list (map (\<lambda>e. wk_max_retries wk - extract_retry_count (oe_payload e)) es) + length ?rows"
    using row_budget_pending [of ?rows wk, OF pend] by (simp add: es_def)
  moreover have "outbox_budget wk w' + sum_list (map (row_budget wk) ?rows) = outbox_budget wk w"
    using sum_list_update_zero [of picked "row_budget wk" ?f "outbox_events w"]
    by (simp add: w'_def outbox_budget_def row_budget_def)
  moreover have "outbox_budget wk (snd (process_batch scan wk w)) \<le> outbox_budget wk w' +
      sum_list (map (\<lambda>e. wk_max_retries wk - extract_retry_count (oe_payload e)) es)"
    using budget_process_all [OF mr, of scan es w'] dq by (simp add: process_batch_def tryE_def)
  ultimately show ?thesis by (simp add: picked_def)
qed

lemma oldest_pending_nonempty:
  assumes "0 < n" and "r \<in> set rows" and "o_status r = ''pending''"
  shows "\<exists>x \<in> set rows. o_event_id x \<in> set (oldest_pending n rows)"
proof -
  have "filter (\<lambda>r. o_status r = ''pending'') rows \<noteq> []"
    using assms(2,3) by (auto simp: filter_empty_conv)
  then have "sort_key o_created_at (filter (\<lambda>r. o_status r = ''pending'') rows) \<noteq> []"
    by (metis set_empty set_sort)
  then have "oldest_pending n rows \<noteq> []"
    using assms(1) by (simp add: oldest_pending_def)
  then obtain i where "i \<in> set (oldest_pending n rows)" by (cases "oldest_pending n rows") auto
  then show ?thesis using subsetD [OF set_oldest_pending] by fastforce
qed

lemma fails_process_batch: "keeps (\<lambda>w. fails w = F) (process_batch scan wk)"
  by (intro keeps_process_batch keeps_process_one keeps_redis_del keeps_outbox_frame) auto

lemma budget_zero_no_pending:
  "outbox_budget wk w = 0 \<Longrightarrow> r \<in> set (outbox_events w) \<Longrightarrow> o_status r \<noteq> ''pending''"
  by (auto simp: outbox_budget_def row_budget_def split: if_splits)

lemma budget_run_worker:
  assumes "wf_outbox w" and "\<And>t. \<not> fails w t" and "0 < wk_batch_size wk"
    and "wk_max_retries wk < 2 ^ 32" and "outbox_budget wk w \<le> n"
  shows "outbox_budget wk (run_worker scan wk n w) = 0"
  using assms
proof (induction n arbitrary: w)
  case 0
  then show ?case by simp
next
  case (Suc n)
  let ?w = "snd (process_batch scan wk w)"
  have wf: "wf_outbox ?w" and nf: "fails ?w = fails w"
    using keepsD [OF keeps_wf_process_batch Suc.prems(1)] keepsD [OF fails_process_batch [of "fails w"]]
    by (metis prod.collapse)+
  have step: "outbox_budget wk ?w + length (filter (\<lambda>r. o_event_id r \<in>
      set (oldest_pending (wk_batch_size wk) (outbox_events w))) (outbox_events w)) \<le> outbox_budget wk w"
    using Suc.prems by (intro budget_process_batch) auto
  have "outbox_budget wk ?w \<le> n"
  proof (cases "\<exists>r \<in> set (outbox_events w). o_status r = ''pending''")
    case True
    then have "filter (\<lambda>r. o_event_id r \<in>
        set (oldest_pending (wk_batch_size wk) (outbox_events w))) (outbox_events w) \<noteq> []"
      using oldest_pending_nonempty Suc.prems(3) by (fastforce simp: filter_empty_conv)
    then have "0 < length (filter (\<lambda>r. o_event_id r \<in>
        set (oldest_pending (wk_batch_size wk) (outbox_events w))) (outbox_events w))" by blast
    with step Suc.prems(5) show ?thesis by linarith
  next
    case False
    then have "outbox_budget wk w = 0"
      by (auto simp: outbox_budget_def row_budget_def)
    with step show ?thesis by simp
  qed
  then show ?case
    using Suc.IH [of ?w] Suc.prems wf nf by simp
qed

section \<open>Frame of one event\<close>

text \<open>Handling one event changes no row but its own, and never removes a row.\<close>

lemma keeps_row_update:
  assumes "o_event_id r \<noteq> i"
  shows "keeps (\<lambda>w. r \<in> set (outbox_events w)) (update_outbox_row i f)"
  using assms by (auto intro!: keeps_update_outbox_row simp: set_sql_update)

lemma keeps_row_enqueue: "keeps (\<lambda>w. r \<in> set (outbox_events w)) (outbox_enqueue ty agg p)"
  unfolding outbox_enqueue_def by (intro keep_intros) (auto intro!: keepsI split: if_splits)

lemma keeps_row_process_one:
  assumes "o_event_id r \<noteq> oe_event_id e"
  shows "keeps (\<lambda>w. r \<in> set (outbox_events w)) (process_one scan wk e)"
  unfolding process_one_def handle_failure_def worker_db_def Let_def outbox_mark_done_def outbox_mark_failed_def
  by (intro keep_intros keeps_process_event keeps_redis_del keeps_row_enqueue keeps_row_update assms) auto

lemma keeps_row_process_all:
  assumes "o_event_id r \<notin> oe_event_id ` set es"
  shows "keeps (\<lambda>w. r \<in> set (outbox_events w)) (process_all scan wk es)"
  using assms by (induction es) (auto intro!: keep_intros keeps_row_process_one)

lemma keeps_row_process_batch:
  assumes "wf_outbox w" and "r \<in> set (outbox_events w)" and "o_status r \<noteq> ''pending''"
  shows "r \<in> set (outbox_events (snd (process_batch scan wk w)))"
proof (cases "fails w (tick w) \<or> wk_batch_size wk < 0")
  case True
  with assms(2) show ?thesis
    by (auto simp: process_batch_def outbox_dequeue_def monad_defs exec_def)
next
  case False
  let ?picked = "\<lambda>r. o_event_id r \<in> set (oldest_pending (wk_batch_size wk) (outbox_events w))"
  let ?f = "\<lambda>r :: outbox_row. r\<lparr>o_status := ''processing''\<rparr>"
  let ?es = "map (\<lambda>r. map_row_to_outbox_event (?f r)) (filter ?picked (outbox_events w))"
  let ?w' = "w\<lparr>tick := Suc (tick w), outbox_events := sql_update ?picked ?f (outbox_events w)\<rparr>"
  have np: "\<not> ?picked r"
    using picked_is_pending assms by (auto simp: wf_outbox_def)
  then have "r \<in> set (outbox_events ?w')" "o_event_id r \<notin> oe_event_id ` set ?es"
    using assms(2) by (auto simp: set_sql_update map_row_to_outbox_event_def)
  then have "r \<in> set (outbox_events (snd (process_all scan wk ?es ?w')))"
    using keeps_row_process_all [of r ?es scan wk] by (simp add: keeps_def)
  then show ?thesis
    using False dequeue_run [of w "wk_batch_size wk"] by (simp add: process_batch_def tryE_def Let_def)
qed

section \<open>Deliveries\<close>

text \<open>The worker only ever removes Redis keys.\<close>

lemma keeps_absent_process_one: "keeps (\<lambda>w. redis_keys w k = None) (process_one scan wk e)"
  by (intro keeps_process_one keeps_absent_del keeps_outbox_frame) auto

lemmas keeps_absent_process_all = keeps_process_all [OF keeps_absent_process_one]

text \<open>The key an event's user invalidation removes.\<close>

definition user_key_of :: "outbox_event \<Rightarrow> string option" where
  "user_key_of e =
     (case (payload_str (oe_payload e) ''tenant_id'', payload_str (oe_payload e) ''user_id'') of
        (Inr t, Inr u) \<Rightarrow> Some (user_context_key t u) | _ \<Rightarrow> None)"

lemma process_event_clears_user:
  assumes "process_event scan wk e w = (Inr x, w')" and "wk_hot_context wk"
    and "oe_event_type e \<in> {UserContextUpdated, PreferenceUpdated, MemoryRevoked, MemoryExpired, PermissionChanged}"
  shows "\<exists>k. user_key_of e = Some k \<and> redis_keys w' k = None"
proof -
  obtain a as where acts: "compute_invalidation_actions e = Inr (a # as)"
    and key: "\<exists>t u. user_key_of e = Some (user_context_key t u) \<and>
      a \<in> {InvalidateUserContext t u, InvalidatePermissions t u}"
    using assms(1,3) by (auto simp: process_event_def compute_invalidation_actions_def user_key_of_def
        throw_def Let_def split: sum.splits)
  then obtain t u where tu: "user_key_of e = Some (user_context_key t u)"
    "a \<in> {InvalidateUserContext t u, InvalidatePermissions t u}" by blast
  from assms(1) acts obtain w1 where w1: "run_action scan wk a w = (Inr (), w1)"
    and rest: "run_actions scan wk as w1 = (Inr x, w')"
    by (auto simp: process_event_def bindE_Inr_iff)
  from w1 tu(2) assms(2) have "redis_keys w1 (user_context_key t u) = None"
    by (auto simp: run_action_def invalidate_user_context_def map_err_def
        dest!: redis_cache_laws(3) split: prod.splits sum.splits)
  then have "redis_keys w' (user_context_key t u) = None"
    using keepsD [OF keeps_run_actions [OF _ keeps_absent_del] _ rest] by simp
  with tu show ?thesis by blast
qed

lemma process_all_clears_user:
  assumes "process_all scan wk es w = (Inr rs, w')" and "r \<in> set rs" and "pr_success r"
    and "wk_hot_context wk"
    and "\<And>e. e \<in> set es \<Longrightarrow> oe_event_id e = pr_event_id r \<Longrightarrow>
      oe_event_type e \<in> {UserContextUpdated, PreferenceUpdated, MemoryRevoked, MemoryExpired, PermissionChanged}"
  shows "\<exists>e \<in> set es. oe_event_id e = pr_event_id r \<and>
      (\<exists>k. user_key_of e = Some k \<and> redis_keys w' k = None)"
  using assms
proof (induction es arbitrary: w rs)
  case Nil
  then show ?case by (simp add: ret_def)
next
  case (Cons e es)
  from Cons.prems(1) obtain x w1 xs where x: "process_one scan wk e w = (Inr x, w1)"
    and xs: "process_all scan wk es w1 = (Inr xs, w')" and rs: "rs = x # xs"
    by (auto simp: bindE_Inr_iff ret_def)
  show ?case
  proof (cases "r = x")
    case True
    with Cons.prems(3) x obtain u w0 where pe: "process_event scan wk e w = (Inr u, w0)"
      and w1: "outbox_mark_done (oe_event_id e) w0 = (Inr (), w1)" and id: "pr_event_id r = oe_event_id e"
      by (auto simp: process_one_def monad_defs split: prod.splits sum.splits)
    obtain k where k: "user_key_of e = Some k" "redis_keys w0 k = None"
      using process_event_clears_user [OF pe Cons.prems(4)] Cons.prems(5) [of e] id by auto
    have "redis_keys w1 k = None"
      using keepsD [OF keeps_outbox_frame(2) _ w1, of "\<lambda>w. redis_keys w k = None"] k by simp
    then have "redis_keys w' k = None"
      using keepsD [OF keeps_absent_process_all _ xs, of k] by simp
    with k id show ?thesis by auto
  next
    case False
    with Cons.IH [OF xs _ Cons.prems(3,4)] Cons.prems(2,5) rs show ?thesis by auto
  qed
qed

section \<open>Order of delivery\<close>

lemma left_behind_not_older:
  assumes "distinct (map o_event_id rows)" and "x \<in> set rows" and "o_status x = ''pending''"
    and "o_event_id x \<notin> set (oldest_pending n rows)"
    and "y \<in> set rows" and "o_event_id y \<in> set (oldest_pending n rows)"
  shows "o_created_at y \<le> o_created_at x"
proof -
  define ps where "ps = sort_key o_created_at (filter (\<lambda>r. o_status r = ''pending'') rows)"
  have ids: "oldest_pending n rows = map o_event_id (take (nat n) ps)"
    by (simp add: oldest_pending_def ps_def take_map)
  have sub: "set ps \<subseteq> set rows" and x: "x \<in> set ps"
    using assms(2,3) by (auto simp: ps_def)
  have inj: "a = b" if "a \<in> set rows" "b \<in> set rows" "o_event_id a = o_event_id b" for a b
    using distinct_key_unique [OF assms(1)] that by blast
  obtain z where z: "z \<in> set (take (nat n) ps)" "o_event_id y = o_event_id z"
    using assms(6) by (auto simp: ids)
  then have "z \<in> set rows" using in_set_takeD sub by fast
  then have y: "y \<in> set (take (nat n) ps)"
    using z inj [OF assms(5)] by simp
  have "set ps = set (take (nat n) ps) \<union> set (drop (nat n) ps)"
    by (metis append_take_drop_id set_append)
  then have "x \<in> set (drop (nat n) ps)"
    using x assms(4) by (auto simp: ids)
  moreover have "sorted (map o_created_at (take (nat n) ps @ drop (nat n) ps))"
    by (simp add: ps_def)
  ultimately show ?thesis
    using y unfolding map_append sorted_append set_map by blast
qed

lemma length_oldest_pending:
  "length (oldest_pending n rows) = min (nat n) (rows_matching (\<lambda>r. o_status r = ''pending'') rows)"
  by (simp add: oldest_pending_def rows_matching_def)

lemma length_picked:
  assumes "distinct (map o_event_id rows)"
  shows "length (filter (\<lambda>r. o_event_id r \<in> set (oldest_pending n rows)) rows) = length (oldest_pending n rows)"
proof -
  have d: "distinct (oldest_pending n rows)"
    using assms by (simp add: oldest_pending_def distinct_map inj_on_def)
  have "set (map o_event_id (filter (\<lambda>r. o_event_id r \<in> set (oldest_pending n rows)) rows)) =
      set (oldest_pending n rows)"
    using set_oldest_pending by fastforce
  moreover have "distinct (map o_event_id (filter (\<lambda>r. o_event_id r \<in> set (oldest_pending n rows)) rows))"
    using assms by (rule distinct_map_filter)
  ultimately show ?thesis
    using d by (metis distinct_card length_map)
qed

section \<open>Properties\<close>

text \<open>
  Two events for the witnesses below: one the worker can handle, one whose payload misses
  the fields its type needs.
\<close>

definition demo_queue :: world where
  "demo_queue = empty_world\<lparr>outbox_events :=
     [new_outbox_row ''e1'' UserContextUpdated ''u'' (JObject [(''tenant_id'', JString ''t''), (''user_id'', JString ''u'')]) 1,
      new_outbox_row ''e2'' MemoryRevoked ''m'' (JObject [(''memory_id'', JString ''m'')]) 2],
     redis_keys := [''oris:hotctx:t:u'' \<mapsto> (''ctx'', secs 100)]\<rparr>"

definition no_scan :: scan_oracle where
  "no_scan p w = []"

lemma demo_queue_simps:
  "wf_outbox demo_queue" "fails demo_queue t = False"
  "outbox_budget worker_new demo_queue = 8"
  by (simp_all add: demo_queue_def wf_outbox_def new_outbox_row_def empty_world_def outbox_budget_def
      row_budget_def worker_new_def extract_retry_count_def)

lemmas worker_run = process_batch_def dequeue_run Let_def tryE_def oldest_pending_def
  new_outbox_row_def map_row_to_outbox_event_def sql_update_def parse_event_type_def
  process_one_def process_event_def compute_invalidation_actions_def payload_str_def
  handle_failure_def monad_defs run_action_def outbox_mark_done_def outbox_mark_failed_def
  update_outbox_row_def outbox_enqueue_def worker_db_def prim_defs extract_retry_count_def
  augment_retry_count_def redis_ops redis_prims user_context_key_def

text \<open>
  C2 (liveness).  With reachable servers the worker empties the queue: after as many
  iterations of the polling loop as the queue has retry budget, no row is pending, although
  every failed attempt enqueues a new row.  The budget of a pending row is one attempt plus
  the retries its payload still allows.
\<close>

theorem outbox_drains:
  assumes "wf_outbox w" and "\<And>t. \<not> fails w t" and "0 < wk_batch_size wk"
    and "wk_max_retries wk < 2 ^ 32" and "r \<in> set (outbox_events (run_worker scan wk (outbox_budget wk w) w))"
  shows "o_status r \<noteq> ''pending''"
  using budget_run_worker [OF assms(1-4) order_refl] assms(5) by (rule budget_zero_no_pending)

theorem outbox_drains_witness:
  "\<not> (\<exists>r \<in> set (outbox_events (run_worker no_scan worker_new 8 demo_queue)). o_status r = ''pending'')"
  using outbox_drains [of demo_queue worker_new _ no_scan]
  by (auto simp: demo_queue_simps) (auto simp: worker_new_def)

text \<open>
  A row that left \<open>pending\<close> is never touched again: whatever the worker
  does, and whichever statement fails, a row in status processing, done or failed stays in
  the table unchanged, so no event is delivered twice and the log is not rewritten.
\<close>

theorem settled_rows_frozen:
  assumes "wf_outbox w" and "r \<in> set (outbox_events w)" and "o_status r \<noteq> ''pending''"
  shows "r \<in> set (outbox_events (snd (process_batch scan wk w))) \<and>
    wf_outbox (snd (process_batch scan wk w))"
  using keeps_row_process_batch [OF assms] keeps_wf_process_batch [of scan wk] assms(1)
  by (simp add: keeps_def)

theorem settled_rows_frozen_witness:
  "\<exists>r. o_status r = ''done'' \<and>
     r \<in> set (outbox_events (snd (process_batch no_scan worker_new
       (demo_queue\<lparr>outbox_events := [r], fails := (\<lambda>n. n > 0)\<rparr>))))"
proof (intro exI conjI)
  let ?r = "(new_outbox_row ''e1'' MemoryRevoked ''m'' JNull 1)\<lparr>o_status := ''done''\<rparr>"
  show "o_status ?r = ''done''" by (simp add: new_outbox_row_def)
  show "?r \<in> set (outbox_events (snd (process_batch no_scan worker_new
       (demo_queue\<lparr>outbox_events := [?r], fails := (\<lambda>n. n > 0)\<rparr>))))"
    by (rule settled_rows_frozen [THEN conjunct1]) (simp_all add: wf_outbox_def new_outbox_row_def)
qed

text \<open>
  A dequeue that reaches the database hands out the oldest pending
  events, as many as the batch allows, moves exactly their rows to \<open>processing\<close>, and leaves
  every younger pending row where it is.
\<close>

theorem dequeue_oldest_first:
  assumes "wf_outbox w" and "\<not> fails w (tick w)" and "0 \<le> n"
  shows "\<exists>es w'. outbox_dequeue n w = (Inr es, w') \<and>
    length es = min (nat n) (rows_matching (\<lambda>r. o_status r = ''pending'') (outbox_events w)) \<and>
    outbox_events w' = map (\<lambda>r. if o_event_id r \<in> oe_event_id ` set es
       then r\<lparr>o_status := ''processing''\<rparr> else r) (outbox_events w) \<and>
    (\<forall>x \<in> set (outbox_events w). o_event_id x \<in> oe_event_id ` set es \<longrightarrow> o_status x = ''pending'') \<and>
    (\<forall>x \<in> set (outbox_events w'). o_status x = ''pending'' \<longrightarrow>
       (\<forall>e \<in> set es. oe_created_at e \<le> o_created_at x))"
proof -
  let ?rows = "outbox_events w"
  let ?ids = "set (oldest_pending n ?rows)"
  let ?picked = "\<lambda>r. o_event_id r \<in> ?ids"
  define es where "es = map (\<lambda>r. map_row_to_outbox_event (r\<lparr>o_status := ''processing''\<rparr>)) (filter ?picked ?rows)"
  have d: "distinct (map o_event_id ?rows)" using assms(1) by (simp add: wf_outbox_def)
  have ids: "oe_event_id ` set es = ?ids"
    using set_oldest_pending [of n ?rows] by (auto simp: es_def map_row_to_outbox_event_def image_iff) fastforce
  have len: "length es = min (nat n) (rows_matching (\<lambda>r. o_status r = ''pending'') ?rows)"
    using length_picked [OF d, of n] by (simp add: es_def length_oldest_pending)
  have run: "outbox_dequeue n w = (Inr es, w\<lparr>tick := Suc (tick w),
      outbox_events := sql_update ?picked (\<lambda>r. r\<lparr>o_status := ''processing''\<rparr>) ?rows\<rparr>)"
    using dequeue_run [OF assms(2,3)] by (simp add: Let_def es_def)
  have old: "oe_created_at e \<le> o_created_at x"
    if "x \<in> set (sql_update ?picked (\<lambda>r. r\<lparr>o_status := ''processing''\<rparr>) ?rows)"
      "o_status x = ''pending''" "e \<in> set es" for x e
    using that left_behind_not_older [OF d] by (auto simp: set_sql_update es_def map_row_to_outbox_event_def)
  show ?thesis
    using run len ids old picked_is_pending [OF d] by (simp add: sql_update_def)
qed

theorem dequeue_oldest_first_witness:
  "\<exists>es w'. outbox_dequeue 1 demo_queue = (Inr es, w') \<and> length es = 1 \<and> map oe_event_id es = [''e1'']"
proof -
  have "map oe_event_id (projr (fst (outbox_dequeue 1 demo_queue))) = [''e1'']"
    by (simp add: worker_run demo_queue_def empty_world_def)
  moreover have "rows_matching (\<lambda>r. o_status r = ''pending'') (outbox_events demo_queue) = 2"
    by (simp add: rows_matching_def demo_queue_def new_outbox_row_def)
  ultimately show ?thesis
    using dequeue_oldest_first [of demo_queue 1] demo_queue_simps by auto
qed

text \<open>
  C38 (functional).  Take a worker that was given a hot context (one built by \<open>new\<close> alone has
  none, and then reports success without touching Redis), and an outbox whose event ids are
  distinct and whose statuses are known.  When a batch of it reports success for an event that concerns a user's context, the
  hot context of that user is gone from Redis when the batch ends, whatever the later events of
  the batch did.
\<close>

theorem success_means_invalidated:
  assumes "wf_outbox w" and "process_batch scan wk w = (Inr rs, w')"
    and "r \<in> set rs" and "pr_success r" and "wk_hot_context wk"
    and "x \<in> set (outbox_events w)" and "o_event_id x = pr_event_id r"
    and "parse_event_type (o_event_type x) \<in>
      {UserContextUpdated, PreferenceUpdated, MemoryRevoked, MemoryExpired, PermissionChanged}"
  shows "\<exists>t u. payload_str (o_payload x) ''tenant_id'' = Inr t \<and>
    payload_str (o_payload x) ''user_id'' = Inr u \<and> redis_keys w' (user_context_key t u) = None"
proof -
  let ?picked = "\<lambda>r. o_event_id r \<in> set (oldest_pending (wk_batch_size wk) (outbox_events w))"
  let ?ev = "\<lambda>r :: outbox_row. map_row_to_outbox_event (r\<lparr>o_status := ''processing''\<rparr>)"
  have ok: "\<not> fails w (tick w)" "0 \<le> wk_batch_size wk"
    using assms(2,3) by (auto simp: process_batch_def outbox_dequeue_def monad_defs prim_defs split: if_splits)
  then obtain w1 where run: "process_all scan wk (map ?ev (filter ?picked (outbox_events w))) w1 = (Inr rs, w')"
    using assms(2) dequeue_run [OF ok] by (auto simp: process_batch_def tryE_def Let_def)
  have only: "y = x" if "y \<in> set (outbox_events w)" "o_event_id y = pr_event_id r" for y
    using that assms(1,6,7) distinct_key_unique [of o_event_id "outbox_events w" y x]
    by (simp add: wf_outbox_def)
  have "\<exists>e \<in> set (map ?ev (filter ?picked (outbox_events w))). oe_event_id e = pr_event_id r \<and>
      (\<exists>k. user_key_of e = Some k \<and> redis_keys w' k = None)"
  proof (rule process_all_clears_user [OF run assms(3-5)])
    show "oe_event_type e \<in> {UserContextUpdated, PreferenceUpdated, MemoryRevoked, MemoryExpired, PermissionChanged}"
      if "e \<in> set (map ?ev (filter ?picked (outbox_events w)))" "oe_event_id e = pr_event_id r" for e
      using that assms(8) only by (auto simp: map_row_to_outbox_event_def)
  qed
  then obtain k where "user_key_of (?ev x) = Some k" "redis_keys w' k = None"
    using only by (auto simp: map_row_to_outbox_event_def)
  then show ?thesis
    by (auto simp: user_key_of_def map_row_to_outbox_event_def split: sum.splits)
qed

theorem success_means_invalidated_witness:
  "redis_keys demo_queue ''oris:hotctx:t:u'' \<noteq> None \<and>
   redis_keys (snd (process_batch no_scan (with_hot_context worker_new) demo_queue)) ''oris:hotctx:t:u'' = None"
proof -
  let ?wk = "with_hot_context worker_new"
  let ?x = "new_outbox_row ''e1'' UserContextUpdated ''u''
    (JObject [(''tenant_id'', JString ''t''), (''user_id'', JString ''u'')]) 1"
  have res: "map (\<lambda>r. (pr_event_id r, pr_success r)) (projr (fst (process_batch no_scan ?wk demo_queue))) =
      [(''e1'', True), (''e2'', False)] \<and> isl (fst (process_batch no_scan ?wk demo_queue)) = False"
    by (simp add: worker_run with_hot_context_def worker_new_def demo_queue_def empty_world_def)
  then obtain rs w' r where run: "process_batch no_scan ?wk demo_queue = (Inr rs, w')"
    and r: "r \<in> set rs" "pr_success r" "pr_event_id r = ''e1''"
    by (cases "process_batch no_scan ?wk demo_queue"; cases "fst (process_batch no_scan ?wk demo_queue)") fastforce+
  have "\<exists>t u. payload_str (o_payload ?x) ''tenant_id'' = Inr t \<and>
      payload_str (o_payload ?x) ''user_id'' = Inr u \<and> redis_keys w' (user_context_key t u) = None"
    by (rule success_means_invalidated [OF demo_queue_simps(1) run r(1,2)])
      (simp_all add: r(3) with_hot_context_def demo_queue_def new_outbox_row_def parse_event_type_def)
  then show ?thesis
    using run by (auto simp: payload_str_def new_outbox_row_def user_context_key_def demo_queue_def)
qed

end
