(* ===== verification/AccessAudit.thy ===== *)
theory AccessAudit
  imports Schema
begin

text \<open>
  \<open>governance/audit.rs\<close>: the access audit log.  Entries are inserted and listed, never
  changed; \<open>audit_append_only\<close> is the form of that fact the other components reuse.
\<close>

section \<open>Entries\<close>

record audit_entry =
  ae_audit_id :: uuid
  ae_memory_id :: "uuid option"
  ae_accessor_user :: string
  ae_accessor_agent :: "string option"
  ae_action :: string
  ae_purpose :: string
  ae_task_id :: "uuid option"
  ae_trace_id :: string
  ae_policy_decision :: string
  ae_created_at :: time

definition audit_entry_new :: "string \<Rightarrow> string \<Rightarrow> string \<Rightarrow> ('z env_scheme, 'e, audit_entry) op" where
  "audit_entry_new accessor_user action decision =
     bindE new_v4 (\<lambda>i. bindE utc_now (\<lambda>now. ret \<lparr>
       ae_audit_id = i, ae_memory_id = None, ae_accessor_user = accessor_user,
       ae_accessor_agent = None, ae_action = action, ae_purpose = [], ae_task_id = None,
       ae_trace_id = [], ae_policy_decision = decision, ae_created_at = now\<rparr>))"

section \<open>The logger\<close>

definition audit_row_of :: "audit_entry \<Rightarrow> audit_row" where
  "audit_row_of e = \<lparr>
     a_audit_id = ae_audit_id e, a_memory_id = ae_memory_id e,
     a_accessor_user = Some (ae_accessor_user e), a_accessor_agent = ae_accessor_agent e,
     a_action = ae_action e, a_purpose = Some (ae_purpose e), a_task_id = ae_task_id e,
     a_trace_id = Some (ae_trace_id e), a_policy_decision_id = Some (ae_policy_decision e),
     a_created_at = ae_created_at e\<rparr>"

definition map_row_to_audit_entry :: "audit_row \<Rightarrow> audit_entry" where
  "map_row_to_audit_entry r = \<lparr>
     ae_audit_id = a_audit_id r, ae_memory_id = a_memory_id r,
     ae_accessor_user = (case a_accessor_user r of Some u \<Rightarrow> u | None \<Rightarrow> []),
     ae_accessor_agent = a_accessor_agent r, ae_action = a_action r,
     ae_purpose = (case a_purpose r of Some p \<Rightarrow> p | None \<Rightarrow> []), ae_task_id = a_task_id r,
     ae_trace_id = (case a_trace_id r of Some t \<Rightarrow> t | None \<Rightarrow> []),
     ae_policy_decision = (case a_policy_decision_id r of Some d \<Rightarrow> d | None \<Rightarrow> []),
     ae_created_at = a_created_at r\<rparr>"

definition audit_record :: "audit_entry \<Rightarrow> (world, db_error, unit) op" where
  "audit_record e = exec (\<lambda>w.
     if ae_audit_id e \<in> a_audit_id ` set (access_audit w) then (Inl DbError, w)
     else (Inr (), w\<lparr>access_audit := access_audit w @ [audit_row_of e]\<rparr>))"

definition list_by_memory :: "uuid \<Rightarrow> (world, db_error, audit_entry list) op" where
  "list_by_memory i = exec (gets (\<lambda>w. map map_row_to_audit_entry
     (order_desc a_created_at (filter (\<lambda>r. a_memory_id r = Some i) (access_audit w)))))"

definition list_by_user :: "string \<Rightarrow> int \<Rightarrow> (world, db_error, audit_entry list) op" where
  "list_by_user user limit =
     bindE (exec (\<lambda>w. sql_limit limit 0
        (order_desc a_created_at (filter (\<lambda>r. a_accessor_user r = Some user) (access_audit w))) w)) (\<lambda>rows.
     ret (map map_row_to_audit_entry rows))"

section \<open>Facts\<close>

lemma map_row_audit_row_of [simp]: "map_row_to_audit_entry (audit_row_of e) = e"
  by (simp add: map_row_to_audit_entry_def audit_row_of_def)

lemma keeps_audit_entry_new [keep_intros]:
  "(\<And>w t. P w \<Longrightarrow> P (w\<lparr>tick := t\<rparr>)) \<Longrightarrow> keeps P (audit_entry_new u a d)"
  unfolding audit_entry_new_def by (intro keep_intros)

lemma keeps_audit_frame:
  assumes "\<And>w t. P w \<Longrightarrow> P (w\<lparr>tick := t\<rparr>)" and "\<And>w rows. P w \<Longrightarrow> P (w\<lparr>access_audit := rows\<rparr>)"
  shows "keeps P (audit_record e)"
  unfolding audit_record_def by (intro keep_intros) (auto intro!: keepsI assms split: if_splits)

text \<open>
  \<open>audit_from old\<close>: the log extends \<open>old\<close>.  It is kept by every operation of the
  development, which is what "append-only" means here.
\<close>

definition audit_from :: "audit_row list \<Rightarrow> world \<Rightarrow> bool" where
  "audit_from old w \<longleftrightarrow> prefix old (access_audit w)"

lemma audit_from_record [keep_intros]: "keeps (audit_from old) (audit_record e)"
  unfolding audit_record_def
  by (intro keep_intros) (auto intro!: keepsI simp: audit_from_def split: if_splits)

end
