(* ===== verification/LegalHold.thy ===== *)
theory LegalHold
  imports Schema
begin

text \<open>
  \<open>LegalHoldManager\<close> of \<open>compliance.rs\<close>.  A hold is a row of \<open>legal_hold\<close> keyed by memory
  id.  The operations implement the abstract contract \<open>hold_registry\<close> (a set of held ids
  with place, release and query), on which the guarded deletions rely.
\<close>

section \<open>Operations\<close>

datatype legal_hold_error = HoldActive uuid | HoldNotFound uuid | HoldDatabase db_error

record held_item =
  hi_memory_id :: uuid
  hi_reason :: string
  hi_case_id :: "string option"
  hi_placed_at :: time

text \<open>The table exists after the first call; the two statements can still fail.\<close>

definition ensure_schema :: "(world, legal_hold_error, unit) op" where
  "ensure_schema =
     bindE (map_err HoldDatabase (exec (ret ()))) (\<lambda>_. map_err HoldDatabase (exec (ret ())))"

text \<open>\<open>INSERT .. SELECT .. ON CONFLICT DO NOTHING\<close>: one row per matching memory row.\<close>

definition insert_hold :: "uuid \<Rightarrow> string \<Rightarrow> string option \<Rightarrow> time \<Rightarrow> memory_row list \<Rightarrow> hold_row list \<Rightarrow> hold_row list" where
  "insert_hold i reason case_id now items holds =
     (if i \<in> h_memory_id ` set holds then holds
      else case find (\<lambda>r. c_memory_id r = i) items of
             None \<Rightarrow> holds
           | Some r \<Rightarrow> holds @ [\<lparr>h_memory_id = i, h_tenant_id = c_tenant_id r, h_reason = reason,
                               h_case_id = case_id, h_placed_at = now\<rparr>])"

definition place_hold :: "uuid \<Rightarrow> string \<Rightarrow> string option \<Rightarrow> (world, legal_hold_error, unit) op" where
  "place_hold i reason case_id =
     bindE ensure_schema (\<lambda>_.
     map_err HoldDatabase (exec (modify (\<lambda>w. w\<lparr>legal_holds :=
        insert_hold i reason case_id (sql_now w) (memory_items w) (legal_holds w)\<rparr>))))"

definition release_hold :: "uuid \<Rightarrow> (world, legal_hold_error, unit) op" where
  "release_hold i =
     bindE ensure_schema (\<lambda>_.
     bindE (map_err HoldDatabase (exec (\<lambda>w.
        (Inr (rows_matching (\<lambda>h. h_memory_id h = i) (legal_holds w)),
         w\<lparr>legal_holds := sql_delete (\<lambda>h. h_memory_id h = i) (legal_holds w)\<rparr>)))) (\<lambda>n.
     if n = 0 then throw (HoldNotFound i) else ret ()))"

definition is_under_hold :: "uuid \<Rightarrow> (world, legal_hold_error, bool) op" where
  "is_under_hold i =
     bindE ensure_schema (\<lambda>_.
     map_err HoldDatabase (exec (gets (\<lambda>w. find (\<lambda>h. h_memory_id h = i) (legal_holds w) \<noteq> None))))"

definition list_holds :: "string \<Rightarrow> (world, legal_hold_error, held_item list) op" where
  "list_holds tenant =
     bindE ensure_schema (\<lambda>_.
     map_err HoldDatabase (exec (gets (\<lambda>w. map (\<lambda>h. \<lparr>hi_memory_id = h_memory_id h, hi_reason = h_reason h,
          hi_case_id = h_case_id h, hi_placed_at = h_placed_at h\<rparr>)
        (order_desc h_placed_at (filter (\<lambda>h. h_tenant_id h = tenant) (legal_holds w)))))))"

definition verify_deletable :: "uuid \<Rightarrow> (world, legal_hold_error, unit) op" where
  "verify_deletable i =
     bindE (is_under_hold i) (\<lambda>b. if b then throw (HoldActive i) else ret ())"

section \<open>The registry behind the operations\<close>

definition held :: "world \<Rightarrow> uuid set" where
  "held w = h_memory_id ` set (legal_holds w)"

definition wf_holds :: "world \<Rightarrow> bool" where
  "wf_holds w \<longleftrightarrow> distinct (map h_memory_id (legal_holds w))"

lemma held_frame [simp]:
  "held (w\<lparr>tick := t\<rparr>) = held w" "held (w\<lparr>memory_items := m\<rparr>) = held w"
  "held (w\<lparr>access_audit := a\<rparr>) = held w" "held (w\<lparr>outbox_events := e\<rparr>) = held w"
  "held (w\<lparr>memory_versions := v\<rparr>) = held w" "held (w\<lparr>redis_keys := k\<rparr>) = held w"
  by (simp_all add: held_def)

lemma keeps_ensure_schema [keep_intros]:
  "(\<And>w t. P w \<Longrightarrow> P (w\<lparr>tick := t\<rparr>)) \<Longrightarrow> keeps P ensure_schema"
  unfolding ensure_schema_def by (intro keep_intros)

lemma keeps_is_under_hold [keep_intros]:
  "(\<And>w t. P w \<Longrightarrow> P (w\<lparr>tick := t\<rparr>)) \<Longrightarrow> keeps P (is_under_hold i)"
  unfolding is_under_hold_def by (intro keep_intros)

lemma ensure_schema_run:
  "ensure_schema w =
     (if fails w (tick w) then (Inl (HoldDatabase DbError), w\<lparr>tick := Suc (tick w)\<rparr>)
      else (if fails w (Suc (tick w)) then Inl (HoldDatabase DbError) else Inr (),
            w\<lparr>tick := Suc (Suc (tick w))\<rparr>))"
  by (simp add: ensure_schema_def monad_defs exec_def)

lemma ensure_schema_cases:
  obtains e n where "ensure_schema w = (Inl e, w\<lparr>tick := n\<rparr>)"
  | n where "ensure_schema w = (Inr (), w\<lparr>tick := n\<rparr>)"
  using ensure_schema_run [of w] by (metis (full_types))

lemma insert_hold_ids:
  "h_memory_id ` set (insert_hold i reason c now items holds) =
     h_memory_id ` set holds \<union> (if i \<in> c_memory_id ` set items then {i} else {})"
  by (auto simp: insert_hold_def find_None_notin dest: find_Some_in_set split: option.splits)

lemma distinct_insert_hold:
  "distinct (map h_memory_id holds) \<Longrightarrow>
     distinct (map h_memory_id (insert_hold i reason c now items holds))"
  by (auto simp: insert_hold_def split: option.splits)

lemma keeps_wf_holds [keep_intros]:
  "keeps wf_holds (place_hold i reason c)" "keeps wf_holds (release_hold i)"
  unfolding place_hold_def release_hold_def
  by (intro keep_intros keepsI; auto simp: wf_holds_def distinct_insert_hold sql_delete_def distinct_map_filter)+

text \<open>What the operations do when the database answers.\<close>

lemma place_hold_InrD:
  "place_hold i reason c w = (Inr (), w') \<Longrightarrow>
     memory_items w' = memory_items w \<and>
     (\<exists>now. legal_holds w' = insert_hold i reason c now (memory_items w) (legal_holds w))"
  by (cases rule: ensure_schema_cases [of w])
    (auto simp: place_hold_def bindE_def map_err_def exec_def modify_def split: if_splits)

lemma place_hold_held:
  assumes "place_hold i reason c w = (Inr (), w')"
  shows "held w' = held w \<union> {i} \<inter> c_memory_id ` set (memory_items w)"
proof -
  obtain now where "legal_holds w' = insert_hold i reason c now (memory_items w) (legal_holds w)"
    using place_hold_InrD [OF assms] by blast
  then show ?thesis by (simp add: held_def insert_hold_ids)
qed

lemma place_hold_run:
  "(\<And>t. \<not> fails w t) \<Longrightarrow> place_hold i reason c w = (Inr (), w\<lparr>tick := tick w + 3,
     legal_holds := insert_hold i reason c (clock w (tick w + 3)) (memory_items w) (legal_holds w)\<rparr>)"
  by (simp add: place_hold_def ensure_schema_run monad_defs sql_now_def numeral_3_eq_3)

lemma release_hold_run:
  "(\<And>t. \<not> fails w t) \<Longrightarrow> release_hold i w =
     (if i \<in> held w then Inr () else Inl (HoldNotFound i), w\<lparr>tick := tick w + 3,
      legal_holds := sql_delete (\<lambda>h. h_memory_id h = i) (legal_holds w)\<rparr>)"
  using rows_matching_0_iff [of "\<lambda>h. h_memory_id h = i" "legal_holds w"]
  by (auto simp: release_hold_def ensure_schema_run monad_defs held_def numeral_3_eq_3)

lemma is_under_hold_run:
  "(\<And>t. \<not> fails w t) \<Longrightarrow> is_under_hold i w = (Inr (i \<in> held w), w\<lparr>tick := tick w + 3\<rparr>)"
  using find_None_notin [of "\<lambda>h. h_memory_id h = i" "legal_holds w"]
  by (auto simp: is_under_hold_def ensure_schema_run monad_defs held_def numeral_3_eq_3)

lemma verify_deletable_run:
  "(\<And>t. \<not> fails w t) \<Longrightarrow>
     fst (verify_deletable i w) = (if i \<in> held w then Inl (HoldActive i) else Inr ())"
  by (simp add: verify_deletable_def is_under_hold_run monad_defs)

text \<open>
  The contract of a hold registry over an abstract set of held ids.
\<close>

locale hold_registry =
  fixes held_ids :: "'s \<Rightarrow> 'i set"
    and known :: "'s \<Rightarrow> 'i set"
    and place :: "'i \<Rightarrow> 's \<Rightarrow> ('e + unit) \<times> 's"
    and release :: "'i \<Rightarrow> 's \<Rightarrow> ('e + unit) \<times> 's"
    and query :: "'i \<Rightarrow> 's \<Rightarrow> ('e + bool) \<times> 's"
  assumes query_sound: "query i s = (Inr b, s') \<Longrightarrow> b = (i \<in> held_ids s)"
    and query_pure: "query i s = (r, s') \<Longrightarrow> held_ids s' = held_ids s \<and> known s' = known s"
    and place_ok: "place i s = (Inr (), s') \<Longrightarrow>
       held_ids s' = held_ids s \<union> ({i} \<inter> known s) \<and> known s' = known s"
    and place_err: "place i s = (Inl e, s') \<Longrightarrow> held_ids s' = held_ids s"
    and release_ok: "release i s = (Inr (), s') \<Longrightarrow>
       i \<in> held_ids s \<and> held_ids s' = held_ids s - {i}"
    and release_err: "release i s = (Inl e, s') \<Longrightarrow> held_ids s' = held_ids s"
begin

text \<open>A hold placed on a known memory is seen until it is released.\<close>

lemma place_then_query:
  assumes "place i s = (Inr (), s1)" and "i \<in> known s" and "query i s1 = (Inr b, s2)"
  shows b
  using place_ok [OF assms(1)] query_sound [OF assms(3)] assms(2) by simp

lemma release_then_query:
  assumes "release i s = (Inr (), s1)" and "query i s1 = (Inr b, s2)"
  shows "\<not> b"
  using release_ok [OF assms(1)] query_sound [OF assms(2)] by simp

lemma place_monotone: "place i s = (r, s') \<Longrightarrow> held_ids s \<subseteq> held_ids s'"
  using place_ok place_err by (cases r) auto

lemma release_only_own: "release i s = (r, s') \<Longrightarrow> j \<noteq> i \<Longrightarrow> j \<in> held_ids s \<Longrightarrow> j \<in> held_ids s'"
  using release_ok release_err by (cases r) auto

end

interpretation pg_holds: hold_registry held "\<lambda>w. c_memory_id ` set (memory_items w)"
  "\<lambda>i. place_hold i reason case_id" release_hold is_under_hold
proof unfold_locales
  fix i and w w' :: world and e and r and b
  show "is_under_hold i w = (Inr b, w') \<Longrightarrow> b = (i \<in> held w)"
    by (cases rule: ensure_schema_cases [of w])
      (auto simp: is_under_hold_def bindE_def map_err_def exec_def gets_def held_def find_None_notin
        split: if_splits dest: find_Some_in_set)
  show "is_under_hold i w = (r, w') \<Longrightarrow>
      held w' = held w \<and> c_memory_id ` set (memory_items w') = c_memory_id ` set (memory_items w)"
    by (cases rule: ensure_schema_cases [of w])
      (auto simp: is_under_hold_def bindE_def map_err_def exec_def gets_def split: if_splits)
  show "place_hold i reason case_id w = (Inr (), w') \<Longrightarrow>
      held w' = held w \<union> {i} \<inter> c_memory_id ` set (memory_items w) \<and>
      c_memory_id ` set (memory_items w') = c_memory_id ` set (memory_items w)"
    using place_hold_held [of i reason case_id w w'] place_hold_InrD [of i reason case_id w w'] by simp
  show "place_hold i reason case_id w = (Inl e, w') \<Longrightarrow> held w' = held w"
    by (cases rule: ensure_schema_cases [of w])
      (auto simp: place_hold_def bindE_def map_err_def exec_def modify_def split: if_splits)
  show "release_hold i w = (Inr (), w') \<Longrightarrow> i \<in> held w \<and> held w' = held w - {i}"
    by (cases rule: ensure_schema_cases [of w])
      (auto simp: release_hold_def bindE_def map_err_def exec_def ret_def throw_def held_def
        rows_matching_0_iff split: if_splits)
  show "release_hold i w = (Inl e, w') \<Longrightarrow> held w' = held w"
    by (cases rule: ensure_schema_cases [of w])
      (auto simp: release_hold_def bindE_def map_err_def exec_def ret_def throw_def held_def
        rows_matching_0_iff split: if_splits)
qed

section \<open>Properties\<close>

text \<open>
  With a reachable database, placing a hold on an existing memory makes
  \<open>verify_deletable\<close> refuse it, releasing the hold makes it deletable again, and a second
  release reports \<open>NotFound\<close>; the holds on other memories are as before the two calls.
\<close>

theorem hold_lifecycle:
  assumes "\<And>t. \<not> fails w t" and "i \<in> c_memory_id ` set (memory_items w)"
  shows "\<exists>w1 w2. place_hold i reason case_id w = (Inr (), w1) \<and>
    fst (verify_deletable i w1) = Inl (HoldActive i) \<and>
    release_hold i w1 = (Inr (), w2) \<and> fst (verify_deletable i w2) = Inr () \<and>
    fst (release_hold i w2) = Inl (HoldNotFound i) \<and> held w2 = held w - {i}"
proof -
  obtain w1 where w1: "place_hold i reason case_id w = (Inr (), w1)" and f1: "fails w1 = fails w"
    using place_hold_run [of w i reason case_id] assms(1) by auto
  then have h1: "held w1 = insert i (held w)"
    using pg_holds.place_ok [OF w1] assms(2) by auto
  then obtain w2 where w2: "release_hold i w1 = (Inr (), w2)" and f2: "fails w2 = fails w"
    using release_hold_run [of w1 i] assms(1) f1 by auto
  then have "held w2 = held w - {i}"
    using pg_holds.release_ok [OF w2] h1 by auto
  then show ?thesis
    using w1 w2 h1 f1 f2 assms(1) by (simp add: verify_deletable_run release_hold_run)
qed

theorem hold_lifecycle_witness:
  "\<exists>w1 w2. place_hold ''m'' ''litigation'' None
      (empty_world\<lparr>memory_items := [row_of_id ''m'']\<rparr>) = (Inr (), w1) \<and>
    fst (verify_deletable ''m'' w1) = Inl (HoldActive ''m'') \<and> release_hold ''m'' w1 = (Inr (), w2)"
  using hold_lifecycle [of "empty_world\<lparr>memory_items := [row_of_id ''m'']\<rparr>" "''m''" "''litigation''" None]
  by (auto simp: empty_world_def row_of_id_def)

end
