(* ===== verification/Forget.thy ===== *)
theory Forget
  imports MemoryRepo Outbox AccessAudit LegalHold
begin

text \<open>
  \<open>governance/forget.rs\<close>: soft and hard deletion, bulk forgetting of a user's data, and the
  cascade along \<open>derived_from\<close>.  Main results: a memory under legal hold survives the guarded
  deletions of any memory, a finished cascade has revoked everything derived from its root
  when no chain is longer than the depth limit, and a finished hard delete leaves no trace
  but the audit entry.
\<close>

section \<open>Errors and helpers\<close>

datatype forget_error =
    ForgetDatabase db_error
  | ForgetNotFound uuid
  | ForgetOutbox outbox_error
  | ForgetLegalHold string

definition forget_of_hold_error :: "legal_hold_error \<Rightarrow> forget_error" where
  "forget_of_hold_error e =
     (case e of
        HoldActive i \<Rightarrow> ForgetLegalHold (''memory '' @ i @ '' is under legal hold'')
      | HoldNotFound i \<Rightarrow> ForgetLegalHold (''legal hold not found: '' @ i)
      | HoldDatabase d \<Rightarrow> ForgetDatabase d)"

definition MAX_CASCADE_DEPTH :: nat where
  "MAX_CASCADE_DEPTH = 5"

definition should_cascade_at_depth :: "nat \<Rightarrow> bool" where
  "should_cascade_at_depth depth \<longleftrightarrow> depth < MAX_CASCADE_DEPTH"

definition build_forget_audit_entry :: "uuid \<Rightarrow> string \<Rightarrow> string \<Rightarrow> (world, 'e, audit_entry) op" where
  "build_forget_audit_entry i requested_by action =
     bindE (audit_entry_new requested_by action ''allow'') (\<lambda>e.
     ret (e\<lparr>ae_memory_id := Some i, ae_purpose := ''right_to_be_forgotten''\<rparr>))"

definition build_forget_outbox_payload :: "uuid \<Rightarrow> string \<Rightarrow> json" where
  "build_forget_outbox_payload i requested_by =
     JObject [(''action'', JString ''revoke''), (''memory_id'', JString i),
              (''requested_by'', JString requested_by)]"

section \<open>Deletion\<close>

definition guard_hold :: "uuid \<Rightarrow> (world, forget_error, unit) op" where
  "guard_hold i =
     bindE (map_err forget_of_hold_error (is_under_hold i)) (\<lambda>b.
     if b then throw (ForgetLegalHold (''memory '' @ i @ '' is under legal hold'')) else ret ())"

text \<open>Steps 2 and 3 of a soft delete: the audit entry, then the outbox event.\<close>

definition log_revocation :: "uuid \<Rightarrow> string \<Rightarrow> (world, forget_error, unit) op" where
  "log_revocation i requested_by =
     bindE (build_forget_audit_entry i requested_by ''soft_delete'') (\<lambda>entry.
     bindE (map_err ForgetDatabase (audit_record entry)) (\<lambda>_.
     bindE (map_err ForgetOutbox (outbox_enqueue MemoryRevoked i (build_forget_outbox_payload i requested_by))) (\<lambda>_.
     ret ())))"

definition soft_delete :: "uuid \<Rightarrow> string \<Rightarrow> (world, forget_error, unit) op" where
  "soft_delete i requested_by =
     bindE (guard_hold i) (\<lambda>_.
     bindE (map_err ForgetDatabase (update_memory_row i (\<lambda>t r. r\<lparr>c_status := ''revoked'', c_updated_at := t\<rparr>))) (\<lambda>n.
     if n = 0 then throw (ForgetNotFound i)
     else log_revocation i requested_by))"

text \<open>Steps 2 to 4 of a hard delete: versions, outbox events, the row itself.\<close>

definition erase_memory :: "uuid \<Rightarrow> (world, forget_error, unit) op" where
  "erase_memory i =
     bindE (map_err ForgetDatabase (exec (modify (\<lambda>w. w\<lparr>memory_versions :=
        sql_delete (\<lambda>v. v_memory_id v = i) (memory_versions w)\<rparr>)))) (\<lambda>_.
     bindE (map_err ForgetDatabase (exec (modify (\<lambda>w. w\<lparr>outbox_events :=
        sql_delete (\<lambda>e. o_aggregate_id e = i) (outbox_events w)\<rparr>)))) (\<lambda>_.
     bindE (map_err ForgetDatabase (exec (\<lambda>w.
        (Inr (rows_matching (\<lambda>r. c_memory_id r = i) (memory_items w)),
         w\<lparr>memory_items := sql_delete (\<lambda>r. c_memory_id r = i) (memory_items w)\<rparr>)))) (\<lambda>n.
     if n = 0 then throw (ForgetNotFound i) else ret ())))"

definition hard_delete :: "uuid \<Rightarrow> string \<Rightarrow> (world, forget_error, unit) op" where
  "hard_delete i requested_by =
     bindE (guard_hold i) (\<lambda>_.
     bindE (build_forget_audit_entry i requested_by ''hard_delete'') (\<lambda>entry.
     bindE (map_err ForgetDatabase (audit_record entry)) (\<lambda>_.
     erase_memory i)))"

definition forget_user_data :: "string \<Rightarrow> string \<Rightarrow> (world, forget_error, nat) op" where
  "forget_user_data user_id tenant_id = map_err ForgetDatabase (exec (\<lambda>w.
     let p = (\<lambda>r. c_created_by_user r = Some user_id \<and> c_tenant_id r = tenant_id)
     in (Inr (rows_matching p (memory_items w)),
         w\<lparr>memory_items := sql_update p (\<lambda>r. r\<lparr>c_status := ''revoked'', c_updated_at := sql_now w\<rparr>)
             (memory_items w)\<rparr>)))"

definition find_derived_memories :: "uuid \<Rightarrow> (world, forget_error, uuid list) op" where
  "find_derived_memories i = map_err ForgetDatabase (exec (gets (\<lambda>w.
     map c_memory_id (filter (\<lambda>r. jsonb_array_has (c_derived_from r) i \<and> c_status r \<noteq> ''revoked'')
       (memory_items w)))))"

section \<open>Frames of one deletion\<close>

lemma keeps_guard_hold [keep_intros]:
  "(\<And>w t. P w \<Longrightarrow> P (w\<lparr>tick := t\<rparr>)) \<Longrightarrow> keeps P (guard_hold i)"
  unfolding guard_hold_def by (intro keep_intros)

lemma keeps_build_forget_audit_entry [keep_intros]:
  "(\<And>w t. P w \<Longrightarrow> P (w\<lparr>tick := t\<rparr>)) \<Longrightarrow> keeps P (build_forget_audit_entry i u a)"
  unfolding build_forget_audit_entry_def by (intro keep_intros)

lemma keeps_find_derived [keep_intros]:
  "(\<And>w t. P w \<Longrightarrow> P (w\<lparr>tick := t\<rparr>)) \<Longrightarrow> keeps P (find_derived_memories i)"
  unfolding find_derived_memories_def by (intro keep_intros)

lemma keeps_log_revocation:
  assumes "\<And>w t. P w \<Longrightarrow> P (w\<lparr>tick := t\<rparr>)" and "\<And>w x. P w \<Longrightarrow> P (w\<lparr>access_audit := x\<rparr>)"
    and "\<And>w x. P w \<Longrightarrow> P (w\<lparr>outbox_events := x\<rparr>)"
  shows "keeps P (log_revocation i u)"
  unfolding log_revocation_def by (intro keep_intros keeps_audit_frame keeps_outbox_frame assms)

lemma keeps_soft_delete:
  assumes "\<And>w t. P w \<Longrightarrow> P (w\<lparr>tick := t\<rparr>)" and "\<And>w x. P w \<Longrightarrow> P (w\<lparr>access_audit := x\<rparr>)"
    and "\<And>w x. P w \<Longrightarrow> P (w\<lparr>outbox_events := x\<rparr>)"
    and "\<And>w t. P w \<Longrightarrow> P (w\<lparr>memory_items := sql_update (\<lambda>r. c_memory_id r = i)
           (\<lambda>r. r\<lparr>c_status := ''revoked'', c_updated_at := t\<rparr>) (memory_items w)\<rparr>)"
  shows "keeps P (soft_delete i u)"
  unfolding soft_delete_def
  by (intro keep_intros keeps_log_revocation keeps_memory_frame assms)

section \<open>The cascade\<close>

text \<open>
  The stack is a list with its top first; pushing the children one by one leaves the last
  one on top.  The loop ends because a popped entry of depth \<open>d\<close> is replaced by at most as
  many entries of depth \<open>d + 1\<close> as there are memories, and entries at the depth limit are
  only dropped.
\<close>

definition stack_weight :: "nat \<Rightarrow> (uuid \<times> nat) list \<Rightarrow> nat" where
  "stack_weight n st = sum_list (map (\<lambda>(i, d). (n + 2) ^ (MAX_CASCADE_DEPTH - d)) st)"

lemma soft_delete_length:
  "soft_delete i u w = (r, w') \<Longrightarrow> length (memory_items w') = length (memory_items w)"
  by (rule keepsD [OF keeps_soft_delete, of "\<lambda>x. length (memory_items x) = length (memory_items w)"])
    simp_all

lemma find_derived_frame: "find_derived_memories i w = (r, w') \<Longrightarrow> w' = w\<lparr>tick := Suc (tick w)\<rparr>"
  by (auto simp: find_derived_memories_def monad_defs exec_def split: if_splits)

lemma find_derived_InrD:
  "find_derived_memories i w = (Inr cs, w') \<Longrightarrow>
     cs = map c_memory_id (filter (\<lambda>r. jsonb_array_has (c_derived_from r) i \<and> c_status r \<noteq> ''revoked'')
       (memory_items w))"
  by (auto simp: find_derived_memories_def monad_defs exec_def split: if_splits)

lemma stack_weight_push:
  assumes "should_cascade_at_depth d" and "length cs \<le> n"
  shows "stack_weight n (rev (map (\<lambda>c. (c, Suc d)) cs) @ st) < stack_weight n ((i, d) # st)"
proof -
  let ?k = "MAX_CASCADE_DEPTH - Suc d"
  have k: "MAX_CASCADE_DEPTH - d = Suc ?k"
    using assms(1) by (simp add: should_cascade_at_depth_def)
  have "sum_list (map (\<lambda>c. (n + 2) ^ ?k) cs) = length cs * (n + 2) ^ ?k"
    by (simp add: sum_list_triv)
  also have "\<dots> \<le> n * (n + 2) ^ ?k" using assms(2) by simp
  also have "\<dots> < (n + 2) ^ Suc ?k" by simp
  finally show ?thesis
    using k by (simp add: stack_weight_def o_def rev_map [symmetric] sum_list_rev)
qed

function cascade_loop ::
  "string \<Rightarrow> (uuid \<times> nat) list \<Rightarrow> uuid list \<Rightarrow> nat \<Rightarrow> world \<Rightarrow> (forget_error + nat) \<times> world" where
  "cascade_loop u [] visited count w = (Inr count, w)"
| "cascade_loop u ((i, d) # st) visited count w =
     (if \<not> should_cascade_at_depth d then cascade_loop u st visited count w
      else if i \<in> set visited then cascade_loop u st visited count w
      else case find_derived_memories i w of
        (Inl e, w1) \<Rightarrow> (Inl e, w1)
      | (Inr children, w1) \<Rightarrow>
          (case soft_delete i u w1 of
             (Inr _, w2) \<Rightarrow>
               cascade_loop u (rev (map (\<lambda>c. (c, Suc d)) children) @ st) (i # visited) (count + 1) w2
           | (Inl (ForgetNotFound _), w2) \<Rightarrow>
               cascade_loop u (rev (map (\<lambda>c. (c, Suc d)) children) @ st) (i # visited) count w2
           | (Inl e, w2) \<Rightarrow> (Inl e, w2)))"
  by pat_completeness auto

lemma cascade_decreases:
  assumes "find_derived_memories i w = (Inr cs, w1)" and "soft_delete i u w1 = (r, w2)"
    and "should_cascade_at_depth d"
  shows "stack_weight (length (memory_items w2)) (rev (map (\<lambda>c. (c, Suc d)) cs) @ st) <
     stack_weight (length (memory_items w)) ((i, d) # st)"
  using stack_weight_push [OF assms(3), of cs "length (memory_items w)"] find_derived_InrD [OF assms(1)]
    find_derived_frame [OF assms(1)] soft_delete_length [OF assms(2)] by simp

termination cascade_loop
  by (relation "measure (\<lambda>(u, st, visited, count, w). stack_weight (length (memory_items w)) st)")
    (auto intro!: cascade_decreases [OF sym sym], simp_all add: stack_weight_def)

definition cascade_forget :: "uuid \<Rightarrow> string \<Rightarrow> (world, forget_error, nat) op" where
  "cascade_forget i requested_by = cascade_loop requested_by [(i, 0)] [] 0"

section \<open>Legal holds\<close>

text \<open>Everything stored about memory \<open>i\<close>, with the hold on it.\<close>

definition preserved :: "uuid \<Rightarrow> memory_row list \<Rightarrow> memory_item version_row list \<Rightarrow> world \<Rightarrow> bool" where
  "preserved i rows versions w \<longleftrightarrow> i \<in> held w \<and>
     filter (\<lambda>r. c_memory_id r = i) (memory_items w) = rows \<and>
     filter (\<lambda>v. v_memory_id v = i) (memory_versions w) = versions"

lemma preserved_frame [simp]:
  "preserved i M V (w\<lparr>tick := t\<rparr>) = preserved i M V w"
  "preserved i M V (w\<lparr>access_audit := a\<rparr>) = preserved i M V w"
  "preserved i M V (w\<lparr>outbox_events := e\<rparr>) = preserved i M V w"
  by (simp_all add: preserved_def)

lemma guard_hold_refuses:
  assumes "i \<in> held w"
  shows "\<exists>e n. guard_hold i w = (Inl e, w\<lparr>tick := n\<rparr>)"
proof -
  obtain r w' where q: "is_under_hold i w = (r, w')" by fastforce
  have "\<exists>n. w' = w\<lparr>tick := n\<rparr>"
    using q by (cases rule: ensure_schema_cases [of w])
      (auto simp: is_under_hold_def bindE_def map_err_def exec_def gets_def split: if_splits)
  with q assms pg_holds.query_sound [of i w _ w'] show ?thesis
    by (cases r) (auto simp: guard_hold_def bindE_def map_err_def throw_def)
qed

lemma filter_sql_update_other:
  "(\<And>r. key (f r) = key r) \<Longrightarrow> j \<noteq> i \<Longrightarrow>
     filter (\<lambda>r. key r = i) (sql_update (\<lambda>r. key r = j) f rows) = filter (\<lambda>r. key r = i) rows"
  by (induction rows) (auto simp: sql_update_def)

lemma filter_sql_delete_other:
  "j \<noteq> i \<Longrightarrow> filter (\<lambda>r. key r = i) (sql_delete (\<lambda>r. key r = j) rows) = filter (\<lambda>r. key r = i) rows"
  by (induction rows) (auto simp: sql_delete_def)

lemma preserved_soft_delete: "keeps (preserved i M V) (soft_delete j u)"
proof (cases "j = i")
  case True
  show ?thesis
  proof (rule keepsI)
    fix w r w'
    assume "preserved i M V w" "soft_delete j u w = (r, w')"
    then show "preserved i M V w'"
      using guard_hold_refuses [of i w] True by (auto simp: soft_delete_def bindE_def preserved_def)
  qed
next
  case False
  then show ?thesis
    by (intro keeps_soft_delete) (auto simp: preserved_def filter_sql_update_other)
qed

lemma preserved_hard_delete: "keeps (preserved i M V) (hard_delete j u)"
proof (cases "j = i")
  case True
  show ?thesis
  proof (rule keepsI)
    fix w r w'
    assume "preserved i M V w" "hard_delete j u w = (r, w')"
    then show "preserved i M V w'"
      using guard_hold_refuses [of i w] True by (auto simp: hard_delete_def bindE_def preserved_def)
  qed
next
  case False
  then show ?thesis
    unfolding hard_delete_def erase_memory_def
    by (intro keep_intros keeps_audit_frame)
      (auto intro!: keepsI simp: preserved_def filter_sql_delete_other)
qed

lemma keeps_cascade_loop:
  assumes "\<And>w t. P w \<Longrightarrow> P (w\<lparr>tick := t\<rparr>)" and "\<And>i. keeps P (soft_delete i u)" and "P w"
  shows "P (snd (cascade_loop u st vis n w))"
  using assms(2,3)
proof (induction u st vis n w rule: cascade_loop.induct)
  case (1 u visited count w)
  then show ?case by simp
next
  case (2 u i d st visited count w)
  show ?case
  proof (cases "should_cascade_at_depth d \<and> i \<notin> set visited")
    case False
    with 2 show ?thesis by auto
  next
    case True
    obtain r w1 where fd: "find_derived_memories i w = (r, w1)" by fastforce
    obtain q w2 where sd: "soft_delete i u w1 = (q, w2)" by fastforce
    have w1: "P w1" using find_derived_frame [OF fd] assms(1) 2(6) by simp
    then have w2: "P w2" using keepsD [OF 2(5) _ sd] by simp
    show ?thesis
      using 2(3) [OF _ _ fd [symmetric] _ sd [symmetric]] 2(4) [OF _ _ fd [symmetric] _ sd [symmetric]] 2(5)
        True w1 w2 fd sd
      by (cases r; cases q) (auto split: forget_error.split)
  qed
qed

text \<open>
  The proof rule for a cascade that finishes without error: an invariant of stack, visited
  ids and world that both kinds of iteration keep holds with an empty stack at the end.
\<close>

lemma cascade_loop_rule:
  assumes "Inv st vis w" and "cascade_loop u st vis n w = (Inr m, w')"
    and skip: "\<And>i d st vis w. Inv ((i, d) # st) vis w \<Longrightarrow>
       \<not> should_cascade_at_depth d \<or> i \<in> set vis \<Longrightarrow> Inv st vis w"
    and visit: "\<And>i d st vis w cs w1 q w2. Inv ((i, d) # st) vis w \<Longrightarrow> should_cascade_at_depth d \<Longrightarrow>
       i \<notin> set vis \<Longrightarrow> find_derived_memories i w = (Inr cs, w1) \<Longrightarrow> soft_delete i u w1 = (q, w2) \<Longrightarrow>
       q = Inr () \<or> (\<exists>x. q = Inl (ForgetNotFound x)) \<Longrightarrow>
       Inv (rev (map (\<lambda>c. (c, Suc d)) cs) @ st) (i # vis) w2"
  shows "\<exists>V. Inv [] V w'"
  using assms
proof (induction u st vis n w rule: cascade_loop.induct)
  case (1 u visited count w)
  then show ?case by auto
next
  case (2 u i d st visited count w)
  note IH = 2(1-4) and inv = 2(5) and run = 2(6) and skip = 2(7) and visit = 2(8)
  show ?case
  proof (cases "should_cascade_at_depth d \<and> i \<notin> set visited")
    case False
    then have "Inv st visited w" and "cascade_loop u st visited count w = (Inr m, w')"
      using skip [OF inv] run by (auto split: if_splits)
    with False show ?thesis using IH(1,2) skip visit by blast
  next
    case True
    obtain r w1 where fd: "find_derived_memories i w = (r, w1)" by fastforce
    obtain q w2 where sd: "soft_delete i u w1 = (q, w2)" by fastforce
    from run fd True obtain cs where r: "r = Inr cs" by (cases r) auto
    let ?st = "rev (map (\<lambda>c. (c, Suc d)) cs) @ st"
    from run fd sd r True have q: "q = Inr () \<or> (\<exists>x. q = Inl (ForgetNotFound x))"
      by (cases q) (auto split: forget_error.splits)
    then have inv': "Inv ?st (i # visited) w2"
      using visit [OF inv _ _ fd [unfolded r] sd] True by blast
    show ?thesis
    proof (cases q)
      case (Inl e)
      with q obtain x where x: "e = ForgetNotFound x" by auto
      with Inl run fd sd r True have loop: "cascade_loop u ?st (i # visited) count w2 = (Inr m, w')" by auto
      show ?thesis
        by (rule IH(3) [OF _ _ fd [symmetric] r sd [symmetric] Inl x];
            (fact inv' | fact loop | fact skip | fact visit | use True in blast))
    next
      case (Inr y)
      with run fd sd r True have loop: "cascade_loop u ?st (i # visited) (count + 1) w2 = (Inr m, w')" by auto
      show ?thesis
        by (rule IH(4) [OF _ _ fd [symmetric] r sd [symmetric] Inr];
            (fact inv' | fact loop | fact skip | fact visit | use True in blast))
    qed
  qed
qed

section \<open>What a cascade reaches\<close>

text \<open>
  \<open>derives w p c\<close>: memory \<open>c\<close> is not revoked and names \<open>p\<close> in its \<open>derived_from\<close>.
  \<open>gone i w\<close>: memory \<open>i\<close> is absent or revoked.
\<close>

definition derives :: "world \<Rightarrow> uuid \<Rightarrow> uuid \<Rightarrow> bool" where
  "derives w p c \<longleftrightarrow> (\<exists>r \<in> set (memory_items w). c_memory_id r = c \<and>
     jsonb_array_has (c_derived_from r) p \<and> c_status r \<noteq> ''revoked'')"

definition gone :: "uuid \<Rightarrow> world \<Rightarrow> bool" where
  "gone i w \<longleftrightarrow> (\<forall>r \<in> set (memory_items w). c_memory_id r = i \<longrightarrow> c_status r = ''revoked'')"

definition revoke_row :: "time \<Rightarrow> memory_row \<Rightarrow> memory_row" where
  "revoke_row t r = r\<lparr>c_status := ''revoked'', c_updated_at := t\<rparr>"

lemma revoke_row_simps [simp]:
  "c_memory_id (revoke_row t r) = c_memory_id r" "c_derived_from (revoke_row t r) = c_derived_from r"
  "c_status (revoke_row t r) = ''revoked''"
  by (simp_all add: revoke_row_def)

text \<open>The memory table after a soft delete: untouched, or revoked at one id.\<close>

lemma guard_hold_frame: "guard_hold i w = (r, w') \<Longrightarrow> memory_items w' = memory_items w"
  by (rule keepsD [OF keeps_guard_hold, of "\<lambda>x. memory_items x = memory_items w"]) simp_all

lemma log_revocation_frame: "log_revocation i u w = (r, w') \<Longrightarrow> memory_items w' = memory_items w"
  by (rule keepsD [OF keeps_log_revocation, of "\<lambda>x. memory_items x = memory_items w"]) simp_all

lemma guard_hold_not_found: "guard_hold i w \<noteq> (Inl (ForgetNotFound x), w')"
  by (auto simp: guard_hold_def monad_defs forget_of_hold_error_def
      split: prod.splits sum.splits if_splits legal_hold_error.splits)

lemma soft_delete_items:
  assumes "soft_delete i u w = (q, w')"
  shows "memory_items w' = memory_items w \<and> q \<noteq> Inr () \<and> (\<forall>x. q \<noteq> Inl (ForgetNotFound x)) \<or>
    (\<exists>t. memory_items w' = sql_update (\<lambda>r. c_memory_id r = i) (revoke_row t) (memory_items w))"
  using assms unfolding soft_delete_def
proof (cases rule: bindE_E)
  case (err e)
  then show ?thesis using guard_hold_frame guard_hold_not_found by blast
next
  case (step x w1)
  from step(2) show ?thesis
  proof (cases rule: bindE_E)
    case (err e)
    then show ?thesis
      using guard_hold_frame [OF step(1)]
      by (auto simp: update_memory_row_def map_err_def exec_def split: if_splits)
  next
    case (step n w2)
    have "\<exists>t. memory_items w2 = sql_update (\<lambda>r. c_memory_id r = i) (revoke_row t) (memory_items w1)"
      using step(1) by (auto simp: update_memory_row_def map_err_def exec_def revoke_row_def [abs_def]
          split: if_splits)
    moreover have "memory_items w' = memory_items w2"
      using step(2) log_revocation_frame by (auto simp: throw_def split: if_splits)
    ultimately show ?thesis
      using guard_hold_frame \<open>guard_hold i w = (Inr x, w1)\<close> by auto
  qed
qed

text \<open>What that means for the derivation graph.\<close>

lemma revoked_gone:
  assumes "memory_items w' = sql_update (\<lambda>r. c_memory_id r = i) (revoke_row t) (memory_items w)"
  shows "gone i w'" and "gone j w \<Longrightarrow> gone j w'" and "derives w' p c \<Longrightarrow> derives w p c"
    and "derives w p c \<Longrightarrow> c \<noteq> i \<Longrightarrow> derives w' p c"
proof -
  have S: "set (memory_items w') = {r \<in> set (memory_items w). c_memory_id r \<noteq> i} \<union>
      revoke_row t ` {r \<in> set (memory_items w). c_memory_id r = i}"
    by (simp add: assms set_sql_update)
  show "gone i w'" by (simp add: gone_def S ball_Un)
  show "gone j w \<Longrightarrow> gone j w'" by (simp add: gone_def S ball_Un)
  show "derives w' p c \<Longrightarrow> derives w p c" by (auto simp: derives_def S bex_Un)
  show "derives w p c \<Longrightarrow> c \<noteq> i \<Longrightarrow> derives w' p c" by (auto simp: derives_def S bex_Un)
qed

lemma derived_children:
  "find_derived_memories i w = (Inr cs, w') \<Longrightarrow>
     set cs = {c. derives w i c} \<and> memory_items w' = memory_items w"
  using find_derived_frame [of i w "Inr cs" w'] find_derived_InrD [of i w cs w']
  by (simp add: derives_def) blast

lemma visited_gone:
  assumes "find_derived_memories i w = (Inr cs, w1)" and "soft_delete i u w1 = (q, w2)"
    and "q = Inr () \<or> (\<exists>x. q = Inl (ForgetNotFound x))"
  obtains t where "memory_items w2 = sql_update (\<lambda>r. c_memory_id r = i) (revoke_row t) (memory_items w)"
  using soft_delete_items [OF assms(2)] assms(3) derived_children [OF assms(1)] by auto

definition cascade_inv :: "world \<Rightarrow> uuid \<Rightarrow> (uuid \<times> nat) list \<Rightarrow> uuid list \<Rightarrow> world \<Rightarrow> bool" where
  "cascade_inv w0 m0 st vis w \<longleftrightarrow>
     (\<forall>(i, d) \<in> set st. (derives w0 ^^ d) m0 i) \<and>
     (\<forall>i \<in> set vis. gone i w) \<and>
     (\<forall>p c. derives w p c \<longrightarrow> derives w0 p c) \<and>
     (\<forall>p c. derives w0 p c \<longrightarrow> c \<notin> set vis \<longrightarrow> derives w p c) \<and>
     (\<forall>p \<in> set vis. \<forall>c. derives w0 p c \<longrightarrow> c \<in> set vis \<or> c \<in> fst ` set st) \<and>
     (m0 \<in> set vis \<or> m0 \<in> fst ` set st)"

lemma cascade_inv_skip:
  assumes "cascade_inv w0 m0 ((i, d) # st) vis w" and "\<not> should_cascade_at_depth d \<or> i \<in> set vis"
    and "\<And>c. \<not> (derives w0 ^^ MAX_CASCADE_DEPTH) m0 c"
  shows "cascade_inv w0 m0 st vis w"
proof -
  have "d < MAX_CASCADE_DEPTH"
  proof (rule ccontr)
    assume "\<not> d < MAX_CASCADE_DEPTH"
    then obtain k where "d = MAX_CASCADE_DEPTH + k" by (metis le_Suc_ex linorder_not_less)
    then have "\<exists>c. (derives w0 ^^ MAX_CASCADE_DEPTH) m0 c"
      using assms(1) by (auto simp: cascade_inv_def relpowp_add)
    with assms(3) show False by blast
  qed
  then have "i \<in> set vis" using assms(2) by (simp add: should_cascade_at_depth_def)
  then show ?thesis using assms(1) unfolding cascade_inv_def by auto
qed

lemma cascade_inv_visit:
  assumes inv: "cascade_inv w0 m0 ((i, d) # st) vis w" and new: "i \<notin> set vis"
    and fd: "find_derived_memories i w = (Inr cs, w1)" and sd: "soft_delete i u w1 = (q, w2)"
    and q: "q = Inr () \<or> (\<exists>x. q = Inl (ForgetNotFound x))"
  shows "cascade_inv w0 m0 (rev (map (\<lambda>c. (c, Suc d)) cs) @ st) (i # vis) w2"
proof -
  obtain t where items: "memory_items w2 = sql_update (\<lambda>r. c_memory_id r = i) (revoke_row t) (memory_items w)"
    using visited_gone [OF fd sd q] .
  note upd = revoked_gone [OF items]
  note I = inv [unfolded cascade_inv_def]
  have cs: "set cs = {c. derives w i c}" using derived_children [OF fd] by simp
  have walk: "(derives w0 ^^ Suc d) m0 c" if "derives w i c" for c
    using inv that by (auto simp: cascade_inv_def intro: relcomppI)
  have front: "c \<in> set (i # vis) \<or> c \<in> set cs \<or> c \<in> fst ` set st"
    if "p \<in> set (i # vis)" "derives w0 p c" for p c
  proof (cases "p = i")
    case True
    then show ?thesis using inv that(2) cs by (auto simp: cascade_inv_def)
  next
    case False
    then show ?thesis using inv that by (auto simp: cascade_inv_def)
  qed
  show ?thesis
    unfolding cascade_inv_def
  proof (intro conjI)
    show "\<forall>(j, e) \<in> set (rev (map (\<lambda>c. (c, Suc d)) cs) @ st). (derives w0 ^^ e) m0 j"
      using inv walk cs by (auto simp: cascade_inv_def simp del: relpowp.simps)
    show "\<forall>j \<in> set (i # vis). gone j w2" using I upd(1,2) by simp
    show "\<forall>p c. derives w2 p c \<longrightarrow> derives w0 p c" using I upd(3) by blast
    show "\<forall>p c. derives w0 p c \<longrightarrow> c \<notin> set (i # vis) \<longrightarrow> derives w2 p c"
      using I upd(4) by simp
    show "\<forall>p \<in> set (i # vis). \<forall>c. derives w0 p c \<longrightarrow>
        c \<in> set (i # vis) \<or> c \<in> fst ` set (rev (map (\<lambda>c. (c, Suc d)) cs) @ st)"
      using front by (force simp: image_Un image_image)
    show "m0 \<in> set (i # vis) \<or> m0 \<in> fst ` set (rev (map (\<lambda>c. (c, Suc d)) cs) @ st)"
      using inv by (auto simp: cascade_inv_def)
  qed
qed

declare cascade_loop.simps(2) [simp del]

lemma cascade_inv_start: "cascade_inv w m0 [(m0, 0)] [] w"
  by (simp add: cascade_inv_def)

lemma cascade_inv_end:
  assumes "cascade_inv w0 m0 [] vis w" and "(derives w0)\<^sup>*\<^sup>* m0 c"
  shows "gone c w"
proof -
  have "\<forall>p \<in> set vis. \<forall>c. derives w0 p c \<longrightarrow> c \<in> set vis \<or> c \<in> fst ` set ([] :: (uuid \<times> nat) list)"
    and "m0 \<in> set vis \<or> m0 \<in> fst ` set ([] :: (uuid \<times> nat) list)" and g: "\<forall>i \<in> set vis. gone i w"
    using assms(1) unfolding cascade_inv_def by - (elim conjE, assumption)+
  then have close: "\<And>p c. p \<in> set vis \<Longrightarrow> derives w0 p c \<Longrightarrow> c \<in> set vis" and "m0 \<in> set vis"
    by simp_all
  from assms(2) have "c \<in> set vis"
    by (induction rule: rtranclp_induct) (fact \<open>m0 \<in> set vis\<close>, rule close)
  then show ?thesis by (rule bspec [OF g])
qed

text \<open>Rows the cascade cannot reach, with the facts that carry that along.\<close>

definition unreached_inv :: "world \<Rightarrow> uuid \<Rightarrow> memory_row \<Rightarrow> (uuid \<times> nat) list \<Rightarrow> world \<Rightarrow> bool" where
  "unreached_inv w0 m0 r st w \<longleftrightarrow> r \<in> set (memory_items w) \<and>
     (\<forall>(i, d) \<in> set st. (derives w0)\<^sup>*\<^sup>* m0 i) \<and> (\<forall>p c. derives w p c \<longrightarrow> derives w0 p c)"

lemma unreached_inv_visit:
  assumes inv: "unreached_inv w0 m0 r ((i, d) # st) w" and far: "\<not> (derives w0)\<^sup>*\<^sup>* m0 (c_memory_id r)"
    and fd: "find_derived_memories i w = (Inr cs, w1)" and sd: "soft_delete i u w1 = (q, w2)"
    and q: "q = Inr () \<or> (\<exists>x. q = Inl (ForgetNotFound x))"
  shows "unreached_inv w0 m0 r (rev (map (\<lambda>c. (c, Suc d)) cs) @ st) w2"
proof -
  obtain t where items: "memory_items w2 = sql_update (\<lambda>r. c_memory_id r = i) (revoke_row t) (memory_items w)"
    using visited_gone [OF fd sd q] .
  have reach: "(derives w0)\<^sup>*\<^sup>* m0 c" if "c \<in> set cs" for c
    using inv that derived_children [OF fd] by (auto simp: unreached_inv_def intro: rtranclp.rtrancl_into_rtrancl)
  have "c_memory_id r \<noteq> i" using inv far by (auto simp: unreached_inv_def)
  then have "r \<in> set (memory_items w2)" using inv items by (simp add: unreached_inv_def set_sql_update)
  moreover have "\<forall>p c. derives w2 p c \<longrightarrow> derives w0 p c"
    using inv revoked_gone(3) [OF items] by (auto simp: unreached_inv_def)
  ultimately show ?thesis using inv reach by (auto simp: unreached_inv_def)
qed

section \<open>Properties\<close>

text \<open>
  C1 (safety).  While a memory is under legal hold, neither a soft delete, nor a hard delete,
  nor a cascade started anywhere changes its row, removes one of its versions or lifts the
  hold, whichever statements fail on the way.
\<close>

theorem held_memory_survives:
  assumes "i \<in> held w"
    and "w' \<in> {snd (soft_delete j u w), snd (hard_delete j u w), snd (cascade_forget j u w)}"
  shows "i \<in> held w' \<and>
    filter (\<lambda>r. c_memory_id r = i) (memory_items w') = filter (\<lambda>r. c_memory_id r = i) (memory_items w) \<and>
    filter (\<lambda>v. v_memory_id v = i) (memory_versions w') = filter (\<lambda>v. v_memory_id v = i) (memory_versions w)"
proof -
  let ?P = "preserved i (filter (\<lambda>r. c_memory_id r = i) (memory_items w))
    (filter (\<lambda>v. v_memory_id v = i) (memory_versions w))"
  have "?P w" using assms(1) by (simp add: preserved_def)
  then have "?P (snd (soft_delete j u w))" "?P (snd (hard_delete j u w))" "?P (snd (cascade_forget j u w))"
    using preserved_soft_delete preserved_hard_delete keeps_cascade_loop [of ?P u w]
    by (simp_all add: keeps_def cascade_forget_def)
  with assms(2) show ?thesis by (auto simp: preserved_def)
qed

text \<open>Memories \<open>b\<close> and \<open>c\<close> derived from \<open>a\<close> and \<open>b\<close>, and an unrelated memory \<open>z\<close> under hold.\<close>

definition demo_chain :: world where
  "demo_chain = empty_world\<lparr>
     memory_items := [row_of_id ''a'', (row_of_id ''b'')\<lparr>c_derived_from := JArray [JString ''a'']\<rparr>,
       (row_of_id ''c'')\<lparr>c_derived_from := JArray [JString ''b'']\<rparr>, row_of_id ''z''],
     legal_holds := [\<lparr>h_memory_id = ''z'', h_tenant_id = ''t'', h_reason = ''case'', h_case_id = None, h_placed_at = 0\<rparr>],
     uuids := (\<lambda>n. CHR ''x'' # replicate n CHR ''y'')\<rparr>"

theorem held_memory_survives_witness:
  "filter (\<lambda>r. c_memory_id r = ''z'') (memory_items (snd (hard_delete ''z'' ''u'' demo_chain))) = [row_of_id ''z'']"
  using held_memory_survives [of "''z''" demo_chain "snd (hard_delete ''z'' ''u'' demo_chain)" "''z''" "''u''"]
  by (simp add: demo_chain_def held_def row_of_id_def)

text \<open>
  C14 (functional).  A cascade that returns has revoked its root and every memory derived
  from it, directly or through other memories that were not revoked before, provided no
  derivation chain from the root has five or more steps (the depth limit).
\<close>

theorem cascade_complete:
  assumes "cascade_forget i u w = (Inr n, w')" and "(derives w)\<^sup>*\<^sup>* i c"
    and "\<And>x. \<not> (derives w ^^ MAX_CASCADE_DEPTH) i x"
  shows "gone c w'"
proof -
  have "\<exists>vis. cascade_inv w i [] vis w'"
    using cascade_inv_start assms(1) [unfolded cascade_forget_def]
    by (rule cascade_loop_rule [where Inv = "cascade_inv w i"])
      (erule cascade_inv_skip, assumption, rule assms(3), erule cascade_inv_visit, assumption+)
  then show ?thesis using cascade_inv_end assms(2) by blast
qed

lemma demo_chain_derives:
  "derives demo_chain p c \<longleftrightarrow> (p = ''a'' \<and> c = ''b'') \<or> (p = ''b'' \<and> c = ''c'')"
  by (auto simp: derives_def demo_chain_def row_of_id_def jsonb_array_has_def array_or_empty_def)

lemmas forget_run = soft_delete_def find_derived_memories_def guard_hold_def is_under_hold_run
  update_memory_row_def log_revocation_def build_forget_audit_entry_def audit_entry_new_def
  audit_record_def outbox_enqueue_def monad_defs prim_defs sql_update_def rows_matching_def
  should_cascade_at_depth_def MAX_CASCADE_DEPTH_def jsonb_array_has_def array_or_empty_def
  new_outbox_row_def audit_row_of_def

lemma demo_chain_cascade: "\<exists>w'. cascade_forget ''a'' ''u'' demo_chain = (Inr 3, w')"
  by (simp add: cascade_forget_def cascade_loop.simps forget_run demo_chain_def row_of_id_def
      empty_world_def held_def)

lemma demo_chain_depth: "\<not> (derives demo_chain ^^ MAX_CASCADE_DEPTH) ''a'' x"
  by (simp add: MAX_CASCADE_DEPTH_def numeral_eq_Suc OO_def demo_chain_derives)

lemma demo_chain_reach: "(derives demo_chain)\<^sup>*\<^sup>* ''a'' c \<longleftrightarrow> c \<in> {''a'', ''b'', ''c''}"
proof
  show "(derives demo_chain)\<^sup>*\<^sup>* ''a'' c \<Longrightarrow> c \<in> {''a'', ''b'', ''c''}"
    by (induction rule: rtranclp_induct) (auto simp: demo_chain_derives)
  have "derives demo_chain ''a'' ''b''" "derives demo_chain ''b'' ''c''"
    by (simp_all add: demo_chain_derives)
  then show "c \<in> {''a'', ''b'', ''c''} \<Longrightarrow> (derives demo_chain)\<^sup>*\<^sup>* ''a'' c"
    by (auto intro: rtranclp.rtrancl_into_rtrancl)
qed

theorem cascade_complete_witness:
  "gone ''c'' (snd (cascade_forget ''a'' ''u'' demo_chain)) \<and> \<not> gone ''c'' demo_chain"
proof -
  obtain w' where w': "cascade_forget ''a'' ''u'' demo_chain = (Inr 3, w')"
    using demo_chain_cascade by blast
  have "gone ''c'' w'"
    by (rule cascade_complete [OF w']) (simp_all add: demo_chain_reach demo_chain_depth)
  with w' show ?thesis by (simp add: gone_def demo_chain_def row_of_id_def)
qed

text \<open>
  A cascade that returns leaves every memory alone that is not derived from
  its root: the row is still in the table, unchanged.
\<close>

theorem cascade_only_derived:
  assumes "cascade_forget i u w = (Inr n, w')" and "r \<in> set (memory_items w)"
    and "\<not> (derives w)\<^sup>*\<^sup>* i (c_memory_id r)"
  shows "r \<in> set (memory_items w')"
proof -
  have start: "unreached_inv w i r [(i, 0)] w" using assms(2) by (simp add: unreached_inv_def)
  have "\<exists>vis :: uuid list. unreached_inv w i r [] w'"
    using start assms(1) [unfolded cascade_forget_def]
  proof (rule cascade_loop_rule [where Inv = "\<lambda>st vis. unreached_inv w i r st"])
    show "unreached_inv w i r st x" if "unreached_inv w i r ((j, d) # st) x" for j d st x
      using that by (simp add: unreached_inv_def)
  qed (erule unreached_inv_visit [OF _ assms(3)], assumption+)
  then show ?thesis by (simp add: unreached_inv_def)
qed

theorem cascade_only_derived_witness:
  "row_of_id ''z'' \<in> set (memory_items (snd (cascade_forget ''a'' ''u'' demo_chain)))"
proof -
  obtain w' where w': "cascade_forget ''a'' ''u'' demo_chain = (Inr 3, w')"
    using demo_chain_cascade by blast
  have "row_of_id ''z'' \<in> set (memory_items w')"
    by (rule cascade_only_derived [OF w'])
      (simp add: demo_chain_def, simp add: demo_chain_reach row_of_id_def)
  with w' show ?thesis by simp
qed

lemma erase_memory_effect:
  assumes "erase_memory i w = (Inr (), w')"
  shows "i \<in> c_memory_id ` set (memory_items w) \<and>
    memory_items w' = filter (\<lambda>r. c_memory_id r \<noteq> i) (memory_items w) \<and>
    memory_versions w' = filter (\<lambda>v. v_memory_id v \<noteq> i) (memory_versions w) \<and>
    outbox_events w' = filter (\<lambda>e. o_aggregate_id e \<noteq> i) (outbox_events w) \<and>
    access_audit w' = access_audit w"
  using assms rows_matching_0_iff [of "\<lambda>r. c_memory_id r = i" "memory_items w"]
  by (auto simp: erase_memory_def bindE_Inr_iff map_err_def exec_def modify_def ret_def throw_def
      sql_delete_def split: if_splits)

text \<open>
  A hard delete that returns has removed the memory row, its versions and
  the outbox events about it, and the audit log has gained exactly one entry, naming the
  requester and the memory.
\<close>

theorem hard_delete_complete:
  assumes "hard_delete i u w = (Inr (), w')"
  shows "i \<in> c_memory_id ` set (memory_items w) \<and>
    memory_items w' = filter (\<lambda>r. c_memory_id r \<noteq> i) (memory_items w) \<and>
    memory_versions w' = filter (\<lambda>v. v_memory_id v \<noteq> i) (memory_versions w) \<and>
    outbox_events w' = filter (\<lambda>e. o_aggregate_id e \<noteq> i) (outbox_events w) \<and>
    (\<exists>a. access_audit w' = access_audit w @ [a] \<and> a_action a = ''hard_delete'' \<and>
       a_memory_id a = Some i \<and> a_accessor_user a = Some u)"
proof -
  obtain x w1 e w2 y w3 where g: "guard_hold i w = (Inr x, w1)"
    and e: "build_forget_audit_entry i u ''hard_delete'' w1 = (Inr e :: forget_error + audit_entry, w2)"
    and a: "audit_record e w2 = (Inr y, w3)" and d: "erase_memory i w3 = (Inr (), w')"
    using assms unfolding hard_delete_def bindE_Inr_iff map_err_Inr_iff by blast
  have "\<exists>n. w1 = w\<lparr>tick := n\<rparr>"
    using g by (cases rule: ensure_schema_cases [of w])
      (auto simp: guard_hold_def is_under_hold_def monad_defs exec_def split: if_splits)
  moreover have "w2 = w1\<lparr>tick := Suc (Suc (tick w1))\<rparr>" "ae_action e = ''hard_delete''"
    "ae_memory_id e = Some i" "ae_accessor_user e = u"
    using e by (auto simp: build_forget_audit_entry_def audit_entry_new_def monad_defs prim_defs)
  moreover have "w3 = w2\<lparr>tick := Suc (tick w2), access_audit := access_audit w2 @ [audit_row_of e]\<rparr>"
    using a by (auto simp: audit_record_def exec_def split: if_splits)
  ultimately show ?thesis
    using erase_memory_effect [OF d] by (auto simp: audit_row_of_def)
qed

theorem hard_delete_complete_witness:
  "\<exists>w'. hard_delete ''a'' ''u'' demo_chain = (Inr (), w') \<and> ''a'' \<notin> c_memory_id ` set (memory_items w')"
proof -
  have "fst (hard_delete ''a'' ''u'' demo_chain) = Inr ()"
    by (simp add: hard_delete_def erase_memory_def forget_run demo_chain_def row_of_id_def empty_world_def held_def)
  then obtain w' where w': "hard_delete ''a'' ''u'' demo_chain = (Inr (), w')"
    by (cases "hard_delete ''a'' ''u'' demo_chain") simp
  then show ?thesis using hard_delete_complete [OF w'] by auto
qed

text \<open>
  The outbox event a soft delete enqueues cannot be dispatched: its payload
  carries neither \<open>tenant_id\<close> nor \<open>user_id\<close>, so at every attempt, whatever the retry count,
  the worker reports the missing field and touches no key.
\<close>

theorem revocation_event_undeliverable:
  "process_event scan wk (map_row_to_outbox_event
      (new_outbox_row e MemoryRevoked i (build_forget_outbox_payload i u) t)) w =
     (Inl (SerializationErr ''missing or invalid field: tenant_id''), w) \<and>
   process_event scan wk (map_row_to_outbox_event
      (new_outbox_row e MemoryRevoked i (augment_retry_count (build_forget_outbox_payload i u) n) t)) w =
     (Inl (SerializationErr ''missing or invalid field: tenant_id''), w)"
  by (simp add: process_event_def compute_invalidation_actions_def map_row_to_outbox_event_def
      new_outbox_row_def parse_event_type_def build_forget_outbox_payload_def augment_retry_count_def
      payload_str_def throw_def)

text \<open>
  Bulk forgetting revokes a user's memories even under legal hold: every row
  the user created in the tenant is revoked, with no regard to \<open>legal_hold\<close>, and all other
  rows are unchanged.
\<close>

theorem forget_user_data_revokes_all:
  assumes "\<not> fails w (tick w)"
  shows "\<exists>t w'. forget_user_data u ten w =
      (Inr (rows_matching (\<lambda>r. c_created_by_user r = Some u \<and> c_tenant_id r = ten) (memory_items w)), w') \<and>
    memory_items w' = map (\<lambda>r. if c_created_by_user r = Some u \<and> c_tenant_id r = ten
       then r\<lparr>c_status := ''revoked'', c_updated_at := t\<rparr> else r) (memory_items w) \<and>
    legal_holds w' = legal_holds w"
proof (intro exI conjI)
  let ?p = "\<lambda>r. c_created_by_user r = Some u \<and> c_tenant_id r = ten"
  let ?t = "clock w (Suc (tick w))"
  let ?w = "w\<lparr>tick := Suc (tick w), memory_items := sql_update ?p
    (\<lambda>r. r\<lparr>c_status := ''revoked'', c_updated_at := ?t\<rparr>) (memory_items w)\<rparr>"
  show "forget_user_data u ten w = (Inr (rows_matching ?p (memory_items w)), ?w)"
    using assms by (simp add: forget_user_data_def map_err_def Let_def sql_now_def)
  show "memory_items ?w = map (\<lambda>r. if ?p r then r\<lparr>c_status := ''revoked'', c_updated_at := ?t\<rparr> else r) (memory_items w)"
    by (simp add: sql_update_def)
  show "legal_holds ?w = legal_holds w" by simp
qed

theorem forget_user_data_revokes_all_witness:
  "''z'' \<in> held demo_chain \<and> (\<exists>w'. forget_user_data ''u'' ''t'' demo_chain = (Inr 4, w') \<and>
     (\<forall>r \<in> set (memory_items w'). c_status r = ''revoked''))"
proof -
  have all: "\<forall>r \<in> set (memory_items demo_chain). c_created_by_user r = Some ''u'' \<and> c_tenant_id r = ''t''"
    and n: "rows_matching (\<lambda>r. c_created_by_user r = Some ''u'' \<and> c_tenant_id r = ''t'') (memory_items demo_chain) = 4"
    and h: "''z'' \<in> held demo_chain" and f: "\<not> fails demo_chain (tick demo_chain)"
    by (simp_all add: demo_chain_def row_of_id_def rows_matching_def held_def empty_world_def)
  from forget_user_data_revokes_all [OF f, of "''u''" "''t''"] obtain t w'
    where "forget_user_data ''u'' ''t'' demo_chain = (Inr 4, w')"
      and "memory_items w' = map (\<lambda>r. if c_created_by_user r = Some ''u'' \<and> c_tenant_id r = ''t''
        then r\<lparr>c_status := ''revoked'', c_updated_at := t\<rparr> else r) (memory_items demo_chain)"
    unfolding n by blast
  with all h show ?thesis by auto
qed

end
