(* ===== verification/Versioning.thy ===== *)
theory Versioning
  imports MemoryRepo
begin

text \<open>
  \<open>governance/version.rs\<close>: snapshots of memories and rollback.  A snapshot gets the next
  version number and never changes; a rollback restores the snapshot and first saves the
  current state, so rolling back to that saved version undoes it (\<open>rollback_undo\<close>).
\<close>

section \<open>Errors and payloads\<close>

datatype version_error =
    VersionDatabase db_error
  | VersionItemNotFound uuid
  | VersionNotFound uuid int
  | VersionSerialization

definition convert_repo_error :: "uuid \<Rightarrow> memory_repo_error \<Rightarrow> version_error" where
  "convert_repo_error i e =
     (case e of RepoNotFound \<Rightarrow> VersionItemNotFound i | RepoDatabase d \<Rightarrow> VersionDatabase d)"

text \<open>
  The payload column holds the JSON form of the item; the model keeps the item.  Reading it
  back is the identity up to two effects of the JSON form: a non-finite float is written
  as \<open>null\<close>, which does not read back as a number, and a \<open>structured_payload\<close> that is the
  JSON \<open>null\<close> reads back as absent.
\<close>

definition to_memory_item :: "memory_item version_row \<Rightarrow> version_error + memory_item" where
  "to_memory_item v =
     (let m = v_payload v
      in if f32_finite (mi_confidence m) \<and> f32_finite (mi_importance m)
         then Inr (if mi_structured_payload m = Some JNull then m\<lparr>mi_structured_payload := None\<rparr> else m)
         else Inl VersionSerialization)"

section \<open>Operations\<close>

text \<open>\<open>COALESCE(MAX(version), 0) + 1\<close> over the versions of one memory.\<close>

definition next_version :: "uuid \<Rightarrow> 'p version_row list \<Rightarrow> int" where
  "next_version i vs =
     (case map v_version (filter (\<lambda>v. v_memory_id v = i) vs) of
        [] \<Rightarrow> 0 | n # ns \<Rightarrow> fold max ns n) + 1"

definition create_version ::
  "uuid \<Rightarrow> string \<Rightarrow> string option \<Rightarrow> (world, version_error, memory_item version_row) op" where
  "create_version i changed_by change_reason =
     bindE (map_err (convert_repo_error i) (repo_get_by_id i)) (\<lambda>found.
     bindE (ok_or found (VersionItemNotFound i)) (\<lambda>item.
     bindE new_v4 (\<lambda>vid.
     map_err VersionDatabase (exec (\<lambda>w.
       let n = next_version i (memory_versions w);
           v = \<lparr>v_version_id = vid, v_memory_id = i, v_version = n, v_payload = item,
                v_changed_by = changed_by, v_change_reason = change_reason, v_created_at = sql_now w\<rparr>
       in if n > int4_max then (Inl DbError, w)
          else bindE (insert_version_row v) (\<lambda>_. ret v) w)))))"

definition list_versions :: "uuid \<Rightarrow> (world, version_error, memory_item version_row list) op" where
  "list_versions i = map_err VersionDatabase (exec (gets (\<lambda>w.
     order_desc v_created_at (filter (\<lambda>v. v_memory_id v = i) (memory_versions w)))))"

definition get_version :: "uuid \<Rightarrow> int \<Rightarrow> (world, version_error, memory_item version_row) op" where
  "get_version i n =
     bindE (map_err VersionDatabase (exec (gets (\<lambda>w.
       find (\<lambda>v. v_memory_id v = i \<and> v_version v = n) (memory_versions w))))) (\<lambda>row.
     ok_or row (VersionNotFound i n))"

definition restore_columns :: "memory_item \<Rightarrow> time \<Rightarrow> memory_row \<Rightarrow> memory_row" where
  "restore_columns m t r = r\<lparr>
     c_tenant_id := mi_tenant_id m, c_memory_type := memory_type_as_str (mi_memory_type m),
     c_scope := scope_as_str (mi_scope m), c_subject_type := mi_subject_type m,
     c_subject_id := mi_subject_id m, c_entity_refs := JArray (mi_entity_refs m),
     c_content := mi_content m, c_structured_payload := mi_structured_payload m,
     c_source_type := source_type_as_str (mi_source_type m),
     c_source_reference := mi_source_reference m, c_evidence_refs := JArray (mi_evidence_refs m),
     c_confidence := mi_confidence m, c_authority_level := authority_level_as_str (mi_authority_level m),
     c_importance := mi_importance m, c_observed_at := mi_observed_at m,
     c_valid_from := mi_valid_from m, c_valid_to := mi_valid_to m,
     c_privacy_class := privacy_class_as_str (mi_privacy_class m), c_acl := mi_acl m,
     c_retention_policy := mi_retention_policy m, c_status := memory_status_as_str (mi_status m),
     c_derived_from := JArray (mi_derived_from m), c_created_by_user := mi_created_by_user m,
     c_created_by_agent := mi_created_by_agent m, c_last_verified_at := mi_last_verified_at m,
     c_version := c_version r + 1, c_updated_at := t\<rparr>"

text \<open>The \<open>UPDATE .. RETURNING version, updated_at\<close>.\<close>

definition restore_row :: "uuid \<Rightarrow> memory_item \<Rightarrow> (world, db_error, (int \<times> time) option) op" where
  "restore_row i m = exec (\<lambda>w.
     case find (\<lambda>r. c_memory_id r = i) (memory_items w) of
       None \<Rightarrow> (Inr None, w)
     | Some r \<Rightarrow>
         if c_version r \<ge> int4_max then (Inl DbError, w)
         else (Inr (Some (c_version r + 1, sql_now w)),
               w\<lparr>memory_items := sql_update (\<lambda>r. c_memory_id r = i) (restore_columns m (sql_now w)) (memory_items w)\<rparr>))"

definition rollback_to_version :: "uuid \<Rightarrow> int \<Rightarrow> string \<Rightarrow> (world, version_error, memory_item) op" where
  "rollback_to_version i n changed_by =
     bindE (create_version i changed_by (Some ''pre_rollback_snapshot'')) (\<lambda>_.
     bindE (get_version i n) (\<lambda>target.
     bindE (case to_memory_item target of Inl e \<Rightarrow> throw e | Inr item \<Rightarrow> ret item) (\<lambda>item.
     bindE (map_err VersionDatabase (restore_row i item)) (\<lambda>res.
     case res of
       Some (new_version, updated_at) \<Rightarrow> ret (item\<lparr>mi_version := new_version, mi_updated_at := updated_at\<rparr>)
     | None \<Rightarrow> throw (VersionItemNotFound i)))))"

section \<open>Numbers of snapshots\<close>

lemma fold_max_ge: "x \<in> set (n # ns) \<Longrightarrow> x \<le> fold max ns (n :: int)"
  by (metis List.finite_set Max.set_eq_fold Max_ge)

lemma next_version_fresh:
  assumes "v \<in> set vs" and "v_memory_id v = i"
  shows "v_version v < next_version i vs"
proof -
  let ?ns = "map v_version (filter (\<lambda>v. v_memory_id v = i) vs)"
  have "v_version v \<in> set ?ns" using assms by auto
  then show ?thesis
    using fold_max_ge by (cases ?ns) (fastforce simp: next_version_def)+
qed

lemma keeps_wf_versions_insert [keep_intros]: "keeps wf_versions (insert_version_row v)"
  by (simp add: keeps_def wf_versions_insert)

lemma keeps_create_version:
  assumes "\<And>w t. P w \<Longrightarrow> P (w\<lparr>tick := t\<rparr>)" and "\<And>v. keeps P (insert_version_row v)"
  shows "keeps P (create_version i by' reason)"
  unfolding create_version_def repo_get_by_id_def
proof (intro keep_intros assms)
  show "keeps P (\<lambda>w.
       let n = next_version i (memory_versions w);
           v = \<lparr>v_version_id = vid, v_memory_id = i, v_version = n, v_payload = item,
                v_changed_by = by', v_change_reason = reason, v_created_at = sql_now w\<rparr>
       in if n > int4_max then (Inl DbError, w)
          else bindE (insert_version_row v) (\<lambda>_. ret v) w)" for item vid
    by (auto intro!: keepsI elim!: bindE_E simp: Let_def ret_def split: if_splits dest: keepsD [OF assms(2)])
qed

lemma readable_restore [simp]: "readable_row (restore_columns m t r)"
  by (simp add: readable_row_def restore_columns_def)

lemma restore_id [simp]: "c_memory_id (restore_columns m t r) = c_memory_id r"
  by (simp add: restore_columns_def)

lemma keeps_restore_row: "keeps wf_memory (restore_row i m)"
  unfolding restore_row_def
  by (intro keep_intros) (auto intro!: keepsI wf_memory_update split: option.splits if_splits)

lemma keeps_get_version [keep_intros]:
  "(\<And>w t. P w \<Longrightarrow> P (w\<lparr>tick := t\<rparr>)) \<Longrightarrow> keeps P (get_version i n)"
  unfolding get_version_def by (intro keep_intros)

lemma insert_version_frame: "(\<And>w x. P w \<Longrightarrow> P (w\<lparr>memory_versions := x\<rparr>)) \<Longrightarrow> keeps P (insert_version_row v)"
  by (simp add: keeps_def insert_version_row_def)

lemma keeps_rollback:
  assumes "\<And>w t. P w \<Longrightarrow> P (w\<lparr>tick := t\<rparr>)" and "\<And>v. keeps P (insert_version_row v)"
    and "\<And>m. keeps P (restore_row i m)"
  shows "keeps P (rollback_to_version i n u)"
  unfolding rollback_to_version_def
  by (intro keep_intros keeps_create_version assms) (auto intro!: keep_intros)

section \<open>Runs of the operations\<close>

lemma create_version_InrD:
  assumes "create_version i u reason w = (Inr v, w')"
  shows "\<exists>r n. find (\<lambda>r. c_memory_id r = i) (memory_items w) = Some r \<and>
    v_payload v = map_row_to_memory_item r \<and> v_memory_id v = i \<and> v_changed_by v = u \<and>
    v_change_reason v = reason \<and> v_version v = next_version i (memory_versions w) \<and>
    w' = w\<lparr>tick := n, memory_versions := memory_versions w @ [v]\<rparr>"
  using assms
  by (auto simp: create_version_def repo_get_by_id_def insert_version_row_def bindE_Inr_iff
      ok_or_def Let_def exec_def ret_def gets_def throw_def new_v4_def
      split: if_splits option.splits)

lemma restore_row_InrD:
  assumes "restore_row i m w = (Inr (Some (n, t)), w')"
  shows "\<exists>r k. find (\<lambda>r. c_memory_id r = i) (memory_items w) = Some r \<and> n = c_version r + 1 \<and>
    w' = w\<lparr>tick := k, memory_items := sql_update (\<lambda>r. c_memory_id r = i) (restore_columns m t) (memory_items w)\<rparr>"
  using assms by (auto simp: restore_row_def exec_def split: if_splits option.splits)

lemma get_version_InrD:
  assumes "get_version i n w = (Inr v, w')"
  shows "find (\<lambda>v. v_memory_id v = i \<and> v_version v = n) (memory_versions w) = Some v \<and>
    (\<exists>k. w' = w\<lparr>tick := k\<rparr>)"
  using assms by (auto simp: get_version_def bindE_Inr_iff exec_def gets_def ok_or_def ret_def throw_def
      split: if_splits option.splits)

lemma rollback_InrE:
  assumes "rollback_to_version i n u w = (Inr item, w')"
  obtains v r t m x where "find (\<lambda>r. c_memory_id r = i) (memory_items w) = Some r"
    and "v_payload v = map_row_to_memory_item r" and "v_memory_id v = i"
    and "v_version v = next_version i (memory_versions w)"
    and "find (\<lambda>v. v_memory_id v = i \<and> v_version v = n) (memory_versions w @ [v]) = Some x"
    and "to_memory_item x = Inr m" and "item = m\<lparr>mi_version := c_version r + 1, mi_updated_at := t\<rparr>"
    and "memory_versions w' = memory_versions w @ [v]"
    and "memory_items w' = sql_update (\<lambda>r. c_memory_id r = i) (restore_columns m t) (memory_items w)"
proof -
  from assms obtain v w1 x w2 m w3 res w4 where
    c: "create_version i u (Some ''pre_rollback_snapshot'') w = (Inr v, w1)" and
    g: "get_version i n w1 = (Inr x, w2)" and
    tm: "(case to_memory_item x of Inl e \<Rightarrow> throw e | Inr m \<Rightarrow> ret m) w2 = (Inr m, w3)" and
    rr: "map_err VersionDatabase (restore_row i m) w3 = (Inr res, w4)" and
    fin: "(case res of Some (nv, t) \<Rightarrow> ret (m\<lparr>mi_version := nv, mi_updated_at := t\<rparr>)
       | None \<Rightarrow> throw (VersionItemNotFound i)) w4 = (Inr item, w')"
    unfolding rollback_to_version_def by (elim bindE_InrE) (rule that, assumption+)
  from tm have m: "to_memory_item x = Inr m" and w3: "w3 = w2"
    by (cases "to_memory_item x"; simp add: throw_def ret_def)+
  from rr fin w3 obtain nv t where r: "restore_row i m w2 = (Inr (Some (nv, t)), w')"
    and item: "item = m\<lparr>mi_version := nv, mi_updated_at := t\<rparr>"
    by (cases res) (auto simp: throw_def ret_def)
  obtain r k where r1: "find (\<lambda>r. c_memory_id r = i) (memory_items w) = Some r"
    "v_payload v = map_row_to_memory_item r" "v_memory_id v = i"
    "v_version v = next_version i (memory_versions w)"
    and w1: "w1 = w\<lparr>tick := k, memory_versions := memory_versions w @ [v]\<rparr>"
    using create_version_InrD [OF c] by blast
  obtain k2 where x: "find (\<lambda>v. v_memory_id v = i \<and> v_version v = n) (memory_versions w1) = Some x"
    and w2: "w2 = w1\<lparr>tick := k2\<rparr>"
    using get_version_InrD [OF g] by blast
  obtain r2 k3 where r2: "find (\<lambda>r. c_memory_id r = i) (memory_items w2) = Some r2" "nv = c_version r2 + 1"
    and w': "w' = w2\<lparr>tick := k3, memory_items := sql_update (\<lambda>r. c_memory_id r = i) (restore_columns m t) (memory_items w2)\<rparr>"
    using restore_row_InrD [OF r] by blast
  show thesis
    by (rule that [OF r1 _ m]) (use x w1 w2 w' r1 r2 item in simp_all)
qed

section \<open>Rows and their items\<close>

text \<open>
  A row written by the service: its enum columns are readable, its array columns are
  arrays, its floats finite and its structured payload not the JSON \<open>null\<close>.  Such a row is
  determined by its item, its embedding apart.
\<close>

definition plain_row :: "memory_row \<Rightarrow> bool" where
  "plain_row r \<longleftrightarrow> readable_row r \<and>
     (\<exists>xs. c_entity_refs r = JArray xs) \<and> (\<exists>xs. c_evidence_refs r = JArray xs) \<and>
     (\<exists>xs. c_derived_from r = JArray xs) \<and>
     f32_finite (c_confidence r) \<and> f32_finite (c_importance r) \<and> c_structured_payload r \<noteq> Some JNull"

lemma to_memory_item_plain:
  assumes "plain_row r" and "v_payload v = map_row_to_memory_item r"
  shows "to_memory_item v = Inr (map_row_to_memory_item r)"
  using assms by (simp add: to_memory_item_def plain_row_def map_row_to_memory_item_def)

lemma restore_item:
  assumes "plain_row r" and "c_embedding q = c_embedding r" and "c_memory_id q = c_memory_id r"
    and "c_created_at q = c_created_at r"
  shows "restore_columns (map_row_to_memory_item r) t q = r\<lparr>c_version := c_version q + 1, c_updated_at := t\<rparr>"
  using assms
  by (cases q; cases r) (auto simp: restore_columns_def map_row_to_memory_item_def plain_row_def
      readable_row_def array_or_empty_def)

section \<open>Properties\<close>

text \<open>
  A successful snapshot stores the memory as it is now under the next free
  version number, and leaves all earlier versions and the memory itself as they were.
\<close>

theorem snapshot_appends:
  assumes "wf_memory w" and "create_version i u reason w = (Inr v, w')" and "r \<in> set (memory_items w)"
    and "c_memory_id r = i"
  shows "memory_versions w' = memory_versions w @ [v] \<and> v_payload v = map_row_to_memory_item r \<and>
    memory_items w' = memory_items w \<and>
    (\<forall>x \<in> set (memory_versions w). v_memory_id x = i \<longrightarrow> v_version x < v_version v)"
proof -
  have "find (\<lambda>x. c_memory_id x = i) (memory_items w) = Some r"
    using assms find_key_distinct [of c_memory_id "memory_items w" r] by (simp add: wf_memory_def)
  with create_version_InrD [OF assms(2)] next_version_fresh show ?thesis by fastforce
qed

theorem snapshot_appends_witness:
  "\<exists>v w'. create_version ''m'' ''u'' None (empty_world\<lparr>memory_items := [row_of_id ''m'']\<rparr>) = (Inr v, w') \<and>
     memory_versions w' = [v] \<and> v_payload v = map_row_to_memory_item (row_of_id ''m'')"
proof -
  let ?w = "empty_world\<lparr>memory_items := [row_of_id ''m'']\<rparr>"
  have "\<exists>v. fst (create_version ''m'' ''u'' None ?w) = Inr v"
    by (simp add: create_version_def repo_get_by_id_def insert_version_row_def next_version_def
        int4_max_def empty_world_def row_of_id_def monad_defs prim_defs Let_def)
  then obtain v w' where run: "create_version ''m'' ''u'' None ?w = (Inr v, w')"
    by (metis prod.collapse)
  have "wf_memory ?w" "row_of_id ''m'' \<in> set (memory_items ?w)" "c_memory_id (row_of_id ''m'') = ''m''"
    by (simp_all add: wf_memory_def readable_row_def row_of_id_def parse_memory_type_def parse_scope_def
        parse_source_type_def parse_authority_level_def parse_privacy_class_def parse_memory_status_def)
  from snapshot_appends [OF this(1) run this(2,3)] run show ?thesis by (simp add: empty_world_def)
qed

text \<open>Every column a rollback writes reads back as the field it was written from.\<close>

lemma restored_item:
  "map_row_to_memory_item (restore_columns m t r) =
     m\<lparr>mi_memory_id := c_memory_id r, mi_embedding := mi_embedding (map_row_to_memory_item r),
       mi_version := c_version r + 1, mi_created_at := c_created_at r, mi_updated_at := t\<rparr>"
  by (simp add: map_row_to_memory_item_def restore_columns_def array_or_empty_def)

lemma find_version:
  assumes "wf_versions w" and "x \<in> set (memory_versions w)" and "v_version v = next_version (v_memory_id x) (memory_versions w)"
  shows "find (\<lambda>y. v_memory_id y = v_memory_id x \<and> v_version y = v_version x) (memory_versions w @ [v]) = Some x"
proof -
  let ?key = "\<lambda>y. (v_memory_id y, v_version y)"
  have "find (\<lambda>y. ?key y = ?key x) (memory_versions w) = Some x"
    using find_key_distinct [of ?key "memory_versions w" x] assms(1,2) by (simp add: wf_versions_def)
  then show ?thesis by (simp add: find_append)
qed

text \<open>
  C23 (roundtrip).  A rollback restores the snapshot and can be undone.  After a rollback to a stored
  snapshot the memory's row reads back as the item the snapshot holds, and that item is returned,
  apart from the version counter, which has advanced once, the modification time, and the columns
  a rollback does not write: the id, the embedding and the creation time.  Rolling back to the
  snapshot the rollback saved first brings back the row as it was, apart from the counter, advanced
  twice, and the modification time.  The row is one the service writes (readable columns, arrays,
  finite numbers), and neither it nor the snapshot holds the JSON \<open>null\<close> as its payload.
\<close>

theorem rollback_undo:
  assumes wf: "wf_memory w" "wf_versions w" and r: "r \<in> set (memory_items w)" "c_memory_id r = i" "plain_row r"
    and x: "x \<in> set (memory_versions w)" "v_memory_id x = i" "v_version x = n"
      "mi_structured_payload (v_payload x) \<noteq> Some JNull"
    and first: "rollback_to_version i n u w = (Inr item1, w1)"
    and second: "rollback_to_version i (next_version i (memory_versions w)) u w1 = (Inr item2, w2)"
  shows "(\<exists>q t. q \<in> set (memory_items w1) \<and> c_memory_id q = i \<and>
       map_row_to_memory_item q = (v_payload x)\<lparr>mi_memory_id := i, mi_embedding := mi_embedding (map_row_to_memory_item r),
         mi_version := c_version r + 1, mi_created_at := c_created_at r, mi_updated_at := t\<rparr> \<and>
       item1 = (v_payload x)\<lparr>mi_version := c_version r + 1, mi_updated_at := t\<rparr>) \<and>
    (\<exists>t. r\<lparr>c_version := c_version r + 2, c_updated_at := t\<rparr> \<in> set (memory_items w2) \<and>
      item2 = map_row_to_memory_item (r\<lparr>c_version := c_version r + 2, c_updated_at := t\<rparr>))"
proof -
  from first obtain v r' t1 m x' where f1: "find (\<lambda>r. c_memory_id r = i) (memory_items w) = Some r'"
    and v: "v_payload v = map_row_to_memory_item r'" "v_memory_id v = i"
      "v_version v = next_version i (memory_versions w)"
    and x': "find (\<lambda>v. v_memory_id v = i \<and> v_version v = n) (memory_versions w @ [v]) = Some x'"
    and m: "to_memory_item x' = Inr m" and i1: "item1 = m\<lparr>mi_version := c_version r' + 1, mi_updated_at := t1\<rparr>"
    and w1: "memory_versions w1 = memory_versions w @ [v]"
      "memory_items w1 = sql_update (\<lambda>r. c_memory_id r = i) (restore_columns m t1) (memory_items w)"
    by (rule rollback_InrE)
  have "find (\<lambda>x. c_memory_id x = i) (memory_items w) = Some r"
    using wf r(1,2) find_key_distinct [of c_memory_id "memory_items w" r] by (simp add: wf_memory_def)
  with f1 have r': "r' = r" by simp
  have "x' = x" using find_version [OF wf(2) x(1), of v] x' v(3) x(2,3) by simp
  then have m_eq: "m = v_payload x" using m x(4) by (simp add: to_memory_item_def Let_def split: if_splits)
  let ?q = "restore_columns m t1 r"
  from second obtain v2 q t2 m2 y where f2: "find (\<lambda>r. c_memory_id r = i) (memory_items w1) = Some q"
    and y: "find (\<lambda>v. v_memory_id v = i \<and> v_version v = next_version i (memory_versions w)) (memory_versions w1 @ [v2]) = Some y"
    and m2: "to_memory_item y = Inr m2" and i2: "item2 = m2\<lparr>mi_version := c_version q + 1, mi_updated_at := t2\<rparr>"
    and w2: "memory_items w2 = sql_update (\<lambda>r. c_memory_id r = i) (restore_columns m2 t2) (memory_items w1)"
    by (rule rollback_InrE)
  have q: "q = ?q" using f1 f2 r' w1(2) by (simp add: find_sql_update_same)
  have none: "find (\<lambda>v. v_memory_id v = i \<and> v_version v = next_version i (memory_versions w)) (memory_versions w) = None"
    using next_version_fresh [of _ "memory_versions w" i] by (fastforce simp: find_None_notin)
  then have "y = v" using y v w1(1) by (simp add: find_append)
  then have "m2 = map_row_to_memory_item r"
    using m2 to_memory_item_plain [OF r(3)] v(1) r' by simp
  then have new: "restore_columns m2 t2 q = r\<lparr>c_version := c_version r + 2, c_updated_at := t2\<rparr>"
    using restore_item [OF r(3), of q t2] q by (simp add: restore_columns_def)
  have "q \<in> set (memory_items w1)" "c_memory_id q = i" using find_Some_in_set [OF f2] by simp_all
  then have "restore_columns m2 t2 q \<in> set (memory_items w2)"
    unfolding w2 set_sql_update by blast
  then have "r\<lparr>c_version := c_version r + 2, c_updated_at := t2\<rparr> \<in> set (memory_items w2)"
    unfolding new .
  moreover have "map_row_to_memory_item q = (v_payload x)\<lparr>mi_memory_id := i, mi_embedding := mi_embedding (map_row_to_memory_item r),
         mi_version := c_version r + 1, mi_created_at := c_created_at r, mi_updated_at := t1\<rparr>"
    unfolding q restored_item m_eq r(2) by simp
  moreover have "item2 = map_row_to_memory_item (r\<lparr>c_version := c_version r + 2, c_updated_at := t2\<rparr>)"
    using i2 q \<open>m2 = map_row_to_memory_item r\<close> by (simp add: map_row_to_memory_item_def restore_columns_def)
  ultimately show ?thesis using \<open>q \<in> set (memory_items w1)\<close> \<open>c_memory_id q = i\<close> i1 m_eq r' by blast
qed

text \<open>A memory with one saved version, whose content differs from the current one.\<close>

definition demo_versions :: world where
  "demo_versions = empty_world\<lparr>memory_items := [row_of_id ''m''],
     memory_versions := [\<lparr>v_version_id = ''v1'', v_memory_id = ''m'', v_version = 1,
       v_payload = map_row_to_memory_item ((row_of_id ''m'')\<lparr>c_content := Some ''old''\<rparr>),
       v_changed_by = ''u'', v_change_reason = None, v_created_at = 0\<rparr>]\<rparr>"

lemma row_of_id_plain: "plain_row (row_of_id i)" "readable_row (row_of_id i)" "c_memory_id (row_of_id i) = i"
  by (simp_all add: plain_row_def readable_row_def row_of_id_def parse_memory_type_def parse_scope_def
      parse_source_type_def parse_authority_level_def parse_privacy_class_def parse_memory_status_def
      f32_literals)

theorem rollback_undo_witness:
  "\<exists>item w1 item2 w2. rollback_to_version ''m'' 1 ''u'' demo_versions = (Inr item, w1) \<and>
     mi_content item = Some ''old'' \<and> rollback_to_version ''m'' 2 ''u'' w1 = (Inr item2, w2) \<and>
     mi_content item2 = Some ''fact''"
proof -
  let ?run = "rollback_to_version ''m'' 1 ''u'' demo_versions"
  have "(\<exists>item. fst ?run = Inr item \<and> mi_content item = Some ''old'') \<and>
      (\<exists>item2. fst (rollback_to_version ''m'' 2 ''u'' (snd ?run)) = Inr item2)"
    by (simp add: rollback_to_version_def create_version_def repo_get_by_id_def insert_version_row_def
        next_version_def get_version_def to_memory_item_def restore_row_def int4_max_def demo_versions_def
        empty_world_def row_of_id_def monad_defs prim_defs sql_update_def map_row_to_memory_item_def
        restore_columns_def f32_literals Let_def)
  then obtain item w1 item2 w2 where r1: "?run = (Inr item, w1)" "mi_content item = Some ''old''"
    and r2: "rollback_to_version ''m'' 2 ''u'' w1 = (Inr item2, w2)"
    by (metis prod.collapse)
  have n: "next_version ''m'' (memory_versions demo_versions) = 2"
    by (simp add: demo_versions_def next_version_def)
  have wf: "wf_memory demo_versions" "wf_versions demo_versions" "row_of_id ''m'' \<in> set (memory_items demo_versions)"
    by (simp_all add: wf_memory_def wf_versions_def demo_versions_def row_of_id_plain)
  let ?x = "hd (memory_versions demo_versions)"
  have x: "?x \<in> set (memory_versions demo_versions)" "v_memory_id ?x = ''m''" "v_version ?x = 1"
    "mi_structured_payload (v_payload ?x) \<noteq> Some JNull"
    by (simp_all add: demo_versions_def map_row_to_memory_item_def row_of_id_def)
  from rollback_undo [OF wf row_of_id_plain(3,1) x r1(1)] r2 have "mi_content item2 = Some ''fact''"
    unfolding n by (auto simp: map_row_to_memory_item_def row_of_id_def)
  with r1 r2 show ?thesis by blast
qed

end
