(* ===== verification/Retention.thy ===== *)
theory Retention
  imports MemoryRepo LegalHold
begin

text \<open>
  \<open>governance/policy.rs\<close> and \<open>governance/retention.rs\<close>: the retention policies, the sweeps
  that find what is due, and archive, delete and decay.  What a sweep returns is bounded by
  its limit, free of duplicates, and agrees with the policy engine's own answer.
\<close>

section \<open>Policies\<close>

record retention_policy =
  rp_policy_id :: string
  rp_scope :: scope
  rp_memory_type :: memory_type
  rp_ttl_days :: "nat option"
  rp_archive_after_days :: "nat option"
  rp_delete_after_days :: "nat option"

definition get_policy :: "retention_policy list \<Rightarrow> scope \<Rightarrow> memory_type \<Rightarrow> retention_policy option" where
  "get_policy policies sc mt = find (\<lambda>p. rp_scope p = sc \<and> rp_memory_type p = mt) policies"

text \<open>
  \<open>created_at + Duration::days(n)\<close> panics past the last representable instant, the end of
  the year 262142; the result is then \<open>None\<close>.
\<close>

definition max_utc :: time where
  "max_utc = secs 8210266876799 + 999999999"

definition add_days :: "time \<Rightarrow> nat \<Rightarrow> time option" where
  "add_days t n = (if t + days (int n) \<le> max_utc then Some (t + days (int n)) else None)"

definition past_threshold :: "nat option \<Rightarrow> time \<Rightarrow> time \<Rightarrow> bool option" where
  "past_threshold after created now =
     (case after of
        None \<Rightarrow> Some False
      | Some n \<Rightarrow> map_option (\<lambda>threshold. now \<ge> threshold) (add_days created n))"

definition should_archive :: "retention_policy list \<Rightarrow> memory_item \<Rightarrow> time \<Rightarrow> bool option" where
  "should_archive policies item now =
     (case get_policy policies (mi_scope item) (mi_memory_type item) of
        None \<Rightarrow> Some False
      | Some p \<Rightarrow> past_threshold (rp_archive_after_days p) (mi_created_at item) now)"

definition should_delete :: "retention_policy list \<Rightarrow> memory_item \<Rightarrow> time \<Rightarrow> bool option" where
  "should_delete policies item now =
     (case get_policy policies (mi_scope item) (mi_memory_type item) of
        None \<Rightarrow> Some False
      | Some p \<Rightarrow> past_threshold (rp_delete_after_days p) (mi_created_at item) now)"

section \<open>Sweeps\<close>

text \<open>
  One query of a sweep.  PostgreSQL rejects a time before its first instant (Julian day 0)
  and a negative \<open>LIMIT\<close>.
\<close>

definition pg_min_time :: time where
  "pg_min_time = secs (- 210866803200)"

definition due_rows :: "string list \<Rightarrow> retention_policy \<Rightarrow> nat \<Rightarrow> int \<Rightarrow> (world, db_error, uuid list) op" where
  "due_rows statuses p n remaining = exec (\<lambda>w.
     if sql_now w - days (int n) < pg_min_time then (Inl DbError, w)
     else bindE (sql_limit remaining 0 (filter (\<lambda>r. c_status r \<in> set statuses
              \<and> c_scope r = scope_as_str (rp_scope p)
              \<and> c_memory_type r = memory_type_as_str (rp_memory_type p)
              \<and> c_created_at r < sql_now w - days (int n)) (memory_items w)))
            (\<lambda>rows. ret (map c_memory_id rows)) w)"

text \<open>The inner loop: push what is new, until nothing remains to be collected.\<close>

fun collect_ids :: "uuid list \<Rightarrow> uuid list \<Rightarrow> int \<Rightarrow> uuid list \<times> int" where
  "collect_ids [] results remaining = (results, remaining)"
| "collect_ids (i # ids) results remaining =
     (if i \<in> set results then collect_ids ids results remaining
      else if remaining - 1 \<le> 0 then (results @ [i], remaining - 1)
      else collect_ids ids (results @ [i]) (remaining - 1))"

fun sweep :: "string list \<Rightarrow> (retention_policy \<Rightarrow> nat option) \<Rightarrow> retention_policy list \<Rightarrow> uuid list \<Rightarrow> int \<Rightarrow>
    (world, db_error, uuid list) op" where
  "sweep statuses after [] results remaining = ret results"
| "sweep statuses after (p # ps) results remaining =
     (if remaining \<le> 0 then ret results
      else case after p of
             None \<Rightarrow> sweep statuses after ps results remaining
           | Some n \<Rightarrow>
               bindE (due_rows statuses p n remaining) (\<lambda>rows.
               case collect_ids rows results remaining of
                 (results', remaining') \<Rightarrow> sweep statuses after ps results' remaining'))"

definition find_archivable :: "retention_policy list \<Rightarrow> int \<Rightarrow> (world, db_error, uuid list) op" where
  "find_archivable policies limit = sweep [''active''] rp_archive_after_days policies [] limit"

definition find_deletable :: "retention_policy list \<Rightarrow> int \<Rightarrow> (world, db_error, uuid list) op" where
  "find_deletable policies limit =
     sweep [''active'', ''archived'', ''revoked''] rp_delete_after_days policies [] limit"

section \<open>Transitions\<close>

definition retention_archive :: "uuid \<Rightarrow> (world, db_error, unit) op" where
  "retention_archive i =
     bindE (update_memory_row i (\<lambda>t r. r\<lparr>c_status := ''archived'', c_updated_at := t\<rparr>)) (\<lambda>_. ret ())"

definition retention_delete :: "uuid \<Rightarrow> (world, db_error, unit) op" where
  "retention_delete i = exec (modify (\<lambda>w.
     w\<lparr>memory_items := sql_delete (\<lambda>r. c_memory_id r = i) (memory_items w)\<rparr>))"

text \<open>
  \<open>REAL * REAL\<close>: PostgreSQL rejects a product that overflows or underflows.
\<close>

definition real_mul_ok :: "f32 \<Rightarrow> f32 \<Rightarrow> bool" where
  "real_mul_ok a b \<longleftrightarrow>
     (f32_finite a \<and> f32_finite b \<longrightarrow> f32_finite (f32_mul a b)) \<and>
     (f32_mul a b = Fin 0 \<longrightarrow> a = Fin 0 \<or> b = Fin 0)"

definition decay :: "uuid \<Rightarrow> f32 \<Rightarrow> (world, db_error, unit) op" where
  "decay i factor = exec (\<lambda>w.
     if (\<exists>r \<in> set (memory_items w). c_memory_id r = i \<and> \<not> real_mul_ok (c_importance r) factor)
     then (Inl DbError, w)
     else (Inr (), w\<lparr>memory_items := sql_update (\<lambda>r. c_memory_id r = i)
            (\<lambda>r. r\<lparr>c_importance := f32_mul (c_importance r) factor, c_updated_at := sql_now w\<rparr>) (memory_items w)\<rparr>))"

section \<open>What a sweep returns\<close>

lemma collect_ids_spec:
  assumes "collect_ids ids results remaining = (results', remaining')" and "distinct results"
    and "0 < remaining"
  shows "distinct results' \<and> set results \<subseteq> set results' \<and> set results' \<subseteq> set results \<union> set ids \<and>
    int (length results') + remaining' = int (length results) + remaining \<and> 0 \<le> remaining'"
  using assms
proof (induction ids results remaining rule: collect_ids.induct)
  case (1 results remaining)
  then show ?case by auto
next
  case (2 i ids results remaining)
  consider "i \<in> set results" | "i \<notin> set results" "remaining - 1 \<le> 0" | "i \<notin> set results" "\<not> remaining - 1 \<le> 0"
    by blast
  then show ?case
  proof cases
    case 1
    with 2 show ?thesis by auto
  next
    case 2
    with \<open>0 < remaining\<close> \<open>distinct results\<close> \<open>collect_ids (i # ids) results remaining = _\<close> show ?thesis by auto
  next
    case 3
    with 2(2) [OF 3] 2(3-5) show ?thesis by auto
  qed
qed

text \<open>An id is due at time \<open>t\<close> when some row with it matches a policy of the list.\<close>

definition due_at :: "string list \<Rightarrow> (retention_policy \<Rightarrow> nat option) \<Rightarrow> retention_policy list \<Rightarrow> memory_row list \<Rightarrow> time \<Rightarrow> uuid \<Rightarrow> bool" where
  "due_at statuses after ps rows t i \<longleftrightarrow> (\<exists>r \<in> set rows. \<exists>p \<in> set ps. \<exists>n. c_memory_id r = i \<and>
     c_status r \<in> set statuses \<and> after p = Some n \<and> c_scope r = scope_as_str (rp_scope p) \<and>
     c_memory_type r = memory_type_as_str (rp_memory_type p) \<and> c_created_at r < t - days (int n))"

lemma due_rows_InrD:
  assumes "due_rows statuses p n remaining w = (Inr ids, w')" and "after p = Some n"
  shows "w' = w\<lparr>tick := Suc (tick w)\<rparr> \<and>
    (\<forall>i \<in> set ids. due_at statuses after [p] (memory_items w) (sql_now w') i)"
  using assms
  by (auto simp: due_rows_def exec_def bindE_Inr_iff sql_limit_def ret_def throw_def due_at_def sql_now_def
      split: if_splits dest!: in_set_takeD) blast

lemma due_at_mono: "due_at st after ps rows t i \<Longrightarrow> set ps \<subseteq> set qs \<Longrightarrow> due_at st after qs rows t i"
  by (auto simp: due_at_def)

lemma sweep_spec:
  assumes "sweep st after ps results remaining w = (Inr out, w')" and "distinct results"
  shows "distinct out \<and> int (length out) \<le> int (length results) + max 0 remaining \<and>
    memory_items w' = memory_items w \<and> clock w' = clock w \<and> tick w \<le> tick w' \<and>
    (\<forall>i \<in> set out. i \<in> set results \<or>
       (\<exists>k. tick w < k \<and> k \<le> tick w' \<and> due_at st after ps (memory_items w) (clock w k) i))"
  using assms
proof (induction st after ps results remaining arbitrary: w rule: sweep.induct)
  case (1 st after results remaining)
  then show ?case by (simp add: ret_def)
next
  case (2 st after p ps results remaining)
  consider "remaining \<le> 0" | "0 < remaining" "after p = None" | n where "0 < remaining" "after p = Some n"
    by force
  then show ?case
  proof cases
    case 1
    with 2(3,4) show ?thesis by (simp add: ret_def)
  next
    case 2
    then show ?thesis
      using "2.IH"(1) [of w] "2.prems" due_at_mono [of st after ps _ _ _ "p # ps"] by fastforce
  next
    case 3
    then obtain rows w1 where d: "due_rows st p n remaining w = (Inr rows, w1)"
      and rest: "(case collect_ids rows results remaining of (rs, rm) \<Rightarrow> sweep st after ps rs rm) w1 = (Inr out, w')"
      using "2.prems" by (auto simp: bindE_Inr_iff)
    obtain rs rm where c: "collect_ids rows results remaining = (rs, rm)" by fastforce
    with rest have s: "sweep st after ps rs rm w1 = (Inr out, w')" by simp
    note cs = collect_ids_spec [OF c "2.prems"(2) 3(1)]
    have w1: "w1 = w\<lparr>tick := Suc (tick w)\<rparr>"
      and due: "\<And>i. i \<in> set rows \<Longrightarrow> due_at st after [p] (memory_items w) (clock w (Suc (tick w))) i"
      using due_rows_InrD [OF d, of after] 3(2) by (auto simp: sql_now_def)
    have ih: "distinct out \<and> int (length out) \<le> int (length rs) + max 0 rm \<and>
        memory_items w' = memory_items w1 \<and> clock w' = clock w1 \<and> tick w1 \<le> tick w' \<and>
        (\<forall>i \<in> set out. i \<in> set rs \<or>
          (\<exists>k. tick w1 < k \<and> k \<le> tick w' \<and> due_at st after ps (memory_items w1) (clock w1 k) i))"
      using "2.IH"(2) [OF _ 3(2) c [symmetric] s] 3(1) cs by simp
    have found: "i \<in> set results \<or>
        (\<exists>k. tick w < k \<and> k \<le> tick w' \<and> due_at st after (p # ps) (memory_items w) (clock w k) i)"
      if i: "i \<in> set out" for i
    proof -
      consider "i \<in> set results" | "i \<in> set rows"
        | k where "tick w1 < k" "k \<le> tick w'" "due_at st after ps (memory_items w1) (clock w1 k) i"
        using ih cs i by blast
      then show ?thesis
      proof cases
        case 2
        then have "due_at st after (p # ps) (memory_items w) (clock w (Suc (tick w))) i"
          by (rule due_at_mono [OF due]) simp
        moreover have "Suc (tick w) \<le> tick w'" using ih w1 by simp
        ultimately show ?thesis by blast
      next
        case 3
        then have "due_at st after (p # ps) (memory_items w) (clock w k) i"
          using w1 by (auto intro: due_at_mono)
        with 3 w1 show ?thesis by auto
      qed auto
    qed
    have "int (length out) \<le> int (length results) + max 0 remaining" using ih cs 3(1) by linarith
    with ih w1 found show ?thesis by simp
  qed
qed

section \<open>The sweeps and the policy engine\<close>

lemma due_archivable:
  assumes "due_at st after ps rows t i" and "distinct (map (\<lambda>p. (rp_scope p, rp_memory_type p)) ps)"
  shows "\<exists>r \<in> set rows. \<exists>p n. c_memory_id r = i \<and> c_status r \<in> set st \<and> after p = Some n \<and>
    get_policy ps (parse_scope (c_scope r)) (parse_memory_type (c_memory_type r)) = Some p \<and>
    c_created_at r + days (int n) < t"
proof -
  obtain r p n where r: "r \<in> set rows" "p \<in> set ps" "c_memory_id r = i" "c_status r \<in> set st"
    "after p = Some n" "c_scope r = scope_as_str (rp_scope p)"
    "c_memory_type r = memory_type_as_str (rp_memory_type p)" "c_created_at r < t - days (int n)"
    using assms(1) by (auto simp: due_at_def)
  have "get_policy ps (rp_scope p) (rp_memory_type p) = Some p"
    using find_key_distinct [OF assms(2) r(2)] by (simp add: get_policy_def)
  with r show ?thesis by (intro bexI [OF _ r(1)] exI [of _ p] exI [of _ n]) auto
qed

section \<open>Properties\<close>

text \<open>
  A sweep for archivable memories returns at most \<open>limit\<close> distinct ids, and
  each belongs to an active memory for which the policy engine's \<open>should_archive\<close> answers
  yes at the time one of its queries ran.  Policies have pairwise distinct keys; times are
  in chrono's range.
\<close>

theorem find_archivable_sound:
  assumes "find_archivable ps limit w = (Inr ids, w')"
    and "distinct (map (\<lambda>p. (rp_scope p, rp_memory_type p)) ps)" and "\<And>k. clock w k \<le> max_utc"
  shows "distinct ids \<and> int (length ids) \<le> max 0 limit \<and>
    (\<forall>i \<in> set ids. \<exists>r \<in> set (memory_items w). \<exists>k. tick w < k \<and> k \<le> tick w' \<and> c_memory_id r = i \<and>
       c_status r = ''active'' \<and> should_archive ps (map_row_to_memory_item r) (clock w k) = Some True)"
proof -
  have spec: "distinct ids \<and> int (length ids) \<le> max 0 limit \<and> (\<forall>i \<in> set ids.
      \<exists>k. tick w < k \<and> k \<le> tick w' \<and> due_at [''active''] rp_archive_after_days ps (memory_items w) (clock w k) i)"
    using sweep_spec [OF assms(1) [unfolded find_archivable_def]] by auto
  have "\<exists>r \<in> set (memory_items w). \<exists>k. tick w < k \<and> k \<le> tick w' \<and> c_memory_id r = i \<and>
       c_status r = ''active'' \<and> should_archive ps (map_row_to_memory_item r) (clock w k) = Some True"
    if i: "i \<in> set ids" for i
  proof -
    obtain k where k: "tick w < k" "k \<le> tick w'"
      and d: "due_at [''active''] rp_archive_after_days ps (memory_items w) (clock w k) i"
      using spec i by blast
    obtain r p n where r: "r \<in> set (memory_items w)" "c_memory_id r = i" "c_status r = ''active''"
      and p: "rp_archive_after_days p = Some n"
        "get_policy ps (parse_scope (c_scope r)) (parse_memory_type (c_memory_type r)) = Some p"
      and t: "c_created_at r + days (int n) < clock w k"
      using due_archivable [OF d assms(2)] by auto
    have "should_archive ps (map_row_to_memory_item r) (clock w k) = Some True"
      using p t assms(3) [of k]
      by (simp add: should_archive_def map_row_to_memory_item_def past_threshold_def add_days_def)
    with r k show ?thesis by blast
  qed
  with spec show ?thesis by blast
qed

definition demo_policies :: "retention_policy list" where
  "demo_policies = [\<lparr>rp_policy_id = ''p'', rp_scope = Personal, rp_memory_type = Semantic,
     rp_ttl_days = None, rp_archive_after_days = Some 30, rp_delete_after_days = Some 365\<rparr>]"

theorem find_archivable_sound_witness:
  "\<exists>w'. find_archivable demo_policies 10 (empty_world\<lparr>memory_items := [row_of_id ''m''], clock := (\<lambda>_. days 31)\<rparr>)
       = (Inr [''m''], w') \<and>
     should_archive demo_policies (map_row_to_memory_item (row_of_id ''m'')) (days 31) = Some True"
proof -
  let ?w = "empty_world\<lparr>memory_items := [row_of_id ''m''], clock := (\<lambda>_. days 31)\<rparr>"
  have run: "find_archivable demo_policies 10 ?w = (Inr [''m''], ?w\<lparr>tick := 1\<rparr>)"
    by (simp add: find_archivable_def demo_policies_def due_rows_def row_of_id_def empty_world_def monad_defs
        prim_defs days_def secs_def pg_min_time_def)
  have "distinct (map (\<lambda>p. (rp_scope p, rp_memory_type p)) demo_policies)" "\<And>k. clock ?w k \<le> max_utc"
    by (simp_all add: demo_policies_def max_utc_def days_def secs_def)
  from find_archivable_sound [OF run this]
  have "should_archive demo_policies (map_row_to_memory_item (row_of_id ''m'')) (days 31) = Some True" by auto
  with run show ?thesis by blast
qed

text \<open>
  The transitions of the retention manager do not consult \<open>legal_hold\<close>: with a
  reachable database a held memory is archived, or its row deleted, like any other, while
  its versions stay.
\<close>

theorem retention_ignores_holds:
  assumes "\<not> fails w (tick w)"
  shows "(\<exists>t w1. retention_archive i w = (Inr (), w1) \<and> memory_items w1 = sql_update (\<lambda>r. c_memory_id r = i)
       (\<lambda>r. r\<lparr>c_status := ''archived'', c_updated_at := t\<rparr>) (memory_items w)) \<and>
    (\<exists>w2. retention_delete i w = (Inr (), w2) \<and> i \<notin> c_memory_id ` set (memory_items w2) \<and>
       memory_versions w2 = memory_versions w \<and> legal_holds w2 = legal_holds w)"
  using assms
  by (auto simp: retention_archive_def retention_delete_def update_memory_row_def monad_defs)

theorem retention_ignores_holds_witness:
  "let w = empty_world\<lparr>memory_items := [row_of_id ''m''], legal_holds :=
       [\<lparr>h_memory_id = ''m'', h_tenant_id = ''t'', h_reason = ''case'', h_case_id = None, h_placed_at = 0\<rparr>]\<rparr>
   in ''m'' \<in> held w \<and> (\<exists>w2. retention_delete ''m'' w = (Inr (), w2) \<and> ''m'' \<notin> c_memory_id ` set (memory_items w2))"
proof -
  let ?w = "empty_world\<lparr>memory_items := [row_of_id ''m''], legal_holds :=
       [\<lparr>h_memory_id = ''m'', h_tenant_id = ''t'', h_reason = ''case'', h_case_id = None, h_placed_at = 0\<rparr>]\<rparr>"
  have "\<not> fails ?w (tick ?w)" by (simp add: empty_world_def)
  from retention_ignores_holds [OF this, of "''m''"] show ?thesis by (auto simp: held_def Let_def)
qed

text \<open>
  The sweep and the policy engine disagree at the exact threshold instant: the
  engine says a memory is due when its age equals \<open>archive_after_days\<close>, the query selects
  strictly older ones only.
\<close>

theorem threshold_instant_differs:
  assumes "c_created_at r + days (int n) = t" and "t \<le> max_utc"
    and "get_policy ps (parse_scope (c_scope r)) (parse_memory_type (c_memory_type r)) = Some p"
    and "rp_archive_after_days p = Some n" and "sql_now w' = t" and "memory_items w = [r]"
    and "due_rows [''active''] p n limit w = (Inr ids, w')"
  shows "should_archive ps (map_row_to_memory_item r) t = Some True \<and> ids = []"
  using assms due_rows_InrD [OF assms(7), of rp_archive_after_days]
  by (cases ids) (auto simp: should_archive_def map_row_to_memory_item_def past_threshold_def add_days_def due_at_def)

theorem threshold_instant_differs_witness:
  "let w = empty_world\<lparr>memory_items := [row_of_id ''m''], clock := (\<lambda>_. days 30)\<rparr>
   in fst (due_rows [''active''] (hd demo_policies) 30 10 w) = Inr [] \<and>
      should_archive demo_policies (map_row_to_memory_item (row_of_id ''m'')) (days 30) = Some True"
proof -
  let ?w = "empty_world\<lparr>memory_items := [row_of_id ''m''], clock := (\<lambda>_. days 30)\<rparr>"
  obtain ids w' where run: "due_rows [''active''] (hd demo_policies) 30 10 ?w = (Inr ids, w')" "sql_now w' = days 30"
    by (auto simp: demo_policies_def due_rows_def row_of_id_def empty_world_def monad_defs
        prim_defs days_def secs_def pg_min_time_def)
  have "should_archive demo_policies (map_row_to_memory_item (row_of_id ''m'')) (days 30) = Some True \<and> ids = []"
    by (rule threshold_instant_differs [OF _ _ _ _ run(2) _ run(1)])
      (simp_all add: row_of_id_def demo_policies_def get_policy_def parse_scope_def parse_memory_type_def
        max_utc_def days_def secs_def)
  with run show ?thesis by simp
qed

end
