(* ===== verification/Acl.thy ===== *)
theory Acl
  imports MemoryTypes
begin

text \<open>
  \<open>governance/acl.rs\<close>: the RBAC and ABAC pipeline.  The decision is characterised by a single
  formula (\<open>acl_allow_iff\<close>), from which the priority of denials and the monotonicity in grants
  follow.
\<close>

section \<open>Requests\<close>

record permission_set =
  ps_roles :: "string list"
  ps_explicit_permissions :: "string set"
  ps_denied_permissions :: "string set"

definition from_roles :: "string list \<Rightarrow> permission_set" where
  "from_roles roles = \<lparr>ps_roles = roles, ps_explicit_permissions = {}, ps_denied_permissions = {}\<rparr>"

definition ps_allow :: "string \<Rightarrow> permission_set \<Rightarrow> permission_set" where
  "ps_allow perm p = p\<lparr>ps_explicit_permissions := insert perm (ps_explicit_permissions p)\<rparr>"

definition ps_deny :: "string \<Rightarrow> permission_set \<Rightarrow> permission_set" where
  "ps_deny perm p = p\<lparr>ps_denied_permissions := insert perm (ps_denied_permissions p)\<rparr>"

datatype action = Read | Write | Promote | Revoke | Forget | Verify | Share

fun as_permission :: "action \<Rightarrow> string" where
  "as_permission Read = ''memory:read''"
| "as_permission Write = ''memory:write''"
| "as_permission Promote = ''memory:promote''"
| "as_permission Revoke = ''memory:revoke''"
| "as_permission Forget = ''memory:forget''"
| "as_permission Verify = ''memory:verify''"
| "as_permission Share = ''memory:share''"

fun action_as_str :: "action \<Rightarrow> string" where
  "action_as_str Read = ''read''"
| "action_as_str Write = ''write''"
| "action_as_str Promote = ''promote''"
| "action_as_str Revoke = ''revoke''"
| "action_as_str Forget = ''forget''"
| "action_as_str Verify = ''verify''"
| "action_as_str Share = ''share''"

record access_request =
  ar_tenant_id :: string
  ar_user_id :: string
  ar_roles :: "string list"
  ar_action :: action
  ar_scope :: scope
  ar_privacy_class :: privacy_class
  ar_memory_owner :: "string option"
  ar_subject_type :: "string option"
  ar_subject_id :: "string option"
  ar_explicit_permissions :: "string set"
  ar_denied_permissions :: "string set"

datatype access_decision = Allow string | Deny string

fun is_allow :: "access_decision \<Rightarrow> bool" where
  "is_allow (Allow _) = True"
| "is_allow (Deny _) = False"

fun is_deny :: "access_decision \<Rightarrow> bool" where
  "is_deny (Deny _) = True"
| "is_deny (Allow _) = False"

type_synonym acl_engine = "string \<rightharpoonup> string list"

definition build_request :: "permission_set \<Rightarrow> string \<Rightarrow> string \<Rightarrow> action \<Rightarrow> scope \<Rightarrow> privacy_class \<Rightarrow>
    string option \<Rightarrow> string option \<Rightarrow> string option \<Rightarrow> access_request" where
  "build_request perms tenant user act sc pc owner sty sid = \<lparr>
     ar_tenant_id = tenant, ar_user_id = user, ar_roles = ps_roles perms, ar_action = act,
     ar_scope = sc, ar_privacy_class = pc, ar_memory_owner = owner, ar_subject_type = sty,
     ar_subject_id = sid, ar_explicit_permissions = ps_explicit_permissions perms,
     ar_denied_permissions = ps_denied_permissions perms\<rparr>"

section \<open>The pipeline\<close>

text \<open>Step 7: the first role that grants the permission names the reason.\<close>

fun granting_role :: "acl_engine \<Rightarrow> string \<Rightarrow> string list \<Rightarrow> string option" where
  "granting_role eng perm [] = None"
| "granting_role eng perm (role # roles) =
     (case eng role of
        Some perms \<Rightarrow> if perm \<in> set perms then Some role else granting_role eng perm roles
      | None \<Rightarrow> granting_role eng perm roles)"

definition check :: "lowercase \<Rightarrow> acl_engine \<Rightarrow> access_request \<Rightarrow> access_decision" where
  "check lower eng req =
     (let perm = as_permission (ar_action req) in
      if perm \<in> ar_denied_permissions req
      then Deny (''permission '' @ quoted perm @ '' is explicitly denied'')
      else if ar_action req = Read \<and> ar_scope req = Personal \<and> ar_memory_owner req = Some (ar_user_id req)
      then Allow ''owner reading own personal-scope memory''
      else if ar_privacy_class req = Restricted \<and> perm \<notin> ar_explicit_permissions req
      then Deny ''restricted privacy class requires explicit permission''
      else if ar_scope req = Enterprise \<and> \<not> (\<exists>r \<in> set (ar_roles req). str_contains (lower r) ''enterprise'')
      then Deny ''enterprise scope requires an enterprise-level role''
      else if ar_scope req = Task
      then (if ar_memory_owner req = Some (ar_user_id req) \<or> perm \<in> ar_explicit_permissions req
               \<or> ar_subject_id req = Some (ar_user_id req)
            then Allow ''task participant access granted''
            else Deny ''task scope requires task participation'')
      else if perm \<in> ar_explicit_permissions req
      then Allow ''explicit permission granted''
      else case granting_role eng perm (ar_roles req) of
             Some role \<Rightarrow> Allow (''role '' @ quoted role @ '' grants '' @ quoted perm)
           | None \<Rightarrow> Deny ''no matching permission found'')"

section \<open>Facts\<close>

lemma granting_role_None_iff:
  "granting_role eng perm roles = None \<longleftrightarrow>
     \<not> (\<exists>r \<in> set roles. \<exists>ps. eng r = Some ps \<and> perm \<in> set ps)"
  by (induction eng perm roles rule: granting_role.induct) (auto split: option.splits)

definition role_grants :: "acl_engine \<Rightarrow> string \<Rightarrow> string list \<Rightarrow> bool" where
  "role_grants eng perm roles \<longleftrightarrow> (\<exists>r \<in> set roles. \<exists>ps. eng r = Some ps \<and> perm \<in> set ps)"

text \<open>The conditions under which a request that is not denied outright is allowed.\<close>

definition admitted :: "lowercase \<Rightarrow> acl_engine \<Rightarrow> access_request \<Rightarrow> bool" where
  "admitted lower eng req \<longleftrightarrow>
     (let perm = as_permission (ar_action req); owner = (ar_memory_owner req = Some (ar_user_id req))
      in (ar_action req = Read \<and> ar_scope req = Personal \<and> owner) \<or>
         ((ar_privacy_class req = Restricted \<longrightarrow> perm \<in> ar_explicit_permissions req) \<and>
          (ar_scope req = Enterprise \<longrightarrow> (\<exists>r \<in> set (ar_roles req). str_contains (lower r) ''enterprise'')) \<and>
          (if ar_scope req = Task
           then owner \<or> perm \<in> ar_explicit_permissions req \<or> ar_subject_id req = Some (ar_user_id req)
           else perm \<in> ar_explicit_permissions req \<or> role_grants eng perm (ar_roles req))))"

lemma allow_iff_admitted:
  "is_allow (check lower eng req) \<longleftrightarrow>
     as_permission (ar_action req) \<notin> ar_denied_permissions req \<and> admitted lower eng req"
  using granting_role_None_iff [of eng "as_permission (ar_action req)" "ar_roles req"]
  by (auto simp: check_def admitted_def role_grants_def Let_def split: option.split)

lemma deny_iff_not_allow: "is_deny d \<longleftrightarrow> \<not> is_allow d"
  by (cases d) auto

section \<open>Properties\<close>

text \<open>
  C22 (equivalence).  The eight-step pipeline decides exactly the following: no denial of the
  action's permission, and either an owner's read of a personal memory, or all of:
  an explicit grant if the memory is restricted, an enterprise role if its scope is
  enterprise, and participation (task scope) or an explicit or role grant (other scopes).
\<close>

theorem acl_allow_iff:
  "is_allow (check lower eng req) \<longleftrightarrow>
     (let perm = as_permission (ar_action req); owner = (ar_memory_owner req = Some (ar_user_id req))
      in perm \<notin> ar_denied_permissions req \<and>
        ((ar_action req = Read \<and> ar_scope req = Personal \<and> owner) \<or>
         ((ar_privacy_class req = Restricted \<longrightarrow> perm \<in> ar_explicit_permissions req) \<and>
          (ar_scope req = Enterprise \<longrightarrow> (\<exists>r \<in> set (ar_roles req). str_contains (lower r) ''enterprise'')) \<and>
          (if ar_scope req = Task
           then owner \<or> perm \<in> ar_explicit_permissions req \<or> ar_subject_id req = Some (ar_user_id req)
           else perm \<in> ar_explicit_permissions req \<or> role_grants eng perm (ar_roles req)))))"
  by (simp add: allow_iff_admitted admitted_def Let_def)

definition demo_request :: access_request where
  "demo_request = build_request (ps_allow ''memory:write'' (from_roles [''analyst''])) ''t'' ''u''
     Write Team Restricted (Some ''v'') None None"

theorem acl_allow_iff_witness:
  "is_allow (check ascii_lowercase Map.empty demo_request) \<and>
   \<not> is_allow (check ascii_lowercase Map.empty (demo_request\<lparr>ar_explicit_permissions := {}\<rparr>))"
  by (simp add: acl_allow_iff demo_request_def build_request_def ps_allow_def from_roles_def Let_def)

text \<open>
  Grants are monotone and denials final: enlarging the roles, the role table
  or the explicit permissions and shrinking the denials never turns an allowed request into a
  refused one.
\<close>

theorem acl_monotone:
  assumes "is_allow (check lower eng req)"
    and "set (ar_roles req) \<subseteq> set roles" and "ar_explicit_permissions req \<subseteq> expl"
    and "denied \<subseteq> ar_denied_permissions req" and "\<And>r ps. eng r = Some ps \<Longrightarrow> \<exists>qs. eng' r = Some qs \<and> set ps \<subseteq> set qs"
  shows "is_allow (check lower eng' (req\<lparr>ar_roles := roles, ar_explicit_permissions := expl,
    ar_denied_permissions := denied\<rparr>))"
proof -
  have "role_grants eng perm (ar_roles req) \<Longrightarrow> role_grants eng' perm roles" for perm
    using assms(2,5) unfolding role_grants_def by blast
  with assms show ?thesis
    unfolding allow_iff_admitted admitted_def Let_def by (auto split: if_splits)
qed

theorem acl_monotone_witness:
  "is_allow (check ascii_lowercase [''analyst'' \<mapsto> [''memory:read'']]
     (demo_request\<lparr>ar_roles := [''guest'', ''analyst''], ar_explicit_permissions := {''memory:write'', ''memory:share''},
        ar_denied_permissions := {}\<rparr>))"
  by (rule acl_monotone [of ascii_lowercase Map.empty demo_request])
    (simp_all add: allow_iff_admitted admitted_def demo_request_def build_request_def ps_allow_def
      from_roles_def Let_def)

end
