(* ===== verification/Breaker.thy ===== *)
theory Breaker
  imports Prelude "HOL-Library.Word"
begin

text \<open>
  \<open>engine.rs\<close>: the circuit breaker and the engine registry.  The breaker is a state machine
  driven by admissions, successes and failures with a monotone clock; its reachable states
  satisfy an invariant from which the refusal period and the recovery follow.  The registry
  keeps one breaker per engine, and searching all engines equals searching each on its own.
\<close>

section \<open>The breaker\<close>

datatype engine_error =
    Unavailable string
  | Timeout int
  | EngineInternal string
  | CircuitOpen string
  | EngineNotFound string
  | InvalidQuery string

datatype breaker_state = Closed | Open | HalfOpen

text \<open>
  Durations and instants are nanoseconds.  The failure counter is a \<open>u32\<close>; it wraps, as in
  a release build.
\<close>

record breaker =
  br_state :: breaker_state
  br_failures :: "32 word"
  br_threshold :: "32 word"
  br_cooldown :: int
  br_last_failure :: "time option"
  br_timeout :: int

definition breaker_new :: "32 word \<Rightarrow> int \<Rightarrow> int \<Rightarrow> breaker" where
  "breaker_new threshold cooldown timeout = \<lparr>br_state = Closed, br_failures = 0,
     br_threshold = threshold, br_cooldown = cooldown, br_last_failure = None, br_timeout = timeout\<rparr>"

definition breaker_default :: breaker where
  "breaker_default = breaker_new 5 (secs 30) 200000000"

definition allow :: "time \<Rightarrow> breaker \<Rightarrow> (engine_error + int) \<times> breaker" where
  "allow now b =
     (case br_state b of
        Closed \<Rightarrow> (Inr (br_timeout b), b)
      | HalfOpen \<Rightarrow> (Inr (br_timeout b), b\<lparr>br_state := Open, br_last_failure := Some now\<rparr>)
      | Open \<Rightarrow>
          (case br_last_failure b of
             Some last_failure \<Rightarrow> if now - last_failure \<ge> br_cooldown b
                          then (Inr (br_timeout b), b\<lparr>br_state := HalfOpen\<rparr>)
                          else (Inl (CircuitOpen ''engine''), b)
           | None \<Rightarrow> (Inl (CircuitOpen ''engine''), b)))"

definition record_success :: "breaker \<Rightarrow> breaker" where
  "record_success b = b\<lparr>br_failures := 0, br_state := Closed\<rparr>"

definition record_failure :: "time \<Rightarrow> breaker \<Rightarrow> breaker" where
  "record_failure now b =
     (let b' = b\<lparr>br_failures := br_failures b + 1, br_last_failure := Some now\<rparr>
      in if br_failures b' \<ge> br_threshold b' then b'\<lparr>br_state := Open\<rparr> else b')"

definition is_open :: "breaker \<Rightarrow> bool" where
  "is_open b \<longleftrightarrow> br_state b = Open"

section \<open>The state machine\<close>

datatype breaker_event = Admit time bool | Success | Failure time

text \<open>\<open>Admit t ok\<close> is a call to \<open>allow\<close> at \<open>t\<close> and its answer.\<close>

inductive breaker_step :: "breaker \<Rightarrow> breaker_event \<Rightarrow> breaker \<Rightarrow> bool" where
  admit: "allow t b = (Inr d, b') \<Longrightarrow> breaker_step b (Admit t True) b'"
| refuse: "allow t b = (Inl e, b') \<Longrightarrow> breaker_step b (Admit t False) b'"
| success: "breaker_step b Success (record_success b)"
| failure: "breaker_step b (Failure t) (record_failure t b)"

inductive_simps breaker_step_simps:
  "breaker_step b (Admit t True) b'" "breaker_step b (Admit t False) b'"
  "breaker_step b Success b'" "breaker_step b (Failure t) b'"

inductive breaker_run :: "breaker \<Rightarrow> breaker_event list \<Rightarrow> breaker \<Rightarrow> bool" where
  run_nil: "breaker_run b [] b"
| run_step: "breaker_step b e b1 \<Longrightarrow> breaker_run b1 es b2 \<Longrightarrow> breaker_run b (e # es) b2"

inductive_simps breaker_run_simps [simp]: "breaker_run b [] b'" "breaker_run b (e # es) b'"

lemmas breaker_defs = allow_def record_success_def record_failure_def Let_def

text \<open>What every transition leaves alone, and the invariant.\<close>

definition same_config :: "breaker \<Rightarrow> breaker \<Rightarrow> bool" where
  "same_config b b' \<longleftrightarrow> br_threshold b' = br_threshold b \<and> br_cooldown b' = br_cooldown b \<and>
     br_timeout b' = br_timeout b"

text \<open>A breaker that left \<open>Closed\<close> remembers a failure time.\<close>

definition breaker_wf :: "breaker \<Rightarrow> bool" where
  "breaker_wf b \<longleftrightarrow> (br_state b \<noteq> Closed \<longrightarrow> br_last_failure b \<noteq> None)"

lemma transition_config:
  "allow t b = (r, b') \<Longrightarrow> same_config b b'" "same_config b (record_success b)"
  "same_config b (record_failure t b)"
  by (auto simp: breaker_defs same_config_def split: breaker_state.splits option.splits if_splits)

lemma transition_wf:
  "allow t b = (r, b') \<Longrightarrow> breaker_wf b \<Longrightarrow> breaker_wf b'" "breaker_wf (record_success b)"
  "breaker_wf (record_failure t b)"
  by (auto simp: breaker_defs breaker_wf_def split: breaker_state.splits option.splits if_splits)

lemma step_config: "breaker_step b e b' \<Longrightarrow> same_config b b'"
  by (induction rule: breaker_step.induct) (auto intro: transition_config)

lemma step_wf: "breaker_step b e b' \<Longrightarrow> breaker_wf b \<Longrightarrow> breaker_wf b'"
  by (induction rule: breaker_step.induct) (auto intro: transition_wf)

lemma run_config: "breaker_run b es b' \<Longrightarrow> same_config b b'"
  by (induction rule: breaker_run.induct) (auto dest: step_config simp: same_config_def)

lemma run_wf: "breaker_run b es b' \<Longrightarrow> breaker_wf b \<Longrightarrow> breaker_wf b'"
  by (induction rule: breaker_run.induct) (auto intro: step_wf)

lemma run_append: "breaker_run b (es @ fs) b' \<longleftrightarrow> (\<exists>b1. breaker_run b es b1 \<and> breaker_run b1 fs b')"
  by (induction es arbitrary: b) auto

text \<open>Consecutive failures count up to the threshold and then open the breaker.\<close>

lemma failures_count:
  "breaker_run b (map Failure ts) b' \<Longrightarrow> br_failures b' = br_failures b + of_nat (length ts)"
  by (induction ts arbitrary: b) (auto simp: breaker_step_simps record_failure_def Let_def)

lemma failures_open:
  assumes "breaker_run b (map Failure ts) b'" and "br_failures b = 0" and "ts \<noteq> []"
    and "br_threshold b \<le> of_nat (length ts)"
  shows "br_state b' = Open \<and> br_last_failure b' = Some (last ts)"
proof -
  obtain t us where ts: "ts = us @ [t]" using assms(3) by (metis append_butlast_last_id)
  then obtain b1 where b1: "breaker_run b (map Failure us) b1" and b': "b' = record_failure t b1"
    using assms(1) by (auto simp: run_append breaker_step_simps)
  have "br_failures b1 = of_nat (length us)" "br_threshold b1 = br_threshold b"
    using failures_count [OF b1] assms(2) run_config [OF b1] by (simp_all add: same_config_def)
  then show ?thesis
    using b' assms(4) ts by (simp add: record_failure_def Let_def add.commute)
qed

text \<open>While the breaker is open and the cooldown runs, admissions are refused and change nothing.\<close>

lemma open_refuses:
  assumes "breaker_run b (map (\<lambda>(t, ok). Admit t ok) as) b'" and "br_state b = Open"
    and "br_last_failure b = Some f" and "\<forall>(t, ok) \<in> set as. t < f + br_cooldown b"
  shows "b' = b \<and> (\<forall>(t, ok) \<in> set as. \<not> ok)"
  using assms
proof (induction as)
  case Nil
  then show ?case by simp
next
  case (Cons a as)
  obtain t ok where a: "a = (t, ok)" by fastforce
  from Cons.prems a obtain b1 where s: "breaker_step b (Admit t ok) b1"
    and r: "breaker_run b1 (map (\<lambda>(t, ok). Admit t ok) as) b'" by auto
  have "allow t b = (Inl (CircuitOpen ''engine''), b)"
    using Cons.prems(2-4) a by (simp add: allow_def)
  with s have "b1 = b" "\<not> ok" by (cases ok; simp add: breaker_step_simps)+
  with Cons r a show ?case by simp
qed

datatype engine_health = Healthy | Degraded | Unreachable

section \<open>The registry\<close>

text \<open>
  An engine is the code behind \<open>MemoryEngine\<close>: its search answers within the timeout with a
  result or an error, or not at all (\<open>None\<close>); its health check answers or fails.
\<close>

record ('q, 'r) engine =
  en_name :: string
  en_search :: "'q \<Rightarrow> int \<Rightarrow> (engine_error + 'r list) option"
  en_health :: "engine_error + engine_health"

record ('q, 'r) registry =
  rg_engines :: "string \<rightharpoonup> ('q, 'r) engine"
  rg_breakers :: "string \<rightharpoonup> breaker"

definition registry_new :: "('q, 'r) registry" where
  "registry_new = \<lparr>rg_engines = Map.empty, rg_breakers = Map.empty\<rparr>"

definition register :: "('q, 'r) engine \<Rightarrow> breaker \<Rightarrow> ('q, 'r) registry \<Rightarrow> ('q, 'r) registry" where
  "register e b rg = rg\<lparr>rg_engines := (rg_engines rg)(en_name e \<mapsto> e),
     rg_breakers := (rg_breakers rg)(en_name e \<mapsto> b)\<rparr>"

definition register_default :: "('q, 'r) engine \<Rightarrow> ('q, 'r) registry \<Rightarrow> ('q, 'r) registry" where
  "register_default e rg = register e breaker_default rg"

definition unregister :: "string \<Rightarrow> ('q, 'r) registry \<Rightarrow> ('q, 'r) registry" where
  "unregister name rg = rg\<lparr>rg_engines := (rg_engines rg)(name := None),
     rg_breakers := (rg_breakers rg)(name := None)\<rparr>"

definition engine_names :: "('q, 'r) registry \<Rightarrow> string set" where
  "engine_names rg = dom (rg_engines rg)"

text \<open>\<open>entry(name).or_insert_with(CircuitBreaker::default)\<close>.\<close>

definition breaker_of :: "string \<Rightarrow> ('q, 'r) registry \<Rightarrow> breaker" where
  "breaker_of name rg = (case rg_breakers rg name of Some b \<Rightarrow> b | None \<Rightarrow> breaker_default)"

definition set_breaker :: "string \<Rightarrow> breaker \<Rightarrow> ('q, 'r) registry \<Rightarrow> ('q, 'r) registry" where
  "set_breaker name b rg = rg\<lparr>rg_breakers := (rg_breakers rg)(name \<mapsto> b)\<rparr>"

text \<open>A search that starts at \<open>t0\<close> and whose engine call is over at \<open>t1\<close>.\<close>

definition search :: "time \<Rightarrow> time \<Rightarrow> string \<Rightarrow> 'q \<Rightarrow> ('q, 'r) registry \<Rightarrow>
    (engine_error + 'r list) \<times> ('q, 'r) registry" where
  "search t0 t1 name q rg =
     (case rg_engines rg name of
        None \<Rightarrow> (Inl (EngineNotFound name), rg)
      | Some e \<Rightarrow>
          (case allow t0 (breaker_of name rg) of
             (Inl er, b) \<Rightarrow> (Inl er, set_breaker name b rg)
           | (Inr timeout, b) \<Rightarrow>
               (let rg' = set_breaker name b rg in
                case en_search e q timeout of
                  Some (Inr results) \<Rightarrow>
                    (Inr results, set_breaker name (record_success (breaker_of name rg')) rg')
                | Some (Inl er) \<Rightarrow>
                    (Inl er, set_breaker name (record_failure t1 (breaker_of name rg')) rg')
                | None \<Rightarrow>
                    (Inl (Timeout timeout), set_breaker name (record_failure t1 (breaker_of name rg')) rg'))))"

text \<open>
  The futures of \<open>search_all\<close>, in the order the engine map yields the names; \<open>flatten\<close> keeps
  the successful ones.
\<close>

fun search_all :: "time \<Rightarrow> time \<Rightarrow> string list \<Rightarrow> 'q \<Rightarrow> ('q, 'r) registry \<Rightarrow> 'r list \<times> ('q, 'r) registry" where
  "search_all t0 t1 [] q rg = ([], rg)"
| "search_all t0 t1 (n # ns) q rg =
     (case search t0 t1 n q rg of (r, rg1) \<Rightarrow>
      case search_all t0 t1 ns q rg1 of (rs, rg2) \<Rightarrow>
        ((case r of Inr xs \<Rightarrow> xs | Inl _ \<Rightarrow> []) @ rs, rg2))"

definition health_all :: "('q, 'r) registry \<Rightarrow> string \<rightharpoonup> engine_health" where
  "health_all rg name =
     (case rg_engines rg name of
        None \<Rightarrow> None
      | Some e \<Rightarrow> Some (
          if (case rg_breakers rg name of Some b \<Rightarrow> is_open b | None \<Rightarrow> False) then Unreachable
          else case en_health e of Inr h \<Rightarrow> h | Inl _ \<Rightarrow> Unreachable))"

definition noop_engine :: "string \<Rightarrow> ('q, 'r) engine" where
  "noop_engine name = \<lparr>en_name = name, en_search = (\<lambda>q t. Some (Inr [])), en_health = Inr Healthy\<rparr>"

lemma search_frame:
  "search t0 t1 n q rg = (r, rg') \<Longrightarrow> rg_engines rg' = rg_engines rg \<and>
     (m \<noteq> n \<longrightarrow> rg_breakers rg' m = rg_breakers rg m)"
  by (auto simp: search_def set_breaker_def Let_def
      split: option.splits prod.splits sum.splits)

text \<open>A search depends on, and writes, the engine and the breaker of its name only.\<close>

lemma search_local:
  assumes "rg_engines rg n = rg_engines rg' n" and "rg_breakers rg n = rg_breakers rg' n"
  shows "fst (search t0 t1 n q rg) = fst (search t0 t1 n q rg') \<and>
    rg_breakers (snd (search t0 t1 n q rg)) n = rg_breakers (snd (search t0 t1 n q rg')) n"
  using assms
  by (auto simp: search_def breaker_of_def set_breaker_def Let_def split: option.splits prod.splits sum.splits)

section \<open>Properties\<close>

text \<open>
  From a fresh breaker with a positive threshold, that many consecutive
  failures open it, and from then on every admission asked for before the cooldown has
  passed since the last failure is refused and leaves the breaker as it is.
\<close>

theorem breaker_trips:
  assumes "breaker_run (breaker_new n cd to) (map Failure ts) b" and "0 < n"
    and "length ts = unat n" and "breaker_run b (map (\<lambda>(t, ok). Admit t ok) as) b'"
    and "\<And>t ok. (t, ok) \<in> set as \<Longrightarrow> t < last ts + cd"
  shows "br_state b = Open \<and> b' = b \<and> (\<forall>(t, ok) \<in> set as. \<not> ok)"
proof -
  have "unat n > 0" using assms(2) by (simp add: unat_gt_0)
  then have "ts \<noteq> []" using assms(3) by auto
  then have o: "br_state b = Open" "br_last_failure b = Some (last ts)"
    using failures_open [OF assms(1)] assms(3) by (simp_all add: breaker_new_def)
  moreover have "br_cooldown b = cd"
    using run_config [OF assms(1)] by (simp add: breaker_new_def same_config_def)
  ultimately show ?thesis using open_refuses [OF assms(4)] assms(5) by auto
qed

theorem breaker_trips_witness:
  "\<exists>b. breaker_run (breaker_new 2 10 1) (map Failure [5, 6]) b \<and> br_state b = Open \<and>
     fst (allow 15 b) = Inl (CircuitOpen ''engine'')"
proof -
  let ?b1 = "record_failure 5 (breaker_new 2 10 1)"
  let ?b = "record_failure 6 ?b1"
  have r: "breaker_run (breaker_new 2 10 1) (map Failure [5, 6]) ?b"
    by (simp add: breaker_step_simps)
  have st: "allow 15 ?b = (Inl (CircuitOpen ''engine''), ?b)"
    by (simp add: breaker_defs breaker_new_def)
  then have a: "breaker_run ?b (map (\<lambda>(t, ok). Admit t ok) [(15, False)]) ?b"
    by (simp add: breaker_step_simps)
  have "br_state ?b = Open"
    using breaker_trips [OF r _ _ a] by simp
  with r st show ?thesis by auto
qed

text \<open>
  A breaker never stays open for good: in every state reachable from a fresh
  one, an admission asked for after the cooldown is granted, and a success recorded then
  closes the breaker and clears the counter.
\<close>

theorem breaker_recovers:
  assumes "breaker_run (breaker_new n cd to) es b"
  shows "\<exists>f. \<forall>t \<ge> f. \<exists>b'. allow t b = (Inr to, b') \<and>
    br_state (record_success b') = Closed \<and> br_failures (record_success b') = 0"
proof -
  have wf: "breaker_wf b" using run_wf [OF assms] by (simp add: breaker_wf_def breaker_new_def)
  have cfg: "br_timeout b = to" using run_config [OF assms] by (simp add: breaker_new_def same_config_def)
  show ?thesis
  proof (rule exI [of _ "(case br_last_failure b of Some f \<Rightarrow> f | None \<Rightarrow> 0) + br_cooldown b"], intro allI impI)
    fix t assume "(case br_last_failure b of Some f \<Rightarrow> f | None \<Rightarrow> 0) + br_cooldown b \<le> t"
    with wf cfg show "\<exists>b'. allow t b = (Inr to, b') \<and> br_state (record_success b') = Closed \<and>
        br_failures (record_success b') = 0"
      by (auto simp: allow_def breaker_wf_def record_success_def split: breaker_state.split option.splits)
  qed
qed

theorem breaker_recovers_witness:
  "\<exists>f. \<forall>t \<ge> f. \<exists>b'. allow t (record_failure 7 (breaker_new 1 10 1)) = (Inr 1, b')"
  using breaker_recovers [OF run_step [OF failure [of "breaker_new 1 10 1" 7] run_nil]] by blast

text \<open>
  The half-open state admits two calls: the call that finds the cooldown over
  is admitted and leaves \<open>HalfOpen\<close> behind, and so is the next call, before any outcome of
  the first is recorded.
\<close>

theorem half_open_admits_two:
  assumes "br_state b = Open" and "br_last_failure b = Some f" and "f + br_cooldown b \<le> t"
  shows "\<exists>b1 b2. allow t b = (Inr (br_timeout b), b1) \<and> br_state b1 = HalfOpen \<and>
    allow t' b1 = (Inr (br_timeout b), b2) \<and> br_state b2 = Open"
  using assms by (auto simp: allow_def)

theorem half_open_admits_two_witness:
  "\<exists>b1 b2. allow 20 (record_failure 7 (breaker_new 1 10 1)) = (Inr 1, b1) \<and> allow 21 b1 = (Inr 1, b2)"
  using half_open_admits_two [of "record_failure 7 (breaker_new 1 10 1)" 7 20 21]
  by (simp add: breaker_defs breaker_new_def)

text \<open>
  Engines are isolated: searching all engines gives, in the order of the
  names, the results each engine gives when searched alone on the initial registry, and
  leaves each breaker as its own search would; no other breaker changes.
\<close>

theorem search_all_isolated:
  assumes "distinct ns"
  shows "fst (search_all t0 t1 ns q rg) =
      concat (map (\<lambda>n. case fst (search t0 t1 n q rg) of Inr xs \<Rightarrow> xs | Inl _ \<Rightarrow> []) ns) \<and>
    (\<forall>n. rg_breakers (snd (search_all t0 t1 ns q rg)) n =
      (if n \<in> set ns then rg_breakers (snd (search t0 t1 n q rg)) n else rg_breakers rg n))"
  using assms
proof (induction ns arbitrary: rg)
  case Nil
  show ?case by simp
next
  case (Cons m ns)
  obtain r rg1 where s: "search t0 t1 m q rg = (r, rg1)" by fastforce
  obtain rs rg2 where a: "search_all t0 t1 ns q rg1 = (rs, rg2)" by fastforce
  have same: "fst (search t0 t1 n q rg1) = fst (search t0 t1 n q rg) \<and>
      rg_breakers (snd (search t0 t1 n q rg1)) n = rg_breakers (snd (search t0 t1 n q rg)) n"
    if "n \<noteq> m" for n
    using search_local [of rg1 n rg] search_frame [OF s, of n] that by simp
  have m: "m \<notin> set ns" "distinct ns" using Cons.prems by simp_all
  let ?f = "\<lambda>rg n. case fst (search t0 t1 n q rg) of Inr xs \<Rightarrow> xs | Inl _ \<Rightarrow> []"
  have eq: "map (?f rg1) ns = map (?f rg) ns"
    using same m(1) by (metis (mono_tags, lifting) map_eq_conv)
  have rs: "rs = concat (map (?f rg) ns)"
    using conjunct1 [OF Cons.IH [OF m(2), of rg1]] a by (simp only: fst_conv eq)
  have brk: "rg_breakers rg2 n = (if n \<in> set (m # ns) then rg_breakers (snd (search t0 t1 n q rg)) n
      else rg_breakers rg n)" for n
  proof (cases "n = m")
    case True
    then show ?thesis using Cons.IH [of rg1] m s a by simp
  next
    case False
    then show ?thesis using Cons.IH [of rg1] m s a same [OF False] search_frame [OF s, of n] by simp
  qed
  show ?case using rs brk s a by simp
qed

theorem search_all_isolated_witness:
  "fst (search_all 0 0 [''a'', ''b''] () (register_default (noop_engine ''a'')
     (register_default \<lparr>en_name = ''b'', en_search = (\<lambda>q t. Some (Inr [1 :: nat])), en_health = Inr Healthy\<rparr> registry_new)))
   = [1]"
  using search_all_isolated [of "[''a'', ''b'']" 0 0 "()" "register_default (noop_engine ''a'')
     (register_default \<lparr>en_name = ''b'', en_search = (\<lambda>q t. Some (Inr [1 :: nat])), en_health = Inr Healthy\<rparr> registry_new)"]
  by (simp add: search_def register_default_def register_def registry_new_def noop_engine_def breaker_of_def
      breaker_default_def breaker_new_def allow_def Let_def)

end
