(* ===== verification/Resilience.thy ===== *)
theory Resilience
  imports Breaker
begin

text \<open>
  \<open>resilience.rs\<close>: per-engine timeouts, breaker parameters and the health table used for
  routing.  The health of an engine is that of the last event recorded for it.
\<close>

section \<open>Configuration\<close>

record timeout_config =
  tc_standard_recall_ms :: nat
  tc_mem0_ms :: nat
  tc_cognee_ms :: nat
  tc_graphiti_ms :: nat
  tc_failure_threshold :: "32 word"
  tc_cooldown_secs :: nat

definition timeout_config_default :: timeout_config where
  "timeout_config_default = \<lparr>tc_standard_recall_ms = 200, tc_mem0_ms = 100, tc_cognee_ms = 500,
     tc_graphiti_ms = 500, tc_failure_threshold = 5, tc_cooldown_secs = 30\<rparr>"

definition from_millis :: "nat \<Rightarrow> int" where
  "from_millis n = int n * 1000000"

text \<open>\<open>Duration::as_millis() as u64\<close>.\<close>

definition as_millis :: "int \<Rightarrow> nat" where
  "as_millis d = nat (d div 1000000) mod 2 ^ 64"

section \<open>Events\<close>

datatype slo_event_type =
  SloTimeout | SloCircuitOpen | SloCircuitHalfOpen | SloCircuitClosed | SloSlowQuery | SloEngineRecovered

text \<open>An event without its human-readable \<open>detail\<close>.\<close>

record slo_event =
  se_event_type :: slo_event_type
  se_engine_name :: "string option"
  se_timestamp :: time
  se_duration_ms :: "nat option"

section \<open>The manager\<close>

text \<open>
  \<open>rm_recorded\<close> is what the sink has received, newest last.  \<open>EngineHealthStatus\<close> has the
  constructors of \<open>EngineHealth\<close>.
\<close>

record resilience_manager =
  rm_config :: timeout_config
  rm_engine_health :: "string \<rightharpoonup> engine_health"
  rm_recorded :: "slo_event list"

definition resilience_new :: "timeout_config \<Rightarrow> resilience_manager" where
  "resilience_new c = \<lparr>rm_config = c, rm_engine_health = Map.empty, rm_recorded = []\<rparr>"

definition timeout_for :: "lowercase \<Rightarrow> resilience_manager \<Rightarrow> string \<Rightarrow> int" where
  "timeout_for lower rm name =
     (let l = lower name; c = rm_config rm in
      if str_contains l ''mem0'' then from_millis (tc_mem0_ms c)
      else if str_contains l ''cognee'' then from_millis (tc_cognee_ms c)
      else if str_contains l ''graphiti'' then from_millis (tc_graphiti_ms c)
      else from_millis (tc_standard_recall_ms c))"

definition breaker_config :: "lowercase \<Rightarrow> resilience_manager \<Rightarrow> string \<Rightarrow> 32 word \<times> int \<times> int" where
  "breaker_config lower rm name =
     (tc_failure_threshold (rm_config rm), secs (int (tc_cooldown_secs (rm_config rm))), timeout_for lower rm name)"

definition note_health :: "string \<Rightarrow> engine_health \<Rightarrow> slo_event \<Rightarrow> resilience_manager \<Rightarrow> resilience_manager" where
  "note_health name h ev rm = rm\<lparr>rm_engine_health := (rm_engine_health rm)(name \<mapsto> h),
     rm_recorded := rm_recorded rm @ [ev]\<rparr>"

definition record_timeout :: "time \<Rightarrow> string \<Rightarrow> int \<Rightarrow> resilience_manager \<Rightarrow> resilience_manager" where
  "record_timeout now name duration = note_health name Degraded
     \<lparr>se_event_type = SloTimeout, se_engine_name = Some name, se_timestamp = now,
      se_duration_ms = Some (as_millis duration)\<rparr>"

definition record_circuit_open :: "time \<Rightarrow> string \<Rightarrow> resilience_manager \<Rightarrow> resilience_manager" where
  "record_circuit_open now name = note_health name Unreachable
     \<lparr>se_event_type = SloCircuitOpen, se_engine_name = Some name, se_timestamp = now, se_duration_ms = None\<rparr>"

definition record_circuit_recovered :: "time \<Rightarrow> string \<Rightarrow> resilience_manager \<Rightarrow> resilience_manager" where
  "record_circuit_recovered now name = note_health name Healthy
     \<lparr>se_event_type = SloEngineRecovered, se_engine_name = Some name, se_timestamp = now, se_duration_ms = None\<rparr>"

definition record_slow_query :: "time \<Rightarrow> string \<Rightarrow> int \<Rightarrow> resilience_manager \<Rightarrow> resilience_manager" where
  "record_slow_query now name duration rm = rm\<lparr>rm_recorded := rm_recorded rm @
     [\<lparr>se_event_type = SloSlowQuery, se_engine_name = Some name, se_timestamp = now,
       se_duration_ms = Some (as_millis duration)\<rparr>]\<rparr>"

definition healthy_engines :: "resilience_manager \<Rightarrow> string set" where
  "healthy_engines rm = {n. rm_engine_health rm n = Some Healthy}"

definition should_skip :: "resilience_manager \<Rightarrow> string \<Rightarrow> bool" where
  "should_skip rm name = (case rm_engine_health rm name of Some h \<Rightarrow> h = Unreachable | None \<Rightarrow> False)"

section \<open>Histories\<close>

datatype resilience_call =
    CallTimeout time string int
  | CallCircuitOpen time string
  | CallRecovered time string
  | CallSlowQuery time string int

fun run_call :: "resilience_call \<Rightarrow> resilience_manager \<Rightarrow> resilience_manager" where
  "run_call (CallTimeout t n d) rm = record_timeout t n d rm"
| "run_call (CallCircuitOpen t n) rm = record_circuit_open t n rm"
| "run_call (CallRecovered t n) rm = record_circuit_recovered t n rm"
| "run_call (CallSlowQuery t n d) rm = record_slow_query t n d rm"

fun verdict :: "string \<Rightarrow> resilience_call \<Rightarrow> engine_health option" where
  "verdict n (CallTimeout t m d) = (if m = n then Some Degraded else None)"
| "verdict n (CallCircuitOpen t m) = (if m = n then Some Unreachable else None)"
| "verdict n (CallRecovered t m) = (if m = n then Some Healthy else None)"
| "verdict n (CallSlowQuery t m d) = None"

fun last_verdict :: "string \<Rightarrow> resilience_call list \<Rightarrow> engine_health option" where
  "last_verdict n [] = None"
| "last_verdict n (c # cs) = (case last_verdict n cs of Some h \<Rightarrow> Some h | None \<Rightarrow> verdict n c)"

lemmas resilience_defs = record_timeout_def record_circuit_open_def record_circuit_recovered_def
  record_slow_query_def note_health_def

lemma run_call_health:
  "rm_engine_health (run_call c rm) n = (case verdict n c of Some h \<Rightarrow> Some h | None \<Rightarrow> rm_engine_health rm n)"
  by (cases c) (auto simp: resilience_defs)

lemma health_after_calls:
  "rm_engine_health (fold run_call cs rm) n =
     (case last_verdict n cs of Some h \<Rightarrow> Some h | None \<Rightarrow> rm_engine_health rm n)"
  by (induction cs arbitrary: rm) (auto simp: run_call_health split: option.splits)

lemma recorded_after_calls: "length (rm_recorded (fold run_call cs rm)) = length (rm_recorded rm) + length cs"
proof (induction cs arbitrary: rm)
  case (Cons c cs)
  then show ?case by (cases c) (simp_all add: resilience_defs)
qed simp

section \<open>Properties\<close>

text \<open>
  After any history of calls from a new manager, an engine is skipped
  exactly when the last health verdict about it was an open circuit, it counts as healthy
  exactly when the last verdict was a recovery, and every call has put one event in the sink.
\<close>

theorem routing_follows_last_verdict:
  "should_skip (fold run_call cs (resilience_new c)) n = (last_verdict n cs = Some Unreachable) \<and>
   (n \<in> healthy_engines (fold run_call cs (resilience_new c))) = (last_verdict n cs = Some Healthy) \<and>
   length (rm_recorded (fold run_call cs (resilience_new c))) = length cs"
  by (auto simp: should_skip_def healthy_engines_def health_after_calls recorded_after_calls
      resilience_new_def split: option.splits)

end
