(* ===== verification/Escalation.thy ===== *)
theory Escalation
  imports MemoryRepo
begin

text \<open>
  \<open>scope_escalation.rs\<close>: the promotion ladder and its policy, the approval workflow, the two
  approval stores and the manager.  The traits \<open>MemoryScopeStore\<close> and \<open>ApprovalStore\<close> are
  records of operations the manager takes as arguments; the contract \<open>approval_ledger\<close> says
  what a manager may rely on, and both stores satisfy it.
\<close>

section \<open>Ladder and policy\<close>

fun ladder_rank :: "scope \<Rightarrow> nat option" where
  "ladder_rank Personal = Some 0"
| "ladder_rank Task = Some 1"
| "ladder_rank Team = Some 2"
| "ladder_rank Factory = Some 3"
| "ladder_rank Enterprise = Some 4"
| "ladder_rank Agent = None"
| "ladder_rank Process = None"

fun next_scope :: "scope \<Rightarrow> scope option" where
  "next_scope Personal = Some Task"
| "next_scope Task = Some Team"
| "next_scope Team = Some Factory"
| "next_scope Factory = Some Enterprise"
| "next_scope Enterprise = None"
| "next_scope Agent = None"
| "next_scope Process = None"

datatype approver_role = SelfService | TeamLead | FactoryManager | EnterpriseAdmin

fun approver_role_as_str :: "approver_role \<Rightarrow> string" where
  "approver_role_as_str SelfService = ''self_service''"
| "approver_role_as_str TeamLead = ''team_lead''"
| "approver_role_as_str FactoryManager = ''factory_manager''"
| "approver_role_as_str EnterpriseAdmin = ''enterprise_admin''"

fun requires_approval :: "approver_role \<Rightarrow> bool" where
  "requires_approval SelfService = False"
| "requires_approval _ = True"

definition approver_role_from_str :: "string \<Rightarrow> approver_role option" where
  "approver_role_from_str s =
     (if s = ''self_service'' then Some SelfService
      else if s = ''team_lead'' then Some TeamLead
      else if s = ''factory_manager'' then Some FactoryManager
      else if s = ''enterprise_admin'' then Some EnterpriseAdmin
      else None)"

datatype approval_status = APending | AApproved | ARejected | AExpired

fun approval_status_as_str :: "approval_status \<Rightarrow> string" where
  "approval_status_as_str APending = ''pending''"
| "approval_status_as_str AApproved = ''approved''"
| "approval_status_as_str ARejected = ''rejected''"
| "approval_status_as_str AExpired = ''expired''"

definition approval_status_from_str :: "string \<Rightarrow> approval_status option" where
  "approval_status_from_str s =
     (if s = ''pending'' then Some APending
      else if s = ''approved'' then Some AApproved
      else if s = ''rejected'' then Some ARejected
      else if s = ''expired'' then Some AExpired
      else None)"

datatype escalation_error =
    MemoryNotFound uuid
  | ScopeNotOnLadder scope
  | AlreadyAtTop scope
  | NonAdjacentPromotion scope scope
  | NoRuleFound scope scope
  | InsufficientConfidence scope scope f32 f32
  | InsufficientEvidence scope scope nat nat
  | ApprovalNotFound uuid
  | ApprovalAlreadyDecided uuid approval_status
  | ApprovalExpired uuid
  | EscStore string
  | EscDatabase db_error
  | EscRepo memory_repo_error
  | EscSerialization
  | InvalidScope string
  | InvalidApproverRole string
  | InvalidApprovalStatus string

record scope_rule =
  sr_from :: scope
  sr_to :: scope
  sr_min_confidence :: f32
  sr_min_evidence_refs :: nat
  sr_approver_role :: approver_role
  sr_requires_audit_trail :: bool

definition default_policy :: "scope_rule list" where
  "default_policy =
     [\<lparr>sr_from = Personal, sr_to = Task, sr_min_confidence = f32_half, sr_min_evidence_refs = 0,
       sr_approver_role = SelfService, sr_requires_audit_trail = False\<rparr>,
      \<lparr>sr_from = Task, sr_to = Team, sr_min_confidence = f32_0_7, sr_min_evidence_refs = 0,
       sr_approver_role = TeamLead, sr_requires_audit_trail = False\<rparr>,
      \<lparr>sr_from = Team, sr_to = Factory, sr_min_confidence = f32_0_8, sr_min_evidence_refs = 3,
       sr_approver_role = FactoryManager, sr_requires_audit_trail = False\<rparr>,
      \<lparr>sr_from = Factory, sr_to = Enterprise, sr_min_confidence = f32_0_9, sr_min_evidence_refs = 5,
       sr_approver_role = EnterpriseAdmin, sr_requires_audit_trail = True\<rparr>]"

record assessment_outcome =
  ao_approval_required :: bool
  ao_approver_role :: approver_role
  ao_requires_audit_trail :: bool
  ao_rule :: scope_rule

record promotion_request =
  pq_memory_id :: uuid
  pq_target_scope :: scope
  pq_requester :: string
  pq_justification :: string
  pq_evidence_refs :: "json list"

definition rule_for :: "scope_rule list \<Rightarrow> scope \<Rightarrow> scope \<Rightarrow> scope_rule option" where
  "rule_for rules from' to' = find (\<lambda>r. sr_from r = from' \<and> sr_to r = to') rules"

definition assess :: "scope_rule list \<Rightarrow> promotion_request \<Rightarrow> scope \<Rightarrow> f32 \<Rightarrow> nat \<Rightarrow>
    escalation_error + assessment_outcome" where
  "assess rules req current confidence evidence_count =
     (case ladder_rank current of
        None \<Rightarrow> Inl (ScopeNotOnLadder current)
      | Some _ \<Rightarrow>
     (case next_scope current of
        None \<Rightarrow> Inl (AlreadyAtTop current)
      | Some expected \<Rightarrow>
          if pq_target_scope req \<noteq> expected
          then Inl (NonAdjacentPromotion current (pq_target_scope req))
          else
     (case rule_for rules current (pq_target_scope req) of
        None \<Rightarrow> Inl (NoRuleFound current (pq_target_scope req))
      | Some rule \<Rightarrow>
          if f32_lt confidence (sr_min_confidence rule)
          then Inl (InsufficientConfidence current (pq_target_scope req) confidence (sr_min_confidence rule))
          else if evidence_count < sr_min_evidence_refs rule
          then Inl (InsufficientEvidence current (pq_target_scope req) evidence_count (sr_min_evidence_refs rule))
          else Inr \<lparr>ao_approval_required = requires_approval (sr_approver_role rule),
                    ao_approver_role = sr_approver_role rule,
                    ao_requires_audit_trail = sr_requires_audit_trail rule, ao_rule = rule\<rparr>)))"

section \<open>Approval requests\<close>

record approval_request =
  aq_id :: uuid
  aq_memory_id :: uuid
  aq_target_scope :: scope
  aq_requester :: string
  aq_justification :: string
  aq_approver_role :: approver_role
  aq_status :: approval_status
  aq_created_at :: time
  aq_decided_at :: "time option"
  aq_decided_by :: "string option"
  aq_expires_at :: time

text \<open>
  The hash map of the in-memory workflow and store, as the list of its values in iteration
  order; \<open>put_request\<close> is \<open>HashMap::insert\<close>.
\<close>

definition put_request :: "approval_request \<Rightarrow> approval_request list \<Rightarrow> approval_request list" where
  "put_request r rs =
     (if aq_id r \<in> aq_id ` set rs then map (\<lambda>x. if aq_id x = aq_id r then r else x) rs else rs @ [r])"

definition lookup_request :: "uuid \<Rightarrow> approval_request list \<Rightarrow> approval_request option" where
  "lookup_request i rs = find (\<lambda>r. aq_id r = i) rs"

definition first_approved :: "uuid \<Rightarrow> scope \<Rightarrow> approval_request list \<Rightarrow> approval_request option" where
  "first_approved m sc rs = find (\<lambda>r. aq_memory_id r = m \<and> aq_target_scope r = sc \<and> aq_status r = AApproved) rs"

text \<open>A decision on a pending request, with the guards in the order of the code.\<close>

definition decide :: "time \<Rightarrow> uuid \<Rightarrow> approval_status \<Rightarrow> string \<Rightarrow> approval_request list \<Rightarrow>
    (escalation_error + approval_request) \<times> approval_request list" where
  "decide now i st approver rs =
     (case lookup_request i rs of
        None \<Rightarrow> (Inl (ApprovalNotFound i), rs)
      | Some r \<Rightarrow>
          if aq_status r = AExpired then (Inl (ApprovalExpired i), rs)
          else if aq_status r \<noteq> APending then (Inl (ApprovalAlreadyDecided i (aq_status r)), rs)
          else let r' = r\<lparr>aq_status := st, aq_decided_at := Some now, aq_decided_by := Some approver\<rparr>
               in (Inr r', put_request r' rs))"

definition overdue :: "time \<Rightarrow> approval_request \<Rightarrow> bool" where
  "overdue now r \<longleftrightarrow> aq_status r = APending \<and> aq_expires_at r \<le> now"

definition expire_all :: "time \<Rightarrow> approval_request list \<Rightarrow> approval_request list \<times> approval_request list" where
  "expire_all now rs =
     (map (\<lambda>r. r\<lparr>aq_status := AExpired\<rparr>) (filter (overdue now) rs),
      map (\<lambda>r. if overdue now r then r\<lparr>aq_status := AExpired\<rparr> else r) rs)"

section \<open>The in-memory workflow\<close>

record workflow = env +
  wf_ttl :: time
  wf_requests :: "approval_request list"

definition workflow_submit :: "uuid \<Rightarrow> scope \<Rightarrow> string \<Rightarrow> string \<Rightarrow> approver_role \<Rightarrow>
    (workflow, escalation_error, approval_request) op" where
  "workflow_submit m sc requester justification role =
     bindE utc_now (\<lambda>now.
     bindE new_v4 (\<lambda>i.
     bindE (gets wf_ttl) (\<lambda>ttl.
     let r = \<lparr>aq_id = i, aq_memory_id = m, aq_target_scope = sc, aq_requester = requester,
              aq_justification = justification, aq_approver_role = role, aq_status = APending,
              aq_created_at = now, aq_decided_at = None, aq_decided_by = None, aq_expires_at = now + ttl\<rparr>
     in bindE (modify (\<lambda>s. s\<lparr>wf_requests := put_request r (wf_requests s)\<rparr>)) (\<lambda>_. ret r))))"

definition workflow_get :: "uuid \<Rightarrow> workflow \<Rightarrow> approval_request option" where
  "workflow_get i s = lookup_request i (wf_requests s)"

definition workflow_find_approved :: "uuid \<Rightarrow> scope \<Rightarrow> workflow \<Rightarrow> approval_request option" where
  "workflow_find_approved m sc s = first_approved m sc (wf_requests s)"

definition workflow_decide :: "approval_status \<Rightarrow> uuid \<Rightarrow> string \<Rightarrow> (workflow, escalation_error, approval_request) op" where
  "workflow_decide st i approver =
     bindE utc_now (\<lambda>now. \<lambda>s.
       case decide now i st approver (wf_requests s) of (r, rs) \<Rightarrow> (r, s\<lparr>wf_requests := rs\<rparr>))"

definition workflow_approve :: "uuid \<Rightarrow> string \<Rightarrow> (workflow, escalation_error, approval_request) op" where
  "workflow_approve i approver = workflow_decide AApproved i approver"

definition workflow_reject :: "uuid \<Rightarrow> string \<Rightarrow> (workflow, escalation_error, approval_request) op" where
  "workflow_reject i approver = workflow_decide ARejected i approver"

definition workflow_expire_pending :: "(workflow, escalation_error, approval_request list) op" where
  "workflow_expire_pending =
     bindE utc_now (\<lambda>now. \<lambda>s.
       case expire_all now (wf_requests s) of (out, rs) \<Rightarrow> (Inr out, s\<lparr>wf_requests := rs\<rparr>))"

section \<open>Stores\<close>

record scope_info =
  si_memory_id :: uuid
  si_scope :: scope
  si_confidence :: f32
  si_evidence_refs :: "json list"
  si_tenant_id :: string
  si_created_by_user :: "string option"

definition scope_info_of :: "memory_item \<Rightarrow> scope_info" where
  "scope_info_of m = \<lparr>si_memory_id = mi_memory_id m, si_scope = mi_scope m, si_confidence = mi_confidence m,
     si_evidence_refs = mi_evidence_refs m, si_tenant_id = mi_tenant_id m,
     si_created_by_user = mi_created_by_user m\<rparr>"

record 's scope_store =
  ss_get_memory :: "uuid \<Rightarrow> ('s, escalation_error, scope_info option) op"
  ss_update_scope :: "uuid \<Rightarrow> scope \<Rightarrow> ('s, escalation_error, unit) op"

record 's approval_store =
  as_insert :: "approval_request \<Rightarrow> ('s, escalation_error, unit) op"
  as_get :: "uuid \<Rightarrow> ('s, escalation_error, approval_request option) op"
  as_find_approved :: "uuid \<Rightarrow> scope \<Rightarrow> ('s, escalation_error, approval_request option) op"
  as_update_status :: "uuid \<Rightarrow> approval_status \<Rightarrow> string \<Rightarrow> ('s, escalation_error, approval_request) op"
  as_expire_pending :: "('s, escalation_error, approval_request list) op"

subsection \<open>PostgreSQL\<close>

definition pg_get_memory :: "uuid \<Rightarrow> (world, escalation_error, scope_info option) op" where
  "pg_get_memory i =
     bindE (map_err EscRepo (repo_get_by_id i)) (\<lambda>item. ret (map_option scope_info_of item))"

definition pg_update_scope :: "uuid \<Rightarrow> scope \<Rightarrow> (world, escalation_error, unit) op" where
  "pg_update_scope i sc =
     bindE (map_err EscDatabase (exec (\<lambda>w.
        if (\<exists>r \<in> set (memory_items w). c_memory_id r = i \<and> c_version r \<ge> int4_max) then (Inl DbError, w)
        else (Inr (rows_matching (\<lambda>r. c_memory_id r = i) (memory_items w)),
              w\<lparr>memory_items := sql_update (\<lambda>r. c_memory_id r = i)
                 (\<lambda>r. r\<lparr>c_scope := scope_as_str sc, c_version := c_version r + 1, c_updated_at := sql_now w\<rparr>)
                 (memory_items w)\<rparr>)))) (\<lambda>n.
     if n = 0 then throw (MemoryNotFound i) else ret ())"

definition pg_scope_store :: "world scope_store" where
  "pg_scope_store = \<lparr>ss_get_memory = pg_get_memory, ss_update_scope = pg_update_scope\<rparr>"

definition row_of_request :: "approval_request \<Rightarrow> approval_row" where
  "row_of_request r = \<lparr>p_id = aq_id r, p_memory_id = aq_memory_id r,
     p_target_scope = scope_as_str (aq_target_scope r), p_requester = aq_requester r,
     p_justification = Some (aq_justification r), p_approver_role = approver_role_as_str (aq_approver_role r),
     p_status = approval_status_as_str (aq_status r), p_created_at = aq_created_at r,
     p_decided_at = aq_decided_at r, p_decided_by = aq_decided_by r, p_expires_at = aq_expires_at r\<rparr>"

definition row_to_request :: "approval_row \<Rightarrow> escalation_error + approval_request" where
  "row_to_request r =
     (case scope_from_str (p_target_scope r) of
        None \<Rightarrow> Inl (InvalidScope (p_target_scope r))
      | Some sc \<Rightarrow>
     (case approver_role_from_str (p_approver_role r) of
        None \<Rightarrow> Inl (InvalidApproverRole (p_approver_role r))
      | Some role \<Rightarrow>
     (case approval_status_from_str (p_status r) of
        None \<Rightarrow> Inl (InvalidApprovalStatus (p_status r))
      | Some st \<Rightarrow>
          Inr \<lparr>aq_id = p_id r, aq_memory_id = p_memory_id r, aq_target_scope = sc,
               aq_requester = p_requester r,
               aq_justification = (case p_justification r of Some j \<Rightarrow> j | None \<Rightarrow> []),
               aq_approver_role = role, aq_status = st, aq_created_at = p_created_at r,
               aq_decided_at = p_decided_at r, aq_decided_by = p_decided_by r,
               aq_expires_at = p_expires_at r\<rparr>)))"

definition pg_insert :: "approval_request \<Rightarrow> (world, escalation_error, unit) op" where
  "pg_insert r = map_err EscDatabase (exec (\<lambda>w.
     if aq_id r \<in> p_id ` set (approval_requests w) then (Inl DbError, w)
     else (Inr (), w\<lparr>approval_requests := approval_requests w @ [row_of_request r]\<rparr>)))"

text \<open>\<open>row.map(row_to_request).transpose()\<close>.\<close>

definition decode_row :: "approval_row option \<Rightarrow> ('s, escalation_error, approval_request option) op" where
  "decode_row row =
     (case row of None \<Rightarrow> ret None
      | Some r \<Rightarrow> (case row_to_request r of Inl e \<Rightarrow> throw e | Inr q \<Rightarrow> ret (Some q)))"

definition pg_get :: "uuid \<Rightarrow> (world, escalation_error, approval_request option) op" where
  "pg_get i =
     bindE (map_err EscDatabase (exec (gets (\<lambda>w. find (\<lambda>r. p_id r = i) (approval_requests w))))) decode_row"

text \<open>\<open>ORDER BY decided_at DESC\<close> puts nulls first.\<close>

definition latest_decided :: "approval_row list \<Rightarrow> approval_row list" where
  "latest_decided rows = filter (\<lambda>r. p_decided_at r = None) rows @
     order_desc (\<lambda>r. the (p_decided_at r)) (filter (\<lambda>r. p_decided_at r \<noteq> None) rows)"

definition pg_find_approved :: "uuid \<Rightarrow> scope \<Rightarrow> (world, escalation_error, approval_request option) op" where
  "pg_find_approved m sc =
     bindE (map_err EscDatabase (exec (gets (\<lambda>w.
        case latest_decided (filter (\<lambda>r. p_memory_id r = m \<and> p_target_scope r = scope_as_str sc
               \<and> p_status r = ''approved'') (approval_requests w)) of
          [] \<Rightarrow> None | r # _ \<Rightarrow> Some r)))) decode_row"

definition pg_update_status :: "uuid \<Rightarrow> approval_status \<Rightarrow> string \<Rightarrow> (world, escalation_error, approval_request) op" where
  "pg_update_status i st approver =
     bindE (map_err EscDatabase (exec (\<lambda>w.
        let rows = sql_update (\<lambda>r. p_id r = i)
              (\<lambda>r. r\<lparr>p_status := approval_status_as_str st, p_decided_at := Some (sql_now w),
                     p_decided_by := Some approver\<rparr>) (approval_requests w)
        in (Inr (find (\<lambda>r. p_id r = i) rows), w\<lparr>approval_requests := rows\<rparr>)))) (\<lambda>row.
     bindE (decode_row row) (\<lambda>q. ok_or q (ApprovalNotFound i)))"

fun decode_rows :: "approval_row list \<Rightarrow> ('s, escalation_error, approval_request list) op" where
  "decode_rows [] = ret []"
| "decode_rows (r # rs) =
     (case row_to_request r of
        Inl e \<Rightarrow> throw e
      | Inr q \<Rightarrow> bindE (decode_rows rs) (\<lambda>qs. ret (q # qs)))"

definition pg_expire_pending :: "(world, escalation_error, approval_request list) op" where
  "pg_expire_pending =
     bindE (map_err EscDatabase (exec (\<lambda>w.
        let due = (\<lambda>r. p_status r = ''pending'' \<and> p_expires_at r \<le> sql_now w);
            expire = (\<lambda>r. r\<lparr>p_status := ''expired''\<rparr>)
        in (Inr (map expire (filter due (approval_requests w))),
            w\<lparr>approval_requests := sql_update due expire (approval_requests w)\<rparr>)))) decode_rows"

definition pg_approval_store :: "world approval_store" where
  "pg_approval_store = \<lparr>as_insert = pg_insert, as_get = pg_get, as_find_approved = pg_find_approved,
     as_update_status = pg_update_status, as_expire_pending = pg_expire_pending\<rparr>"

subsection \<open>In memory\<close>

record mem_state = env +
  ms_requests :: "approval_request list"

definition mem_insert :: "approval_request \<Rightarrow> (mem_state, escalation_error, unit) op" where
  "mem_insert r = modify (\<lambda>s. s\<lparr>ms_requests := put_request r (ms_requests s)\<rparr>)"

definition mem_get :: "uuid \<Rightarrow> (mem_state, escalation_error, approval_request option) op" where
  "mem_get i = gets (\<lambda>s. lookup_request i (ms_requests s))"

definition mem_find_approved :: "uuid \<Rightarrow> scope \<Rightarrow> (mem_state, escalation_error, approval_request option) op" where
  "mem_find_approved m sc = gets (\<lambda>s. first_approved m sc (ms_requests s))"

definition mem_update_status :: "uuid \<Rightarrow> approval_status \<Rightarrow> string \<Rightarrow> (mem_state, escalation_error, approval_request) op" where
  "mem_update_status i st approver =
     bindE utc_now (\<lambda>now. \<lambda>s.
       case decide now i st approver (ms_requests s) of (r, rs) \<Rightarrow> (r, s\<lparr>ms_requests := rs\<rparr>))"

definition mem_expire_pending :: "(mem_state, escalation_error, approval_request list) op" where
  "mem_expire_pending =
     bindE utc_now (\<lambda>now. \<lambda>s.
       case expire_all now (ms_requests s) of (out, rs) \<Rightarrow> (Inr out, s\<lparr>ms_requests := rs\<rparr>))"

definition mem_approval_store :: "mem_state approval_store" where
  "mem_approval_store = \<lparr>as_insert = mem_insert, as_get = mem_get, as_find_approved = mem_find_approved,
     as_update_status = mem_update_status, as_expire_pending = mem_expire_pending\<rparr>"

section \<open>The manager\<close>

record promotion_result =
  pm_success :: bool
  pm_new_scope :: "scope option"
  pm_approval_required :: bool
  pm_approval_id :: "uuid option"
  pm_message :: string

fun scope_debug :: "scope \<Rightarrow> string" where
  "scope_debug Personal = ''Personal''"
| "scope_debug Agent = ''Agent''"
| "scope_debug Task = ''Task''"
| "scope_debug Team = ''Team''"
| "scope_debug Process = ''Process''"
| "scope_debug Factory = ''Factory''"
| "scope_debug Enterprise = ''Enterprise''"

text \<open>The last part of \<open>promote\<close>: file a pending request.\<close>

definition request_approval :: "('z env_scheme) approval_store \<Rightarrow> promotion_request \<Rightarrow> approver_role \<Rightarrow>
    ('z env_scheme, escalation_error, promotion_result) op" where
  "request_approval approvals req role =
     bindE utc_now (\<lambda>now.
     bindE new_v4 (\<lambda>i.
     let r = \<lparr>aq_id = i, aq_memory_id = pq_memory_id req, aq_target_scope = pq_target_scope req,
              aq_requester = pq_requester req, aq_justification = pq_justification req,
              aq_approver_role = role, aq_status = APending, aq_created_at = now,
              aq_decided_at = None, aq_decided_by = None, aq_expires_at = now + hours 24\<rparr>
     in bindE (as_insert approvals r) (\<lambda>_.
        ret \<lparr>pm_success = False, pm_new_scope = None, pm_approval_required = True,
             pm_approval_id = Some i,
             pm_message = ''approval required ('' @ approver_role_as_str role @ ''): pending request '' @ i\<rparr>)))"

text \<open>The cross-scope part: apply an approved request, or file a new one.\<close>

definition promote_cross_scope :: "('z env_scheme) scope_store \<Rightarrow> ('z env_scheme) approval_store \<Rightarrow>
    promotion_request \<Rightarrow> approver_role \<Rightarrow> ('z env_scheme, escalation_error, promotion_result) op" where
  "promote_cross_scope store approvals req role =
     bindE (as_find_approved approvals (pq_memory_id req) (pq_target_scope req)) (\<lambda>approved.
     case approved of
       Some approval \<Rightarrow>
         bindE (ss_update_scope store (pq_memory_id req) (pq_target_scope req)) (\<lambda>_.
         ret \<lparr>pm_success = True, pm_new_scope = Some (pq_target_scope req),
              pm_approval_required = True, pm_approval_id = Some (aq_id approval),
              pm_message = ''scope promoted with approval '' @ aq_id approval\<rparr>)
     | None \<Rightarrow> request_approval approvals req role)"

definition promote_self_service :: "('z env_scheme) scope_store \<Rightarrow> promotion_request \<Rightarrow> scope \<Rightarrow>
    ('z env_scheme, escalation_error, promotion_result) op" where
  "promote_self_service store req current =
     bindE (ss_update_scope store (pq_memory_id req) (pq_target_scope req)) (\<lambda>_.
     ret \<lparr>pm_success = True, pm_new_scope = Some (pq_target_scope req),
          pm_approval_required = False, pm_approval_id = None,
          pm_message = ''scope promoted from '' @ scope_debug current @ '' to ''
            @ scope_debug (pq_target_scope req)\<rparr>)"

definition promote :: "('z env_scheme) scope_store \<Rightarrow> ('z env_scheme) approval_store \<Rightarrow> scope_rule list \<Rightarrow>
    promotion_request \<Rightarrow> ('z env_scheme, escalation_error, promotion_result) op" where
  "promote store approvals policy req =
     bindE (ss_get_memory store (pq_memory_id req)) (\<lambda>found.
     bindE (ok_or found (MemoryNotFound (pq_memory_id req))) (\<lambda>memory.
     case assess policy req (si_scope memory) (si_confidence memory) (length (si_evidence_refs memory)) of
       Inl e \<Rightarrow> throw e
     | Inr outcome \<Rightarrow>
         if \<not> ao_approval_required outcome then promote_self_service store req (si_scope memory)
         else promote_cross_scope store approvals req (ao_approver_role outcome)))"

definition approve_promotion :: "'s approval_store \<Rightarrow> uuid \<Rightarrow> string \<Rightarrow> ('s, escalation_error, approval_request) op" where
  "approve_promotion approvals i approver = as_update_status approvals i AApproved approver"

definition reject_promotion :: "'s approval_store \<Rightarrow> uuid \<Rightarrow> string \<Rightarrow> ('s, escalation_error, approval_request) op" where
  "reject_promotion approvals i approver = as_update_status approvals i ARejected approver"

definition expire_pending_promotions :: "'s approval_store \<Rightarrow> ('s, escalation_error, approval_request list) op" where
  "expire_pending_promotions approvals = as_expire_pending approvals"

end
