(* ===== verification/Promotion.thy ===== *)
theory Promotion
  imports Escalation
begin

text \<open>
  Correctness of \<open>scope_escalation.rs\<close>.  \<open>approval_ledger\<close> is the contract of an approval store
  over an abstract ledger of requests; PostgreSQL and in-memory stores both satisfy it, the
  in-memory one also \<open>strict_ledger\<close>, in which decisions are final.  On top of it: a promotion
  climbs one rung at a time and never without the approval its rule asks for.
\<close>

section \<open>Text forms and lists of requests\<close>

lemma approver_role_roundtrip [simp]: "approver_role_from_str (approver_role_as_str r) = Some r"
  by (cases r) (simp_all add: approver_role_from_str_def)

lemma approval_status_roundtrip [simp]: "approval_status_from_str (approval_status_as_str st) = Some st"
  by (cases st) (simp_all add: approval_status_from_str_def)

lemma approval_status_from_str_Some:
  "approval_status_from_str s = Some st \<longleftrightarrow> s = approval_status_as_str st"
  by (cases st) (auto simp: approval_status_from_str_def)

lemma row_roundtrip [simp]: "row_to_request (row_of_request r) = Inr r"
  by (simp add: row_to_request_def row_of_request_def)

lemma row_to_request_ids: "row_to_request r = Inr q \<Longrightarrow>
    aq_id q = p_id r \<and> aq_memory_id q = p_memory_id r \<and> p_target_scope r = scope_as_str (aq_target_scope q) \<and>
    p_status r = approval_status_as_str (aq_status q) \<and> aq_expires_at q = p_expires_at r"
  by (auto simp: row_to_request_def scope_from_str_Some approval_status_from_str_Some split: option.splits)

lemma row_to_request_decided:
  "row_to_request r = Inr q \<Longrightarrow>
     row_to_request (r\<lparr>p_status := approval_status_as_str st, p_decided_at := Some t, p_decided_by := Some u\<rparr>) =
       Inr (q\<lparr>aq_status := st, aq_decided_at := Some t, aq_decided_by := Some u\<rparr>)"
  by (auto simp: row_to_request_def split: option.splits)

lemma row_to_request_expired:
  "row_to_request r = Inr q \<Longrightarrow> row_to_request (r\<lparr>p_status := ''expired''\<rparr>) = Inr (q\<lparr>aq_status := AExpired\<rparr>)"
  using approval_status_roundtrip [of AExpired] by (auto simp: row_to_request_def split: option.splits)

lemma put_request_ids:
  "aq_id ` set (put_request r rs) = insert (aq_id r) (aq_id ` set rs)"
  by (auto simp: put_request_def image_iff)

lemma distinct_put_request: "distinct (map aq_id rs) \<Longrightarrow> distinct (map aq_id (put_request r rs))"
proof (cases "aq_id r \<in> aq_id ` set rs")
  case True
  then have "map aq_id (put_request r rs) = map aq_id rs" by (simp add: put_request_def)
  then show "distinct (map aq_id rs) \<Longrightarrow> ?thesis" by (simp only:)
qed (auto simp: put_request_def)

lemma lookup_put [simp]: "lookup_request i (put_request r rs) = (if i = aq_id r then Some r else lookup_request i rs)"
proof (cases "aq_id r \<in> aq_id ` set rs")
  case True
  have "find (\<lambda>x. aq_id x = i) (map (\<lambda>x. if aq_id x = aq_id r then r else x) rs) =
      (if i = aq_id r then (if i \<in> aq_id ` set rs then Some r else None) else find (\<lambda>x. aq_id x = i) rs)"
    by (induction rs) auto
  with True show ?thesis by (simp add: put_request_def lookup_request_def)
next
  case False
  then have "find (\<lambda>x. aq_id x = aq_id r) rs = None" by (rule find_key_None)
  with False show ?thesis by (auto simp: put_request_def lookup_request_def find_append split: option.split)
qed

lemma lookup_Some: "lookup_request i rs = Some r \<Longrightarrow> aq_id r = i \<and> r \<in> set rs"
  using find_Some_in_set [of "\<lambda>x. aq_id x = i" rs r] by (auto simp: lookup_request_def)

lemma lookup_distinct: "distinct (map aq_id rs) \<Longrightarrow> r \<in> set rs \<Longrightarrow> lookup_request (aq_id r) rs = Some r"
  unfolding lookup_request_def by (rule find_key_distinct)

lemma lookup_expire:
  "lookup_request i (snd (expire_all now rs)) =
     map_option (\<lambda>r. if overdue now r then r\<lparr>aq_status := AExpired\<rparr> else r) (lookup_request i rs)"
  unfolding lookup_request_def expire_all_def snd_conv by (rule find_map_same) simp

lemma distinct_expire: "map aq_id (snd (expire_all now rs)) = map aq_id rs"
  by (simp add: expire_all_def)

section \<open>The contract of an approval store\<close>

locale approval_ledger =
  fixes inv :: "'s \<Rightarrow> bool"
    and ledger :: "'s \<Rightarrow> uuid \<Rightarrow> approval_request option"
    and store :: "'s approval_store"
  assumes insert_ok: "inv s \<Longrightarrow> as_insert store r s = (Inr u, s') \<Longrightarrow>
        inv s' \<and> ledger s' = (ledger s)(aq_id r \<mapsto> r)"
    and insert_err: "inv s \<Longrightarrow> as_insert store r s = (Inl e, s') \<Longrightarrow> inv s' \<and> ledger s' = ledger s"
    and find_some: "inv s \<Longrightarrow> as_find_approved store m sc s = (Inr (Some r), s') \<Longrightarrow>
        ledger s (aq_id r) = Some r \<and> aq_memory_id r = m \<and> aq_target_scope r = sc \<and> aq_status r = AApproved"
    and find_none: "inv s \<Longrightarrow> as_find_approved store m sc s = (Inr None, s') \<Longrightarrow> ledger s i = Some r \<Longrightarrow>
        \<not> (aq_memory_id r = m \<and> aq_target_scope r = sc \<and> aq_status r = AApproved)"
    and find_frame: "inv s \<Longrightarrow> as_find_approved store m sc s = (x, s') \<Longrightarrow> inv s' \<and> ledger s' = ledger s"
    and update_ok: "inv s \<Longrightarrow> as_update_status store i st by' s = (Inr r, s') \<Longrightarrow>
        inv s' \<and> (\<exists>r0 t. ledger s i = Some r0 \<and> aq_id r = i \<and>
          r = r0\<lparr>aq_status := st, aq_decided_at := Some t, aq_decided_by := Some by'\<rparr> \<and>
          ledger s' = (ledger s)(i \<mapsto> r))"
    and update_err: "inv s \<Longrightarrow> as_update_status store i st by' s = (Inl e, s') \<Longrightarrow>
        inv s' \<and> ledger s' = ledger s"
    and expire_law: "inv s \<Longrightarrow> as_expire_pending store s = (xs, s') \<Longrightarrow> inv s' \<and>
        (ledger s' = ledger s \<or> (\<exists>now. \<forall>i. ledger s' i =
           map_option (\<lambda>r. if overdue now r then r\<lparr>aq_status := AExpired\<rparr> else r) (ledger s i)))"
begin

text \<open>An approved request is found by the next lookup that answers.\<close>

lemma approved_is_found:
  assumes "inv s" and "approve_promotion store i u s = (Inr r, s1)"
    and "as_find_approved store (aq_memory_id r) (aq_target_scope r) s1 = (Inr found, s2)"
  shows "\<exists>a. found = Some a \<and> aq_status a = AApproved"
proof -
  have up: "as_update_status store i AApproved u s = (Inr r, s1)"
    using assms(2) by (simp add: approve_promotion_def)
  have s1: "inv s1" "ledger s1 i = Some r" "aq_status r = AApproved"
    using update_ok [OF assms(1) up] by auto
  show ?thesis
  proof (cases found)
    case None
    then show ?thesis using find_none [OF s1(1) assms(3) [unfolded None] s1(2)] s1(3) by simp
  next
    case (Some a)
    then show ?thesis using find_some [OF s1(1)] assms(3) by simp
  qed
qed

text \<open>Expiry changes pending requests only.\<close>

lemma expire_keeps_decided:
  assumes "inv s" and "expire_pending_promotions store s = (x, s')" and "ledger s i = Some r"
    and "aq_status r \<noteq> APending"
  shows "ledger s' i = Some r"
  using expire_law [OF assms(1)] assms(2-4) by (auto simp: expire_pending_promotions_def overdue_def)

end

text \<open>A store in which only a pending request can be decided.\<close>

locale strict_ledger = approval_ledger +
  assumes update_pending: "inv s \<Longrightarrow> as_update_status store i st by' s = (Inr r, s') \<Longrightarrow>
      \<exists>r0. ledger s i = Some r0 \<and> aq_status r0 = APending"
begin

lemma decision_final:
  assumes "inv s" and "ledger s i = Some r" and "aq_status r \<noteq> APending"
  shows "(\<exists>e s'. approve_promotion store i u s = (Inl e, s') \<and> ledger s' i = Some r) \<and>
    (\<exists>e s'. reject_promotion store i u s = (Inl e, s') \<and> ledger s' i = Some r)"
proof -
  have "\<exists>e s'. as_update_status store i st u s = (Inl e, s') \<and> ledger s' i = Some r" for st
  proof (cases "as_update_status store i st u s")
    case (Pair x s')
    then show ?thesis
      using assms update_pending [of s i st u] update_err [of s i st u] by (cases x) fastforce+
  qed
  then show ?thesis by (simp add: approve_promotion_def reject_promotion_def)
qed

end

section \<open>The in-memory store\<close>

lemma decide_cases:
  "decide now i st u rs = (x, rs') \<Longrightarrow>
     (\<exists>e. x = Inl e \<and> rs' = rs) \<or>
     (\<exists>r0 r. lookup_request i rs = Some r0 \<and> aq_status r0 = APending \<and> aq_id r = i \<and> x = Inr r \<and>
        r = r0\<lparr>aq_status := st, aq_decided_at := Some now, aq_decided_by := Some u\<rparr> \<and> rs' = put_request r rs)"
  by (auto simp: decide_def Let_def dest: lookup_Some split: option.splits if_splits)

lemma mem_update_cases:
  assumes "mem_update_status i st u s = (x, s')"
  obtains n rs where "decide (clock s (tick s)) i st u (ms_requests s) = (x, rs)"
    and "s' = s\<lparr>tick := n, ms_requests := rs\<rparr>"
  using assms by (auto simp: mem_update_status_def bindE_def utc_now_def split: prod.splits)

interpretation mem_ledger: strict_ledger "\<lambda>s. distinct (map aq_id (ms_requests s))"
  "\<lambda>s i. lookup_request i (ms_requests s)" mem_approval_store
proof unfold_locales
  fix s s' :: mem_state and r r0 i m sc st u u' e
  assume inv: "distinct (map aq_id (ms_requests s))"
  show "as_insert mem_approval_store r s = (Inr u', s') \<Longrightarrow> distinct (map aq_id (ms_requests s')) \<and>
      (\<lambda>i. lookup_request i (ms_requests s')) = (\<lambda>i. lookup_request i (ms_requests s))(aq_id r \<mapsto> r)"
    using inv by (auto simp: mem_approval_store_def mem_insert_def modify_def distinct_put_request fun_eq_iff)
  show "as_insert mem_approval_store r s = (Inl e, s') \<Longrightarrow> distinct (map aq_id (ms_requests s')) \<and>
      (\<lambda>i. lookup_request i (ms_requests s')) = (\<lambda>i. lookup_request i (ms_requests s))"
    by (simp add: mem_approval_store_def mem_insert_def modify_def)
  show "as_find_approved mem_approval_store m sc s = (Inr (Some r), s') \<Longrightarrow>
      lookup_request (aq_id r) (ms_requests s) = Some r \<and> aq_memory_id r = m \<and> aq_target_scope r = sc \<and>
      aq_status r = AApproved"
    using inv by (auto simp: mem_approval_store_def mem_find_approved_def gets_def first_approved_def
        intro: lookup_distinct dest!: find_Some_in_set)
  show "as_find_approved mem_approval_store m sc s = (Inr None, s') \<Longrightarrow>
      lookup_request i (ms_requests s) = Some r \<Longrightarrow>
      \<not> (aq_memory_id r = m \<and> aq_target_scope r = sc \<and> aq_status r = AApproved)"
    by (auto simp: mem_approval_store_def mem_find_approved_def gets_def first_approved_def find_None_notin
        dest: lookup_Some)
  show "as_find_approved mem_approval_store m sc s = (x, s') \<Longrightarrow> distinct (map aq_id (ms_requests s')) \<and>
      (\<lambda>i. lookup_request i (ms_requests s')) = (\<lambda>i. lookup_request i (ms_requests s))"
    for x :: "escalation_error + approval_request option"
    using inv by (auto simp: mem_approval_store_def mem_find_approved_def gets_def)
  show "as_update_status mem_approval_store i st u s = (Inr r, s') \<Longrightarrow> distinct (map aq_id (ms_requests s')) \<and>
      (\<exists>r0 t. lookup_request i (ms_requests s) = Some r0 \<and> aq_id r = i \<and>
        r = r0\<lparr>aq_status := st, aq_decided_at := Some t, aq_decided_by := Some u\<rparr> \<and>
        (\<lambda>i. lookup_request i (ms_requests s')) = (\<lambda>i. lookup_request i (ms_requests s))(i \<mapsto> r))"
    using inv by (auto simp: mem_approval_store_def distinct_put_request fun_eq_iff
        elim!: mem_update_cases dest!: decide_cases)
  show "as_update_status mem_approval_store i st u s = (Inl e, s') \<Longrightarrow> distinct (map aq_id (ms_requests s')) \<and>
      (\<lambda>i. lookup_request i (ms_requests s')) = (\<lambda>i. lookup_request i (ms_requests s))"
    using inv by (auto simp: mem_approval_store_def elim!: mem_update_cases dest!: decide_cases)
  show "as_expire_pending mem_approval_store s = (x, s') \<Longrightarrow> distinct (map aq_id (ms_requests s')) \<and>
      ((\<lambda>i. lookup_request i (ms_requests s')) = (\<lambda>i. lookup_request i (ms_requests s)) \<or>
       (\<exists>now. \<forall>i. lookup_request i (ms_requests s') =
          map_option (\<lambda>r. if overdue now r then r\<lparr>aq_status := AExpired\<rparr> else r) (lookup_request i (ms_requests s))))"
    for x :: "escalation_error + approval_request list"
    using inv lookup_expire [of _ "clock s (tick s)" "ms_requests s"] distinct_expire [of "clock s (tick s)" "ms_requests s"]
    by (auto simp: mem_approval_store_def mem_expire_pending_def bindE_def utc_now_def split: prod.splits)
  show "as_update_status mem_approval_store i st u s = (Inr r, s') \<Longrightarrow>
      \<exists>r0. lookup_request i (ms_requests s) = Some r0 \<and> aq_status r0 = APending"
    by (auto simp: mem_approval_store_def elim!: mem_update_cases dest!: decide_cases)
qed

section \<open>The PostgreSQL store\<close>

text \<open>Ids are unique and every row decodes.\<close>

definition wf_approvals :: "world \<Rightarrow> bool" where
  "wf_approvals w \<longleftrightarrow> distinct (map p_id (approval_requests w)) \<and>
     (\<forall>r \<in> set (approval_requests w). \<exists>q. row_to_request r = Inr q)"

definition decoded :: "world \<Rightarrow> approval_request list" where
  "decoded w = map (\<lambda>r. projr (row_to_request r)) (approval_requests w)"

definition pg_ledger_of :: "world \<Rightarrow> uuid \<Rightarrow> approval_request option" where
  "pg_ledger_of w i = lookup_request i (decoded w)"

lemma wf_approvals_tick [simp]: "wf_approvals (w\<lparr>tick := t\<rparr>) = wf_approvals w"
  by (simp add: wf_approvals_def)

lemma pg_ledger_tick [simp]: "pg_ledger_of (w\<lparr>tick := t\<rparr>) = pg_ledger_of w"
  by (simp add: pg_ledger_of_def decoded_def fun_eq_iff)

lemma decoded_id: "wf_approvals w \<Longrightarrow> r \<in> set (approval_requests w) \<Longrightarrow> aq_id (projr (row_to_request r)) = p_id r"
  using row_to_request_ids by (fastforce simp: wf_approvals_def)

lemma ledger_find:
  assumes "wf_approvals w"
  shows "pg_ledger_of w i = map_option (\<lambda>r. projr (row_to_request r)) (find (\<lambda>r. p_id r = i) (approval_requests w))"
proof -
  have "find (\<lambda>q. aq_id q = i) (map (\<lambda>r. projr (row_to_request r)) rows) =
      map_option (\<lambda>r. projr (row_to_request r)) (find (\<lambda>r. p_id r = i) rows)"
    if "\<And>r. r \<in> set rows \<Longrightarrow> aq_id (projr (row_to_request r)) = p_id r" for rows
    using that by (induction rows) auto
  then show ?thesis
    using decoded_id [OF assms] by (simp add: pg_ledger_of_def decoded_def lookup_request_def)
qed

lemma ledger_row:
  assumes "wf_approvals w" and "r \<in> set (approval_requests w)" and "row_to_request r = Inr q"
  shows "pg_ledger_of w (aq_id q) = Some q"
  using assms find_key_distinct [of p_id "approval_requests w" r] row_to_request_ids [OF assms(3)]
  by (simp add: ledger_find wf_approvals_def)

lemma ledger_SomeD:
  assumes "wf_approvals w" and "pg_ledger_of w i = Some q"
  shows "\<exists>r \<in> set (approval_requests w). p_id r = i \<and> row_to_request r = Inr q"
proof -
  obtain r where r: "find (\<lambda>r. p_id r = i) (approval_requests w) = Some r" "q = projr (row_to_request r)"
    using assms by (auto simp: ledger_find)
  then have "r \<in> set (approval_requests w)" "p_id r = i" using find_Some_in_set by fastforce+
  moreover from this(1) obtain q' where "row_to_request r = Inr q'" using assms(1) by (auto simp: wf_approvals_def)
  ultimately show ?thesis using r(2) by auto
qed

lemma wf_approvals_update:
  assumes "wf_approvals w" and "\<And>r. p_id (f r) = p_id r"
    and "\<And>r q. row_to_request r = Inr q \<Longrightarrow> row_to_request (f r) = Inr (g q)"
  shows "wf_approvals (w\<lparr>approval_requests := sql_update p f (approval_requests w)\<rparr>)"
proof -
  have "\<exists>q. row_to_request r = Inr q" if "r \<in> set (sql_update p f (approval_requests w))" for r
    using that assms(1,3) by (auto simp: set_sql_update wf_approvals_def)
  then show ?thesis using assms(1,2) by (simp add: wf_approvals_def)
qed

lemma ledger_update:
  assumes wf: "wf_approvals w" and "\<And>r. p_id (f r) = p_id r"
    and dec: "\<And>r q. row_to_request r = Inr q \<Longrightarrow> row_to_request (f r) = Inr (g q)"
    and p: "\<And>r q. row_to_request r = Inr q \<Longrightarrow> p r = p' q"
  shows "pg_ledger_of (w\<lparr>approval_requests := sql_update p f (approval_requests w)\<rparr>) i =
     map_option (\<lambda>q. if p' q then g q else q) (pg_ledger_of w i)"
proof -
  let ?w = "w\<lparr>approval_requests := sql_update p f (approval_requests w)\<rparr>"
  have "find (\<lambda>r. p_id r = i) (sql_update p f rows) =
      map_option (\<lambda>r. if p r then f r else r) (find (\<lambda>r. p_id r = i) rows)" for rows
    unfolding sql_update_def using assms(2) by (intro find_map_same) auto
  then have "pg_ledger_of ?w i = map_option (\<lambda>r. projr (row_to_request (if p r then f r else r)))
      (find (\<lambda>r. p_id r = i) (approval_requests w))"
    using ledger_find [OF wf_approvals_update [OF wf assms(2) dec]] by (simp add: option.map_comp o_def)
  also have "\<dots> = map_option (\<lambda>q. if p' q then g q else q) (pg_ledger_of w i)"
  proof (cases "find (\<lambda>r. p_id r = i) (approval_requests w)")
    case (Some r)
    then obtain q where "row_to_request r = Inr q"
      using wf find_Some_in_set by (fastforce simp: wf_approvals_def)
    with Some dec p show ?thesis by (simp add: ledger_find [OF wf])
  qed (simp add: ledger_find [OF wf])
  finally show ?thesis .
qed

lemma pg_insert_cases:
  assumes "pg_insert r w = (x, w')"
  shows "(\<exists>e n. x = Inl e \<and> w' = w\<lparr>tick := n\<rparr>) \<or>
    (x = Inr () \<and> aq_id r \<notin> p_id ` set (approval_requests w) \<and>
     (\<exists>n. w' = w\<lparr>tick := n, approval_requests := approval_requests w @ [row_of_request r]\<rparr>))"
  using assms by (auto simp: pg_insert_def map_err_def exec_def split: if_splits)

lemma pg_insert_ledger:
  assumes "wf_approvals w" and "aq_id r \<notin> p_id ` set (approval_requests w)"
  shows "wf_approvals (w\<lparr>approval_requests := approval_requests w @ [row_of_request r]\<rparr>) \<and>
    pg_ledger_of (w\<lparr>approval_requests := approval_requests w @ [row_of_request r]\<rparr>) = (pg_ledger_of w)(aq_id r \<mapsto> r)"
proof -
  have id: "p_id (row_of_request r) = aq_id r" by (simp add: row_of_request_def)
  have wf: "wf_approvals (w\<lparr>approval_requests := approval_requests w @ [row_of_request r]\<rparr>)"
    using assms by (simp add: wf_approvals_def id)
  have none: "find (\<lambda>x. p_id x = aq_id r) (approval_requests w) = None"
    using assms(2) by (rule find_key_None)
  show ?thesis
    using wf none assms(1) by (auto simp: ledger_find fun_eq_iff find_append id split: option.split)
qed

lemma approved_row:
  "row_to_request r = Inr q \<Longrightarrow> p_status r = ''approved'' \<Longrightarrow> p_target_scope r = scope_as_str sc \<Longrightarrow>
     aq_status q = AApproved \<and> aq_target_scope q = sc \<and> aq_memory_id q = p_memory_id r"
  by (cases "aq_status q") (auto dest!: row_to_request_ids)

lemma pg_find_cases:
  assumes "pg_find_approved m sc w = (x, w')"
  shows "\<exists>n. w' = w\<lparr>tick := n\<rparr>" and "x = Inr (Some q) \<Longrightarrow> \<exists>r \<in> set (approval_requests w).
      p_memory_id r = m \<and> p_target_scope r = scope_as_str sc \<and> p_status r = ''approved'' \<and> row_to_request r = Inr q"
    and "x = Inr None \<Longrightarrow> r \<in> set (approval_requests w) \<Longrightarrow>
      \<not> (p_memory_id r = m \<and> p_target_scope r = scope_as_str sc \<and> p_status r = ''approved'')"
proof -
  let ?rows = "latest_decided (filter (\<lambda>r. p_memory_id r = m \<and> p_target_scope r = scope_as_str sc
     \<and> p_status r = ''approved'') (approval_requests w))"
  have set: "set ?rows = {r \<in> set (approval_requests w). p_memory_id r = m \<and>
      p_target_scope r = scope_as_str sc \<and> p_status r = ''approved''}"
    by (auto simp: latest_decided_def)
  consider "fails w (tick w)" | "\<not> fails w (tick w)" "?rows = []"
    | r rs where "\<not> fails w (tick w)" "?rows = r # rs"
    by (cases ?rows) auto
  note cs = this
  show "\<exists>n. w' = w\<lparr>tick := n\<rparr>"
    by (cases rule: cs) (use assms in \<open>auto simp: pg_find_approved_def bindE_def map_err_def gets_def
        decode_row_def ret_def throw_def split: sum.splits\<close>)
  show "\<exists>r \<in> set (approval_requests w). p_memory_id r = m \<and> p_target_scope r = scope_as_str sc \<and>
      p_status r = ''approved'' \<and> row_to_request r = Inr q" if "x = Inr (Some q)"
  proof (cases rule: cs)
    case (3 r rs)
    then have "r \<in> set ?rows" by simp
    moreover have "row_to_request r = Inr q"
      using assms that 3 by (auto simp: pg_find_approved_def bindE_def map_err_def gets_def
        decode_row_def ret_def throw_def split: sum.splits)
    ultimately show ?thesis unfolding set by blast
  qed (use assms that in \<open>auto simp: pg_find_approved_def bindE_def map_err_def gets_def decode_row_def ret_def\<close>)
  show "\<not> (p_memory_id r = m \<and> p_target_scope r = scope_as_str sc \<and> p_status r = ''approved'')"
    if "x = Inr None" "r \<in> set (approval_requests w)"
  proof (cases rule: cs)
    case 2
    then show ?thesis using set that(2) by auto
  qed (use assms that in \<open>auto simp: pg_find_approved_def bindE_def map_err_def gets_def decode_row_def ret_def
      throw_def split: sum.splits\<close>)
qed

lemma pg_update_cases:
  assumes "wf_approvals w" and "pg_update_status i st u w = (x, w')"
  shows "(\<exists>e. x = Inl e) \<and> wf_approvals w' \<and> pg_ledger_of w' = pg_ledger_of w \<or>
    (\<exists>r0 t r. pg_ledger_of w i = Some r0 \<and> aq_id r = i \<and> x = Inr r \<and>
       r = r0\<lparr>aq_status := st, aq_decided_at := Some t, aq_decided_by := Some u\<rparr> \<and>
       wf_approvals w' \<and> pg_ledger_of w' = (pg_ledger_of w)(i \<mapsto> r))"
proof (cases "fails w (tick w)")
  case True
  then show ?thesis using assms by (auto simp: pg_update_status_def bindE_def map_err_def)
next
  case False
  define t where "t = clock w (Suc (tick w))"
  define f :: "approval_row \<Rightarrow> approval_row" where "f = (\<lambda>r. r\<lparr>p_status := approval_status_as_str st,
     p_decided_at := Some t, p_decided_by := Some u\<rparr>)"
  define g :: "approval_request \<Rightarrow> approval_request" where "g = (\<lambda>q. q\<lparr>aq_status := st, aq_decided_at := Some t, aq_decided_by := Some u\<rparr>)"
  let ?v = "w\<lparr>tick := Suc (tick w)\<rparr>"
  let ?w = "?v\<lparr>approval_requests := sql_update (\<lambda>r. p_id r = i) f (approval_requests ?v)\<rparr>"
  have v: "wf_approvals ?v" using assms(1) by simp
  have f: "p_id (f r) = p_id r" and dec: "row_to_request r = Inr q \<Longrightarrow> row_to_request (f r) = Inr (g q)" for r q
    by (simp_all add: f_def g_def row_to_request_decided)
  have wf: "wf_approvals ?w" using v f dec by (rule wf_approvals_update)
  have led: "pg_ledger_of ?w j = map_option (\<lambda>q. if aq_id q = i then g q else q) (pg_ledger_of w j)" for j
    using ledger_update [OF v f dec, where p = "\<lambda>r. p_id r = i" and p' = "\<lambda>q. aq_id q = i" and i = j] row_to_request_ids by simp
  have row: "find (\<lambda>r. p_id r = i) (sql_update (\<lambda>r. p_id r = i) f (approval_requests w)) =
      map_option f (find (\<lambda>r. p_id r = i) (approval_requests w))"
    using f by (rule find_sql_update_same)
  have run: "(x, w') = bindE (decode_row (map_option f (find (\<lambda>r. p_id r = i) (approval_requests w))))
      (\<lambda>q. ok_or q (ApprovalNotFound i)) ?w"
    using assms(2) False row by (simp add: pg_update_status_def bindE_def map_err_def Let_def f_def t_def sql_now_def)
  show ?thesis
  proof (cases "find (\<lambda>r. p_id r = i) (approval_requests w)")
    case None
    then have "\<And>r. r \<in> set (approval_requests w) \<Longrightarrow> p_id r \<noteq> i" by (auto simp: find_None_notin)
    then have "?w = ?v" by simp
    then show ?thesis
      using run None assms(1) by (simp add: decode_row_def bindE_def ok_or_def ret_def throw_def)
  next
    case (Some r)
    obtain q where q: "row_to_request r = Inr q"
      using Some assms(1) find_Some_in_set by (fastforce simp: wf_approvals_def)
    have id: "aq_id q = i" using row_to_request_ids [OF q] find_Some_in_set [OF Some] by simp
    have old: "pg_ledger_of w i = Some q" using Some q by (simp add: ledger_find [OF assms(1)])
    have x: "x = Inr (g q)" "w' = ?w"
      using run Some dec [OF q] by (simp_all add: decode_row_def bindE_def ok_or_def ret_def)
    have ids: "aq_id q' = j" if "pg_ledger_of w j = Some q'" for j q'
      using ledger_SomeD [OF assms(1) that] row_to_request_ids by auto
    have "pg_ledger_of w' j = ((pg_ledger_of w)(i \<mapsto> g q)) j" for j
      using led [of j] old x ids [of j] by (cases "pg_ledger_of w j") auto
    then have new: "pg_ledger_of w' = (pg_ledger_of w)(i \<mapsto> g q)" by (rule ext)
    show ?thesis
      using old x new wf id by (intro disjI2 exI [of _ q] exI [of _ t] exI [of _ "g q"]) (simp add: g_def)
  qed
qed

lemma pg_expire_cases:
  assumes "wf_approvals w" and "pg_expire_pending w = (x, w')"
  shows "wf_approvals w' \<and> (pg_ledger_of w' = pg_ledger_of w \<or>
    (\<forall>i. pg_ledger_of w' i = map_option (\<lambda>r. if overdue (clock w (Suc (tick w))) r then r\<lparr>aq_status := AExpired\<rparr> else r)
       (pg_ledger_of w i)))"
proof (cases "fails w (tick w)")
  case True
  then show ?thesis using assms by (auto simp: pg_expire_pending_def bindE_def map_err_def)
next
  case False
  let ?now = "clock w (Suc (tick w))"
  let ?due = "\<lambda>r. p_status r = ''pending'' \<and> p_expires_at r \<le> ?now"
  let ?f = "\<lambda>r :: approval_row. r\<lparr>p_status := ''expired''\<rparr>"
  let ?v = "w\<lparr>tick := Suc (tick w)\<rparr>"
  let ?w = "?v\<lparr>approval_requests := sql_update ?due ?f (approval_requests ?v)\<rparr>"
  have v: "wf_approvals ?v" using assms(1) by simp
  have due: "?due r = overdue ?now q" if "row_to_request r = Inr q" for r q
    using row_to_request_ids [OF that] by (cases "aq_status q") (auto simp: overdue_def)
  have keep: "keeps (\<lambda>v. v = s) (decode_rows rows)" for rows and s :: world
    by (induction rows) (auto intro!: keep_intros split: sum.split)
  have run: "(x, w') = decode_rows (map ?f (filter ?due (approval_requests w))) ?w"
    using assms(2) False by (simp add: pg_expire_pending_def bindE_def map_err_def Let_def sql_now_def)
  have "w' = ?w"
    using keepsD [OF keep _ run [symmetric]] by simp
  moreover have "wf_approvals ?w"
    by (rule wf_approvals_update [OF v]) (simp_all add: row_to_request_expired)
  moreover have "pg_ledger_of ?w i = map_option (\<lambda>r. if overdue ?now r then r\<lparr>aq_status := AExpired\<rparr> else r)
      (pg_ledger_of w i)" for i
    using ledger_update [OF v, where f = ?f and g = "\<lambda>q. q\<lparr>aq_status := AExpired\<rparr>" and p = ?due and p' = "overdue ?now" and i = i]
    by (simp add: row_to_request_expired due)
  ultimately show ?thesis by simp
qed

interpretation pg_ledger: approval_ledger wf_approvals pg_ledger_of pg_approval_store
proof unfold_locales
  fix w w' :: world and r i m sc st u u' e
  assume inv: "wf_approvals w"
  show "as_insert pg_approval_store r w = (Inr u', w') \<Longrightarrow>
      wf_approvals w' \<and> pg_ledger_of w' = (pg_ledger_of w)(aq_id r \<mapsto> r)"
    using pg_insert_cases [of r w "Inr u'" w'] pg_insert_ledger [of "w\<lparr>tick := _\<rparr>" r] inv
    by (auto simp: pg_approval_store_def)
  show "as_insert pg_approval_store r w = (Inl e, w') \<Longrightarrow> wf_approvals w' \<and> pg_ledger_of w' = pg_ledger_of w"
    using pg_insert_cases [of r w "Inl e" w'] inv by (auto simp: pg_approval_store_def)
  show "as_find_approved pg_approval_store m sc w = (Inr (Some r), w') \<Longrightarrow>
      pg_ledger_of w (aq_id r) = Some r \<and> aq_memory_id r = m \<and> aq_target_scope r = sc \<and> aq_status r = AApproved"
    using pg_find_cases(2) [of m sc w "Inr (Some r)" w' r] ledger_row [OF inv, of _ r] approved_row [of _ r]
    by (auto simp: pg_approval_store_def)
  show "as_find_approved pg_approval_store m sc w = (Inr None, w') \<Longrightarrow> pg_ledger_of w i = Some r \<Longrightarrow>
      \<not> (aq_memory_id r = m \<and> aq_target_scope r = sc \<and> aq_status r = AApproved)"
    using pg_find_cases(3) [of m sc w "Inr None" w'] ledger_SomeD [OF inv, of i r] row_to_request_ids [of _ r]
    by (fastforce simp: pg_approval_store_def)
  show "as_find_approved pg_approval_store m sc w = (x, w') \<Longrightarrow> wf_approvals w' \<and> pg_ledger_of w' = pg_ledger_of w"
    for x :: "escalation_error + approval_request option"
    using pg_find_cases(1) [of m sc w x w'] inv by (auto simp: pg_approval_store_def)
  show "as_update_status pg_approval_store i st u w = (Inr r, w') \<Longrightarrow> wf_approvals w' \<and>
      (\<exists>r0 t. pg_ledger_of w i = Some r0 \<and> aq_id r = i \<and>
        r = r0\<lparr>aq_status := st, aq_decided_at := Some t, aq_decided_by := Some u\<rparr> \<and>
        pg_ledger_of w' = (pg_ledger_of w)(i \<mapsto> r))"
    using pg_update_cases [OF inv, of i st u "Inr r" w'] by (auto simp: pg_approval_store_def)
  show "as_update_status pg_approval_store i st u w = (Inl e, w') \<Longrightarrow> wf_approvals w' \<and> pg_ledger_of w' = pg_ledger_of w"
    using pg_update_cases [OF inv, of i st u "Inl e" w'] by (auto simp: pg_approval_store_def)
  show "as_expire_pending pg_approval_store w = (xs, w') \<Longrightarrow> wf_approvals w' \<and>
      (pg_ledger_of w' = pg_ledger_of w \<or> (\<exists>now. \<forall>i. pg_ledger_of w' i =
        map_option (\<lambda>r. if overdue now r then r\<lparr>aq_status := AExpired\<rparr> else r) (pg_ledger_of w i)))"
    for xs :: "escalation_error + approval_request list"
    using pg_expire_cases [OF inv, of xs w'] by (auto simp: pg_approval_store_def)
qed

section \<open>Promotions\<close>

lemma assess_InrD:
  assumes "assess policy req current conf n = Inr out"
  shows "next_scope current = Some (pq_target_scope req) \<and>
    rule_for policy current (pq_target_scope req) = Some (ao_rule out) \<and>
    \<not> f32_lt conf (sr_min_confidence (ao_rule out)) \<and> sr_min_evidence_refs (ao_rule out) \<le> n \<and>
    ao_approval_required out = requires_approval (sr_approver_role (ao_rule out))"
  using assms by (auto simp: assess_def split: option.splits if_splits)

text \<open>
  Every run of a promotion over the PostgreSQL stores either leaves the memory table alone and
  reports no success, or ends with the scope update, after the checks it needs.
\<close>

lemma pg_update_scope_InlD: "pg_update_scope i sc w = (Inl e, w') \<Longrightarrow> memory_items w' = memory_items w"
  by (auto simp: pg_update_scope_def monad_defs exec_def rows_matching_0_iff split: if_splits)

lemma request_approval_leaves:
  assumes "request_approval pg_approval_store req role w = (r, w')"
  shows "memory_items w' = memory_items w \<and> (\<forall>res. r = Inr res \<longrightarrow> \<not> pm_success res)"
proof
  have "keeps (\<lambda>v. memory_items v = memory_items w) (request_approval pg_approval_store req role)"
    unfolding request_approval_def pg_approval_store_def pg_insert_def
    by (simp add: Let_def) (intro keep_intros keepsI; auto simp: exec_def split: if_splits)
  from keepsD [OF this refl assms] show "memory_items w' = memory_items w" .
  show "\<forall>res. r = Inr res \<longrightarrow> \<not> pm_success res"
    using assms by (auto simp: request_approval_def bindE_Inr_iff ret_def Let_def)
qed

definition unpromoted :: "world \<Rightarrow> escalation_error + promotion_result \<Rightarrow> world \<Rightarrow> bool" where
  "unpromoted w r w' \<longleftrightarrow> memory_items w' = memory_items w \<and> (\<forall>res. r = Inr res \<longrightarrow> \<not> pm_success res)"

lemma self_service_cases:
  assumes "promote_self_service pg_scope_store req current w = (r, w')"
  obtains (stayed) "unpromoted w r w'"
  | (moved) res where "r = Inr res" and "pm_success res"
      and "pg_update_scope (pq_memory_id req) (pq_target_scope req) w = (Inr (), w')"
  using assms unfolding promote_self_service_def
proof (cases rule: bindE_E)
  case (err e)
  then have "unpromoted w r w'" using pg_update_scope_InlD by (simp add: pg_scope_store_def unpromoted_def)
  then show ?thesis by (rule stayed)
next
  case (step u v)
  then have "pg_update_scope (pq_memory_id req) (pq_target_scope req) w = (Inr (), w')"
    by (simp add: pg_scope_store_def ret_def)
  moreover have "case r of Inr res \<Rightarrow> pm_success res | Inl _ \<Rightarrow> False" using step by (auto simp: ret_def)
  then obtain res where "r = Inr res" "pm_success res" by (cases r) simp_all
  ultimately show ?thesis by (rule_tac moved)
qed

lemma cross_scope_cases:
  assumes "promote_cross_scope pg_scope_store pg_approval_store req role w = (r, w')"
  obtains (stayed) "unpromoted w r w'"
  | (moved) res a v where "r = Inr res" and "pm_success res"
      and "pg_find_approved (pq_memory_id req) (pq_target_scope req) w = (Inr (Some a), v)"
      and "pg_update_scope (pq_memory_id req) (pq_target_scope req) v = (Inr (), w')"
  using assms unfolding promote_cross_scope_def
proof (cases rule: bindE_E)
  case (err e)
  then have "pg_find_approved (pq_memory_id req) (pq_target_scope req) w = (Inl e, w')"
    by (simp add: pg_approval_store_def)
  from pg_find_cases(1) [OF this] have "unpromoted w r w'" using err(2) by (auto simp: unpromoted_def)
  then show ?thesis by (rule stayed)
next
  case (step found v)
  have find: "pg_find_approved (pq_memory_id req) (pq_target_scope req) w = (Inr found, v)"
    using step(1) by (simp add: pg_approval_store_def)
  have same: "memory_items v = memory_items w" using pg_find_cases(1) [OF find] by auto
  show ?thesis
  proof (cases found)
    case None
    then have "request_approval pg_approval_store req role v = (r, w')" using step(2) by simp
    from request_approval_leaves [OF this] same have "unpromoted w r w'" by (simp add: unpromoted_def)
    then show ?thesis by (rule stayed)
  next
    case (Some a)
    with step(2) have rest: "bindE (pg_update_scope (pq_memory_id req) (pq_target_scope req)) (\<lambda>_.
        ret \<lparr>pm_success = True, pm_new_scope = Some (pq_target_scope req), pm_approval_required = True,
          pm_approval_id = Some (aq_id a), pm_message = ''scope promoted with approval '' @ aq_id a\<rparr>) v = (r, w')"
      by (simp add: pg_scope_store_def)
    from rest show ?thesis
    proof (cases rule: bindE_E)
      case (err e)
      then have "unpromoted w r w'" using pg_update_scope_InlD same by (simp add: unpromoted_def)
      then show ?thesis by (rule stayed)
    next
      case (step u v')
      then have "pg_update_scope (pq_memory_id req) (pq_target_scope req) v = (Inr (), w')"
        by (simp add: ret_def)
      moreover have "case r of Inr res \<Rightarrow> pm_success res | Inl _ \<Rightarrow> False" using step by (auto simp: ret_def)
      then obtain res where "r = Inr res" "pm_success res" by (cases r) simp_all
      moreover have "pg_find_approved (pq_memory_id req) (pq_target_scope req) w = (Inr (Some a), v)"
        using find Some by simp
      ultimately show ?thesis by (rule_tac moved)
    qed
  qed
qed

lemma promote_cases:
  assumes "promote pg_scope_store pg_approval_store policy req w = (r, w')"
  obtains (stayed) "unpromoted w r w'"
  | (moved) info v out v' res where "pg_get_memory (pq_memory_id req) w = (Inr (Some info), v)"
    and "assess policy req (si_scope info) (si_confidence info) (length (si_evidence_refs info)) = Inr out"
    and "r = Inr res" and "pm_success res"
    and "ao_approval_required out \<Longrightarrow> \<exists>a. pg_find_approved (pq_memory_id req) (pq_target_scope req) v = (Inr (Some a), v')"
    and "\<not> ao_approval_required out \<Longrightarrow> v' = v"
    and "pg_update_scope (pq_memory_id req) (pq_target_scope req) v' = (Inr (), w')"
  using assms unfolding promote_def
proof (cases rule: bindE_E)
  case (err e)
  have "memory_items w' = memory_items w"
    using err(1) by (auto simp: pg_scope_store_def pg_get_memory_def repo_get_by_id_def bindE_def exec_def
        gets_def ret_def map_err_def split: if_splits sum.splits prod.splits option.splits)
  then show ?thesis using err(2) stayed by (simp add: unpromoted_def)
next
  case (step found v)
  have get: "pg_get_memory (pq_memory_id req) w = (Inr found, v)" using step(1) by (simp add: pg_scope_store_def)
  have same: "memory_items v = memory_items w"
    using get by (auto simp: pg_get_memory_def repo_get_by_id_def bindE_Inr_iff exec_def gets_def ret_def split: if_splits)
  show ?thesis
  proof (cases found)
    case None
    then have "throw (MemoryNotFound (pq_memory_id req)) v = (r, w')" using step(2) by (simp add: ok_or_def)
    then have "unpromoted w r w'" using same by (auto simp: throw_def unpromoted_def)
    then show ?thesis by (rule stayed)
  next
    case (Some info)
    show ?thesis
    proof (cases "assess policy req (si_scope info) (si_confidence info) (length (si_evidence_refs info))")
      case (Inl e)
      then have "throw e v = (r, w')" using step(2) Some by (simp add: ok_or_def)
      then have "unpromoted w r w'" using same by (auto simp: throw_def unpromoted_def)
      then show ?thesis by (rule stayed)
    next
      case out: (Inr out)
      have stay: "unpromoted v r w' \<Longrightarrow> thesis" using stayed same by (simp add: unpromoted_def)
      show ?thesis
      proof (cases "ao_approval_required out")
        case False
        then have "promote_self_service pg_scope_store req (si_scope info) v = (r, w')"
          using step(2) Some out by (simp add: ok_or_def)
        then show ?thesis
          by (cases rule: self_service_cases) (use stay moved get Some out False in \<open>blast+\<close>)
      next
        case True
        then have "promote_cross_scope pg_scope_store pg_approval_store req (ao_approver_role out) v = (r, w')"
          using step(2) Some out by (simp add: ok_or_def)
        then show ?thesis
          by (cases rule: cross_scope_cases) (use stay moved get Some out True in \<open>blast+\<close>)
      qed
    qed
  qed
qed

lemma pg_update_scope_InrD:
  assumes "pg_update_scope i sc w = (Inr (), w')"
  shows "\<exists>n t. w' = w\<lparr>tick := n, memory_items := sql_update (\<lambda>r. c_memory_id r = i)
    (\<lambda>r. r\<lparr>c_scope := scope_as_str sc, c_version := c_version r + 1, c_updated_at := t\<rparr>) (memory_items w)\<rparr>"
  using assms by (auto simp: pg_update_scope_def bindE_Inr_iff exec_def ret_def throw_def split: if_splits)

lemma pg_get_memory_SomeD:
  assumes "pg_get_memory i w = (Inr (Some info), w')"
  shows "\<exists>r n. r \<in> set (memory_items w) \<and> c_memory_id r = i \<and> w' = w\<lparr>tick := n\<rparr> \<and>
    si_scope info = parse_scope (c_scope r) \<and> si_confidence info = c_confidence r \<and>
    length (si_evidence_refs info) = length (array_or_empty (c_evidence_refs r))"
  using assms
  by (auto simp: pg_get_memory_def repo_get_by_id_def bindE_Inr_iff exec_def gets_def ret_def scope_info_of_def
      map_row_to_memory_item_def dest!: find_Some_in_set split: if_splits)

section \<open>Properties\<close>

text \<open>
  C3 (safety).  Whatever a promotion returns, and whichever of its statements fail, either the
  memory table is as it was and no success is reported, or success is reported and exactly one
  memory moved by exactly one rung of the ladder, under a rule of the policy whose thresholds the
  memory meets, and, when the rule names an approver, with an approved request for that memory
  and scope on record before the call.
\<close>

theorem promotion_is_authorised:
  assumes "promote pg_scope_store pg_approval_store policy req w = (res, w')"
  shows "memory_items w' = memory_items w \<and> (\<forall>p. res = Inr p \<longrightarrow> \<not> pm_success p) \<or>
    (\<exists>p r rule t. res = Inr p \<and> pm_success p \<and> r \<in> set (memory_items w) \<and> c_memory_id r = pq_memory_id req \<and>
    next_scope (parse_scope (c_scope r)) = Some (pq_target_scope req) \<and>
    rule_for policy (parse_scope (c_scope r)) (pq_target_scope req) = Some rule \<and>
    \<not> f32_lt (c_confidence r) (sr_min_confidence rule) \<and>
    sr_min_evidence_refs rule \<le> length (array_or_empty (c_evidence_refs r)) \<and>
    (requires_approval (sr_approver_role rule) \<longrightarrow> (\<exists>a \<in> set (approval_requests w).
       p_memory_id a = pq_memory_id req \<and> p_target_scope a = scope_as_str (pq_target_scope req) \<and>
       p_status a = ''approved'')) \<and>
    memory_items w' = map (\<lambda>x. if c_memory_id x = pq_memory_id req
       then x\<lparr>c_scope := scope_as_str (pq_target_scope req), c_version := c_version x + 1, c_updated_at := t\<rparr>
       else x) (memory_items w))"
  using assms
proof (cases rule: promote_cases)
  case stayed
  then show ?thesis by (simp add: unpromoted_def)
next
  case (moved info v out v' p)
  obtain r n where r: "r \<in> set (memory_items w)" "c_memory_id r = pq_memory_id req" "v = w\<lparr>tick := n\<rparr>"
    "si_scope info = parse_scope (c_scope r)" "si_confidence info = c_confidence r"
    "length (si_evidence_refs info) = length (array_or_empty (c_evidence_refs r))"
    using pg_get_memory_SomeD [OF moved(1)] by auto
  have approved: "\<exists>x \<in> set (approval_requests w). p_memory_id x = pq_memory_id req \<and>
      p_target_scope x = scope_as_str (pq_target_scope req) \<and> p_status x = ''approved''" if "ao_approval_required out"
    using moved(5) [OF that] pg_find_cases(2) [of "pq_memory_id req" "pq_target_scope req" v] r(3) by fastforce
  have "memory_items v' = memory_items w"
  proof (cases "ao_approval_required out")
    case True
    then show ?thesis using moved(5) [OF True] pg_find_cases(1) [of "pq_memory_id req" "pq_target_scope req" v] r(3) by fastforce
  qed (use moved(6) r(3) in simp)
  then obtain t where "memory_items w' = sql_update (\<lambda>r. c_memory_id r = pq_memory_id req)
    (\<lambda>r. r\<lparr>c_scope := scope_as_str (pq_target_scope req), c_version := c_version r + 1, c_updated_at := t\<rparr>) (memory_items w)"
    using pg_update_scope_InrD [OF moved(7)] by auto
  then show ?thesis
    using r approved assess_InrD [OF moved(2)] moved(3,4)
    by (intro disjI2 exI [of _ p] exI [of _ r] exI [of _ "ao_rule out"] exI [of _ t]) (auto simp: sql_update_def)
qed

text \<open>A team memory, and an approved request for its promotion to factory scope.\<close>

definition demo_promotion :: promotion_request where
  "demo_promotion = \<lparr>pq_memory_id = ''m'', pq_target_scope = Factory, pq_requester = ''u'',
     pq_justification = [], pq_evidence_refs = []\<rparr>"

definition demo_approval :: approval_request where
  "demo_approval = \<lparr>aq_id = ''a1'', aq_memory_id = ''m'', aq_target_scope = Factory, aq_requester = ''u'',
     aq_justification = [], aq_approver_role = FactoryManager, aq_status = AApproved, aq_created_at = 0,
     aq_decided_at = Some 1, aq_decided_by = Some ''boss'', aq_expires_at = 10\<rparr>"

definition demo_scopes :: world where
  "demo_scopes = empty_world\<lparr>memory_items :=
       [(row_of_id ''m'')\<lparr>c_scope := ''team'', c_evidence_refs := JArray [JNull, JNull, JNull]\<rparr>],
     approval_requests := [row_of_request demo_approval]\<rparr>"

lemmas promotion_run = promote_def promote_self_service_def promote_cross_scope_def pg_scope_store_def pg_approval_store_def pg_get_memory_def
  repo_get_by_id_def pg_find_approved_def latest_decided_def decode_row_def pg_update_scope_def
  assess_def rule_for_def default_policy_def scope_info_of_def map_row_to_memory_item_def
  monad_defs prim_defs order_desc_def

lemma demo_scopes_wf: "wf_approvals demo_scopes"
  using row_roundtrip [of demo_approval] by (auto simp: wf_approvals_def demo_scopes_def)

lemma demo_scopes_promote:
  "\<exists>res w'. promote pg_scope_store pg_approval_store default_policy demo_promotion demo_scopes = (Inr res, w') \<and>
     pm_success res"
  using row_roundtrip [of demo_approval]
  by (simp add: promotion_run demo_promotion_def demo_scopes_def empty_world_def row_of_id_def parse_scope_def
      array_or_empty_def f32_literals int4_max_def rows_matching_def row_of_request_def demo_approval_def)

theorem promotion_is_authorised_witness:
  "\<exists>w'. snd (promote pg_scope_store pg_approval_store default_policy demo_promotion demo_scopes) = w' \<and>
     map c_scope (memory_items w') = [''factory'']"
proof -
  obtain res w' where run: "promote pg_scope_store pg_approval_store default_policy demo_promotion demo_scopes = (Inr res, w')"
    and ok: "pm_success res" using demo_scopes_promote by blast
  from promotion_is_authorised [OF run] run ok show ?thesis
    by (auto simp: demo_scopes_def demo_promotion_def row_of_id_def)
qed

text \<open>
  What a manager relies on after an approval: once \<open>approve_promotion\<close> has
  returned a request, a lookup for its memory and scope that answers finds an approved
  request, so the next promotion goes through.
\<close>

theorem approval_takes_effect:
  assumes "wf_approvals w" and "approve_promotion pg_approval_store i u w = (Inr r, w1)"
    and "pg_find_approved (aq_memory_id r) (aq_target_scope r) w1 = (Inr found, w2)"
  shows "\<exists>a. found = Some a \<and> aq_status a = AApproved"
  using pg_ledger.approved_is_found [OF assms(1,2)] assms(3) by (simp add: pg_approval_store_def)

theorem approval_takes_effect_witness:
  "\<exists>r w1. approve_promotion pg_approval_store ''a1'' ''chief'' demo_scopes = (Inr r, w1) \<and>
     (\<exists>a w2. pg_find_approved ''m'' Factory w1 = (Inr (Some a), w2) \<and> aq_status a = AApproved)"
proof -
  have "\<exists>r w1. approve_promotion pg_approval_store ''a1'' ''chief'' demo_scopes = (Inr r, w1) \<and>
      aq_memory_id r = ''m'' \<and> aq_target_scope r = Factory \<and>
      (\<exists>found w2. pg_find_approved ''m'' Factory w1 = (Inr found, w2))"
    using row_to_request_decided [OF row_roundtrip [of demo_approval], where st = AApproved]
    by (simp add: approve_promotion_def pg_approval_store_def pg_update_status_def pg_find_approved_def
        decode_row_def latest_decided_def order_desc_def demo_scopes_def empty_world_def monad_defs
        prim_defs sql_update_def Let_def row_of_request_def demo_approval_def)
  then obtain r w1 found w2 where run: "approve_promotion pg_approval_store ''a1'' ''chief'' demo_scopes = (Inr r, w1)"
    and m: "aq_memory_id r = ''m''" "aq_target_scope r = Factory" and f: "pg_find_approved ''m'' Factory w1 = (Inr found, w2)"
    by blast
  from approval_takes_effect [OF demo_scopes_wf run] f m run show ?thesis by auto
qed

text \<open>
  In the in-memory store a decision is final: approving or rejecting a
  request that is no longer pending fails, and the request stays as it was.
\<close>

theorem memory_decisions_final:
  assumes "distinct (map aq_id (ms_requests s))" and "lookup_request i (ms_requests s) = Some r"
    and "aq_status r \<noteq> APending"
  shows "(\<exists>e s'. approve_promotion mem_approval_store i u s = (Inl e, s') \<and> lookup_request i (ms_requests s') = Some r) \<and>
    (\<exists>e s'. reject_promotion mem_approval_store i u s = (Inl e, s') \<and> lookup_request i (ms_requests s') = Some r)"
  using mem_ledger.decision_final [of s i r u] assms by simp

definition demo_mem :: mem_state where
  "demo_mem = \<lparr>tick = 0, clock = int, uuids = (\<lambda>n. replicate n CHR ''a''), fails = (\<lambda>_. False),
     ms_requests = [demo_approval]\<rparr>"

theorem memory_decisions_final_witness:
  "\<exists>e s'. reject_promotion mem_approval_store ''a1'' ''boss'' demo_mem = (Inl e, s') \<and>
     lookup_request ''a1'' (ms_requests s') = Some demo_approval"
  using memory_decisions_final [of demo_mem "''a1''" demo_approval "''boss''"]
  by (simp add: demo_mem_def lookup_request_def demo_approval_def)

text \<open>
  In the PostgreSQL store a decision is not final: any existing request, whatever
  its status, expired and rejected ones included, becomes approved when
  \<open>approve_promotion\<close> is called and the database answers.
\<close>

theorem postgres_overrides_decisions:
  assumes "wf_approvals w" and "pg_ledger_of w i = Some r" and "\<not> fails w (tick w)"
  shows "\<exists>q w'. approve_promotion pg_approval_store i u w = (Inr q, w') \<and> aq_status q = AApproved \<and>
    pg_ledger_of w' i = Some q"
proof -
  obtain x w' where run: "pg_update_status i AApproved u w = (x, w')" by fastforce
  have "find (\<lambda>r. p_id r = i) (approval_requests w) \<noteq> None"
    using assms(1,2) by (auto simp: ledger_find)
  then obtain row where row: "find (\<lambda>r. p_id r = i) (approval_requests w) = Some row" by blast
  then obtain q where q: "row_to_request row = Inr q"
    using assms(1) find_Some_in_set by (fastforce simp: wf_approvals_def)
  have "\<exists>q. x = Inr q"
    using run assms(3) row row_to_request_decided [OF q, where st = AApproved]
    by (auto simp: pg_update_status_def monad_defs Let_def decode_row_def find_sql_update_same)
  then show ?thesis
    using pg_update_cases [OF assms(1) run] run by (auto simp: approve_promotion_def pg_approval_store_def)
qed

theorem postgres_overrides_decisions_witness:
  "\<exists>q w'. approve_promotion pg_approval_store ''a1'' ''u''
     (empty_world\<lparr>approval_requests := [row_of_request (demo_approval\<lparr>aq_status := AExpired\<rparr>)]\<rparr>) = (Inr q, w') \<and>
     aq_status q = AApproved"
proof -
  let ?r = "demo_approval\<lparr>aq_status := AExpired\<rparr>"
  let ?w = "empty_world\<lparr>approval_requests := [row_of_request ?r]\<rparr>"
  have "wf_approvals ?w" using row_roundtrip [of ?r] by (auto simp: wf_approvals_def)
  moreover have "pg_ledger_of ?w ''a1'' = Some ?r"
    by (simp add: pg_ledger_of_def decoded_def lookup_request_def demo_approval_def)
  ultimately show ?thesis
    using postgres_overrides_decisions [of ?w "''a1''" ?r "''u''"] by (auto simp: empty_world_def)
qed

text \<open>
  A memory whose confidence is not a number passes the confidence threshold of
  every rule: \<open>NaN < min\<close> is false.
\<close>

theorem nan_confidence_passes:
  assumes "rule_for policy sc (pq_target_scope req) = Some rule" and "next_scope sc = Some (pq_target_scope req)"
    and "sr_min_evidence_refs rule \<le> n"
  shows "\<exists>out. assess policy req sc NaN n = Inr out"
  using assms by (cases sc) (auto simp: assess_def)

theorem nan_confidence_passes_witness: "\<exists>out. assess default_policy demo_promotion Team NaN 3 = Inr out"
  using nan_confidence_passes [of default_policy Team demo_promotion "default_policy ! 2" 3]
  by (simp add: rule_for_def default_policy_def demo_promotion_def)

section \<open>The workflow as a state machine\<close>

inductive workflow_step :: "workflow \<Rightarrow> workflow \<Rightarrow> bool" where
  wf_submit: "workflow_submit m sc requester j role s = (x, s') \<Longrightarrow>
     uuids s (Suc (tick s)) \<notin> aq_id ` set (wf_requests s) \<Longrightarrow> workflow_step s s'"
| wf_approve: "workflow_approve i u s = (x, s') \<Longrightarrow> workflow_step s s'"
| wf_reject: "workflow_reject i u s = (x, s') \<Longrightarrow> workflow_step s s'"
| wf_expire: "workflow_expire_pending s = (x, s') \<Longrightarrow> workflow_step s s'"

text \<open>Pending requests carry no decision; approved and rejected ones carry who and when.\<close>

definition request_ok :: "approval_request \<Rightarrow> bool" where
  "request_ok r \<longleftrightarrow>
     (if aq_status r \<in> {AApproved, ARejected} then aq_decided_at r \<noteq> None \<and> aq_decided_by r \<noteq> None
      else aq_decided_at r = None \<and> aq_decided_by r = None)"

definition requests_ok :: "approval_request list \<Rightarrow> bool" where
  "requests_ok rs \<longleftrightarrow> distinct (map aq_id rs) \<and> (\<forall>r \<in> set rs. request_ok r)"

definition workflow_ok :: "workflow \<Rightarrow> bool" where
  "workflow_ok s \<longleftrightarrow> requests_ok (wf_requests s)"

lemma set_put_request: "set (put_request r rs) \<subseteq> insert r (set rs)"
  by (auto simp: put_request_def)

lemma workflow_decide_run:
  assumes "workflow_decide st i u s = (x, s')"
  shows "wf_requests s' = snd (decide (clock s (tick s)) i st u (wf_requests s))"
  using assms by (auto simp: workflow_decide_def bindE_def utc_now_def split: prod.splits)

lemma put_request_ok: "requests_ok rs \<Longrightarrow> request_ok r \<Longrightarrow> requests_ok (put_request r rs)"
  using set_put_request [of r rs] by (auto simp: requests_ok_def distinct_put_request)

lemma decide_keeps:
  assumes "st \<in> {AApproved, ARejected}" and "requests_ok rs"
  shows "requests_ok (snd (decide now i st u rs))"
proof -
  obtain x rs' where d: "decide now i st u rs = (x, rs')" by fastforce
  from decide_cases [OF d] assms show ?thesis
    using d by (auto intro!: put_request_ok simp: request_ok_def)
qed

lemma decide_decided:
  assumes "lookup_request j rs = Some r" and "aq_status r \<noteq> APending"
  shows "lookup_request j (snd (decide now i st u rs)) = Some r"
proof -
  obtain x rs' where d: "decide now i st u rs = (x, rs')" by fastforce
  from decide_cases [OF d] assms show ?thesis using d by auto
qed

lemma submit_run:
  assumes "workflow_submit m sc requester j role s = (x, s')"
  shows "\<exists>r. wf_requests s' = put_request r (wf_requests s) \<and> aq_id r = uuids s (Suc (tick s)) \<and> request_ok r"
  using assms by (auto simp: workflow_submit_def monad_defs prim_defs Let_def request_ok_def)

lemma expire_run:
  assumes "workflow_expire_pending s = (x, s')"
  shows "wf_requests s' = snd (expire_all (clock s (tick s)) (wf_requests s))"
  using assms by (auto simp: workflow_expire_pending_def bindE_def utc_now_def split: prod.splits)

lemma expire_all_ok: "requests_ok rs \<Longrightarrow> requests_ok (snd (expire_all now rs))"
proof -
  assume ok: "requests_ok rs"
  then have "request_ok r" if "r \<in> set (snd (expire_all now rs))" for r
    using that by (auto simp: requests_ok_def expire_all_def request_ok_def overdue_def split: if_splits)
  with ok show ?thesis unfolding requests_ok_def distinct_expire by blast
qed

lemma workflow_step_ok: "workflow_step s s' \<Longrightarrow> workflow_ok s \<Longrightarrow> workflow_ok s'"
proof (induction rule: workflow_step.induct)
  case (wf_submit m sc requester j role s x s')
  then show ?case
    using submit_run [OF wf_submit(1)] put_request_ok by (auto simp: workflow_ok_def)
next
  case (wf_approve i u s x s')
  then show ?case
    using workflow_decide_run [OF wf_approve(1) [unfolded workflow_approve_def]] decide_keeps [of AApproved]
    by (simp add: workflow_ok_def)
next
  case (wf_reject i u s x s')
  then show ?case
    using workflow_decide_run [OF wf_reject(1) [unfolded workflow_reject_def]] decide_keeps [of ARejected]
    by (simp add: workflow_ok_def)
next
  case (wf_expire s x s')
  then show ?case
    using expire_run [OF wf_expire(1)] expire_all_ok by (simp add: workflow_ok_def)
qed

lemma workflow_step_decided:
  "workflow_step s s' \<Longrightarrow> lookup_request i (wf_requests s) = Some r \<Longrightarrow> aq_status r \<noteq> APending \<Longrightarrow>
     lookup_request i (wf_requests s') = Some r"
proof (induction rule: workflow_step.induct)
  case (wf_submit m sc requester j role s x s')
  have "i \<in> aq_id ` set (wf_requests s)" using lookup_Some [OF wf_submit(3)] by force
  then have "i \<noteq> uuids s (Suc (tick s))" using wf_submit(2) by blast
  with wf_submit(3) show ?case using submit_run [OF wf_submit(1)] by auto
next
  case (wf_approve i u s x s')
  then show ?case
    using workflow_decide_run [OF wf_approve(1) [unfolded workflow_approve_def]] decide_decided by simp
next
  case (wf_reject i u s x s')
  then show ?case
    using workflow_decide_run [OF wf_reject(1) [unfolded workflow_reject_def]] decide_decided by simp
next
  case (wf_expire s x s')
  then show ?case using expire_run [OF wf_expire(1)] by (simp add: lookup_expire overdue_def)
qed

text \<open>
  Over any run of the in-memory workflow from a consistent state: every
  request has decision data exactly when it was approved or rejected, ids stay unique, and a
  request that has left \<open>Pending\<close> never changes again.
\<close>

theorem workflow_decisions_final:
  assumes "workflow_step\<^sup>*\<^sup>* s s'" and "workflow_ok s" and "lookup_request i (wf_requests s) = Some r"
    and "aq_status r \<noteq> APending"
  shows "workflow_ok s' \<and> lookup_request i (wf_requests s') = Some r"
  using assms
  by (induction rule: rtranclp_induct) (auto intro: workflow_step_ok workflow_step_decided)

definition demo_workflow :: workflow where
  "demo_workflow = \<lparr>tick = 0, clock = int, uuids = (\<lambda>n. replicate n CHR ''b''), fails = (\<lambda>_. False),
     wf_ttl = hours 24, wf_requests = [demo_approval]\<rparr>"

theorem workflow_decisions_final_witness:
  "lookup_request ''a1'' (wf_requests (snd (workflow_reject ''a1'' ''u'' demo_workflow))) = Some demo_approval"
proof -
  obtain x s' where run: "workflow_reject ''a1'' ''u'' demo_workflow = (x, s')" by fastforce
  then have "workflow_step\<^sup>*\<^sup>* demo_workflow s'" by (blast intro: wf_reject)
  moreover have "workflow_ok demo_workflow" "lookup_request ''a1'' (wf_requests demo_workflow) = Some demo_approval"
    "aq_status demo_approval \<noteq> APending"
    by (simp_all add: workflow_ok_def requests_ok_def request_ok_def demo_workflow_def demo_approval_def lookup_request_def)
  ultimately show ?thesis using workflow_decisions_final run by (metis snd_conv)
qed

end
