(* ===== verification/StableSort.thy ===== *)
theory StableSort
  imports Prelude "HOL-Library.Product_Lexorder" "HOL-Library.Multiset"
begin

text \<open>
  \<open>std::cmp::Ordering\<close> and the stable sort \<open>slice::sort_by\<close> shared by the components that
  rank values.  A chain of comparisons is the lexicographic order of the tuple of its
  keys; sorting by a total preorder gives a sorted permutation.
\<close>

section \<open>Comparators and the stable sort\<close>

text \<open>\<open>std::cmp::Ordering\<close> with \<open>cmp\<close> and \<open>then\<close>.\<close>

datatype ordering = Less | Equal | Greater

definition cmp :: "'a::linorder \<Rightarrow> 'a \<Rightarrow> ordering" where
  "cmp a b = (if a < b then Less else if a = b then Equal else Greater)"

fun ord_then :: "ordering \<Rightarrow> ordering \<Rightarrow> ordering" where
  "ord_then Equal o2 = o2"
| "ord_then o1 _ = o1"

text \<open>
  \<open>slice::sort_by\<close> is stable, so its result is that of the insertion sort that puts an
  element before the elements it ties with.
\<close>

fun insert_by :: "('a \<Rightarrow> 'a \<Rightarrow> ordering) \<Rightarrow> 'a \<Rightarrow> 'a list \<Rightarrow> 'a list" where
  "insert_by c x [] = [x]"
| "insert_by c x (y # ys) = (if c x y = Greater then y # insert_by c x ys else x # y # ys)"

definition sort_by :: "('a \<Rightarrow> 'a \<Rightarrow> ordering) \<Rightarrow> 'a list \<Rightarrow> 'a list" where
  "sort_by c xs = foldr (insert_by c) xs []"

section \<open>Lemmas\<close>

lemma ord_then_cmp: "ord_then (cmp a b) (cmp c d) = cmp (a, c) (b, d)"
  by (auto simp: cmp_def)

lemma mset_insert_by [simp]: "mset (insert_by c x xs) = add_mset x (mset xs)"
  by (induction xs) auto

lemma mset_sort_by [simp]: "mset (sort_by c xs) = mset xs"
  by (induction xs) (simp_all add: sort_by_def)

lemma set_sort_by [simp]: "set (sort_by c xs) = set xs"
  by (metis mset_sort_by set_mset_mset)

lemma sort_by_Cons: "sort_by c (x # xs) = insert_by c x (sort_by c xs)"
  by (simp add: sort_by_def)

lemma sort_by_Nil_iff [simp]: "sort_by c xs = [] \<longleftrightarrow> xs = []"
  by (metis mset_sort_by mset_zero_iff)

text \<open>Sorting by a comparator that is total and transitive gives a sorted list.\<close>

definition ranks :: "('a \<Rightarrow> 'a \<Rightarrow> ordering) \<Rightarrow> bool" where
  "ranks c \<longleftrightarrow> (\<forall>x y. c x y = Greater \<longrightarrow> c y x \<noteq> Greater) \<and>
     (\<forall>x y z. c x y \<noteq> Greater \<longrightarrow> c y z \<noteq> Greater \<longrightarrow> c x z \<noteq> Greater)"

lemma cmp_Greater [simp]: "cmp a b = Greater \<longleftrightarrow> b < a"
  by (auto simp: cmp_def)

lemma ranks_cmp_keys: "ranks (\<lambda>a b. cmp (k b) (k a))"
  by (auto simp: ranks_def not_less)

lemma ranks_flip: "ranks c \<Longrightarrow> c x y = Greater \<Longrightarrow> c y x \<noteq> Greater"
  unfolding ranks_def by blast

lemma ranks_trans: "ranks c \<Longrightarrow> c x y \<noteq> Greater \<Longrightarrow> c y z \<noteq> Greater \<Longrightarrow> c x z \<noteq> Greater"
  unfolding ranks_def by blast

lemma sorted_insert_by:
  assumes "ranks c" and "sorted_wrt (\<lambda>a b. c a b \<noteq> Greater) xs"
  shows "sorted_wrt (\<lambda>a b. c a b \<noteq> Greater) (insert_by c x xs)"
  using assms(2)
proof (induction xs)
  case (Cons y ys)
  have set: "set (insert_by c x zs) = insert x (set zs)" for zs
    by (metis mset_insert_by set_mset_mset set_mset_add_mset_insert)
  show ?case
  proof (cases "c x y = Greater")
    case True
    then have "c y x \<noteq> Greater" by (rule ranks_flip [OF assms(1)])
    then show ?thesis using True Cons by (auto simp: set)
  next
    case False
    have "\<forall>z \<in> set ys. c x z \<noteq> Greater"
      using ranks_trans [OF assms(1) False] Cons.prems by simp
    then show ?thesis using False Cons.prems by simp
  qed
qed simp

lemma sorted_sort_by: "ranks c \<Longrightarrow> sorted_wrt (\<lambda>a b. c a b \<noteq> Greater) (sort_by c xs)"
  by (induction xs) (simp_all add: sort_by_Cons sorted_insert_by sort_by_def)

text \<open>A key the comparator respects is sorted even when the comparator is not transitive.\<close>

lemma sorted_sort_by_key:
  assumes greater: "\<And>x y. c x y = Greater \<Longrightarrow> k x \<le> (k y :: 'k::linorder)"
    and other: "\<And>x y. c x y \<noteq> Greater \<Longrightarrow> k y \<le> k x"
  shows "sorted_wrt (\<lambda>a b. k b \<le> k a) (sort_by c xs)"
proof -
  have "sorted_wrt (\<lambda>a b. k b \<le> k a) (insert_by c x ys)" if "sorted_wrt (\<lambda>a b. k b \<le> k a) ys" for x ys
    using that
  proof (induction ys)
    case (Cons y ys)
    have set: "set (insert_by c x ys) = insert x (set ys)"
      by (metis mset_insert_by set_mset_mset set_mset_add_mset_insert)
    show ?case
    proof (cases "c x y = Greater")
      case True
      then show ?thesis using Cons greater [OF True] by (auto simp: set)
    next
      case False
      then show ?thesis using Cons.prems other [OF False] by (auto intro: order_trans)
    qed
  qed simp
  then show ?thesis by (induction xs) (simp_all add: sort_by_Cons sort_by_def)
qed

lemma length_sort_by [simp]: "length (sort_by c xs) = length xs"
  by (metis mset_sort_by size_mset)

lemma distinct_sort_by [simp]: "distinct (sort_by c xs) = distinct xs"
  by (metis mset_sort_by mset_eq_imp_distinct_iff)

end
