(* ===== verification/Conflict.thy ===== *)
theory Conflict
  imports MemoryTypes StableSort
begin

text \<open>
  \<open>conflict_resolver.rs\<close>: competing values of one field are ranked by a chain of
  comparisons and the first of the best wins.  The comparator is shown to be the
  lexicographic order of a priority tuple, the winner to be the first value of highest
  priority, and the verdict not to depend on the order in which the values arrive.
\<close>

section \<open>Facts\<close>

record fact_value =
  fv_field :: string
  fv_value :: json
  fv_authority :: authority_level
  fv_source :: string
  fv_scope :: scope
  fv_timestamp :: time
  fv_verified :: bool
  fv_user_confirmed :: bool

datatype conflict_severity = SevNone | SevLow | SevMedium | SevHigh

record resolved_fact =
  rf_field :: string
  rf_winning_value :: json
  rf_winning_source :: string
  rf_winning_authority :: authority_level
  rf_conflict_detected :: bool
  rf_conflict_reason :: "string option"
  rf_all_values :: "fact_value list"
  rf_conflict_flags :: "string list"
  rf_severity :: conflict_severity

fun scope_rank_business :: "scope \<Rightarrow> nat" where
  "scope_rank_business Enterprise = 6"
| "scope_rank_business Factory = 5"
| "scope_rank_business Process = 4"
| "scope_rank_business Team = 3"
| "scope_rank_business Task = 2"
| "scope_rank_business Agent = 1"
| "scope_rank_business Personal = 0"

definition source_rank :: "string \<Rightarrow> nat" where
  "source_rank src =
     (if src = ''user_explicit'' \<or> src = ''explicit_user'' then 5
      else if src = ''agent_explicit'' \<or> src = ''explicit_agent'' then 4
      else if src = ''domain_explicit'' \<or> src = ''explicit_domain'' then 3
      else if src = ''global_explicit'' \<or> src = ''explicit_global'' then 2
      else if src = ''repeated_inference'' then 1
      else 0)"

text \<open>The closure passed to \<open>sort_by\<close>: descending in every key.\<close>

definition compare_facts :: "fact_value \<Rightarrow> fact_value \<Rightarrow> ordering" where
  "compare_facts a b =
     ord_then (cmp (authority_rank (fv_authority b)) (authority_rank (fv_authority a)))
    (ord_then (cmp (fv_user_confirmed b) (fv_user_confirmed a))
    (ord_then (cmp (fv_verified b) (fv_verified a))
    (ord_then (cmp (scope_rank_business (fv_scope b)) (scope_rank_business (fv_scope a)))
    (ord_then (cmp (fv_timestamp b) (fv_timestamp a))
              (cmp (source_rank (fv_source b)) (source_rank (fv_source a)))))))"

section \<open>Resolution\<close>

text \<open>The pieces of the explanation.\<close>

definition needs_review_text :: string where
  "needs_review_text = ''NEEDS HUMAN REVIEW '' @ [CHR 0xE2, CHR 0x80, CHR 0x94] @
     '' contradictory facts at high authority''"

definition reason_parts :: "fact_value \<Rightarrow> bool \<Rightarrow> bool \<Rightarrow> conflict_severity \<Rightarrow> string list" where
  "reason_parts winner auth_mismatch scope_mismatch sev =
     (if auth_mismatch
      then [''authority '' @ quoted (authority_level_as_str (fv_authority winner)) @ '' ('' @
            fv_source winner @ '') beats lower-authority sources''] else []) @
     (if fv_user_confirmed winner then [''winner is user-confirmed''] else []) @
     (if fv_verified winner then [''winner is verified''] else []) @
     (if \<not> auth_mismatch \<and> scope_mismatch
      then [''scope '' @ quoted (scope_as_str (fv_scope winner)) @ '' has higher priority at equal authority'']
      else []) @
     (if \<not> auth_mismatch \<and> \<not> scope_mismatch then [''resolved by recency (most recent wins)''] else []) @
     (if sev = SevHigh then [needs_review_text] else [])"

definition build_reason :: "string \<Rightarrow> fact_value \<Rightarrow> bool \<Rightarrow> bool \<Rightarrow> conflict_severity \<Rightarrow> string" where
  "build_reason field winner auth_mismatch scope_mismatch sev =
     ''field '' @ quoted field @ '': '' @
     join ''; '' (reason_parts winner auth_mismatch scope_mismatch sev)"

text \<open>\<open>windows(2)\<close>: the pairs of neighbours.\<close>

fun windows2 :: "'a list \<Rightarrow> ('a \<times> 'a) list" where
  "windows2 (x # y # ys) = (x, y) # windows2 (y # ys)"
| "windows2 _ = []"

definition all_agree :: "fact_value list \<Rightarrow> bool" where
  "all_agree values = list_all (\<lambda>(a, b). fv_value a = fv_value b) (windows2 values)"

definition mismatch :: "(fact_value \<Rightarrow> 'a) \<Rightarrow> fact_value list \<Rightarrow> bool" where
  "mismatch f values \<longleftrightarrow> \<not> list_all (\<lambda>v. f v = f (hd values)) values"

definition severity_of :: "bool \<Rightarrow> authority_level \<Rightarrow> conflict_severity" where
  "severity_of auth_mismatch auth =
     (if auth_mismatch then SevMedium
      else case auth of L0SourceOfTruth \<Rightarrow> SevHigh | L1Authoritative \<Rightarrow> SevHigh | _ \<Rightarrow> SevLow)"

definition conflict_flag :: "string \<Rightarrow> string \<Rightarrow> string" where
  "conflict_flag field what = ''conflict:'' @ field @ '':'' @ what"

definition flags_of :: "string \<Rightarrow> bool \<Rightarrow> bool \<Rightarrow> fact_value list \<Rightarrow> conflict_severity \<Rightarrow> string list" where
  "flags_of field auth_mismatch scope_mismatch ranked sev =
     (if auth_mismatch then [conflict_flag field ''authority_mismatch''] else []) @
     (if scope_mismatch then [conflict_flag field ''scope_mismatch''] else []) @
     (if \<not> auth_mismatch \<and> \<not> scope_mismatch \<and>
         list_ex (\<lambda>(a, b). fv_timestamp a \<noteq> fv_timestamp b) (windows2 ranked)
      then [conflict_flag field ''recency_tiebreaker''] else []) @
     (if sev = SevHigh then [conflict_flag field ''needs_review''] else [])"

definition unopposed :: "string \<Rightarrow> fact_value list \<Rightarrow> fact_value \<Rightarrow> resolved_fact" where
  "unopposed field values winner = \<lparr>
     rf_field = field, rf_winning_value = fv_value winner, rf_winning_source = fv_source winner,
     rf_winning_authority = fv_authority winner, rf_conflict_detected = False,
     rf_conflict_reason = None, rf_all_values = values, rf_conflict_flags = [],
     rf_severity = SevNone\<rparr>"

definition contested :: "string \<Rightarrow> fact_value list \<Rightarrow> resolved_fact" where
  "contested field values =
     (let auth_mismatch = mismatch fv_authority values;
          scope_mismatch = mismatch fv_scope values;
          ranked = sort_by compare_facts values;
          winner = hd ranked;
          sev = severity_of auth_mismatch (fv_authority winner)
      in \<lparr>rf_field = field, rf_winning_value = fv_value winner, rf_winning_source = fv_source winner,
          rf_winning_authority = fv_authority winner, rf_conflict_detected = True,
          rf_conflict_reason = Some (build_reason field winner auth_mismatch scope_mismatch sev),
          rf_all_values = values,
          rf_conflict_flags = flags_of field auth_mismatch scope_mismatch ranked sev,
          rf_severity = sev\<rparr>)"

definition resolve :: "string \<Rightarrow> fact_value list \<Rightarrow> resolved_fact" where
  "resolve field values =
     (case values of
        [] \<Rightarrow> \<lparr>rf_field = field, rf_winning_value = JNull, rf_winning_source = [],
              rf_winning_authority = L3Inferred, rf_conflict_detected = False,
              rf_conflict_reason = None, rf_all_values = [], rf_conflict_flags = [],
              rf_severity = SevNone\<rparr>
      | winner # rest \<Rightarrow>
          if length values = 1 \<or> all_agree values then unopposed field values winner
          else contested field values)"

text \<open>
  A \<open>HashMap\<close> is an association list in the order its iterator happens to have.
\<close>

definition resolve_batch :: "(string \<times> fact_value list) list \<Rightarrow> resolved_fact list" where
  "resolve_batch facts =
     map (\<lambda>k. resolve k (case map_of facts k of Some vals \<Rightarrow> vals | None \<Rightarrow> []))
       (sort (map fst facts))"

section \<open>The comparator is a lexicographic order\<close>

definition priority :: "fact_value \<Rightarrow> nat \<times> bool \<times> bool \<times> nat \<times> time \<times> nat" where
  "priority v = (authority_rank (fv_authority v), fv_user_confirmed v, fv_verified v,
     scope_rank_business (fv_scope v), fv_timestamp v, source_rank (fv_source v))"

lemma compare_facts_priority: "compare_facts a b = cmp (priority b) (priority a)"
  by (simp add: compare_facts_def priority_def ord_then_cmp)

lemma compare_facts_Greater [simp]: "compare_facts a b = Greater \<longleftrightarrow> priority a < priority b"
  by (auto simp: compare_facts_priority cmp_def)

section \<open>The head of the ranking\<close>

text \<open>The head of the sorted list is the first value no other value outranks.\<close>

lemma sort_by_head:
  assumes "values \<noteq> []"
  shows "\<exists>xs ys. values = xs @ hd (sort_by compare_facts values) # ys \<and>
     (\<forall>v \<in> set xs. priority v < priority (hd (sort_by compare_facts values))) \<and>
     (\<forall>v \<in> set ys. priority v \<le> priority (hd (sort_by compare_facts values)))"
  using assms
proof (induction "values")
  case (Cons x rest)
  show ?case
  proof (cases "rest = []")
    case True
    then show ?thesis by (intro exI [of _ "[]"]) (simp add: sort_by_def)
  next
    case False
    define h where "h = hd (sort_by compare_facts rest)"
    obtain xs ys where split: "rest = xs @ h # ys" and before: "\<forall>v \<in> set xs. priority v < priority h"
      and after: "\<forall>v \<in> set ys. priority v \<le> priority h"
      using Cons.IH [OF False] unfolding h_def by blast
    obtain tl' where srt: "sort_by compare_facts rest = h # tl'"
      using False unfolding h_def by (metis list.exhaust_sel sort_by_Nil_iff)
    show ?thesis
    proof (cases "priority x < priority h")
      case True
      then have "hd (sort_by compare_facts (x # rest)) = h" by (simp add: sort_by_Cons srt)
      then show ?thesis
        using True split before after by (intro exI [of _ "x # xs"] exI [of _ ys]) auto
    next
      case ge: False
      then have head: "hd (sort_by compare_facts (x # rest)) = x" by (simp add: sort_by_Cons srt)
      have "\<forall>v \<in> set rest. priority v \<le> priority x"
        using split before after ge by (auto intro: order.trans)
      then show ?thesis unfolding head by (intro exI [of _ "[]"] exI [of _ rest]) simp
    qed
  qed
qed simp

lemma sort_by_head_max:
  assumes "values \<noteq> []"
  shows "hd (sort_by compare_facts values) \<in> set values"
    and "v \<in> set values \<Longrightarrow> priority v \<le> priority (hd (sort_by compare_facts values))"
proof -
  obtain xs ys where s: "values = xs @ hd (sort_by compare_facts values) # ys"
    "\<forall>v \<in> set xs. priority v < priority (hd (sort_by compare_facts values))"
    "\<forall>v \<in> set ys. priority v \<le> priority (hd (sort_by compare_facts values))"
    using sort_by_head [OF assms] by blast
  show "hd (sort_by compare_facts values) \<in> set values" by (subst s(1)) simp
  assume "v \<in> set values"
  then have "v \<in> set (xs @ hd (sort_by compare_facts values) # ys)" using s(1) by simp
  then show "priority v \<le> priority (hd (sort_by compare_facts values))"
    using s(2,3) by auto
qed

section \<open>Agreement and mismatch as set properties\<close>

definition differ :: "(fact_value \<Rightarrow> 'a) \<Rightarrow> fact_value list \<Rightarrow> bool" where
  "differ f values \<longleftrightarrow> (\<exists>a \<in> set values. \<exists>b \<in> set values. f a \<noteq> f b)"

lemma windows2_same:
  "list_all (\<lambda>(a, b). f a = f b) (windows2 xs) \<Longrightarrow> x \<in> set xs \<Longrightarrow> f x = f (hd xs)"
  by (induction xs rule: windows2.induct) auto

lemma windows2_in_set: "(a, b) \<in> set (windows2 xs) \<Longrightarrow> a \<in> set xs \<and> b \<in> set xs"
  by (induction xs rule: windows2.induct) auto

lemma windows2_differ: "list_all (\<lambda>(a, b). f a = f b) (windows2 xs) \<longleftrightarrow> \<not> differ f xs"
proof
  show "list_all (\<lambda>(a, b). f a = f b) (windows2 xs) \<Longrightarrow> \<not> differ f xs"
    unfolding differ_def using windows2_same [of f xs] by metis
qed (auto simp: list_all_iff differ_def dest: windows2_in_set)

lemma all_agree_differ: "all_agree values \<longleftrightarrow> \<not> differ fv_value values"
  by (simp add: all_agree_def windows2_differ)

lemma windows2_ex_differ: "list_ex (\<lambda>(a, b). f a \<noteq> f b) (windows2 xs) \<longleftrightarrow> differ f xs"
  using windows2_differ [of f xs] by (auto simp: list_all_iff list_ex_iff)

lemma mismatch_differ: "values \<noteq> [] \<Longrightarrow> mismatch f values \<longleftrightarrow> differ f values"
  by (auto simp: mismatch_def differ_def list_all_iff) (metis list.set_sel(1))+

lemma differ_perm: "mset xs = mset ys \<Longrightarrow> differ f xs = differ f ys"
  unfolding differ_def by (metis mset_eq_setD)

lemma differ_sort_by [simp]: "differ f (sort_by c xs) = differ f xs"
  by (rule differ_perm) simp

lemma differ_singleton [simp]: "\<not> differ f [x]" "\<not> differ f []"
  by (simp_all add: differ_def)

lemma resolve_cases:
  "resolve field values =
     (if differ fv_value values then contested field values
      else if values = [] then resolve field [] else unopposed field values (hd values))"
  by (cases "values" rule: remdups_adj.cases) (auto simp: resolve_def all_agree_differ split: list.splits)

section \<open>Properties\<close>

text \<open>
  C17 (functional).  When two values of a field disagree, the conflict is reported, every value
  is retained, and the winner is the first value of highest priority, where priority is
  compared by authority, then user confirmation, then verification, then business scope, then
  recency, then kind of source.
\<close>

theorem resolve_winner:
  assumes "a \<in> set values" and "b \<in> set values" and "fv_value a \<noteq> fv_value b"
  shows "\<exists>before v after. values = before @ v # after \<and>
     (\<forall>u \<in> set before. priority u < priority v) \<and> (\<forall>u \<in> set after. priority u \<le> priority v) \<and>
     rf_winning_value (resolve field values) = fv_value v \<and>
     rf_winning_source (resolve field values) = fv_source v \<and>
     rf_winning_authority (resolve field values) = fv_authority v \<and>
     rf_conflict_detected (resolve field values) \<and> rf_all_values (resolve field values) = values"
proof -
  have "differ fv_value values" and ne: "values \<noteq> []" using assms by (auto simp: differ_def)
  then show ?thesis
    using sort_by_head [OF ne] by (force simp: resolve_cases contested_def Let_def)
qed

text \<open>
  The verdict on disagreeing values of pairwise different priority does not
  depend on the order in which they arrive: winner, reason, flags and severity are the same, and
  only the record of the contributing values keeps the order of arrival.
\<close>

theorem resolve_order_independent:
  assumes "mset values' = mset values" and "inj_on priority (set values)"
    and "\<not> all_agree values"
  shows "resolve field values' = (resolve field values)\<lparr>rf_all_values := values'\<rparr>"
proof -
  have d: "differ fv_value values" using assms(3) by (simp add: all_agree_differ)
  then have ne: "values \<noteq> []" "values' \<noteq> []" using assms(1) by auto
  have same: "set values' = set values" using assms(1) by (rule mset_eq_setD)
  have head: "hd (sort_by compare_facts values') = hd (sort_by compare_facts values)"
    using sort_by_head_max [OF ne(1)] sort_by_head_max [OF ne(2)] same assms(2)
    by (metis inj_onD order.antisym)
  show ?thesis
    using d ne
    by (simp add: resolve_cases contested_def Let_def head mismatch_differ flags_of_def
        windows2_ex_differ differ_perm [OF assms(1)])
qed

definition demo_fact :: "json \<Rightarrow> authority_level \<Rightarrow> string \<Rightarrow> time \<Rightarrow> fact_value" where
  "demo_fact v auth src t = \<lparr>fv_field = ''role'', fv_value = v, fv_authority = auth, fv_source = src,
     fv_scope = Team, fv_timestamp = t, fv_verified = False, fv_user_confirmed = False\<rparr>"

definition demo_facts :: "fact_value list" where
  "demo_facts = [demo_fact (JString ''operator'') L3Inferred ''agent_inferred'' 9,
     demo_fact (JString ''manager'') L0SourceOfTruth ''iam'' 1]"

theorem resolve_winner_witness:
  "rf_winning_source (resolve ''role'' demo_facts) = ''iam'' \<and>
   (\<exists>before v after. demo_facts = before @ v # after \<and>
     (\<forall>u \<in> set before. priority u < priority v) \<and> (\<forall>u \<in> set after. priority u \<le> priority v) \<and>
     rf_winning_value (resolve ''role'' demo_facts) = fv_value v \<and>
     rf_winning_source (resolve ''role'' demo_facts) = fv_source v \<and>
     rf_winning_authority (resolve ''role'' demo_facts) = fv_authority v \<and>
     rf_conflict_detected (resolve ''role'' demo_facts) \<and>
     rf_all_values (resolve ''role'' demo_facts) = demo_facts)"
  by (rule conjI, code_simp,
      rule resolve_winner [of "demo_facts ! 0" demo_facts "demo_facts ! 1"])
    (simp_all add: demo_facts_def demo_fact_def)

theorem resolve_order_independent_witness:
  "resolve ''role'' (rev demo_facts) = (resolve ''role'' demo_facts)\<lparr>rf_all_values := rev demo_facts\<rparr>"
  by (rule resolve_order_independent)
    (simp_all add: demo_facts_def demo_fact_def priority_def all_agree_def)

text \<open>
  The verdict's severity: no conflict when the values agree, medium when
  authorities differ, high when all values come from one authority of level 0 or 1, low
  otherwise; the flag asking for human review is raised exactly at high severity.
\<close>

theorem resolve_severity:
  "rf_conflict_detected (resolve field values) = differ fv_value values \<and>
   rf_severity (resolve field values) =
     (if \<not> differ fv_value values then SevNone
      else if differ fv_authority values then SevMedium
      else if fv_authority (hd values) \<in> {L0SourceOfTruth, L1Authoritative} then SevHigh
      else SevLow) \<and>
   (conflict_flag field ''needs_review'' \<in> set (rf_conflict_flags (resolve field values)) \<longleftrightarrow>
     rf_severity (resolve field values) = SevHigh)"
proof (cases "differ fv_value values")
  case True
  then have ne: "values \<noteq> []" by auto
  have auth: "\<not> differ fv_authority values \<Longrightarrow>
      fv_authority (hd (sort_by compare_facts values)) = fv_authority (hd values)"
    using sort_by_head_max(1) [OF ne] ne unfolding differ_def by (metis list.set_sel(1))
  show ?thesis
    using True ne auth
    by (auto simp: resolve_cases contested_def Let_def severity_of_def mismatch_differ flags_of_def
        conflict_flag_def split: authority_level.splits)
next
  case False
  then show ?thesis
    by (cases "values = []") (simp_all add: resolve_cases [of field "values"] unopposed_def, simp add: resolve_def)
qed

text \<open>
  The flag \<open>recency_tiebreaker\<close> does not mean that recency decided: of two values
  of one authority and scope, the older one wins when only it is confirmed by the user, and the
  verdict still carries that flag.
\<close>

theorem recency_flag_without_recency:
  assumes "fv_value a \<noteq> fv_value b" and "fv_authority a = fv_authority b" and "fv_scope a = fv_scope b"
    and "fv_user_confirmed a" and "\<not> fv_user_confirmed b" and "fv_timestamp a < fv_timestamp b"
  shows "conflict_flag field ''recency_tiebreaker'' \<in> set (rf_conflict_flags (resolve field [a, b])) \<and>
     rf_winning_value (resolve field [a, b]) = fv_value a"
proof
  have d: "differ fv_value [a, b]" using assms(1) by (auto simp: differ_def)
  have p: "\<not> priority a < priority b" using assms(2,4,5) by (simp add: priority_def)
  show "conflict_flag field ''recency_tiebreaker'' \<in> set (rf_conflict_flags (resolve field [a, b]))"
    using d assms(2,3,6)
    by (auto simp: resolve_cases contested_def Let_def flags_of_def mismatch_differ windows2_ex_differ)
      (auto simp: differ_def)
  show "rf_winning_value (resolve field [a, b]) = fv_value a"
    using d p by (simp add: resolve_cases contested_def Let_def sort_by_def)
qed

theorem recency_flag_without_recency_witness:
  "conflict_flag ''role'' ''recency_tiebreaker'' \<in> set (rf_conflict_flags (resolve ''role''
     [(demo_fact (JString ''x'') L2Verified ''a'' 1)\<lparr>fv_user_confirmed := True\<rparr>,
      demo_fact (JString ''y'') L2Verified ''b'' 2])) \<and>
   rf_winning_value (resolve ''role''
     [(demo_fact (JString ''x'') L2Verified ''a'' 1)\<lparr>fv_user_confirmed := True\<rparr>,
      demo_fact (JString ''y'') L2Verified ''b'' 2]) =
   fv_value ((demo_fact (JString ''x'') L2Verified ''a'' 1)\<lparr>fv_user_confirmed := True\<rparr>)"
  by (rule recency_flag_without_recency) (simp_all add: demo_fact_def)

text \<open>A batch is resolved field by field in key order, whatever order the map is iterated in.\<close>

lemma resolve_rf_field [simp]: "rf_field (resolve field values) = field"
  by (cases "values") (simp_all add: resolve_def contested_def unopposed_def Let_def)

lemma resolve_batch_sorted:
  assumes "distinct (map fst facts)"
  shows "map rf_field (resolve_batch facts) = sorted_list_of_set (fst ` set facts)"
  using sorted_list_of_set_sort_remdups [of "map fst facts"] assms
  by (simp add: resolve_batch_def o_def distinct_remdups_id)

lemma resolve_batch_order_independent:
  assumes "distinct (map fst facts)" and "mset facts' = mset facts"
  shows "resolve_batch facts' = resolve_batch facts"
proof -
  have "sort (map fst facts') = sort (map fst facts)"
    using assms(2) by (metis mset_map properties_for_sort sorted_sort mset_sort)
  moreover have "map_of facts' = map_of facts"
    using assms by (metis distinct_map map_of_inject_set mset_eq_imp_distinct_iff mset_eq_setD mset_map)
  ultimately show ?thesis by (simp add: resolve_batch_def)
qed

end
