(* ===== verification/TextOps.thy ===== *)
theory TextOps
  imports Prelude
begin

text \<open>
  Text operations of the standard library that several components use: white space,
  \<open>str::trim\<close>, \<open>str::split\<close> and \<open>str::lines\<close> on UTF-8 text.
\<close>

text \<open>
  \<open>str::trim\<close>: the characters with the Unicode property White Space, as UTF-8.
\<close>

definition whitespace :: "string list" where
  "whitespace =
     map (\<lambda>c. [c]) [CHR 0x09, CHR 0x0A, CHR 0x0B, CHR 0x0C, CHR 0x0D, CHR 0x20] @
     [[CHR 0xC2, CHR 0x85], [CHR 0xC2, CHR 0xA0], [CHR 0xE1, CHR 0x9A, CHR 0x80]] @
     map (\<lambda>c. [CHR 0xE2, CHR 0x80, c])
       [CHR 0x80, CHR 0x81, CHR 0x82, CHR 0x83, CHR 0x84, CHR 0x85, CHR 0x86, CHR 0x87, CHR 0x88,
        CHR 0x89, CHR 0x8A, CHR 0xA8, CHR 0xA9, CHR 0xAF] @
     [[CHR 0xE2, CHR 0x81, CHR 0x9F], [CHR 0xE3, CHR 0x80, CHR 0x80]]"

lemma whitespace_nonempty: "ws \<in> set whitespace \<Longrightarrow> ws \<noteq> []"
  by (auto simp: whitespace_def)

function strip_prefixes :: "string list \<Rightarrow> string \<Rightarrow> string" where
  "strip_prefixes wss s =
     (case find (\<lambda>ws. ws \<noteq> [] \<and> prefix ws s) wss of
        Some ws \<Rightarrow> strip_prefixes wss (drop (length ws) s)
      | None \<Rightarrow> s)"
  by pat_completeness auto

termination strip_prefixes
  by (relation "measure (\<lambda>(wss, s). length s)")
    (auto dest!: find_Some_in_set simp: prefix_def)

declare strip_prefixes.simps [simp del]

definition trim :: "string \<Rightarrow> string" where
  "trim s = rev (strip_prefixes (map rev whitespace) (rev (strip_prefixes whitespace s)))"

text \<open>\<open>str::split\<close> at a character: always at least one part.\<close>

fun split_on :: "char \<Rightarrow> string \<Rightarrow> string list" where
  "split_on c [] = [[]]"
| "split_on c (x # xs) =
     (if x = c then [] # split_on c xs
      else case split_on c xs of [] \<Rightarrow> [[x]] | p # ps \<Rightarrow> (x # p) # ps)"

text \<open>\<open>str::lines\<close>.\<close>

definition text_lines :: "string \<Rightarrow> string list" where
  "text_lines s =
     (let parts = split_on CHR 0x0A s;
          kept = (if last parts = [] then butlast parts else parts)
      in map (\<lambda>l. if l \<noteq> [] \<and> last l = CHR 0x0D then butlast l else l) kept)"

end
