(* ===== verification/GraphSearch.thy ===== *)
theory GraphSearch
  imports Prelude
begin

text \<open>
  The two breadth-first searches of \<open>entity.rs\<close> over an in-memory adjacency list:
  \<open>bfs_traverse\<close> (level by level, bounded) and \<open>bfs_shortest_path\<close> (a queue with parent
  pointers).  Both are compared with the distance of the graph: the first returns exactly
  the nodes within the bound with their distances, the second always returns, and returns
  a path of minimal length exactly when there is one.
\<close>

section \<open>The searches\<close>

text \<open>A \<open>HashMap<Uuid, Vec<Uuid>>\<close>.\<close>

type_synonym adjacency = "(uuid \<times> uuid list) list"

text \<open>
  The body of the inner loop: \<open>visited.insert(n)\<close> returns whether \<open>n\<close> is new.
\<close>

fun visit_neighbors :: "nat \<Rightarrow> uuid list \<Rightarrow> uuid set \<times> uuid list \<times> (uuid \<times> nat) list \<Rightarrow>
    uuid set \<times> uuid list \<times> (uuid \<times> nat) list" where
  "visit_neighbors d [] st = st"
| "visit_neighbors d (n # ns) (visited, next_frontier, result) =
     (if n \<in> visited then visit_neighbors d ns (visited, next_frontier, result)
      else visit_neighbors d ns (insert n visited, next_frontier @ [n], result @ [(n, d + 1)]))"

fun scan_frontier :: "adjacency \<Rightarrow> nat \<Rightarrow> uuid list \<Rightarrow> uuid set \<times> uuid list \<times> (uuid \<times> nat) list \<Rightarrow>
    uuid set \<times> uuid list \<times> (uuid \<times> nat) list" where
  "scan_frontier adj d [] st = st"
| "scan_frontier adj d (e # es) st =
     scan_frontier adj d es
       (case map_of adj e of Some neighbors \<Rightarrow> visit_neighbors d neighbors st | None \<Rightarrow> st)"

text \<open>\<open>bfs_levels n d\<close>: the loop \<open>for depth in 0..max_depth\<close> with \<open>n\<close> iterations left at depth \<open>d\<close>.\<close>

fun bfs_levels :: "adjacency \<Rightarrow> nat \<Rightarrow> nat \<Rightarrow> uuid list \<Rightarrow> uuid set \<Rightarrow> (uuid \<times> nat) list \<Rightarrow> (uuid \<times> nat) list" where
  "bfs_levels adj 0 d frontier visited result = result"
| "bfs_levels adj (Suc n) d frontier visited result =
     (if frontier = [] then result
      else case scan_frontier adj d frontier (visited, [], result) of
        (visited', next_frontier, result') \<Rightarrow> bfs_levels adj n (d + 1) next_frontier visited' result')"

definition bfs_traverse :: "adjacency \<Rightarrow> uuid \<Rightarrow> nat \<Rightarrow> (uuid \<times> nat) list" where
  "bfs_traverse adj start max_depth = bfs_levels adj max_depth 0 [start] {start} [(start, 0)]"

text \<open>
  \<open>reconstruct_path\<close> follows parent pointers until there is none; on a cycle it would not
  return, which is the value \<open>None\<close>.
\<close>

partial_function (option) parent_chain :: "(uuid \<rightharpoonup> uuid) \<Rightarrow> uuid \<Rightarrow> uuid list \<Rightarrow> uuid list option" where
  "parent_chain parent node path =
     (case parent node of
        Some p \<Rightarrow> parent_chain parent p (path @ [p])
      | None \<Rightarrow> Some path)"

definition reconstruct_path :: "(uuid \<rightharpoonup> uuid) \<Rightarrow> uuid \<Rightarrow> uuid list option" where
  "reconstruct_path parent target = map_option rev (parent_chain parent target [target])"

text \<open>
  The loop over the neighbours of the node just popped: \<open>Inl parent\<close> when the target was
  met, otherwise the new state.
\<close>

type_synonym search_state = "uuid set \<times> (uuid \<rightharpoonup> uuid) \<times> uuid list"

fun expand :: "uuid \<Rightarrow> uuid \<Rightarrow> uuid list \<Rightarrow> search_state \<Rightarrow> (uuid \<rightharpoonup> uuid) + search_state" where
  "expand target current [] st = Inr st"
| "expand target current (n # ns) (visited, parent, queue) =
     (if n \<in> visited then expand target current ns (visited, parent, queue)
      else if n = target then Inl (parent(n \<mapsto> current))
      else expand target current ns (insert n visited, parent(n \<mapsto> current), queue @ [n]))"

definition adj_nodes :: "adjacency \<Rightarrow> uuid set" where
  "adj_nodes adj = (\<Union>(e, ns) \<in> set adj. set ns)"

definition neighbors_of :: "adjacency \<Rightarrow> uuid \<Rightarrow> uuid list" where
  "neighbors_of adj u = (case map_of adj u of Some ns \<Rightarrow> ns | None \<Rightarrow> [])"

lemma finite_adj_nodes [simp]: "finite (adj_nodes adj)"
  by (auto simp: adj_nodes_def)

lemma neighbors_adj_nodes: "set (neighbors_of adj u) \<subseteq> adj_nodes adj"
proof (cases "map_of adj u")
  case (Some ns)
  then show ?thesis using map_of_SomeD [OF Some] by (force simp: neighbors_of_def adj_nodes_def)
qed (simp add: neighbors_of_def)

lemma expand_measure:
  assumes "expand target current ns (visited, parent, queue) = Inr (visited', parent', queue')"
    and "set ns \<subseteq> adj_nodes adj"
  shows "card (adj_nodes adj - visited') + length queue' = card (adj_nodes adj - visited) + length queue"
  using assms
proof (induction ns arbitrary: visited parent queue)
  case (Cons n ns)
  show ?case
  proof (cases "n \<in> visited")
    case False
    moreover have "adj_nodes adj - insert n visited = adj_nodes adj - visited - {n}" by blast
    ultimately have "card (adj_nodes adj - visited) = Suc (card (adj_nodes adj - insert n visited))"
      using Cons.prems(2) card_Suc_Diff1 [of "adj_nodes adj - visited" n] by simp
    moreover have "expand target current ns (insert n visited, parent(n \<mapsto> current), queue @ [n]) =
        Inr (visited', parent', queue')"
      using Cons.prems(1) False by (simp split: if_splits)
    ultimately show ?thesis using Cons.IH Cons.prems(2) by fastforce
  qed (use Cons in simp)
qed simp

function path_loop :: "adjacency \<Rightarrow> uuid \<Rightarrow> search_state \<Rightarrow> uuid list option option" where
  "path_loop adj target (visited, parent, []) = Some None"
| "path_loop adj target (visited, parent, current # queue) =
     (case expand target current (neighbors_of adj current) (visited, parent, queue) of
        Inl parent' \<Rightarrow> map_option Some (reconstruct_path parent' target)
      | Inr st \<Rightarrow> path_loop adj target st)"
  by pat_completeness auto

termination path_loop
proof (relation "measure (\<lambda>(adj, target, visited, parent, queue). card (adj_nodes adj - visited) + length queue)")
  fix adj target visited parent current queue st
  assume "expand target current (neighbors_of adj current) (visited, parent, queue) = Inr st"
  then show "((adj, target, st), adj, target, visited, parent, current # queue) \<in>
      measure (\<lambda>(adj, target, visited, parent, queue). card (adj_nodes adj - visited) + length queue)"
    using expand_measure [of target current "neighbors_of adj current" visited parent queue _ _ _ adj]
      neighbors_adj_nodes [of adj current] by (cases st) fastforce
qed simp

definition bfs_shortest_path :: "adjacency \<Rightarrow> uuid \<Rightarrow> uuid \<Rightarrow> uuid list option option" where
  "bfs_shortest_path adj from target =
     (if from = target then Some (Some [from])
      else path_loop adj target ({from}, Map.empty, [from]))"

section \<open>Distance\<close>

definition edge :: "adjacency \<Rightarrow> uuid \<Rightarrow> uuid \<Rightarrow> bool" where
  "edge adj u v \<longleftrightarrow> v \<in> set (neighbors_of adj u)"

text \<open>\<open>hops E s d v\<close>: there is a walk of \<open>d\<close> steps from \<open>s\<close> to \<open>v\<close>.\<close>

inductive hops :: "(uuid \<Rightarrow> uuid \<Rightarrow> bool) \<Rightarrow> uuid \<Rightarrow> nat \<Rightarrow> uuid \<Rightarrow> bool" for E s where
  hops_start: "hops E s 0 s"
| hops_step: "hops E s d u \<Longrightarrow> E u v \<Longrightarrow> hops E s (Suc d) v"

inductive_simps hops_0 [simp]: "hops E s 0 v"
inductive_simps hops_Suc: "hops E s (Suc d) v"

definition at_distance :: "(uuid \<Rightarrow> uuid \<Rightarrow> bool) \<Rightarrow> uuid \<Rightarrow> nat \<Rightarrow> uuid \<Rightarrow> bool" where
  "at_distance E s d v \<longleftrightarrow> hops E s d v \<and> (\<forall>d'. hops E s d' v \<longrightarrow> d \<le> d')"

lemma at_distance_unique: "at_distance E s d v \<Longrightarrow> at_distance E s d' v \<Longrightarrow> d = d'"
  by (simp add: at_distance_def order.antisym)

lemma at_distance_0 [simp]: "at_distance E s 0 v \<longleftrightarrow> v = s"
  by (auto simp: at_distance_def)

lemma hops_at_distance: "hops E s d v \<Longrightarrow> \<exists>d' \<le> d. at_distance E s d' v"
  unfolding at_distance_def
  using LeastI [of "\<lambda>d. hops E s d v" d] Least_le [of "\<lambda>d. hops E s d v"] by blast

lemma at_distance_Suc:
  "at_distance E s (Suc d) v \<longleftrightarrow>
     (\<exists>u. at_distance E s d u \<and> E u v) \<and> (\<forall>d' \<le> d. \<not> at_distance E s d' v)"
proof
  assume v: "at_distance E s (Suc d) v"
  then obtain u where u: "hops E s d u" "E u v" by (auto simp: at_distance_def hops_Suc)
  obtain d' where d': "d' \<le> d" "at_distance E s d' u" using hops_at_distance [OF u(1)] by blast
  have "d' = d"
    using v d' u(2) hops_step [of E s d' u v] by (fastforce simp: at_distance_def)
  then show "(\<exists>u. at_distance E s d u \<and> E u v) \<and> (\<forall>d' \<le> d. \<not> at_distance E s d' v)"
    using d'(2) u(2) v by (auto dest: at_distance_unique)
next
  assume *: "(\<exists>u. at_distance E s d u \<and> E u v) \<and> (\<forall>d' \<le> d. \<not> at_distance E s d' v)"
  then have h: "hops E s (Suc d) v" by (auto simp: at_distance_def intro: hops_step)
  then obtain d' where "d' \<le> Suc d" "at_distance E s d' v" using hops_at_distance by blast
  with * show "at_distance E s (Suc d) v" by (metis le_Suc_eq)
qed

lemma at_distance_below: "at_distance E s d v \<Longrightarrow> k \<le> d \<Longrightarrow> \<exists>u. at_distance E s k u"
proof (induction d arbitrary: v)
  case (Suc d)
  then show ?case by (metis at_distance_Suc le_Suc_eq)
qed auto

section \<open>The level search\<close>

definition neighborhood :: "adjacency \<Rightarrow> uuid list \<Rightarrow> uuid set" where
  "neighborhood adj us = {v. \<exists>u \<in> set us. edge adj u v}"

text \<open>A pass adds new nodes, each once, to the frontier and to the result.\<close>

definition pass_adds :: "nat \<Rightarrow> uuid set \<Rightarrow> uuid set \<times> uuid list \<times> (uuid \<times> nat) list \<Rightarrow>
    uuid set \<times> uuid list \<times> (uuid \<times> nat) list \<Rightarrow> bool" where
  "pass_adds d N st st' \<longleftrightarrow> (case st of (visited, nf, result) \<Rightarrow>
     (\<exists>new. distinct new \<and> set new = N - visited \<and>
        st' = (visited \<union> N, nf @ new, result @ map (\<lambda>n. (n, d + 1)) new)))"

lemma pass_adds_none: "pass_adds d {} st st"
  by (auto simp: pass_adds_def split: prod.splits)

lemma pass_adds_trans:
  assumes "pass_adds d M st st1" and "pass_adds d N st1 st2"
  shows "pass_adds d (M \<union> N) st st2"
proof -
  obtain visited nf result where st: "st = (visited, nf, result)" by (cases st)
  obtain new where new: "distinct new" "set new = M - visited"
    "st1 = (visited \<union> M, nf @ new, result @ map (\<lambda>n. (n, d + 1)) new)"
    using assms(1) unfolding pass_adds_def st by auto
  obtain new' where new': "distinct new'" "set new' = N - (visited \<union> M)"
    "st2 = (visited \<union> M \<union> N, (nf @ new) @ new', (result @ map (\<lambda>n. (n, d + 1)) new) @ map (\<lambda>n. (n, d + 1)) new')"
    using assms(2) unfolding pass_adds_def new(3) by auto
  show ?thesis
    unfolding pass_adds_def st using new new'
    by (auto intro!: exI [of _ "new @ new'"])
qed

lemma visit_neighbors_adds: "pass_adds d (set ns) st (visit_neighbors d ns st)"
proof (induction d ns st rule: visit_neighbors.induct)
  case (2 d n ns visited nf result)
  show ?case
  proof (cases "n \<in> visited")
    case True
    then have "visited \<union> insert n (set ns) = visited \<union> set ns" by auto
    with 2 True show ?thesis by (auto simp: pass_adds_def)
  next
    case False
    then have "pass_adds d {n} (visited, nf, result) (insert n visited, nf @ [n], result @ [(n, d + 1)])"
      by (auto simp: pass_adds_def intro!: exI [of _ "[n]"])
    then show ?thesis using 2 False pass_adds_trans by fastforce
  qed
qed (simp add: pass_adds_none)

lemma scan_frontier_adds: "pass_adds d (neighborhood adj us) st (scan_frontier adj d us st)"
proof (induction us arbitrary: st)
  case Nil
  show ?case by (simp add: neighborhood_def pass_adds_none)
next
  case (Cons u us)
  have "neighborhood adj (u # us) = set (neighbors_of adj u) \<union> neighborhood adj us"
    by (auto simp: neighborhood_def edge_def)
  moreover have "pass_adds d (set (neighbors_of adj u)) st
      (case map_of adj u of Some neighbors \<Rightarrow> visit_neighbors d neighbors st | None \<Rightarrow> st)"
    by (simp add: neighbors_of_def visit_neighbors_adds pass_adds_none split: option.splits)
  ultimately show ?case using Cons.IH pass_adds_trans by (metis scan_frontier.simps(2))
qed

text \<open>The state before the iteration at depth \<open>d\<close>.\<close>

definition level_inv :: "adjacency \<Rightarrow> uuid \<Rightarrow> nat \<Rightarrow> uuid list \<Rightarrow> uuid set \<Rightarrow> (uuid \<times> nat) list \<Rightarrow> bool" where
  "level_inv adj s d frontier visited result \<longleftrightarrow>
     set frontier = {v. at_distance (edge adj) s d v} \<and>
     visited = {v. \<exists>k \<le> d. at_distance (edge adj) s k v} \<and>
     set result = {(v, k). k \<le> d \<and> at_distance (edge adj) s k v} \<and>
     distinct (map fst result) \<and> sorted (map snd result)"

lemma level_inv_step:
  assumes "level_inv adj s d frontier visited result"
    and "scan_frontier adj d frontier (visited, [], result) = (visited', nf, result')"
  shows "level_inv adj s (Suc d) nf visited' result'"
proof -
  let ?E = "edge adj"
  obtain new where new: "distinct new" "set new = neighborhood adj frontier - visited"
    "visited' = visited \<union> neighborhood adj frontier" "nf = new"
    "result' = result @ map (\<lambda>n. (n, d + 1)) new"
    using scan_frontier_adds [of d adj frontier "(visited, [], result)"] assms(2)
    by (auto simp: pass_adds_def)
  have inv: "set frontier = {v. at_distance ?E s d v}" "visited = {v. \<exists>k \<le> d. at_distance ?E s k v}"
    "set result = {(v, k). k \<le> d \<and> at_distance ?E s k v}" "distinct (map fst result)" "sorted (map snd result)"
    using assms(1) by (auto simp: level_inv_def)
  have layer: "set new = {v. at_distance ?E s (Suc d) v}"
    using new(2) inv(1,2) by (auto simp: neighborhood_def at_distance_Suc)
  have ex: "(\<exists>k \<le> Suc d. at_distance ?E s k v) \<longleftrightarrow> v \<in> visited \<or> v \<in> set new" for v
    using layer inv(2) by (auto simp: le_Suc_eq)
  have vis: "visited' = visited \<union> set new" using new(2,3) by auto
  have fsts: "fst ` set result = visited" unfolding inv(2,3) image_def by auto
  have depths: "k \<in> snd ` set result \<Longrightarrow> k \<le> Suc d" for k using inv(3) by auto
  show ?thesis
    unfolding level_inv_def
  proof (intro conjI)
    show "set nf = {v. at_distance ?E s (Suc d) v}" using layer new(4) by simp
    show "visited' = {v. \<exists>k \<le> Suc d. at_distance ?E s k v}" by (simp only: set_eq_iff mem_Collect_eq ex vis Un_iff) simp
    show "set result' = {(v, k). k \<le> Suc d \<and> at_distance ?E s k v}"
      using new(5) inv(3) layer by (auto simp: le_Suc_eq)
    show "distinct (map fst result')"
      using new(1,2,5) inv(4) fsts by (auto simp: o_def)
    show "sorted (map snd result')"
      using new(5) inv(5) depths by (auto simp: sorted_append o_def map_replicate_const)
  qed
qed

lemma bfs_levels_inv:
  assumes "level_inv adj s d frontier visited result"
  shows "let r = bfs_levels adj n d frontier visited result in
     set r = {(v, k). k \<le> d + n \<and> at_distance (edge adj) s k v} \<and>
     distinct (map fst r) \<and> sorted (map snd r)"
  using assms
proof (induction n arbitrary: d frontier visited result)
  case 0
  then show ?case by (simp add: level_inv_def)
next
  case (Suc n)
  show ?case
  proof (cases "frontier = []")
    case True
    then have "\<not> at_distance (edge adj) s d v" for v using Suc.prems by (auto simp: level_inv_def)
    then have "at_distance (edge adj) s k v \<Longrightarrow> k \<le> d" for k v
      by (metis at_distance_below nle_le)
    then have "k \<le> d \<and> at_distance (edge adj) s k v \<longleftrightarrow> k \<le> d + Suc n \<and> at_distance (edge adj) s k v" for k v
      by (meson trans_le_add1)
    then show ?thesis using True Suc.prems by (simp add: level_inv_def)
  next
    case False
    obtain visited' nf result' where
      st: "scan_frontier adj d frontier (visited, [], result) = (visited', nf, result')"
      by (cases "scan_frontier adj d frontier (visited, [], result)")
    show ?thesis using Suc.IH [OF level_inv_step [OF Suc.prems st]] False st by simp
  qed
qed

lemma bfs_traverse_spec:
  "set (bfs_traverse adj s m) = {(v, d). d \<le> m \<and> at_distance (edge adj) s d v}"
  "distinct (map fst (bfs_traverse adj s m))" "sorted (map snd (bfs_traverse adj s m))"
proof -
  have "level_inv adj s 0 [s] {s} [(s, 0)]" by (auto simp: level_inv_def)
  from bfs_levels_inv [OF this, of m] show
    "set (bfs_traverse adj s m) = {(v, d). d \<le> m \<and> at_distance (edge adj) s d v}"
    "distinct (map fst (bfs_traverse adj s m))" "sorted (map snd (bfs_traverse adj s m))"
    by (simp_all add: bfs_traverse_def Let_def)
qed

section \<open>The queue search\<close>

text \<open>
  \<open>tree\<close>: every visited node but the start has a visited parent one step nearer.
  \<open>frontier_inv\<close>: the queue holds nodes at distance \<open>k\<close> followed by nodes at distance
  \<open>k + 1\<close>, everything up to distance \<open>k\<close> is visited, and the neighbours of a visited node
  that has left the queue are visited, except those of \<open>current\<close> still \<open>pending\<close>.
\<close>

definition tree :: "(uuid \<Rightarrow> uuid \<Rightarrow> bool) \<Rightarrow> uuid \<Rightarrow> uuid set \<Rightarrow> (uuid \<rightharpoonup> uuid) \<Rightarrow> bool" where
  "tree E s visited parent \<longleftrightarrow> s \<in> visited \<and> parent s = None \<and>
     (\<forall>v \<in> visited - {s}. \<exists>u d. parent v = Some u \<and> u \<in> visited \<and> E u v \<and>
        at_distance E s d u \<and> at_distance E s (Suc d) v)"

definition frontier_inv :: "(uuid \<Rightarrow> uuid \<Rightarrow> bool) \<Rightarrow> uuid \<Rightarrow> nat \<Rightarrow> uuid set \<Rightarrow> uuid list \<Rightarrow> uuid list \<Rightarrow>
    (uuid \<Rightarrow> uuid set) \<Rightarrow> bool" where
  "frontier_inv E s k visited q1 q2 pending \<longleftrightarrow>
     set q1 \<union> set q2 \<subseteq> visited \<and>
     (\<forall>v \<in> set q1. at_distance E s k v) \<and> (\<forall>v \<in> set q2. at_distance E s (Suc k) v) \<and>
     (\<forall>d v. d \<le> k \<longrightarrow> at_distance E s d v \<longrightarrow> v \<in> visited) \<and>
     (\<forall>v w. v \<in> visited \<longrightarrow> v \<notin> set q1 \<longrightarrow> v \<notin> set q2 \<longrightarrow> E v w \<longrightarrow> w \<in> visited \<union> pending v)"

lemma tree_insert:
  assumes "tree E s visited parent" and "n \<notin> visited" and "current \<in> visited" and "E current n"
    and "at_distance E s k current" and "at_distance E s (Suc k) n"
  shows "tree E s (insert n visited) (parent(n \<mapsto> current))"
  using assms unfolding tree_def by (auto; fastforce)

lemma new_node_distance:
  assumes "frontier_inv E s k visited q1 q2 pending" and "at_distance E s k current"
    and "E current n" and "n \<notin> visited"
  shows "at_distance E s (Suc k) n"
  using assms by (auto simp: frontier_inv_def at_distance_Suc)

lemma frontier_inv_push:
  assumes "frontier_inv E s k visited q1 q2 ((\<lambda>_. {})(current := set (n # ns)))"
    and "at_distance E s (Suc k) n" and "n \<notin> visited"
  shows "frontier_inv E s k (insert n visited) q1 (q2 @ [n]) ((\<lambda>_. {})(current := set ns))"
  unfolding frontier_inv_def
proof (intro conjI allI impI)
  fix v w
  assume "v \<in> insert n visited" "v \<notin> set q1" "v \<notin> set (q2 @ [n])" "E v w"
  then have "w \<in> visited \<union> ((\<lambda>_. {})(current := set (n # ns))) v"
    using assms(1) unfolding frontier_inv_def by simp
  then show "w \<in> insert n visited \<union> ((\<lambda>_. {})(current := set ns)) v"
    by (auto split: if_splits)
qed (use assms in \<open>auto simp: frontier_inv_def\<close>)

lemma frontier_inv_skip:
  assumes "frontier_inv E s k visited q1 q2 ((\<lambda>_. {})(current := set (n # ns)))" and "n \<in> visited"
  shows "frontier_inv E s k visited q1 q2 ((\<lambda>_. {})(current := set ns))"
  using assms unfolding frontier_inv_def by (auto split: if_splits)

text \<open>Expanding one node keeps the invariants or finds the target one level further.\<close>

lemma expand_inv:
  assumes "tree E s visited parent" and "frontier_inv E s k visited q1 q2 ((\<lambda>_. {})(current := set ns))"
    and "current \<in> visited" and "at_distance E s k current" and "\<forall>n \<in> set ns. E current n"
    and "target \<notin> visited"
  shows "case expand target current ns (visited, parent, q1 @ q2) of
     Inl parent' \<Rightarrow> at_distance E s (Suc k) target \<and> (\<exists>vis. target \<in> vis \<and> tree E s vis parent')
   | Inr (visited', parent', queue') \<Rightarrow> target \<notin> visited' \<and> tree E s visited' parent' \<and>
       (\<exists>q2'. queue' = q1 @ q2' \<and> frontier_inv E s k visited' q1 q2' (\<lambda>_. {}))"
  using assms
proof (induction ns arbitrary: visited parent q2)
  case Nil
  moreover have "(\<lambda>_. {})(current := {}) = (\<lambda>_. {} :: uuid set)" by auto
  ultimately show ?case by auto
next
  case (Cons n ns)
  show ?case
  proof (cases "n \<in> visited")
    case True
    then show ?thesis
      using Cons.IH [OF Cons.prems(1) frontier_inv_skip [OF Cons.prems(2) True]] Cons.prems by simp
  next
    case False
    have d: "at_distance E s (Suc k) n"
      using new_node_distance [OF Cons.prems(2,4) _ False] Cons.prems(5) by simp
    have t: "tree E s (insert n visited) (parent(n \<mapsto> current))"
      using tree_insert [OF Cons.prems(1) False Cons.prems(3) _ Cons.prems(4) d] Cons.prems(5) by simp
    show ?thesis
    proof (cases "n = target")
      case True
      have "\<exists>vis. target \<in> vis \<and> tree E s vis (parent(n \<mapsto> current))"
        using t True by (intro exI [of _ "insert n visited"]) simp
      then show ?thesis using True False d by simp
    next
      case other: False
      have "expand target current (n # ns) (visited, parent, q1 @ q2) =
          expand target current ns (insert n visited, parent(n \<mapsto> current), q1 @ (q2 @ [n]))"
        using False other by simp
      then show ?thesis
        by (simp only:) (rule Cons.IH [OF t frontier_inv_push [OF Cons.prems(2) d False]];
          use Cons.prems(3-6) other in auto)
    qed
  qed
qed

lemma parent_chain_path:
  assumes "tree E s visited parent" and "v \<in> visited" and "at_distance E s d v"
  shows "\<exists>p. parent_chain parent v acc = Some (acc @ p) \<and> length p = d \<and>
     successively E (rev (v # p)) \<and> last (v # p) = s"
  using assms(2,3)
proof (induction d arbitrary: v acc)
  case 0
  then have "parent v = None" using assms(1) by (simp add: tree_def)
  with 0 show ?case by (subst parent_chain.simps) simp
next
  case (Suc d)
  have "v \<noteq> s" using Suc.prems(2) at_distance_unique [of E s 0 s "Suc d"] by auto
  then obtain u d' where u: "parent v = Some u" "u \<in> visited" "E u v"
    "at_distance E s d' u" "at_distance E s (Suc d') v"
    using assms(1) Suc.prems(1) unfolding tree_def by blast
  then have "d' = d" using Suc.prems(2) by (auto dest: at_distance_unique)
  then obtain p where p: "parent_chain parent u (acc @ [u]) = Some ((acc @ [u]) @ p)" "length p = d"
    "successively E (rev (u # p))" "last (u # p) = s"
    using Suc.IH [OF u(2), of "acc @ [u]"] u(4) by auto
  have "successively E (rev (v # u # p))"
    using p(3) u(3) by (simp add: successively_append_iff)
  then show ?case
    using u(1) p by (subst parent_chain.simps) (auto intro!: exI [of _ "u # p"])
qed

definition shortest_walk :: "(uuid \<Rightarrow> uuid \<Rightarrow> bool) \<Rightarrow> uuid \<Rightarrow> uuid \<Rightarrow> uuid list \<Rightarrow> bool" where
  "shortest_walk E s t p \<longleftrightarrow> p \<noteq> [] \<and> hd p = s \<and> last p = t \<and> successively E p \<and>
     at_distance E s (length p - 1) t"

lemma reconstruct_path_shortest:
  assumes "tree E s visited parent" and "t \<in> visited" and "at_distance E s d t"
  shows "\<exists>p. reconstruct_path parent t = Some p \<and> shortest_walk E s t p"
proof -
  obtain p where p: "parent_chain parent t [t] = Some ([t] @ p)" "length p = d"
    "successively E (rev (t # p))" "last (t # p) = s"
    using parent_chain_path [OF assms, of "[t]"] by blast
  then have "hd (rev (t # p)) = s" by (simp only: hd_rev)
  with p assms(3) show ?thesis by (simp add: reconstruct_path_def shortest_walk_def)
qed

lemma closed_reaches:
  assumes "s \<in> visited" and "\<And>v w. v \<in> visited \<Longrightarrow> E v w \<Longrightarrow> w \<in> visited" and "hops E s d v"
  shows "v \<in> visited"
  using assms(3) by (induction rule: hops.induct) (auto intro: assms)

lemma frontier_inv_advance:
  assumes "frontier_inv E s k visited [] q2 (\<lambda>_. {})"
  shows "frontier_inv E s (Suc k) visited q2 [] (\<lambda>_. {})"
  unfolding frontier_inv_def
proof (intro conjI allI impI)
  fix d v
  assume "d \<le> Suc k" and v: "at_distance E s d v"
  show "v \<in> visited"
  proof (cases "d = Suc k")
    case True
    then obtain u where u: "at_distance E s k u" "E u v" using v by (auto simp: at_distance_Suc)
    then have "u \<in> visited" "u \<notin> set q2"
      using assms by (auto simp: frontier_inv_def dest: at_distance_unique)
    then show ?thesis using assms u(2) by (auto simp: frontier_inv_def)
  qed (use assms v \<open>d \<le> Suc k\<close> in \<open>auto simp: frontier_inv_def le_Suc_eq\<close>)
qed (use assms in \<open>auto simp: frontier_inv_def\<close>)

lemma frontier_inv_pop:
  assumes "frontier_inv E s k visited (c # q1) q2 (\<lambda>_. {})"
  shows "frontier_inv E s k visited q1 q2 ((\<lambda>_. {})(c := {w. E c w}))"
  using assms unfolding frontier_inv_def by auto

lemma path_loop_correct:
  assumes "tree (edge adj) s visited parent" and "frontier_inv (edge adj) s k visited q1 q2 (\<lambda>_. {})"
    and "target \<notin> visited"
  shows "\<exists>r. path_loop adj target (visited, parent, q1 @ q2) = Some r \<and>
     (case r of None \<Rightarrow> \<forall>d. \<not> hops (edge adj) s d target
              | Some p \<Rightarrow> shortest_walk (edge adj) s target p)"
  using assms
proof (induction "card (adj_nodes adj - visited) + length (q1 @ q2)"
    arbitrary: visited parent k q1 q2 rule: less_induct)
  case less
  show ?case
  proof (cases "q1 @ q2 = []")
    case True
    have "hops (edge adj) s d v \<Longrightarrow> v \<in> visited" for d v
      using closed_reaches [of s visited "edge adj" d v] less.prems True
      by (auto simp: tree_def frontier_inv_def)
    then have "\<forall>d. \<not> hops (edge adj) s d target" using less.prems(3) by blast
    then show ?thesis using True by simp
  next
    case False
    obtain j c r1 r2 where q: "q1 @ q2 = c # r1 @ r2"
      and inv: "frontier_inv (edge adj) s j visited (c # r1) r2 (\<lambda>_. {})"
    proof (cases q1)
      case Nil
      then show ?thesis
        using that [of "hd q2" "tl q2" "[]" "Suc k"] False
          frontier_inv_advance [OF less.prems(2) [unfolded Nil]] by simp
    qed (use that less.prems(2) in auto)
    have cur: "c \<in> visited" "at_distance (edge adj) s j c" using inv by (auto simp: frontier_inv_def)
    have pend: "{w. edge adj c w} = set (neighbors_of adj c)" by (auto simp: edge_def)
    have ex: "case expand target c (neighbors_of adj c) (visited, parent, r1 @ r2) of
       Inl parent' \<Rightarrow> at_distance (edge adj) s (Suc j) target \<and>
         (\<exists>vis. target \<in> vis \<and> tree (edge adj) s vis parent')
     | Inr (visited', parent', queue') \<Rightarrow> target \<notin> visited' \<and> tree (edge adj) s visited' parent' \<and>
         (\<exists>q2'. queue' = r1 @ q2' \<and> frontier_inv (edge adj) s j visited' r1 q2' (\<lambda>_. {}))"
      using expand_inv [OF less.prems(1) frontier_inv_pop [OF inv, unfolded pend] cur _ less.prems(3)]
      by (simp add: edge_def)
    show ?thesis
    proof (cases "expand target c (neighbors_of adj c) (visited, parent, r1 @ r2)")
      case (Inl parent')
      then obtain vis where "target \<in> vis" "tree (edge adj) s vis parent'"
        and "at_distance (edge adj) s (Suc j) target" using ex by auto
      then obtain p where "reconstruct_path parent' target = Some p" "shortest_walk (edge adj) s target p"
        using reconstruct_path_shortest by blast
      then show ?thesis using Inl q by simp
    next
      case (Inr st)
      obtain visited' parent' queue' where st: "st = (visited', parent', queue')" by (cases st)
      then obtain q2' where st': "queue' = r1 @ q2'" "target \<notin> visited'" "tree (edge adj) s visited' parent'"
        "frontier_inv (edge adj) s j visited' r1 q2' (\<lambda>_. {})" using ex Inr by auto
      have "card (adj_nodes adj - visited') + length (r1 @ q2') < card (adj_nodes adj - visited) + length (q1 @ q2)"
        using expand_measure [OF Inr [unfolded st] neighbors_adj_nodes] q st'(1) by simp
      from less.hyps [OF this st'(3,4,2)] show ?thesis using Inr st st'(1) q by simp
    qed
  qed
qed

lemma bfs_shortest_path_spec:
  "\<exists>r. bfs_shortest_path adj s t = Some r \<and>
     (case r of None \<Rightarrow> \<forall>d. \<not> hops (edge adj) s d t | Some p \<Rightarrow> shortest_walk (edge adj) s t p)"
proof (cases "s = t")
  case True
  then show ?thesis by (simp add: bfs_shortest_path_def shortest_walk_def)
next
  case False
  have "tree (edge adj) s {s} Map.empty" by (simp add: tree_def)
  moreover have "frontier_inv (edge adj) s 0 {s} [s] [] (\<lambda>_. {})" by (auto simp: frontier_inv_def)
  ultimately show ?thesis
    using path_loop_correct [of adj s "{s}" Map.empty 0 "[s]" "[]" t] False
    by (simp add: bfs_shortest_path_def)
qed

text \<open>
  C16 (termination).  The shortest-path search returns on every graph, cyclic ones included: the
  queue loop ends, and the parent pointers it has built lead back to the source, so the loop that
  follows them ends as well.  The answer is no path exactly when the target cannot be reached.
\<close>

theorem bfs_shortest_path_returns:
  "\<exists>r. bfs_shortest_path adj s t = Some r \<and> (r = None \<longleftrightarrow> (\<nexists>d. hops (edge adj) s d t))"
proof -
  obtain r where r: "bfs_shortest_path adj s t = Some r"
    and spec: "case r of None \<Rightarrow> \<forall>d. \<not> hops (edge adj) s d t | Some p \<Rightarrow> shortest_walk (edge adj) s t p"
    using bfs_shortest_path_spec by blast
  then show ?thesis
    by (cases r) (auto simp: shortest_walk_def at_distance_def)
qed

end
