(* ===== verification/Entity.thy ===== *)
theory Entity
  imports Schema GraphSearch
begin

text \<open>
  \<open>entity.rs\<close>: entities and typed relations in two tables, and graph queries over them.  A
  query loads an adjacency list with one statement per node and searches it; the results
  are stated over the relation table itself.
\<close>

section \<open>Types\<close>

datatype entity_type =
  EProduct | EBom | EMaterial | ESupplier | EProcess | EEquipment | ELine | EBatch | EQualityEvent | EMaintenanceEvent

fun entity_type_as_str :: "entity_type \<Rightarrow> string" where
  "entity_type_as_str EProduct = ''product''"
| "entity_type_as_str EBom = ''bom''"
| "entity_type_as_str EMaterial = ''material''"
| "entity_type_as_str ESupplier = ''supplier''"
| "entity_type_as_str EProcess = ''process''"
| "entity_type_as_str EEquipment = ''equipment''"
| "entity_type_as_str ELine = ''line''"
| "entity_type_as_str EBatch = ''batch''"
| "entity_type_as_str EQualityEvent = ''quality_event''"
| "entity_type_as_str EMaintenanceEvent = ''maintenance_event''"

definition entity_type_from_str :: "string \<Rightarrow> entity_type option" where
  "entity_type_from_str s =
     (if s = ''product'' then Some EProduct
      else if s = ''bom'' then Some EBom
      else if s = ''material'' then Some EMaterial
      else if s = ''supplier'' then Some ESupplier
      else if s = ''process'' then Some EProcess
      else if s = ''equipment'' then Some EEquipment
      else if s = ''line'' then Some ELine
      else if s = ''batch'' then Some EBatch
      else if s = ''quality_event'' then Some EQualityEvent
      else if s = ''maintenance_event'' then Some EMaintenanceEvent
      else None)"

datatype relation_type =
  Contains | ProducedBy | SuppliedBy | MaintainedBy | LocatedAt | PartOf | CausedBy | ResolvedBy | DependsOn

fun relation_type_as_str :: "relation_type \<Rightarrow> string" where
  "relation_type_as_str Contains = ''contains''"
| "relation_type_as_str ProducedBy = ''produced_by''"
| "relation_type_as_str SuppliedBy = ''supplied_by''"
| "relation_type_as_str MaintainedBy = ''maintained_by''"
| "relation_type_as_str LocatedAt = ''located_at''"
| "relation_type_as_str PartOf = ''part_of''"
| "relation_type_as_str CausedBy = ''caused_by''"
| "relation_type_as_str ResolvedBy = ''resolved_by''"
| "relation_type_as_str DependsOn = ''depends_on''"

definition relation_type_from_str :: "string \<Rightarrow> relation_type option" where
  "relation_type_from_str s =
     (if s = ''contains'' then Some Contains
      else if s = ''produced_by'' then Some ProducedBy
      else if s = ''supplied_by'' then Some SuppliedBy
      else if s = ''maintained_by'' then Some MaintainedBy
      else if s = ''located_at'' then Some LocatedAt
      else if s = ''part_of'' then Some PartOf
      else if s = ''caused_by'' then Some CausedBy
      else if s = ''resolved_by'' then Some ResolvedBy
      else if s = ''depends_on'' then Some DependsOn
      else None)"

datatype entity_error =
    EntityDatabase db_error
  | EntityNotFound uuid
  | InvalidEntityType string
  | InvalidRelationType string

record entity =
  ent_entity_id :: uuid
  ent_tenant_id :: string
  ent_entity_type :: entity_type
  ent_name :: string
  ent_attributes :: json
  ent_source :: string
  ent_created_at :: time

record entity_relation =
  rel_relation_id :: uuid
  rel_from_entity :: uuid
  rel_to_entity :: uuid
  rel_relation_type :: relation_type
  rel_attributes :: json
  rel_valid_from :: "time option"
  rel_valid_to :: "time option"
  rel_source :: string
  rel_created_at :: time

record create_entity_request =
  ce_tenant_id :: string
  ce_entity_type :: entity_type
  ce_name :: string
  ce_attributes :: json
  ce_source :: string

record create_relation_request =
  cr_from_entity :: uuid
  cr_to_entity :: uuid
  cr_relation_type :: relation_type
  cr_attributes :: json
  cr_valid_from :: "time option"
  cr_valid_to :: "time option"
  cr_source :: string

section \<open>Rows\<close>

definition map_row_to_entity :: "entity_row \<Rightarrow> entity_error + entity" where
  "map_row_to_entity r =
     (case entity_type_from_str (en_entity_type r) of
        None \<Rightarrow> Inl (InvalidEntityType (en_entity_type r))
      | Some ty \<Rightarrow> Inr \<lparr>ent_entity_id = en_entity_id r, ent_tenant_id = en_tenant_id r,
          ent_entity_type = ty, ent_name = en_name r, ent_attributes = en_attributes r,
          ent_source = en_source r, ent_created_at = en_created_at r\<rparr>)"

definition map_row_to_relation :: "relation_row \<Rightarrow> entity_error + entity_relation" where
  "map_row_to_relation r =
     (case relation_type_from_str (re_relation_type r) of
        None \<Rightarrow> Inl (InvalidRelationType (re_relation_type r))
      | Some ty \<Rightarrow> Inr \<lparr>rel_relation_id = re_relation_id r, rel_from_entity = re_from_entity r,
          rel_to_entity = re_to_entity r, rel_relation_type = ty, rel_attributes = re_attributes r,
          rel_valid_from = re_valid_from r, rel_valid_to = re_valid_to r, rel_source = re_source r,
          rel_created_at = re_created_at r\<rparr>)"

text \<open>\<open>rows.iter().map(f).collect()\<close> into a \<open>Result\<close>: the first error wins.\<close>

fun collect_rows :: "('r \<Rightarrow> 'e + 'a) \<Rightarrow> 'r list \<Rightarrow> ('s, 'e, 'a list) op" where
  "collect_rows f [] = ret []"
| "collect_rows f (r # rs) =
     (case f r of Inl e \<Rightarrow> throw e | Inr x \<Rightarrow> bindE (collect_rows f rs) (\<lambda>xs. ret (x # xs)))"

section \<open>Operations\<close>

definition row_of_entity :: "uuid \<Rightarrow> create_entity_request \<Rightarrow> time \<Rightarrow> entity_row" where
  "row_of_entity i req t = \<lparr>
     en_entity_id = i, en_tenant_id = ce_tenant_id req,
     en_entity_type = entity_type_as_str (ce_entity_type req), en_name = ce_name req,
     en_attributes = ce_attributes req, en_source = ce_source req, en_created_at = t\<rparr>"

definition create_entity :: "create_entity_request \<Rightarrow> (world, entity_error, uuid) op" where
  "create_entity req =
     bindE new_v4 (\<lambda>i.
     bindE (map_err EntityDatabase (exec (\<lambda>w.
        if i \<in> en_entity_id ` set (entities w) then (Inl DbError, w)
        else (Inr (), w\<lparr>entities := entities w @ [row_of_entity i req (sql_now w)]\<rparr>)))) (\<lambda>_.
     ret i))"

definition get_entity :: "uuid \<Rightarrow> (world, entity_error, entity option) op" where
  "get_entity i =
     bindE (map_err EntityDatabase (exec (gets (\<lambda>w. find (\<lambda>r. en_entity_id r = i) (entities w))))) (\<lambda>row.
     case row of
       None \<Rightarrow> ret None
     | Some r \<Rightarrow> (case map_row_to_entity r of Inl e \<Rightarrow> throw e | Inr x \<Rightarrow> ret (Some x)))"

definition list_by_type :: "string \<Rightarrow> entity_type \<Rightarrow> int \<Rightarrow> (world, entity_error, entity list) op" where
  "list_by_type tenant ty limit =
     bindE (map_err EntityDatabase (exec (\<lambda>w. sql_limit limit 0 (order_desc en_created_at
        (filter (\<lambda>r. en_tenant_id r = tenant \<and> en_entity_type r = entity_type_as_str ty) (entities w))) w)))
     (collect_rows map_row_to_entity)"

text \<open>
  The operator \<open>ILIKE\<close> folds case by the database's locale and is a parameter.
\<close>

type_synonym ilike = "string \<Rightarrow> string \<Rightarrow> bool"

definition search_entities :: "ilike \<Rightarrow> string \<Rightarrow> string \<Rightarrow> (world, entity_error, entity list) op" where
  "search_entities ilike tenant name_pattern =
     (let pattern = ''%'' @ name_pattern @ ''%'' in
      bindE (map_err EntityDatabase (exec (gets (\<lambda>w. order_desc en_created_at
         (filter (\<lambda>r. en_tenant_id r = tenant \<and> ilike (en_name r) pattern) (entities w))))))
      (collect_rows map_row_to_entity))"

definition update_attributes :: "uuid \<Rightarrow> json \<Rightarrow> (world, entity_error, unit) op" where
  "update_attributes i attributes =
     bindE (map_err EntityDatabase (exec (\<lambda>w.
        (Inr (rows_matching (\<lambda>r. en_entity_id r = i) (entities w)),
         w\<lparr>entities := sql_update (\<lambda>r. en_entity_id r = i) (\<lambda>r. r\<lparr>en_attributes := attributes\<rparr>) (entities w)\<rparr>)))) (\<lambda>n.
     if n = 0 then throw (EntityNotFound i) else ret ())"

text \<open>Both ends of a relation are foreign keys into \<open>entity\<close>.\<close>

definition row_of_relation :: "uuid \<Rightarrow> create_relation_request \<Rightarrow> time \<Rightarrow> relation_row" where
  "row_of_relation i req t = \<lparr>
     re_relation_id = i, re_from_entity = cr_from_entity req, re_to_entity = cr_to_entity req,
     re_relation_type = relation_type_as_str (cr_relation_type req), re_attributes = cr_attributes req,
     re_valid_from = cr_valid_from req, re_valid_to = cr_valid_to req, re_source = cr_source req,
     re_created_at = t\<rparr>"

definition create_relation :: "create_relation_request \<Rightarrow> (world, entity_error, uuid) op" where
  "create_relation req =
     bindE new_v4 (\<lambda>i.
     bindE (map_err EntityDatabase (exec (\<lambda>w.
        if i \<in> re_relation_id ` set (entity_relations w) \<or>
           cr_from_entity req \<notin> en_entity_id ` set (entities w) \<or>
           cr_to_entity req \<notin> en_entity_id ` set (entities w)
        then (Inl DbError, w)
        else (Inr (), w\<lparr>entity_relations := entity_relations w @ [row_of_relation i req (sql_now w)]\<rparr>)))) (\<lambda>_.
     ret i))"

definition get_relations :: "uuid \<Rightarrow> (world, entity_error, entity_relation list) op" where
  "get_relations i =
     bindE (map_err EntityDatabase (exec (gets (\<lambda>w. order_desc re_created_at
        (filter (\<lambda>r. re_from_entity r = i \<or> re_to_entity r = i) (entity_relations w))))))
     (collect_rows map_row_to_relation)"

text \<open>The join keeps a relation for every entity row its source matches.\<close>

definition get_relations_by_type :: "string \<Rightarrow> relation_type \<Rightarrow> (world, entity_error, entity_relation list) op" where
  "get_relations_by_type tenant ty =
     bindE (map_err EntityDatabase (exec (gets (\<lambda>w. order_desc re_created_at
        (concat (map (\<lambda>r. map (\<lambda>_. r) (filter (\<lambda>e. en_entity_id e = re_from_entity r \<and> en_tenant_id e = tenant) (entities w)))
          (filter (\<lambda>r. re_relation_type r = relation_type_as_str ty) (entity_relations w))))))))
     (collect_rows map_row_to_relation)"

section \<open>Graph queries\<close>

definition related :: "relation_row list \<Rightarrow> uuid \<Rightarrow> uuid list" where
  "related rels i =
     remdups (map re_to_entity (filter (\<lambda>r. re_from_entity r = i) rels) @
              map re_from_entity (filter (\<lambda>r. re_to_entity r = i) rels))"

definition fetch_neighbors :: "uuid \<Rightarrow> (world, entity_error, uuid list) op" where
  "fetch_neighbors i = map_err EntityDatabase (exec (gets (\<lambda>w. related (entity_relations w) i)))"

fun push_new :: "uuid list \<Rightarrow> uuid set \<times> uuid list \<Rightarrow> uuid set \<times> uuid list" where
  "push_new [] st = st"
| "push_new (n # ns) (visited, next_frontier) =
     (if n \<in> visited then push_new ns (visited, next_frontier)
      else push_new ns (insert n visited, next_frontier @ [n]))"

fun load_frontier :: "uuid list \<Rightarrow> uuid set \<Rightarrow> uuid list \<Rightarrow> adjacency \<Rightarrow>
    (world, entity_error, uuid set \<times> uuid list \<times> adjacency) op" where
  "load_frontier [] visited nf adj = ret (visited, nf, adj)"
| "load_frontier (e # es) visited nf adj =
     bindE (fetch_neighbors e) (\<lambda>neighbors.
     case push_new neighbors (visited, nf) of
       (visited', nf') \<Rightarrow> load_frontier es visited' nf' ((e, neighbors) # adj))"

fun load_levels :: "nat \<Rightarrow> uuid list \<Rightarrow> uuid set \<Rightarrow> adjacency \<Rightarrow> (world, entity_error, adjacency) op" where
  "load_levels 0 frontier visited adj = ret adj"
| "load_levels (Suc n) frontier visited adj =
     (if frontier = [] then ret adj
      else bindE (load_frontier frontier visited [] adj) (\<lambda>(visited', nf, adj'). load_levels n nf visited' adj'))"

definition build_adjacency :: "uuid \<Rightarrow> nat \<Rightarrow> (world, entity_error, adjacency) op" where
  "build_adjacency start max_depth = load_levels max_depth [start] {start} []"

definition traverse :: "uuid \<Rightarrow> nat \<Rightarrow> (world, entity_error, (uuid \<times> nat) list) op" where
  "traverse start max_depth =
     bindE (build_adjacency start max_depth) (\<lambda>adj. ret (bfs_traverse adj start max_depth))"

definition u32_max :: nat where
  "u32_max = 4294967295"

text \<open>The outer option of the result is \<open>None\<close> if the search did not return.\<close>

definition shortest_path :: "uuid \<Rightarrow> uuid \<Rightarrow> (world, entity_error, uuid list option option) op" where
  "shortest_path from target =
     bindE (build_adjacency from u32_max) (\<lambda>adj. ret (bfs_shortest_path adj from target))"

section \<open>What the loading loop loads\<close>

definition linked :: "relation_row list \<Rightarrow> uuid \<Rightarrow> uuid \<Rightarrow> bool" where
  "linked rels u v \<longleftrightarrow> (\<exists>r \<in> set rels. re_from_entity r = u \<and> re_to_entity r = v \<or>
     re_to_entity r = u \<and> re_from_entity r = v)"

lemma related_linked: "v \<in> set (related rels u) \<longleftrightarrow> linked rels u v"
  by (auto simp: related_def linked_def)

lemma fetch_neighbors_InrD:
  "fetch_neighbors i w = (Inr ns, w') \<Longrightarrow> ns = related (entity_relations w) i \<and> w' = w\<lparr>tick := Suc (tick w)\<rparr>"
  by (auto simp: fetch_neighbors_def monad_defs exec_def split: if_splits)

lemma push_new_spec:
  "push_new ns (visited, nf) = (visited', nf') \<Longrightarrow>
     visited' = visited \<union> set ns \<and> set nf' = set nf \<union> (set ns - visited)"
  by (induction ns arbitrary: visited nf) (auto split: if_splits)

lemma load_frontier_InrD:
  assumes "load_frontier es visited nf adj w = (Inr (visited', nf', adj'), w')"
  shows "(\<exists>t. w' = w\<lparr>tick := t\<rparr>) \<and>
     visited' = visited \<union> {v. \<exists>u \<in> set es. linked (entity_relations w) u v} \<and>
     set nf' = set nf \<union> ({v. \<exists>u \<in> set es. linked (entity_relations w) u v} - visited) \<and>
     map_of adj' = (\<lambda>u. if u \<in> set es then Some (related (entity_relations w) u) else map_of adj u)"
  using assms
proof (induction es arbitrary: visited nf adj w)
  case Nil
  then show ?case by (auto simp: ret_def intro: exI [of _ "tick w"])
next
  case (Cons e es)
  obtain ns w1 where f: "fetch_neighbors e w = (Inr ns, w1)"
    and rest: "(case push_new ns (visited, nf) of (v, n) \<Rightarrow> load_frontier es v n ((e, ns) # adj)) w1 =
      (Inr (visited', nf', adj'), w')"
    using Cons.prems by (auto elim!: bindE_InrE)
  obtain v1 n1 where p: "push_new ns (visited, nf) = (v1, n1)" by (cases "push_new ns (visited, nf)")
  note f' = fetch_neighbors_InrD [OF f] and p' = push_new_spec [OF p]
  have ih: "(\<exists>t. w' = w1\<lparr>tick := t\<rparr>) \<and>
     visited' = v1 \<union> {v. \<exists>u \<in> set es. linked (entity_relations w1) u v} \<and>
     set nf' = set n1 \<union> ({v. \<exists>u \<in> set es. linked (entity_relations w1) u v} - v1) \<and>
     map_of adj' = (\<lambda>u. if u \<in> set es then Some (related (entity_relations w1) u) else map_of ((e, ns) # adj) u)"
    using Cons.IH [of v1 n1 "(e, ns) # adj" w1] rest p by simp
  show ?case using ih f' p' by (auto simp: related_linked [symmetric])
qed

text \<open>\<open>loaded rels s m adj\<close>: the list has exactly the nodes nearer than \<open>m\<close>, with all their neighbours.\<close>

definition loaded :: "relation_row list \<Rightarrow> uuid \<Rightarrow> nat \<Rightarrow> adjacency \<Rightarrow> bool" where
  "loaded rels s m adj \<longleftrightarrow> map_of adj =
     (\<lambda>u. if \<exists>k < m. at_distance (linked rels) s k u then Some (related rels u) else None)"

lemma load_levels_InrD:
  assumes "load_levels n frontier visited adj w = (Inr adj', w')" and "loaded (entity_relations w) s d adj"
    and "set frontier = {v. at_distance (linked (entity_relations w)) s d v}"
    and "visited = {v. \<exists>k \<le> d. at_distance (linked (entity_relations w)) s k v}"
  shows "loaded (entity_relations w) s (d + n) adj' \<and> (\<exists>t. w' = w\<lparr>tick := t\<rparr>)"
  using assms
proof (induction n arbitrary: d frontier visited adj w)
  case 0
  then show ?case by (auto simp: ret_def intro: exI [of _ "tick w"])
next
  case (Suc n)
  let ?E = "linked (entity_relations w)"
  show ?case
  proof (cases "frontier = []")
    case True
    then have "\<not> at_distance ?E s d v" for v using Suc.prems(3) by auto
    then have "(\<exists>k < d. at_distance ?E s k u) \<longleftrightarrow> (\<exists>k < d + Suc n. at_distance ?E s k u)" for u
      by (meson at_distance_below not_le trans_less_add1)
    then show ?thesis
      using True Suc.prems(1,2) by (auto simp: loaded_def ret_def intro: exI [of _ "tick w"])
  next
    case False
    then obtain visited' nf adj1 w1 where l: "load_frontier frontier visited [] adj w = (Inr (visited', nf, adj1), w1)"
      and rest: "load_levels n nf visited' adj1 w1 = (Inr adj', w')"
      using Suc.prems(1) by (auto elim!: bindE_InrE)
    obtain t where w1: "w1 = w\<lparr>tick := t\<rparr>" and vis: "visited' = visited \<union> {v. \<exists>u \<in> set frontier. ?E u v}"
      and nf: "set nf = {v. \<exists>u \<in> set frontier. ?E u v} - visited"
      and adj1: "map_of adj1 = (\<lambda>u. if u \<in> set frontier then Some (related (entity_relations w) u) else map_of adj u)"
      using load_frontier_InrD [OF l] by auto
    have layer: "set nf = {v. at_distance ?E s (Suc d) v}"
      unfolding nf Suc.prems(3,4) by (auto simp: at_distance_Suc)
    have "visited' = visited \<union> set nf" using vis nf by auto
    then have vis': "visited' = {v. \<exists>k \<le> Suc d. at_distance ?E s k v}"
      unfolding layer Suc.prems(4) by (auto simp: le_Suc_eq)
    have "loaded (entity_relations w) s (Suc d) adj1"
      using Suc.prems(2,3) adj1 by (auto simp: loaded_def less_Suc_eq fun_eq_iff)
    then have "loaded (entity_relations w1) s (Suc d + n) adj' \<and> (\<exists>t. w' = w1\<lparr>tick := t\<rparr>)"
      using Suc.IH [OF rest, of "Suc d"] w1 layer vis' by simp
    then show ?thesis using w1 by auto
  qed
qed

lemma loaded_0: "loaded rels s 0 []"
  by (simp add: loaded_def)

lemma build_adjacency_InrD:
  assumes "build_adjacency s m w = (Inr adj, w')"
  shows "loaded (entity_relations w) s m adj \<and> (\<exists>t. w' = w\<lparr>tick := t\<rparr>)"
proof -
  have "loaded (entity_relations w) s (0 + m) adj \<and> (\<exists>t. w' = w\<lparr>tick := t\<rparr>)"
    by (rule load_levels_InrD [OF assms [unfolded build_adjacency_def] loaded_0]) simp_all
  then show ?thesis by (simp only: add_0)
qed

section \<open>A truncated graph has the same short distances\<close>

lemma hops_mono: "hops E' s d v \<Longrightarrow> (\<And>u v. E' u v \<Longrightarrow> E u v) \<Longrightarrow> hops E s d v"
  by (induction rule: hops.induct) (auto intro: hops.intros)

lemma at_distance_truncated:
  assumes "\<And>u v. E' u v \<longleftrightarrow> E u v \<and> (\<exists>k < m. at_distance E s k u)" and "d \<le> m"
  shows "at_distance E' s d v \<longleftrightarrow> at_distance E s d v"
proof -
  have down: "hops E' s k x \<Longrightarrow> hops E s k x" for k x
    using hops_mono [of E' s k x E] assms(1) by blast
  have up: "at_distance E s k x \<Longrightarrow> k \<le> m \<Longrightarrow> hops E' s k x" for k x
  proof (induction k arbitrary: x)
    case (Suc k)
    then obtain u where u: "at_distance E s k u" "E u x" by (auto simp: at_distance_Suc)
    then have "hops E' s k u" using Suc by simp
    moreover have "E' u x" using u Suc.prems(2) assms(1) [of u x] by auto
    ultimately show ?case by (rule hops_step)
  qed auto
  show ?thesis
  proof
    assume v: "at_distance E' s d v"
    then obtain d' where d': "d' \<le> d" "at_distance E s d' v"
      using hops_at_distance [OF down] unfolding at_distance_def by blast
    then have "d \<le> d'" using v up [of d' v] assms(2) by (auto simp: at_distance_def)
    then show "at_distance E s d v" using d' by simp
  next
    assume v: "at_distance E s d v"
    then show "at_distance E' s d v" using up [OF v assms(2)] down by (auto simp: at_distance_def)
  qed
qed

lemma loaded_edge:
  "loaded rels s m adj \<Longrightarrow> edge adj u v \<longleftrightarrow> linked rels u v \<and> (\<exists>k < m. at_distance (linked rels) s k u)"
  by (auto simp: loaded_def edge_def neighbors_of_def related_linked)

text \<open>Distances are bounded by the number of endpoints.\<close>

lemma at_distance_card:
  assumes "at_distance (linked rels) s d v"
  shows "d \<le> 2 * length rels"
proof -
  let ?E = "linked rels" and ?ends = "re_from_entity ` set rels \<union> re_to_entity ` set rels"
  have "\<exists>u. at_distance ?E s k u \<and> u \<in> ?ends" if "k \<in> {1..d}" for k
  proof -
    obtain j u where "k = Suc j" "at_distance ?E s k u"
      using at_distance_below [OF assms, of k] \<open>k \<in> {1..d}\<close> by (cases k) auto
    then show ?thesis by (auto simp: at_distance_Suc linked_def)
  qed
  then obtain f where f: "\<And>k. k \<in> {1..d} \<Longrightarrow> at_distance ?E s k (f k) \<and> f k \<in> ?ends" by metis
  then have inj: "inj_on f {1..d}" by (intro inj_onI) (metis at_distance_unique)
  have "card {1..d} \<le> card ?ends"
    by (rule card_inj_on_le [OF inj]) (use f in \<open>blast, simp\<close>)
  also have "\<dots> \<le> card (re_from_entity ` set rels) + card (re_to_entity ` set rels)" by (rule card_Un_le)
  also have "\<dots> \<le> length rels + length rels"
    by (intro add_mono) (meson card_image_le card_length finite_set le_trans)+
  finally show ?thesis by simp
qed

section \<open>Properties\<close>

text \<open>
  C15 (functional).  A traversal that returns lists every entity within the bound exactly once with
  its distance in the undirected relation graph, nearest first, and nothing else; the tables
  are not changed.
\<close>

theorem traverse_exact:
  assumes "traverse start max_depth w = (Inr found, w')"
  shows "set found = {(v, d). d \<le> max_depth \<and> at_distance (linked (entity_relations w)) start d v} \<and>
     distinct (map fst found) \<and> sorted (map snd found) \<and> (\<exists>t. w' = w\<lparr>tick := t\<rparr>)"
proof -
  obtain adj w1 where b: "build_adjacency start max_depth w = (Inr adj, w1)"
    and f: "found = bfs_traverse adj start max_depth" "w' = w1"
    using assms unfolding traverse_def by (auto simp: ret_def elim!: bindE_InrE)
  note l = build_adjacency_InrD [OF b]
  have "d \<le> max_depth \<Longrightarrow> at_distance (edge adj) start d v = at_distance (linked (entity_relations w)) start d v" for d v
    by (rule at_distance_truncated [OF loaded_edge [OF conjunct1 [OF l]]])
  then show ?thesis using bfs_traverse_spec [of adj start max_depth] l f by auto
qed

text \<open>
  A shortest-path query whose statements succeed always returns: with a walk of
  minimal length between the two entities when they are connected, with nothing when they
  are not.
\<close>

theorem shortest_path_exact:
  assumes "shortest_path from target w = (Inr answer, w')" and "2 * length (entity_relations w) < u32_max"
  shows "\<exists>r. answer = Some r \<and>
     (case r of None \<Rightarrow> \<forall>d. \<not> hops (linked (entity_relations w)) from d target
              | Some p \<Rightarrow> shortest_walk (linked (entity_relations w)) from target p)"
proof -
  let ?E = "linked (entity_relations w)"
  obtain adj w1 where b: "build_adjacency from u32_max w = (Inr adj, w1)"
    and a: "answer = bfs_shortest_path adj from target"
    using assms(1) unfolding shortest_path_def by (auto simp: ret_def elim!: bindE_InrE)
  note l = build_adjacency_InrD [OF b]
  have sub: "edge adj u v \<Longrightarrow> ?E u v" for u v using loaded_edge [OF conjunct1 [OF l]] by blast
  have near: "at_distance ?E from d v \<Longrightarrow> d \<le> u32_max" for d v
    using at_distance_card [of "entity_relations w" "from" d v] assms(2) by simp
  have same: "d \<le> u32_max \<Longrightarrow> at_distance (edge adj) from d v = at_distance ?E from d v" for d v
    by (rule at_distance_truncated [OF loaded_edge [OF conjunct1 [OF l]]])
  obtain r where r: "answer = Some r" "case r of None \<Rightarrow> \<forall>d. \<not> hops (edge adj) from d target
      | Some p \<Rightarrow> shortest_walk (edge adj) from target p"
    using bfs_shortest_path_spec [of adj "from" target] a by auto
  have "case r of None \<Rightarrow> \<forall>d. \<not> hops ?E from d target | Some p \<Rightarrow> shortest_walk ?E from target p"
  proof (cases r)
    case None
    have "\<not> hops ?E from d target" for d
    proof
      assume "hops ?E from d target"
      then obtain k where "at_distance ?E from k target" using hops_at_distance by blast
      then have "at_distance (edge adj) from k target" using same near by blast
      then show False using r(2) None by (simp add: at_distance_def)
    qed
    then show ?thesis using None by simp
  next
    case (Some p)
    then have p: "shortest_walk (edge adj) from target p" using r(2) by simp
    then have "hops ?E from (length p - 1) target"
      using hops_mono sub unfolding shortest_walk_def at_distance_def by metis
    then obtain k where k: "at_distance ?E from k target" using hops_at_distance by blast
    then have "at_distance (edge adj) from k target" using same near by blast
    then have "k = length p - 1" using p at_distance_unique unfolding shortest_walk_def by blast
    then show ?thesis
      using Some p k sub by (auto simp: shortest_walk_def intro: successively_mono)
  qed
  then show ?thesis using r(1) by blast
qed

definition demo_plant :: world where
  "demo_plant = empty_world\<lparr>entity_relations :=
     [row_of_relation ''r1'' \<lparr>cr_from_entity = ''bom'', cr_to_entity = ''bolt'', cr_relation_type = Contains,
        cr_attributes = JObject [], cr_valid_from = None, cr_valid_to = None, cr_source = ''erp''\<rparr> 1,
      row_of_relation ''r2'' \<lparr>cr_from_entity = ''acme'', cr_to_entity = ''bolt'', cr_relation_type = SuppliedBy,
        cr_attributes = JObject [], cr_valid_from = None, cr_valid_to = None, cr_source = ''erp''\<rparr> 2]\<rparr>"

text \<open>Unfolding the level loops at a numeral without counting it out.\<close>

lemma load_levels_numeral:
  "load_levels (numeral k) frontier visited adj =
     (if frontier = [] then ret adj
      else bindE (load_frontier frontier visited [] adj)
        (\<lambda>(visited', nf, adj'). load_levels (pred_numeral k) nf visited' adj'))"
  by (simp add: numeral_eq_Suc)

lemma bfs_levels_numeral:
  "bfs_levels adj (numeral k) d frontier visited result =
     (if frontier = [] then result
      else case scan_frontier adj d frontier (visited, [], result) of
        (visited', nf, result') \<Rightarrow> bfs_levels adj (pred_numeral k) (d + 1) nf visited' result')"
  by (simp add: numeral_eq_Suc)

lemmas demo_plant_simps = build_adjacency_def demo_plant_def empty_world_def row_of_relation_def
  fetch_neighbors_def related_def monad_defs load_levels_numeral bfs_levels_numeral

lemma demo_plant_traverse:
  "fst (traverse ''bom'' 2 demo_plant) = Inr [(''bom'', 0), (''bolt'', 1), (''acme'', 2)]"
  by (simp add: traverse_def bfs_traverse_def demo_plant_simps)

lemma demo_plant_path:
  "fst (shortest_path ''bom'' ''acme'' demo_plant) = Inr (Some (Some [''bom'', ''bolt'', ''acme'']))"
  by (simp add: shortest_path_def bfs_shortest_path_def neighbors_of_def reconstruct_path_def
      parent_chain.simps u32_max_def demo_plant_simps)

theorem traverse_exact_witness:
  "set [(''bom'', 0), (''bolt'', 1), (''acme'', 2)] =
     {(v, d). d \<le> 2 \<and> at_distance (linked (entity_relations demo_plant)) ''bom'' d v}"
  by (rule conjunct1 [OF traverse_exact [of "''bom''" 2 demo_plant _ "snd (traverse ''bom'' 2 demo_plant)"]])
    (simp only: prod_eq_iff demo_plant_traverse fst_conv snd_conv simp_thms)

theorem shortest_path_exact_witness:
  "\<exists>r. Some (Some [''bom'', ''bolt'', ''acme'']) = Some r \<and>
     (case r of None \<Rightarrow> \<forall>d. \<not> hops (linked (entity_relations demo_plant)) ''bom'' d ''acme''
              | Some p \<Rightarrow> shortest_walk (linked (entity_relations demo_plant)) ''bom'' ''acme'' p)"
proof (rule shortest_path_exact)
  show "shortest_path ''bom'' ''acme'' demo_plant =
      (Inr (Some (Some [''bom'', ''bolt'', ''acme''])), snd (shortest_path ''bom'' ''acme'' demo_plant))"
    by (simp only: prod_eq_iff demo_plant_path fst_conv snd_conv simp_thms)
qed (simp add: demo_plant_def u32_max_def)

text \<open>The text forms of both enums are read back, so no stored row is rejected.\<close>

lemma entity_type_roundtrip [simp]: "entity_type_from_str (entity_type_as_str ty) = Some ty"
  by (cases ty) (simp_all add: entity_type_from_str_def)

lemma relation_type_roundtrip [simp]: "relation_type_from_str (relation_type_as_str ty) = Some ty"
  by (cases ty) (simp_all add: relation_type_from_str_def)

text \<open>
  The invariant of the two tables: ids are unique, texts are readable, and no relation dangles.
\<close>

definition wf_entities :: "world \<Rightarrow> bool" where
  "wf_entities w \<longleftrightarrow>
     distinct (map en_entity_id (entities w)) \<and> distinct (map re_relation_id (entity_relations w)) \<and>
     (\<forall>e \<in> set (entities w). entity_type_from_str (en_entity_type e) \<noteq> None) \<and>
     (\<forall>r \<in> set (entity_relations w). relation_type_from_str (re_relation_type r) \<noteq> None \<and>
        re_from_entity r \<in> en_entity_id ` set (entities w) \<and> re_to_entity r \<in> en_entity_id ` set (entities w))"

lemma wf_entities_tick [simp]: "wf_entities (w\<lparr>tick := t\<rparr>) = wf_entities w"
  by (simp add: wf_entities_def)

lemma keeps_wf_create_entity [keep_intros]: "keeps wf_entities (create_entity req)"
  unfolding create_entity_def
  by (intro keep_intros) (auto intro!: keepsI simp: wf_entities_def row_of_entity_def split: if_splits)

lemma keeps_wf_create_relation [keep_intros]: "keeps wf_entities (create_relation req)"
  unfolding create_relation_def
  by (intro keep_intros) (auto intro!: keepsI simp: wf_entities_def row_of_relation_def split: if_splits)

lemma image_key_sql_update:
  "(\<And>r. key (f r) = key r) \<Longrightarrow> key ` set (sql_update p f rows) = key ` set rows"
  by (metis list.set_map map_key_sql_update)

lemma wf_entities_attributes:
  assumes "wf_entities w"
  shows "wf_entities (w\<lparr>entities := sql_update p (\<lambda>r. r\<lparr>en_attributes := a\<rparr>) (entities w)\<rparr>)"
  using assms image_key_sql_update [of en_entity_id "\<lambda>r. r\<lparr>en_attributes := a\<rparr>" p "entities w"]
  by (fastforce simp: wf_entities_def set_sql_update)

lemma keeps_wf_update_attributes [keep_intros]: "keeps wf_entities (update_attributes i a)"
  unfolding update_attributes_def
  by (intro keep_intros) (auto intro!: keepsI wf_entities_attributes)

end
