(* ===== verification/WritePipeline.thy ===== *)
theory WritePipeline
  imports Outbox Retention Poison Entity TextOps
begin

text \<open>
  \<open>write_pipeline.rs\<close>: a submission is scanned, scored, linked to known entities, stored and
  announced in the outbox.  The pipeline is written over its two storage interfaces, as in
  the code, and instantiated with the production adapter over the database.
\<close>

definition show_bool :: "bool \<Rightarrow> string" where
  "show_bool b = (if b then ''true'' else ''false'')"

section \<open>Interfaces\<close>

definition CONFIDENCE_THRESHOLD :: f32 where
  "CONFIDENCE_THRESHOLD = f32_0_7"

definition is_high_scope :: "scope \<Rightarrow> bool" where
  "is_high_scope sc \<longleftrightarrow> sc = Team \<or> sc = Process \<or> sc = Factory \<or> sc = Enterprise"

text \<open>\<open>Outbox\<close> keeps the error whose text the code stores.\<close>

datatype write_error =
    PoisonBlocked string
  | WriteStorage string
  | WriteOutbox outbox_error
  | WriteDatabase db_error

fun write_of_repo_error :: "memory_repo_error \<Rightarrow> write_error" where
  "write_of_repo_error RepoNotFound = WriteStorage ''memory item not found''"
| "write_of_repo_error (RepoDatabase e) = WriteDatabase e"

record 's memory_store =
  ms_insert_with_importance :: "memory_candidate \<Rightarrow> f32 \<Rightarrow> memory_status \<Rightarrow> ('s, write_error, uuid) op"
  ms_list_by_tenant :: "string \<Rightarrow> memory_status option \<Rightarrow> int \<Rightarrow> int \<Rightarrow> ('s, write_error, memory_item list) op"

type_synonym 's outbox_enqueuer = "event_type \<Rightarrow> string \<Rightarrow> json \<Rightarrow> ('s, write_error, uuid) op"

type_synonym 's entity_linker = "string \<Rightarrow> string \<Rightarrow> 's \<Rightarrow> json list \<times> 's"

section \<open>Entity linking\<close>

text \<open>
  Splitting at the characters that are not alphanumeric follows the Unicode tables and is a
  parameter.
\<close>

definition entity_json :: "entity \<Rightarrow> json" where
  "entity_json e = JObject [(''entity_id'', JString (ent_entity_id e)),
     (''entity_type'', JString (entity_type_as_str (ent_entity_type e))), (''name'', JString (ent_name e))]"

text \<open>The flag says that ten references were reached and the search returns.\<close>

fun link_entities :: "entity list \<Rightarrow> uuid set \<Rightarrow> json list \<Rightarrow> bool \<times> uuid set \<times> json list" where
  "link_entities [] seen refs = (False, seen, refs)"
| "link_entities (e # es) seen refs =
     (let refs' = (if ent_entity_id e \<in> seen then refs else refs @ [entity_json e]);
          seen' = insert (ent_entity_id e) seen
      in if length refs' \<ge> 10 then (True, seen', refs') else link_entities es seen' refs')"

fun link_tokens :: "ilike \<Rightarrow> string \<Rightarrow> string list \<Rightarrow> uuid set \<Rightarrow> json list \<Rightarrow> world \<Rightarrow> json list \<times> world" where
  "link_tokens ilike tenant [] seen refs w = (refs, w)"
| "link_tokens ilike tenant (t # ts) seen refs w =
     (case search_entities ilike tenant t w of
        (Inl _, w1) \<Rightarrow> link_tokens ilike tenant ts seen refs w1
      | (Inr es, w1) \<Rightarrow>
          (case link_entities es seen refs of
             (True, _, refs') \<Rightarrow> (refs', w1)
           | (False, seen', refs') \<Rightarrow> link_tokens ilike tenant ts seen' refs' w1))"

definition entity_manager_link :: "(string \<Rightarrow> string list) \<Rightarrow> ilike \<Rightarrow> world entity_linker" where
  "entity_manager_link split_words ilike content tenant =
     link_tokens ilike tenant (take 20 (filter (\<lambda>t. length t > 2) (split_words content))) {} []"

section \<open>The production adapter\<close>

definition production_insert :: "memory_candidate \<Rightarrow> f32 \<Rightarrow> memory_status \<Rightarrow> (world, write_error, uuid) op" where
  "production_insert candidate importance status =
     bindE (map_err write_of_repo_error (repo_insert candidate)) (\<lambda>i.
     bindE (map_err WriteDatabase (update_memory_row i (\<lambda>t r. r\<lparr>c_importance := importance, c_updated_at := t\<rparr>))) (\<lambda>_.
     bindE (if status = Candidate then ret ()
            else bindE (map_err write_of_repo_error (repo_update_status i status)) (\<lambda>_.
                 bindE (map_err WriteDatabase (update_memory_row i (\<lambda>t r.
                    if c_valid_from r = None then r\<lparr>c_valid_from := Some t\<rparr> else r))) (\<lambda>_.
                 ret ()))) (\<lambda>_.
     ret i)))"

definition production_list :: "string \<Rightarrow> memory_status option \<Rightarrow> int \<Rightarrow> int \<Rightarrow> (world, write_error, memory_item list) op" where
  "production_list tenant status_filter limit offset =
     map_err write_of_repo_error (repo_list_by_tenant tenant status_filter limit offset)"

definition production_enqueue :: "world outbox_enqueuer" where
  "production_enqueue ty aggregate payload = map_err WriteOutbox (outbox_enqueue ty aggregate payload)"

definition production_store :: "world memory_store" where
  "production_store = \<lparr>ms_insert_with_importance = production_insert, ms_list_by_tenant = production_list\<rparr>"

section \<open>The pipeline\<close>

record candidate_submission =
  cs_tenant_id :: string
  cs_content :: string
  cs_source_type :: source_type
  cs_memory_type :: memory_type
  cs_scope :: scope
  cs_user_id :: "string option"
  cs_agent_id :: "string option"
  cs_subject_type :: "string option"
  cs_subject_id :: "string option"
  cs_entity_refs :: "json list"
  cs_structured_payload :: "json option"
  cs_source_reference :: "string option"
  cs_confidence :: f32

definition candidate_submission_default :: candidate_submission where
  "candidate_submission_default = \<lparr>cs_tenant_id = ''default'', cs_content = [], cs_source_type = AgentInferred,
     cs_memory_type = Semantic, cs_scope = Personal, cs_user_id = None, cs_agent_id = None,
     cs_subject_type = None, cs_subject_id = None, cs_entity_refs = [], cs_structured_payload = None,
     cs_source_reference = None, cs_confidence = f32_half\<rparr>"

datatype safety_summary = SummarySafe | SummarySuspicious | SummaryBlocked

record write_result =
  wr_memory_id :: uuid
  wr_status :: memory_status
  wr_importance :: f32
  wr_is_duplicate :: bool
  wr_safety_verdict :: safety_summary
  wr_outbox_event_id :: uuid

record 's write_pipeline =
  wp_store :: "'s memory_store"
  wp_enqueuer :: "'s outbox_enqueuer"
  wp_poison_guard :: poison_guard
  wp_policy_engine :: "retention_policy list option"
  wp_entity_linker :: "'s entity_linker option"

definition from_pool :: "(string \<Rightarrow> string list) \<Rightarrow> ilike \<Rightarrow> poison_guard \<Rightarrow> world write_pipeline" where
  "from_pool split_words ilike guard = \<lparr>wp_store = production_store, wp_enqueuer = production_enqueue,
     wp_poison_guard = guard, wp_policy_engine = None,
     wp_entity_linker = Some (entity_manager_link split_words ilike)\<rparr>"

definition with_backends :: "'s memory_store \<Rightarrow> 's outbox_enqueuer \<Rightarrow> poison_guard \<Rightarrow> 's write_pipeline" where
  "with_backends store enqueuer guard = \<lparr>wp_store = store, wp_enqueuer = enqueuer,
     wp_poison_guard = guard, wp_policy_engine = None, wp_entity_linker = None\<rparr>"

definition with_policy :: "retention_policy list \<Rightarrow> 's write_pipeline \<Rightarrow> 's write_pipeline" where
  "with_policy policies wp = wp\<lparr>wp_policy_engine := Some policies\<rparr>"

definition with_entity_linker :: "'s entity_linker \<Rightarrow> 's write_pipeline \<Rightarrow> 's write_pipeline" where
  "with_entity_linker linker wp = wp\<lparr>wp_entity_linker := Some linker\<rparr>"

definition from_pool_with_policy ::
  "(string \<Rightarrow> string list) \<Rightarrow> ilike \<Rightarrow> poison_guard \<Rightarrow> retention_policy list \<Rightarrow> world write_pipeline" where
  "from_pool_with_policy split_words ilike guard policies = with_policy policies (from_pool split_words ilike guard)"

fun to_poison_source_type :: "source_type \<Rightarrow> poison_source" where
  "to_poison_source_type Iam = PAuthoritative"
| "to_poison_source_type Hr = PAuthoritative"
| "to_poison_source_type UserExplicit = PAuthoritative"
| "to_poison_source_type AgentInferred = PAgentInferred"
| "to_poison_source_type ToolResult = PToolResult"
| "to_poison_source_type BusinessEvent = PBusinessEvent"

fun source_to_authority_level :: "source_type \<Rightarrow> authority_level" where
  "source_to_authority_level Iam = L0SourceOfTruth"
| "source_to_authority_level Hr = L0SourceOfTruth"
| "source_to_authority_level UserExplicit = L1Authoritative"
| "source_to_authority_level BusinessEvent = L2Verified"
| "source_to_authority_level ToolResult = L2Verified"
| "source_to_authority_level AgentInferred = L3Inferred"

fun source_authority_weight :: "source_type \<Rightarrow> f32" where
  "source_authority_weight Iam = f32_0_9"
| "source_authority_weight Hr = f32_0_9"
| "source_authority_weight UserExplicit = f32_0_8"
| "source_authority_weight BusinessEvent = f32_0_7"
| "source_authority_weight ToolResult = f32_half"
| "source_authority_weight AgentInferred = f32_0_3"

definition compute_importance :: "source_type \<Rightarrow> bool \<Rightarrow> f32" where
  "compute_importance st is_duplicate =
     f32_add (f32_mul (f32_mul (source_authority_weight st) (if is_duplicate then f32_half else f32_one)) f32_half)
       f32_half"

text \<open>SHA-256 with its hexadecimal text is a parameter.\<close>

definition content_hash :: "lowercase \<Rightarrow> (string \<Rightarrow> string) \<Rightarrow> string \<Rightarrow> string" where
  "content_hash lower sha256_hex content = sha256_hex (lower (trim content))"

definition check_duplicate :: "lowercase \<Rightarrow> (string \<Rightarrow> string) \<Rightarrow> memory_item list \<Rightarrow> string \<Rightarrow>
    string option \<Rightarrow> string option \<Rightarrow> bool" where
  "check_duplicate lower sha256_hex existing content subject_type subject_id =
     (let hash = content_hash lower sha256_hex content in
      list_ex (\<lambda>item.
        (case mi_content item of Some c \<Rightarrow> content_hash lower sha256_hex c = hash | None \<Rightarrow> False) \<or>
        (case (subject_type, subject_id) of
           (Some st, Some sid) \<Rightarrow> mi_subject_type item = Some st \<and> mi_subject_id item = Some sid
         | _ \<Rightarrow> False)) existing)"

text \<open>\<open>unwrap_or(json!({}))\<close>, then an insertion if the value is an object.\<close>

definition pack_refs :: "string \<Rightarrow> json list \<Rightarrow> json option \<Rightarrow> json option" where
  "pack_refs key refs payload =
     Some (case payload of
        None \<Rightarrow> JObject [(key, JArray refs)]
      | Some (JObject m) \<Rightarrow> JObject (obj_insert key (JArray refs) m)
      | Some base \<Rightarrow> base)"

definition extract_candidate :: "candidate_submission \<Rightarrow> memory_candidate" where
  "extract_candidate sub = \<lparr>
     mc_tenant_id = cs_tenant_id sub, mc_memory_type = cs_memory_type sub, mc_scope = cs_scope sub,
     mc_subject_type = cs_subject_type sub, mc_subject_id = cs_subject_id sub,
     mc_content = Some (cs_content sub),
     mc_structured_payload = (if cs_entity_refs sub = [] then cs_structured_payload sub
        else pack_refs ''entity_refs'' (cs_entity_refs sub) (cs_structured_payload sub)),
     mc_source_type = cs_source_type sub, mc_source_reference = cs_source_reference sub,
     mc_confidence = cs_confidence sub,
     mc_authority_level = source_to_authority_level (cs_source_type sub),
     mc_privacy_class = Internal, mc_created_by_user = cs_user_id sub,
     mc_created_by_agent = cs_agent_id sub\<rparr>"

definition decide_status :: "safety_verdict \<Rightarrow> f32 \<Rightarrow> scope \<Rightarrow> memory_status" where
  "decide_status verdict confidence sc =
     (case verdict of
        Suspicious _ \<Rightarrow> Candidate
      | _ \<Rightarrow> if f32_ge confidence CONFIDENCE_THRESHOLD \<and> \<not> is_high_scope sc then Active else Candidate)"

definition lookup_retention_policy :: "'s write_pipeline \<Rightarrow> scope \<Rightarrow> memory_type \<Rightarrow> string option" where
  "lookup_retention_policy wp sc mt =
     map_option rp_policy_id (Option.bind (wp_policy_engine wp) (\<lambda>eng. get_policy eng sc mt))"

definition proposal_payload :: "candidate_submission \<Rightarrow> uuid \<Rightarrow> f32 \<Rightarrow> memory_status \<Rightarrow> bool \<Rightarrow>
    string option \<Rightarrow> safety_summary \<Rightarrow> json" where
  "proposal_payload sub memory_id importance status is_duplicate policy summary =
     (let base = [(''action'', JString ''proposed''), (''importance'', JFloat importance),
            (''is_duplicate'', JBool is_duplicate), (''memory_id'', JString memory_id),
            (''memory_type'', JString (memory_type_as_str (cs_memory_type sub))),
            (''scope'', JString (scope_as_str (cs_scope sub))),
            (''source_type'', JString (source_type_as_str (cs_source_type sub))),
            (''status'', JString (memory_status_as_str status))];
          with_retention = (case policy of Some pid \<Rightarrow> obj_insert ''retention_policy'' (JString pid) base | None \<Rightarrow> base)
      in JObject (if summary = SummarySuspicious then obj_insert ''flagged_suspicious'' (JBool True) with_retention
                  else with_retention))"

definition poison_detail :: "scan_report \<Rightarrow> string" where
  "poison_detail report = show_nat (length (sr_findings report)) @ '' finding(s); untrusted_source='' @
     show_bool (sr_untrusted_source report)"

text \<open>Stages 4 to 9, after scoring.\<close>

definition link_stage :: "'s write_pipeline \<Rightarrow> candidate_submission \<Rightarrow> ('s, write_error, json list) op" where
  "link_stage wp sub =
     (case wp_entity_linker wp of
        Some link \<Rightarrow> (\<lambda>s. case link (cs_content sub) (cs_tenant_id sub) s of (refs, s') \<Rightarrow> (Inr refs, s'))
      | None \<Rightarrow> ret [])"

definition store_stage :: "'s write_pipeline \<Rightarrow> candidate_submission \<Rightarrow> safety_verdict \<Rightarrow> safety_summary \<Rightarrow> bool \<Rightarrow>
    ('s, write_error, write_result) op" where
  "store_stage wp sub verdict summary is_duplicate =
     (let candidate = extract_candidate sub;
          importance = compute_importance (cs_source_type sub) is_duplicate;
          status = decide_status verdict (cs_confidence sub) (cs_scope sub)
      in bindE (link_stage wp sub) (\<lambda>refs.
         bindE (ms_insert_with_importance (wp_store wp)
            (if refs = [] then candidate
             else candidate\<lparr>mc_structured_payload := pack_refs ''linked_entities'' refs (mc_structured_payload candidate)\<rparr>)
            importance status) (\<lambda>memory_id.
         bindE (wp_enqueuer wp MemoryProposed memory_id
            (proposal_payload sub memory_id importance status is_duplicate
               (lookup_retention_policy wp (cs_scope sub) (cs_memory_type sub)) summary)) (\<lambda>event_id.
         ret \<lparr>wr_memory_id = memory_id, wr_status = status, wr_importance = importance,
              wr_is_duplicate = is_duplicate, wr_safety_verdict = summary,
              wr_outbox_event_id = event_id\<rparr>))))"

definition submit_candidate :: "lowercase \<Rightarrow> (string \<Rightarrow> string) \<Rightarrow> 's write_pipeline \<Rightarrow> candidate_submission \<Rightarrow>
    ('s, write_error, write_result) op" where
  "submit_candidate lower sha256_hex wp sub =
     (let verdict = scan lower (wp_poison_guard wp) (cs_content sub) (to_poison_source_type (cs_source_type sub));
          proceed = (\<lambda>summary.
            bindE (ms_list_by_tenant (wp_store wp) (cs_tenant_id sub) (Some Active) 100 0) (\<lambda>existing.
            store_stage wp sub verdict summary
              (check_duplicate lower sha256_hex existing (cs_content sub) (cs_subject_type sub) (cs_subject_id sub))))
      in case verdict of
           Safe \<Rightarrow> proceed SummarySafe
         | Suspicious _ \<Rightarrow> proceed SummarySuspicious
         | Blocked report \<Rightarrow> throw (PoisonBlocked (poison_detail report)))"

section \<open>Reading operations change nothing but the step counter\<close>

definition reads_only :: "(world, 'e, 'a) op \<Rightarrow> bool" where
  "reads_only m \<longleftrightarrow> (\<forall>w. \<exists>t. snd (m w) = w\<lparr>tick := t\<rparr>)"

lemma reads_onlyD: "reads_only m \<Longrightarrow> m w = (r, w') \<Longrightarrow> \<exists>t. w' = w\<lparr>tick := t\<rparr>"
  unfolding reads_only_def by (metis snd_conv)

lemma tick_self: "\<exists>t. w = w\<lparr>tick := t\<rparr>" for w :: world
  by (rule exI [of _ "tick w"]) simp

lemma reads_only_ret: "reads_only (ret x)"
  by (simp add: reads_only_def ret_def tick_self)

lemma reads_only_throw: "reads_only (throw e)"
  by (simp add: reads_only_def throw_def tick_self)

lemma reads_only_bindE:
  assumes "reads_only m" and "\<And>x. reads_only (f x)"
  shows "reads_only (bindE m f)"
  unfolding reads_only_def
proof
  fix w
  show "\<exists>t. snd (bindE m f w) = w\<lparr>tick := t\<rparr>"
  proof (cases "m w")
    case (Pair r w1)
    then obtain t where w1: "w1 = w\<lparr>tick := t\<rparr>" using assms(1) reads_onlyD by blast
    show ?thesis
    proof (cases r)
      case (Inr x)
      obtain t' where "snd (f x w1) = w1\<lparr>tick := t'\<rparr>" using assms(2) unfolding reads_only_def by blast
      then show ?thesis using Pair Inr w1 by (auto simp: bindE_def)
    qed (use Pair w1 in \<open>auto simp: bindE_def\<close>)
  qed
qed

lemma reads_only_query: "reads_only (map_err h (exec (gets f)))"
  by (auto simp: reads_only_def monad_defs exec_def)

lemma reads_only_collect_rows: "reads_only (collect_rows f rs)"
  by (induction rs) (auto intro!: reads_only_ret reads_only_throw reads_only_bindE split: sum.splits)

lemma reads_only_search_entities: "reads_only (search_entities ilike tenant p)"
  unfolding search_entities_def Let_def
  by (intro reads_only_bindE reads_only_query reads_only_collect_rows)

lemma reads_only_production_list: "reads_only (production_list tenant st limit offset)"
  by (auto simp: reads_only_def production_list_def repo_list_by_tenant_def monad_defs exec_def sql_limit_def
      split: prod.splits)

lemma link_tokens_reads: "\<exists>t. snd (link_tokens ilike tenant ts seen refs w) = w\<lparr>tick := t\<rparr>"
proof (induction ts arbitrary: seen refs w)
  case Nil
  show ?case by (simp add: tick_self)
next
  case (Cons x ts)
  obtain r w1 where s: "search_entities ilike tenant x w = (r, w1)" by (cases "search_entities ilike tenant x w")
  then obtain t where w1: "w1 = w\<lparr>tick := t\<rparr>" using reads_onlyD [OF reads_only_search_entities] by blast
  have rest: "\<exists>t. snd (link_tokens ilike tenant ts seen' refs' w1) = w\<lparr>tick := t\<rparr>" for seen' refs'
    using Cons.IH [of seen' refs' w1] w1 by auto
  show ?case using s w1 rest by (auto split: sum.splits prod.splits bool.splits)
qed

lemma reads_only_link_stage:
  "reads_only (link_stage (from_pool_with_policy split_words ilike guard policies) sub)"
  unfolding reads_only_def
proof
  fix w
  show "\<exists>t. snd (link_stage (from_pool_with_policy split_words ilike guard policies) sub w) = w\<lparr>tick := t\<rparr>"
    using link_tokens_reads [of ilike "cs_tenant_id sub" "take 20 (filter (\<lambda>t. length t > 2) (split_words (cs_content sub)))"
        "{}" "[]" w]
    by (auto simp: link_stage_def from_pool_with_policy_def with_policy_def from_pool_def entity_manager_link_def
        split: prod.splits)
qed

section \<open>What the adapter stores\<close>

lemma sql_update_last:
  assumes "i \<notin> key ` set rows" and "key x = i"
  shows "sql_update (\<lambda>r. key r = i) f (rows @ [x]) = rows @ [f x]"
proof -
  have "sql_update (\<lambda>r. key r = i) f rows = rows" using assms(1) by (intro sql_update_unmatched) auto
  then show ?thesis using assms(2) by (simp add: sql_update_def)
qed

lemma update_memory_row_last:
  assumes "update_memory_row i f w = (Inr n, w')" and "memory_items w = rows @ [x]"
    and "i \<notin> c_memory_id ` set rows" and "c_memory_id x = i"
  shows "\<exists>t t'. w' = w\<lparr>tick := t, memory_items := rows @ [f t' x]\<rparr>"
  using assms by (auto simp: update_memory_row_def exec_def sql_update_last split: if_splits)

lemma repo_insert_InrD:
  assumes "repo_insert c w = (Inr i, w')"
  shows "\<exists>t t'. w' = w\<lparr>tick := t, memory_items := memory_items w @ [row_of_candidate i c t']\<rparr> \<and>
     i \<notin> c_memory_id ` set (memory_items w)"
  using assms by (auto simp: repo_insert_def new_v4_def monad_defs exec_def split: if_splits)

text \<open>The row a submission ends up as.\<close>

definition stored_row :: "memory_candidate \<Rightarrow> f32 \<Rightarrow> memory_status \<Rightarrow> uuid \<Rightarrow> memory_row \<Rightarrow> bool" where
  "stored_row c importance status i r \<longleftrightarrow>
     c_memory_id r = i \<and> c_content r = mc_content c \<and> c_tenant_id r = mc_tenant_id c \<and>
     c_scope r = scope_as_str (mc_scope c) \<and> c_confidence r = mc_confidence c \<and>
     c_importance r = importance \<and> c_status r = memory_status_as_str status \<and>
     (c_valid_from r = None \<longleftrightarrow> status = Candidate)"

lemma update_status_last:
  assumes "repo_update_status i st w = (Inr u, w')" and "memory_items w = rows @ [x]"
    and "i \<notin> c_memory_id ` set rows" and "c_memory_id x = i"
  shows "\<exists>t t'. w' = w\<lparr>tick := t, memory_items :=
     rows @ [x\<lparr>c_status := memory_status_as_str st, c_updated_at := t'\<rparr>]\<rparr>"
proof -
  obtain n w1 where n: "update_memory_row i (\<lambda>t r. r\<lparr>c_status := memory_status_as_str st, c_updated_at := t\<rparr>) w = (Inr n, w1)"
    and "w' = w1"
    using assms(1) unfolding repo_update_status_def
    by (auto elim!: bindE_InrE simp: ret_def throw_def split: if_splits)
  then show ?thesis using update_memory_row_last [OF n assms(2-4)] by simp
qed

lemma production_insert_InrD:
  assumes "production_insert c importance status w = (Inr i, w')"
  shows "\<exists>t r. w' = w\<lparr>tick := t, memory_items := memory_items w @ [r]\<rparr> \<and> stored_row c importance status i r"
proof -
  obtain w1 n w2 u where ins: "repo_insert c w = (Inr i, w1)"
    and upd: "update_memory_row i (\<lambda>t r. r\<lparr>c_importance := importance, c_updated_at := t\<rparr>) w1 = (Inr n, w2)"
    and act: "(if status = Candidate then ret ()
            else bindE (map_err write_of_repo_error (repo_update_status i status)) (\<lambda>_.
                 bindE (map_err WriteDatabase (update_memory_row i (\<lambda>t r.
                    if c_valid_from r = None then r\<lparr>c_valid_from := Some t\<rparr> else r))) (\<lambda>_.
                 ret ()))) w2 = (Inr u, w')"
    using assms unfolding production_insert_def by (auto simp: ret_def elim!: bindE_InrE)
  obtain t1 t2 where w1: "w1 = w\<lparr>tick := t1, memory_items := memory_items w @ [row_of_candidate i c t2]\<rparr>"
    and new: "i \<notin> c_memory_id ` set (memory_items w)" using repo_insert_InrD [OF ins] by blast
  obtain t3 t4 where w2: "w2 = w1\<lparr>tick := t3, memory_items := memory_items w @
      [(row_of_candidate i c t2)\<lparr>c_importance := importance, c_updated_at := t4\<rparr>]\<rparr>"
    using update_memory_row_last [OF upd _ new] w1 by auto
  show ?thesis
  proof (cases "status = Candidate")
    case True
    then have "w' = w2" using act by (simp add: ret_def)
    then have "w' = w\<lparr>tick := t3, memory_items := memory_items w @
        [(row_of_candidate i c t2)\<lparr>c_importance := importance, c_updated_at := t4\<rparr>]\<rparr>"
      using w1 w2 by simp
    moreover have "stored_row c importance status i
        ((row_of_candidate i c t2)\<lparr>c_importance := importance, c_updated_at := t4\<rparr>)"
      using True by (simp add: stored_row_def row_of_candidate_def)
    ultimately show ?thesis by blast
  next
    case False
    then obtain u' w3 n' where st: "repo_update_status i status w2 = (Inr u', w3)"
      and vf: "update_memory_row i (\<lambda>t r. if c_valid_from r = None then r\<lparr>c_valid_from := Some t\<rparr> else r) w3 = (Inr n', w')"
      using act by (auto simp: ret_def elim!: bindE_InrE)
    obtain t5 t6 where w3: "w3 = w2\<lparr>tick := t5, memory_items := memory_items w @
        [(row_of_candidate i c t2)\<lparr>c_importance := importance, c_updated_at := t4,
           c_status := memory_status_as_str status, c_updated_at := t6\<rparr>]\<rparr>"
      using update_status_last [OF st _ new] w2 by auto
    obtain t7 t8 where "w' = w3\<lparr>tick := t7, memory_items := memory_items w @
        [(row_of_candidate i c t2)\<lparr>c_importance := importance, c_updated_at := t4,
           c_status := memory_status_as_str status, c_updated_at := t6, c_valid_from := Some t8\<rparr>]\<rparr>"
      using update_memory_row_last [OF vf _ new] w3 by (auto simp: row_of_candidate_def)
    then have "w' = w\<lparr>tick := t7, memory_items := memory_items w @
        [(row_of_candidate i c t2)\<lparr>c_importance := importance, c_updated_at := t4,
           c_status := memory_status_as_str status, c_updated_at := t6, c_valid_from := Some t8\<rparr>]\<rparr>"
      using w1 w2 w3 by simp
    moreover have "stored_row c importance status i
        ((row_of_candidate i c t2)\<lparr>c_importance := importance, c_updated_at := t4,
           c_status := memory_status_as_str status, c_updated_at := t6, c_valid_from := Some t8\<rparr>)"
      using False by (simp add: stored_row_def row_of_candidate_def)
    ultimately show ?thesis by blast
  qed
qed

lemma outbox_enqueue_InrD:
  assumes "outbox_enqueue ty agg payload w = (Inr e, w')"
  shows "\<exists>t t'. w' = w\<lparr>tick := t, outbox_events := outbox_events w @ [new_outbox_row e ty agg payload t']\<rparr>"
  using assms by (auto simp: outbox_enqueue_def new_v4_def monad_defs exec_def split: if_splits)

lemma store_stage_InrD:
  assumes "store_stage (from_pool_with_policy split_words ilike guard policies) sub verdict summary dup w = (Inr r, w')"
  shows "\<exists>t t' row c. w' = w\<lparr>tick := t, memory_items := memory_items w @ [row],
         outbox_events := outbox_events w @ [new_outbox_row (wr_outbox_event_id r) MemoryProposed (wr_memory_id r)
           (proposal_payload sub (wr_memory_id r) (wr_importance r) (wr_status r) dup
              (map_option rp_policy_id (get_policy policies (cs_scope sub) (cs_memory_type sub))) summary) t']\<rparr> \<and>
     stored_row c (wr_importance r) (wr_status r) (wr_memory_id r) row \<and>
     mc_content c = Some (cs_content sub) \<and> mc_tenant_id c = cs_tenant_id sub \<and> mc_scope c = cs_scope sub \<and>
     wr_status r = decide_status verdict (cs_confidence sub) (cs_scope sub)"
proof -
  let ?wp = "from_pool_with_policy split_words ilike guard policies"
  let ?imp = "compute_importance (cs_source_type sub) dup"
  let ?st = "decide_status verdict (cs_confidence sub) (cs_scope sub)"
  let ?cand = "\<lambda>refs. if refs = [] then extract_candidate sub else (extract_candidate sub)\<lparr>mc_structured_payload :=
      pack_refs ''linked_entities'' refs (mc_structured_payload (extract_candidate sub))\<rparr>"
  let ?pay = "\<lambda>i. proposal_payload sub i ?imp ?st dup
      (map_option rp_policy_id (get_policy policies (cs_scope sub) (cs_memory_type sub))) summary"
  obtain refs w1 i w2 e where l: "link_stage ?wp sub w = (Inr refs, w1)"
    and ins: "production_insert (?cand refs) ?imp ?st w1 = (Inr i, w2)"
    and enq: "outbox_enqueue MemoryProposed i (?pay i) w2 = (Inr e, w')"
    and r: "r = \<lparr>wr_memory_id = i, wr_status = ?st, wr_importance = ?imp, wr_is_duplicate = dup,
        wr_safety_verdict = summary, wr_outbox_event_id = e\<rparr>"
    using assms unfolding store_stage_def Let_def
    by (auto simp: ret_def from_pool_with_policy_def with_policy_def from_pool_def production_store_def
        production_enqueue_def lookup_retention_policy_def elim!: bindE_InrE)
  obtain t1 where w1: "w1 = w\<lparr>tick := t1\<rparr>" using reads_onlyD [OF reads_only_link_stage l] by blast
  obtain t2 row where w2: "w2 = w1\<lparr>tick := t2, memory_items := memory_items w1 @ [row]\<rparr>"
    and row: "stored_row (?cand refs) ?imp ?st i row" using production_insert_InrD [OF ins] by blast
  obtain t3 t4 where w': "w' = w2\<lparr>tick := t3, outbox_events := outbox_events w2 @
      [new_outbox_row e MemoryProposed i (?pay i) t4]\<rparr>" using outbox_enqueue_InrD [OF enq] by blast
  have "w' = w\<lparr>tick := t3, memory_items := memory_items w @ [row],
      outbox_events := outbox_events w @ [new_outbox_row e MemoryProposed i (?pay i) t4]\<rparr>"
    using w1 w2 w' by simp
  moreover have "mc_content (?cand refs) = Some (cs_content sub)" "mc_tenant_id (?cand refs) = cs_tenant_id sub"
    "mc_scope (?cand refs) = cs_scope sub" by (simp_all add: extract_candidate_def)
  ultimately show ?thesis
    using r row by (intro exI [of _ t3] exI [of _ t4] exI [of _ row] exI [of _ "?cand refs"]) simp
qed

section \<open>Properties\<close>

text \<open>
  C37 (safety).  A submission whose content carries a secret or a severe attack pattern is rejected
  by any pipeline, whatever its backends, before anything is read or written: the error is
  the guard's and the state is untouched.
\<close>

theorem hostile_submission_rejected:
  assumes "carries_secret (cs_content sub) \<or> (\<exists>p \<in> severe_patterns. str_contains (lower (cs_content sub)) p)"
  shows "\<exists>detail. submit_candidate lower sha256_hex wp sub s = (Inl (PoisonBlocked detail), s)"
proof -
  have "\<exists>f \<in> set (scan_findings lower (cs_content sub)). f_severity f = High"
    using assms secret_finding severe_finding by metis
  then have "is_blocked (scan lower (wp_poison_guard wp) (cs_content sub) (to_poison_source_type (cs_source_type sub)))"
    using is_blocked_High by blast
  then show ?thesis
    by (auto simp: submit_candidate_def is_blocked_def throw_def Let_def split: safety_verdict.splits)
qed

definition demo_submission :: "string \<Rightarrow> candidate_submission" where
  "demo_submission content = candidate_submission_default\<lparr>cs_content := content, cs_source_type := UserExplicit,
     cs_confidence := f32_0_9\<rparr>"

theorem hostile_submission_rejected_witness:
  "\<exists>detail. submit_candidate ascii_lowercase id (with_backends production_store production_enqueue poison_guard_new)
     (demo_submission ''then DROP TABLE memory_item'') empty_world = (Inl (PoisonBlocked detail), empty_world)"
proof (rule hostile_submission_rejected, rule disjI2, rule bexI)
  show "str_contains (ascii_lowercase (cs_content (demo_submission ''then DROP TABLE memory_item''))) ''drop table''"
    by code_simp
  show "''drop table'' \<in> severe_patterns"
    by (simp add: severe_patterns_def UNAUTHORIZED_COMMAND_PATTERNS_def) blast
qed

text \<open>
  C4 (functional).  A submission the production pipeline accepts adds exactly one memory row and one
  pending proposal event that names it; the row has the submitted content, tenant and scored
  importance, and it is active (with its validity started) exactly when the scan was clean,
  the confidence reaches the threshold and the scope is personal, task or agent.
\<close>

theorem submission_stored:
  assumes "submit_candidate lower sha256_hex (from_pool_with_policy split_words ilike guard policies) sub w = (Inr r, w')"
  shows "\<exists>row event. memory_items w' = memory_items w @ [row] \<and> outbox_events w' = outbox_events w @ [event] \<and>
     c_memory_id row = wr_memory_id r \<and> c_content row = Some (cs_content sub) \<and> c_tenant_id row = cs_tenant_id sub \<and>
     c_importance row = wr_importance r \<and> c_status row = memory_status_as_str (wr_status r) \<and>
     (c_valid_from row = None \<longleftrightarrow> wr_status r = Candidate) \<and>
     (wr_status r = Active \<longleftrightarrow>
        scan lower guard (cs_content sub) (to_poison_source_type (cs_source_type sub)) = Safe \<and>
        f32_ge (cs_confidence sub) CONFIDENCE_THRESHOLD \<and> \<not> is_high_scope (cs_scope sub)) \<and>
     o_event_type event = ''MEMORY_PROPOSED'' \<and> o_status event = ''pending'' \<and>
     o_aggregate_id event = wr_memory_id r \<and> o_event_id event = wr_outbox_event_id r"
proof -
  let ?wp = "from_pool_with_policy split_words ilike guard policies"
  let ?v = "scan lower guard (cs_content sub) (to_poison_source_type (cs_source_type sub))"
  have wp: "wp_poison_guard ?wp = guard" "ms_list_by_tenant (wp_store ?wp) = production_list"
    by (simp_all add: from_pool_with_policy_def with_policy_def from_pool_def production_store_def)
  obtain existing w1 summary where l: "production_list (cs_tenant_id sub) (Some Active) 100 0 w = (Inr existing, w1)"
    and st: "store_stage ?wp sub ?v summary
        (check_duplicate lower sha256_hex existing (cs_content sub) (cs_subject_type sub) (cs_subject_id sub)) w1 = (Inr r, w')"
    and nb: "\<not> is_blocked ?v"
    using assms unfolding submit_candidate_def Let_def wp
    by (auto simp: throw_def is_blocked_def elim!: bindE_InrE split: safety_verdict.splits)
  obtain t where w1: "w1 = w\<lparr>tick := t\<rparr>" using reads_onlyD [OF reads_only_production_list l] by blast
  have "decide_status ?v (cs_confidence sub) (cs_scope sub) = Active \<longleftrightarrow>
      ?v = Safe \<and> f32_ge (cs_confidence sub) CONFIDENCE_THRESHOLD \<and> \<not> is_high_scope (cs_scope sub)"
    using nb by (auto simp: decide_status_def is_blocked_def split: safety_verdict.splits)
  then show ?thesis
    using store_stage_InrD [OF st] w1 by (auto simp: stored_row_def new_outbox_row_def)
qed

lemma demo_submission_accepted:
  "case fst (submit_candidate ascii_lowercase id (from_pool_with_policy (\<lambda>s. [s]) (\<lambda>_ _. False) poison_guard_new [])
     (demo_submission ''likes tea'') empty_world) of Inr r \<Rightarrow> wr_status r = Active | Inl _ \<Rightarrow> False"
  by code_simp

theorem submission_stored_witness:
  "\<exists>r w'. submit_candidate ascii_lowercase id (from_pool_with_policy (\<lambda>s. [s]) (\<lambda>_ _. False) poison_guard_new [])
     (demo_submission ''likes tea'') empty_world = (Inr r, w') \<and>
   (\<exists>row event. memory_items w' = memory_items empty_world @ [row] \<and>
     outbox_events w' = outbox_events empty_world @ [event] \<and>
     c_content row = Some ''likes tea'' \<and> o_aggregate_id event = wr_memory_id r)"
proof -
  obtain r w' where run: "submit_candidate ascii_lowercase id
      (from_pool_with_policy (\<lambda>s. [s]) (\<lambda>_ _. False) poison_guard_new [])
      (demo_submission ''likes tea'') empty_world = (Inr r, w')"
    using demo_submission_accepted by (auto split: sum.splits simp: prod_eq_iff)
  then show ?thesis using submission_stored [OF run] by (auto simp: demo_submission_def)
qed

text \<open>The scores of all sources, evaluated.\<close>

lemma importance_table [simp]:
  "compute_importance Iam True = Fin (6081741 / 8388608)"
  "compute_importance Iam False = Fin (15938355 / 16777216)"
  "compute_importance Hr True = Fin (6081741 / 8388608)"
  "compute_importance Hr False = Fin (15938355 / 16777216)"
  "compute_importance UserExplicit True = Fin (11744051 / 16777216)"
  "compute_importance UserExplicit False = Fin (7549747 / 8388608)"
  "compute_importance BusinessEvent True = Fin (11324621 / 16777216)"
  "compute_importance BusinessEvent False = Fin (7130317 / 8388608)"
  "compute_importance ToolResult True = Fin (5 / 8)"
  "compute_importance ToolResult False = Fin (3 / 4)"
  "compute_importance AgentInferred True = Fin (9646899 / 16777216)"
  "compute_importance AgentInferred False = Fin (5452595 / 8388608)"
  by code_simp+

text \<open>
  The importance of a stored memory lies between a half and one, a duplicate is scored
  strictly lower than a novel memory of the same source, and a source of higher authority
  never scores lower.
\<close>

theorem importance_bounds:
  "f32_ge (compute_importance st dup) f32_half \<and> f32_lt (compute_importance st dup) f32_one \<and>
   f32_lt (compute_importance st True) (compute_importance st False) \<and>
   (authority_rank (source_to_authority_level st) < authority_rank (source_to_authority_level st') \<longrightarrow>
      f32_ge (compute_importance st' dup) (compute_importance st dup))"
  by (cases st; cases st'; cases dup) (simp_all add: f32_half_def f32_one_def)

theorem importance_bounds_witness:
  "f32_ge (compute_importance Iam False) (compute_importance AgentInferred False)"
  using importance_bounds [of AgentInferred False Iam] by simp

text \<open>
  With a collision-free digest, a submission counts as a duplicate exactly when some
  listed memory has the same content up to surrounding white space and letter case, or the
  same subject.
\<close>

theorem duplicate_iff:
  assumes "inj sha256_hex"
  shows "check_duplicate lower sha256_hex existing content subject_type subject_id \<longleftrightarrow>
     (\<exists>item \<in> set existing. (\<exists>c. mi_content item = Some c \<and> lower (trim c) = lower (trim content)) \<or>
        (subject_type \<noteq> None \<and> subject_id \<noteq> None \<and>
         mi_subject_type item = subject_type \<and> mi_subject_id item = subject_id))"
proof -
  have "(case mi_content item of Some c \<Rightarrow> content_hash lower sha256_hex c = content_hash lower sha256_hex content
      | None \<Rightarrow> False) \<longleftrightarrow> (\<exists>c. mi_content item = Some c \<and> lower (trim c) = lower (trim content))" for item :: memory_item
    using assms by (auto simp: content_hash_def inj_eq split: option.splits)
  moreover have "(case (subject_type, subject_id) of
        (Some st, Some sid) \<Rightarrow> mi_subject_type item = Some st \<and> mi_subject_id item = Some sid | _ \<Rightarrow> False) \<longleftrightarrow>
      subject_type \<noteq> None \<and> subject_id \<noteq> None \<and> mi_subject_type item = subject_type \<and>
      mi_subject_id item = subject_id" for item :: memory_item
    by (auto split: option.splits)
  ultimately show ?thesis by (simp only: check_duplicate_def Let_def list_ex_iff)
qed

theorem duplicate_iff_witness:
  "check_duplicate ascii_lowercase id [map_row_to_memory_item (row_of_id ''a'')] '' FACT '' None None"
proof -
  have "mi_content (map_row_to_memory_item (row_of_id ''a'')) = Some ''fact''"
    by (simp add: map_row_to_memory_item_def row_of_id_def)
  moreover have "ascii_lowercase (trim ''fact'') = ascii_lowercase (trim '' FACT '')" by code_simp
  ultimately show ?thesis
    unfolding duplicate_iff [OF inj_on_id] by auto
qed

text \<open>
  The event a successful submission enqueues can never be dispatched: the queue's decoder
  reads its type as a user-context update, for which the payload lacks the tenant, so every
  attempt fails, whatever the retry count, without touching a key.
\<close>

theorem proposal_event_undeliverable:
  "process_event scans wk (map_row_to_outbox_event
      (new_outbox_row e MemoryProposed i (proposal_payload sub i importance st dup policy summary) t)) w =
     (Inl (SerializationErr ''missing or invalid field: tenant_id''), w) \<and>
   process_event scans wk (map_row_to_outbox_event
      (new_outbox_row e MemoryProposed i (augment_retry_count (proposal_payload sub i importance st dup policy summary) n) t)) w =
     (Inl (SerializationErr ''missing or invalid field: tenant_id''), w)"
proof -
  have none: "json_get (proposal_payload sub i importance st dup policy summary) ''tenant_id'' = None"
    "json_get (augment_retry_count (proposal_payload sub i importance st dup policy summary) n) ''tenant_id'' = None"
    by (simp_all add: proposal_payload_def augment_retry_count_def Let_def split: option.splits)
  show ?thesis
    by (simp add: process_event_def compute_invalidation_actions_def map_row_to_outbox_event_def
        new_outbox_row_def parse_event_type_def payload_str_def none throw_def)
qed

end
