(* ===== verification/Router.thy ===== *)
theory Router
  imports Prelude "HOL-Library.Word"
begin

text \<open>
  \<open>context_router.rs\<close>: the intent of a request, the sources and budgets of its plan, and the
  whole-word matcher behind intent detection.  The matcher's loop is shown equivalent to
  the existence of a bounded occurrence, the plans to form an escalation ladder.
\<close>

section \<open>Whole-word matching\<close>

text \<open>\<open>str::find\<close>: the position of the first occurrence.\<close>

definition str_find :: "string \<Rightarrow> string \<Rightarrow> nat option" where
  "str_find h n = find (\<lambda>i. prefix n (drop i h)) [0..<Suc (length h)]"

definition before_ok :: "string \<Rightarrow> nat \<Rightarrow> bool" where
  "before_ok h start \<longleftrightarrow> start = 0 \<or> \<not> is_ascii_alphanumeric (h ! (start - 1))"

definition after_ok :: "string \<Rightarrow> nat \<Rightarrow> bool" where
  "after_ok h e \<longleftrightarrow> e = length h \<or> \<not> is_ascii_alphanumeric (h ! e)"

lemma str_find_Some:
  "str_find h n = Some i \<Longrightarrow> prefix n (drop i h) \<and> i \<le> length h \<and> (\<forall>j < i. \<not> prefix n (drop j h))"
  unfolding str_find_def find_Some_iff by (auto simp del: upt_Suc)

lemma str_find_None: "str_find h n = None \<Longrightarrow> n \<noteq> [] \<Longrightarrow> \<not> prefix n (drop i h)"
  unfolding str_find_def find_None_notin
  by (cases "i \<le> length h") (auto simp del: upt_Suc simp: less_Suc_eq_le)

lemma str_find_progress:
  assumes "str_find (drop from h) n = Some rel" and "n \<noteq> []"
  shows "from + rel + length n \<le> length h" and "from < length h"
proof -
  have "length n \<le> length (drop rel (drop from h))"
    using str_find_Some [OF assms(1)] prefix_length_le by blast
  then have "length n \<le> length h - (rel + from)" by simp
  moreover have "length n > 0" using assms(2) by simp
  ultimately show "from + rel + length n \<le> length h" "from < length h" by linarith+
qed

function match_loop :: "string \<Rightarrow> string \<Rightarrow> nat \<Rightarrow> bool" where
  "match_loop h n from =
     (if n = [] then False
      else case str_find (drop from h) n of
        None \<Rightarrow> False
      | Some rel \<Rightarrow>
          let start = from + rel; e = start + length n
          in if before_ok h start \<and> after_ok h e then True else match_loop h n e)"
  by pat_completeness auto

termination match_loop
proof (relation "measure (\<lambda>(h, n, from). length h - from)")
  fix h n "from" rel start e
  assume "n \<noteq> []" "str_find (drop from h) n = Some rel" "start = from + rel" "e = start + length n"
  then show "((h, n, e), h, n, from) \<in> measure (\<lambda>(h, n, from). length h - from)"
    using str_find_progress [of "from" h n rel] by (auto intro!: diff_less_mono2)
qed simp

declare match_loop.simps [simp del]

definition matches_word :: "string \<Rightarrow> string \<Rightarrow> bool" where
  "matches_word haystack needle =
     (if length needle = 0 \<or> length needle > length haystack then False
      else match_loop haystack needle 0)"

section \<open>Intents and plans\<close>

datatype request_intent = Chat | PersonalTask | BusinessQuery | CrossAgentTask | DecisionSupport | DeepResearch

fun request_intent_as_str :: "request_intent \<Rightarrow> string" where
  "request_intent_as_str Chat = ''chat''"
| "request_intent_as_str PersonalTask = ''personal_task''"
| "request_intent_as_str BusinessQuery = ''business_query''"
| "request_intent_as_str CrossAgentTask = ''cross_agent_task''"
| "request_intent_as_str DecisionSupport = ''decision_support''"
| "request_intent_as_str DeepResearch = ''deep_research''"

text \<open>\<open>u64\<close> and \<open>usize\<close> are 64-bit words.\<close>

record routing_plan =
  pl_intent :: request_intent
  pl_hot_context :: bool
  pl_canonical_user :: bool
  pl_shared_task :: bool
  pl_structured_search :: bool
  pl_vector_search :: bool
  pl_graph_search :: bool
  pl_sot_verification :: bool
  pl_latency_budget_ms :: "64 word"
  pl_token_budget :: "64 word"

text \<open>The router does not read the identity of a request.\<close>

record 'i route_request =
  rr_identity :: 'i
  rr_query :: string
  rr_intent :: "request_intent option"
  rr_task_id :: "uuid option"
  rr_max_latency_ms :: "64 word option"
  rr_max_tokens :: "64 word option"

record context_router =
  default_token_budget :: "64 word"

definition context_router_default :: context_router where
  "context_router_default = \<lparr>default_token_budget = 4096\<rparr>"

definition with_token_budget :: "64 word \<Rightarrow> context_router" where
  "with_token_budget b = \<lparr>default_token_budget = b\<rparr>"

fun latency_for :: "request_intent \<Rightarrow> 64 word" where
  "latency_for Chat = 60"
| "latency_for PersonalTask = 120"
| "latency_for BusinessQuery = 200"
| "latency_for CrossAgentTask = 200"
| "latency_for DecisionSupport = 500"
| "latency_for DeepResearch = 800"

fun tokens_for :: "request_intent \<Rightarrow> 64 word \<Rightarrow> 64 word" where
  "tokens_for Chat base = base div 2"
| "tokens_for PersonalTask base = base"
| "tokens_for BusinessQuery base = base"
| "tokens_for CrossAgentTask base = base * 3 div 2"
| "tokens_for DecisionSupport base = base * 2"
| "tokens_for DeepResearch base = base * 2"

definition plan_for_intent :: "request_intent \<Rightarrow> 64 word \<Rightarrow> routing_plan" where
  "plan_for_intent intent base =
     (let plan = (\<lambda>user task structured vector graph sot. \<lparr>
        pl_intent = intent, pl_hot_context = True, pl_canonical_user = user, pl_shared_task = task,
        pl_structured_search = structured, pl_vector_search = vector, pl_graph_search = graph,
        pl_sot_verification = sot, pl_latency_budget_ms = latency_for intent,
        pl_token_budget = tokens_for intent base\<rparr>)
      in case intent of
           Chat \<Rightarrow> plan False False False False False False
         | PersonalTask \<Rightarrow> plan True False False False False False
         | BusinessQuery \<Rightarrow> plan True False True False False False
         | CrossAgentTask \<Rightarrow> plan True True True False False False
         | DecisionSupport \<Rightarrow> plan True True True True False True
         | DeepResearch \<Rightarrow> plan True True True True True True)"

definition DECISION :: "string list" where
  "DECISION = [''decision'', ''decide'', ''recommend'', ''should we'']"

definition RESEARCH :: "string list" where
  "RESEARCH = [''research'', ''analyze'', ''investigate'', ''compare'']"

definition BUSINESS :: "string list" where
  "BUSINESS = [''product'', ''order'', ''supplier'', ''quality'']"

definition PERSONAL :: "string list" where
  "PERSONAL = [''my'', ''i'']"

definition detect_intent :: "lowercase \<Rightarrow> string \<Rightarrow> request_intent" where
  "detect_intent lower query =
     (let q = lower query in
      if list_ex (matches_word q) DECISION then DecisionSupport
      else if list_ex (matches_word q) RESEARCH then DeepResearch
      else if list_ex (matches_word q) BUSINESS then BusinessQuery
      else if list_ex (matches_word q) PERSONAL then PersonalTask
      else Chat)"

definition route :: "lowercase \<Rightarrow> context_router \<Rightarrow> 'i route_request \<Rightarrow> routing_plan" where
  "route lower router req =
     (let intent = (case rr_intent req of
            Some i \<Rightarrow> i
          | None \<Rightarrow> (case rr_task_id req of Some _ \<Rightarrow> CrossAgentTask | None \<Rightarrow> detect_intent lower (rr_query req)));
          plan = plan_for_intent intent (default_token_budget router);
          plan1 = (case rr_max_latency_ms req of
             Some cap \<Rightarrow> plan\<lparr>pl_latency_budget_ms := min (pl_latency_budget_ms plan) cap\<rparr> | None \<Rightarrow> plan)
      in case rr_max_tokens req of
           Some cap \<Rightarrow> plan1\<lparr>pl_token_budget := min (pl_token_budget plan1) cap\<rparr> | None \<Rightarrow> plan1)"

section \<open>The matcher\<close>

text \<open>
  After a rejected occurrence the loop resumes at its end, so an occurrence that overlaps it
  is not tried.  That is harmless for a needle none of whose overlaps with itself starts
  after a separator.
\<close>

definition no_overlap :: "string \<Rightarrow> bool" where
  "no_overlap n = list_all (\<lambda>k. is_ascii_alphanumeric (n ! (k - 1)) \<or> drop k n \<noteq> take (length n - k) n) [1..<length n]"

definition bounded_at :: "string \<Rightarrow> string \<Rightarrow> nat \<Rightarrow> bool" where
  "bounded_at h n p \<longleftrightarrow> p \<le> length h \<and> prefix n (drop p h) \<and> before_ok h p \<and> after_ok h (p + length n)"

lemma overlap_excluded:
  assumes "no_overlap n" and "prefix n (drop s h)" and "prefix n (drop p h)" and "s < p" and "p < s + length n"
  shows "\<not> before_ok h p"
proof -
  define k where "k = p - s"
  have k: "0 < k" "k < length n" "p = s + k" using assms(4,5) by (auto simp: k_def)
  obtain z where z: "drop s h = n @ z" using assms(2) by (auto simp: prefix_def)
  have "drop p h = drop k (drop s h)" using k(3) by (simp add: add.commute)
  then have dp: "drop p h = drop k n @ z" using z k(2) by simp
  obtain y where "drop p h = n @ y" using assms(3) by (auto simp: prefix_def)
  then have "take (length n - k) (drop k n @ z) = take (length n - k) (n @ y)" using dp by simp
  then have "drop k n = take (length n - k) n" using k by simp
  then have "is_ascii_alphanumeric (n ! (k - 1))"
    using assms(1) k unfolding no_overlap_def list_all_iff by (auto simp: Suc_le_eq)
  moreover have "h ! (p - 1) = n ! (k - 1)"
  proof -
    have "s < length h" using z k(2) by (cases "s < length h") auto
    then have "drop s h ! (k - 1) = h ! (s + (k - 1))" by (intro nth_drop) simp
    moreover have "k - 1 < length n" using k(2) by simp
    ultimately show ?thesis using z k by (simp add: nth_append)
  qed
  ultimately show ?thesis using k by (simp add: before_ok_def)
qed

lemma match_loop_iff:
  assumes "no_overlap n" and "n \<noteq> []" and "from \<le> length h"
  shows "match_loop h n from \<longleftrightarrow> (\<exists>p \<ge> from. bounded_at h n p)"
  using assms
proof (induction h n "from" rule: match_loop.induct)
  case (1 h n "from")
  show ?case
  proof (cases "str_find (drop from h) n")
    case None
    have "\<not> prefix n (drop p h)" if "p \<ge> from" for p
      using str_find_None [OF None, of "p - from"] "1.prems"(2) that by (simp add: add.commute)
    then show ?thesis using None by (subst match_loop.simps) (auto simp: bounded_at_def)
  next
    case (Some rel)
    define s where "s = from + rel"
    have pre: "prefix n (drop s h)" and first: "\<forall>p. from \<le> p \<longrightarrow> p < s \<longrightarrow> \<not> prefix n (drop p h)"
    proof -
      show "prefix n (drop s h)" using str_find_Some [OF Some] by (simp add: s_def add.commute)
      have "\<not> prefix n (drop (p - from) (drop from h))" if "from \<le> p" "p < s" for p
      proof -
        have "p - from < rel" using that by (simp add: s_def less_diff_conv2)
        then show ?thesis using str_find_Some [OF Some] by blast
      qed
      then show "\<forall>p. from \<le> p \<longrightarrow> p < s \<longrightarrow> \<not> prefix n (drop p h)" by simp
    qed
    have len: "s + length n \<le> length h" "s \<le> length h"
      using str_find_progress [OF Some "1.prems"(2)] by (simp_all add: s_def)
    show ?thesis
    proof (cases "before_ok h s \<and> after_ok h (s + length n)")
      case True
      then have "bounded_at h n s" using pre len by (simp add: bounded_at_def)
      then have "\<exists>p \<ge> from. bounded_at h n p" by (intro exI [of _ s]) (simp add: s_def)
      moreover have "match_loop h n from"
        using True Some "1.prems"(2) by (subst match_loop.simps) (simp add: s_def [symmetric] Let_def)
      ultimately show ?thesis by simp
    next
      case False
      have "(\<exists>p \<ge> from. bounded_at h n p) \<longleftrightarrow> (\<exists>p \<ge> s + length n. bounded_at h n p)"
      proof
        assume "\<exists>p \<ge> from. bounded_at h n p"
        then obtain p where p: "p \<ge> from" "bounded_at h n p" by blast
        then have "p \<ge> s" using first by (auto simp: bounded_at_def not_less [symmetric])
        moreover have "p \<noteq> s" using False p(2) by (auto simp: bounded_at_def)
        moreover have "\<not> p < s + length n" if "s < p"
          using overlap_excluded [OF "1.prems"(1) pre _ that] p(2) by (auto simp: bounded_at_def)
        ultimately show "\<exists>p \<ge> s + length n. bounded_at h n p" using p(2) by (auto simp: not_less)
      next
        assume "\<exists>p \<ge> s + length n. bounded_at h n p"
        then obtain p where "p \<ge> s + length n" "bounded_at h n p" by blast
        then show "\<exists>p \<ge> from. bounded_at h n p" by (intro exI [of _ p]) (simp add: s_def)
      qed
      moreover have "match_loop h n from = match_loop h n (s + length n)"
        using False Some "1.prems"(2) by (subst match_loop.simps) (auto simp: s_def Let_def)
      moreover have "match_loop h n (s + length n) \<longleftrightarrow> (\<exists>p \<ge> s + length n. bounded_at h n p)"
        using "1.IH" [OF "1.prems"(2) Some s_def refl] False "1.prems"(1,2) len by simp
      ultimately show ?thesis by simp
    qed
  qed
qed

text \<open>\<open>has_word h n\<close>: \<open>n\<close> stands in \<open>h\<close> between separators or the ends.\<close>

definition has_word :: "string \<Rightarrow> string \<Rightarrow> bool" where
  "has_word h n \<longleftrightarrow> (\<exists>a b. h = a @ n @ b \<and> (a = [] \<or> \<not> is_ascii_alphanumeric (last a)) \<and>
     (b = [] \<or> \<not> is_ascii_alphanumeric (hd b)))"

lemma bounded_at_word: "n \<noteq> [] \<Longrightarrow> (\<exists>p. bounded_at h n p) \<longleftrightarrow> has_word h n"
proof
  assume "\<exists>p. bounded_at h n p"
  then obtain p b where p: "p \<le> length h" "drop p h = n @ b" "before_ok h p" "after_ok h (p + length n)"
    by (auto simp: bounded_at_def prefix_def)
  then have h: "h = take p h @ n @ b" by (metis append_take_drop_id)
  have "take p h = [] \<or> \<not> is_ascii_alphanumeric (last (take p h))"
    using p(1,3) by (cases "p = 0") (auto simp: before_ok_def last_conv_nth min_def split: if_splits)
  moreover have "b = [] \<or> \<not> is_ascii_alphanumeric (hd b)"
  proof (cases b)
    case (Cons c cs)
    have "h ! (p + length n) = drop p h ! length n" using p(1) by simp
    then have "h ! (p + length n) = c" using p(2) Cons by (simp add: nth_append)
    moreover have "p + length n < length h"
    proof -
      have "length (drop p h) = length n + Suc (length cs)" using p(2) Cons by simp
      then show ?thesis using p(1) by simp
    qed
    ultimately show ?thesis using p(4) Cons by (simp add: after_ok_def)
  qed simp
  ultimately show "has_word h n" unfolding has_word_def using h by blast
next
  assume "n \<noteq> []" and "has_word h n"
  then obtain a b where h: "h = a @ n @ b" and a: "a = [] \<or> \<not> is_ascii_alphanumeric (last a)"
    and b: "b = [] \<or> \<not> is_ascii_alphanumeric (hd b)" by (auto simp: has_word_def)
  have "bounded_at h n (length a)"
    using a b unfolding bounded_at_def before_ok_def after_ok_def h
    by (auto simp: nth_append last_conv_nth hd_conv_nth)
  then show "\<exists>p. bounded_at h n p" by blast
qed

lemma matches_word_iff:
  assumes "no_overlap n" and "n \<noteq> []"
  shows "matches_word h n \<longleftrightarrow> has_word h n"
proof (cases "length n > length h")
  case True
  then have "\<not> has_word h n" by (auto simp: has_word_def)
  then show ?thesis using True by (simp add: matches_word_def)
next
  case False
  then show ?thesis
    using match_loop_iff [OF assms, of 0 h] bounded_at_word [OF assms(2), of h] assms(2)
    by (simp add: matches_word_def)
qed

section \<open>Properties\<close>

lemma keywords_ok:
  "list_all (\<lambda>n. n \<noteq> [] \<and> no_overlap n) (DECISION @ RESEARCH @ BUSINESS @ PERSONAL)"
  by code_simp

lemma matches_keyword:
  "list_all (\<lambda>n. n \<noteq> [] \<and> no_overlap n) ks \<Longrightarrow> list_ex (matches_word q) ks \<longleftrightarrow> (\<exists>k \<in> set ks. has_word q k)"
  by (induction ks) (auto simp: matches_word_iff)

text \<open>
  The detected intent is that of the first group, in the order decision, research,
  business, personal, of which a keyword or phrase stands in the lowercased query as a whole
  word, and chat if none does; the scan that skips past rejected matches misses none.
\<close>

theorem detect_intent_words:
  "detect_intent lower query =
     (let word_of = (\<lambda>ks. \<exists>k \<in> set ks. has_word (lower query) k) in
      if word_of DECISION then DecisionSupport
      else if word_of RESEARCH then DeepResearch
      else if word_of BUSINESS then BusinessQuery
      else if word_of PERSONAL then PersonalTask
      else Chat)"
  using keywords_ok by (simp add: detect_intent_def Let_def matches_keyword)

theorem detect_intent_words_witness:
  "detect_intent ascii_lowercase ''the economy of the border'' = Chat \<and>
   (let word_of = (\<lambda>ks. \<exists>k \<in> set ks. has_word (ascii_lowercase ''Should we order?'') k) in
      word_of DECISION \<or> word_of RESEARCH)"
proof
  show "detect_intent ascii_lowercase ''the economy of the border'' = Chat" by code_simp
  have "detect_intent ascii_lowercase ''Should we order?'' = DecisionSupport" by code_simp
  then show "let word_of = (\<lambda>ks. \<exists>k \<in> set ks. has_word (ascii_lowercase ''Should we order?'') k) in
      word_of DECISION \<or> word_of RESEARCH"
    using detect_intent_words [of ascii_lowercase "''Should we order?''"] by (auto simp: Let_def split: if_splits)
qed

fun intent_rank :: "request_intent \<Rightarrow> nat" where
  "intent_rank Chat = 0"
| "intent_rank PersonalTask = 1"
| "intent_rank BusinessQuery = 2"
| "intent_rank CrossAgentTask = 3"
| "intent_rank DecisionSupport = 4"
| "intent_rank DeepResearch = 5"

definition uses_no_more :: "routing_plan \<Rightarrow> routing_plan \<Rightarrow> bool" where
  "uses_no_more p q \<longleftrightarrow> (pl_hot_context p \<longrightarrow> pl_hot_context q) \<and> (pl_canonical_user p \<longrightarrow> pl_canonical_user q) \<and>
     (pl_shared_task p \<longrightarrow> pl_shared_task q) \<and> (pl_structured_search p \<longrightarrow> pl_structured_search q) \<and>
     (pl_vector_search p \<longrightarrow> pl_vector_search q) \<and> (pl_graph_search p \<longrightarrow> pl_graph_search q) \<and>
     (pl_sot_verification p \<longrightarrow> pl_sot_verification q) \<and>
     pl_latency_budget_ms p \<le> pl_latency_budget_ms q \<and> pl_token_budget p \<le> pl_token_budget q"

lemma token_steps:
  fixes base :: "64 word"
  assumes "unat base * 3 < 2 ^ 64"
  shows "base div 2 \<le> base" "base \<le> base * 3 div 2" "base * 3 div 2 \<le> base * 2" "base \<le> base * 2"
proof -
  have m3: "unat (base * 3) = unat base * 3" and m2: "unat (base * 2) = unat base * 2"
    using assms by (simp_all add: unat_word_ariths)
  show "base div 2 \<le> base" "base \<le> base * 3 div 2" "base * 3 div 2 \<le> base * 2" "base \<le> base * 2"
    by (simp_all add: word_le_nat_alt unat_div m3 m2)
qed

text \<open>
  The intents form an escalation ladder: a later intent uses every source of an earlier
  one and has at least its latency and token budgets, as long as three times the base budget
  fits a machine word.
\<close>

theorem escalation_ladder:
  assumes "intent_rank i \<le> intent_rank j" and "unat base * 3 < 2 ^ 64"
  shows "uses_no_more (plan_for_intent i base) (plan_for_intent j base)"
  using assms(1) token_steps [OF assms(2)]
  by (cases i; cases j) (auto simp: uses_no_more_def plan_for_intent_def intro: order.trans)

theorem escalation_ladder_witness:
  "uses_no_more (plan_for_intent BusinessQuery 4096) (plan_for_intent DeepResearch 4096)"
  by (rule escalation_ladder) simp_all

lemma plan_for_intent_simps [simp]:
  "pl_intent (plan_for_intent i base) = i"
  "pl_latency_budget_ms (plan_for_intent i base) = latency_for i"
  "pl_token_budget (plan_for_intent i base) = tokens_for i base"
  by (cases i; simp add: plan_for_intent_def)+

text \<open>A request's caps only tighten its plan.\<close>

lemma route_tightens:
  "pl_latency_budget_ms (route lower router req) \<le> latency_for (pl_intent (route lower router req)) \<and>
   pl_token_budget (route lower router req) \<le> tokens_for (pl_intent (route lower router req)) (default_token_budget router) \<and>
   (\<forall>cap. rr_max_latency_ms req = Some cap \<longrightarrow> pl_latency_budget_ms (route lower router req) \<le> cap) \<and>
   (\<forall>cap. rr_max_tokens req = Some cap \<longrightarrow> pl_token_budget (route lower router req) \<le> cap)"
  by (cases "rr_max_latency_ms req"; cases "rr_max_tokens req") (simp_all add: route_def Let_def)

end
