(* ===== verification/Degradation.thy ===== *)
theory Degradation
  imports Prelude
begin

text \<open>
  \<open>degradation.rs\<close>: the set of failed subsystems, and the level and denial flag derived from
  it.  Run one report at a time, the manager refines the specification that keeps only the
  set.  The code holds the set, the level and the flag under three locks, so the reports are
  also modelled as interleaved steps; there the refinement fails.
\<close>

section \<open>Levels and subsystems\<close>

datatype degradation_level = Normal | PgBaselineOnly | KeywordFallback | NoHotContext | MinimalContext | Deny

datatype subsystem =
  SRedis | SPostgresVector | SPostgresKeyword | SPostgresStructured | SMem0 | SCognee | SGraphiti | SPermissionEngine | SIdentityResolver | SOutboxWorker

fun subsystem_as_str :: "subsystem \<Rightarrow> string" where
  "subsystem_as_str SRedis = ''redis''"
| "subsystem_as_str SPostgresVector = ''postgres_vector''"
| "subsystem_as_str SPostgresKeyword = ''postgres_keyword''"
| "subsystem_as_str SPostgresStructured = ''postgres_structured''"
| "subsystem_as_str SMem0 = ''mem0''"
| "subsystem_as_str SCognee = ''cognee''"
| "subsystem_as_str SGraphiti = ''graphiti''"
| "subsystem_as_str SPermissionEngine = ''permission_engine''"
| "subsystem_as_str SIdentityResolver = ''identity_resolver''"
| "subsystem_as_str SOutboxWorker = ''outbox_worker''"

record degradation_manager =
  dm_current_level :: degradation_level
  dm_degraded_subsystems :: "subsystem set"
  dm_deny_request :: bool

definition degradation_new :: degradation_manager where
  "degradation_new = \<lparr>dm_current_level = Normal, dm_degraded_subsystems = {}, dm_deny_request = False\<rparr>"

text \<open>The pair computed under the read lock.\<close>

definition deny_of :: "subsystem set \<Rightarrow> bool" where
  "deny_of degraded \<longleftrightarrow> SPermissionEngine \<in> degraded \<or> SIdentityResolver \<in> degraded"

definition level_of :: "subsystem set \<Rightarrow> degradation_level" where
  "level_of degraded =
     (let full_recall_down = SPostgresVector \<in> degraded \<and> SPostgresKeyword \<in> degraded \<and>
            SPostgresStructured \<in> degraded;
          vector_down = SPostgresVector \<in> degraded;
          redis_down = SRedis \<in> degraded;
          engines_down = SMem0 \<in> degraded \<or> SCognee \<in> degraded \<or> SGraphiti \<in> degraded
      in if deny_of degraded then Deny
         else if full_recall_down then MinimalContext
         else if vector_down then KeywordFallback
         else if redis_down then NoHotContext
         else if engines_down then PgBaselineOnly
         else Normal)"

definition recompute_level :: "degradation_manager \<Rightarrow> degradation_manager" where
  "recompute_level m =
     (let new_level = level_of (dm_degraded_subsystems m); deny = deny_of (dm_degraded_subsystems m)
      in m\<lparr>dm_current_level := new_level, dm_deny_request := deny\<rparr>)"

definition report_failure :: "subsystem \<Rightarrow> degradation_manager \<Rightarrow> degradation_manager" where
  "report_failure s m = recompute_level (m\<lparr>dm_degraded_subsystems := insert s (dm_degraded_subsystems m)\<rparr>)"

definition report_recovery :: "subsystem \<Rightarrow> degradation_manager \<Rightarrow> degradation_manager" where
  "report_recovery s m = recompute_level (m\<lparr>dm_degraded_subsystems := dm_degraded_subsystems m - {s}\<rparr>)"

definition is_available :: "subsystem \<Rightarrow> degradation_manager \<Rightarrow> bool" where
  "is_available s m \<longleftrightarrow> s \<notin> dm_degraded_subsystems m"

definition must_deny :: "degradation_manager \<Rightarrow> bool" where
  "must_deny m = dm_deny_request m"

text \<open>The annotations are Chinese text, here as its UTF-8 bytes.\<close>

definition degradation_annotation :: "degradation_manager \<Rightarrow> string option" where
  "degradation_annotation m = (case dm_current_level m of
     Normal \<Rightarrow> None
   | PgBaselineOnly \<Rightarrow> Some ([CHR 0xE9, CHR 0x99, CHR 0x8D, CHR 0xE7, CHR 0xBA, CHR 0xA7, CHR 0xE6, CHR 0xA8, CHR 0xA1,
      CHR 0xE5, CHR 0xBC, CHR 0x8F, CHR 0xEF, CHR 0xBC, CHR 0x9A, CHR 0xE5, CHR 0x8F, CHR 0xAF,
      CHR 0xE6, CHR 0x8F, CHR 0x92, CHR 0xE6, CHR 0x8B, CHR 0x94, CHR 0xE5, CHR 0xBC, CHR 0x95,
      CHR 0xE6, CHR 0x93, CHR 0x8E, CHR 0xE4, CHR 0xB8, CHR 0x8D, CHR 0xE5, CHR 0x8F, CHR 0xAF,
      CHR 0xE7, CHR 0x94, CHR 0xA8, CHR 0xEF, CHR 0xBC, CHR 0x8C, CHR 0xE4, CHR 0xBB, CHR 0x85,
      CHR 0xE4, CHR 0xBD, CHR 0xBF, CHR 0xE7, CHR 0x94, CHR 0xA8] @
     '' PostgreSQL '' @
     [CHR 0xE5, CHR 0x9F, CHR 0xBA, CHR 0xE7, CHR 0xBA, CHR 0xBF])
   | KeywordFallback \<Rightarrow> Some ([CHR 0xE9, CHR 0x99, CHR 0x8D, CHR 0xE7, CHR 0xBA, CHR 0xA7, CHR 0xE6, CHR 0xA8, CHR 0xA1,
      CHR 0xE5, CHR 0xBC, CHR 0x8F, CHR 0xEF, CHR 0xBC, CHR 0x9A, CHR 0xE5, CHR 0x90, CHR 0x91,
      CHR 0xE9, CHR 0x87, CHR 0x8F, CHR 0xE6, CHR 0xA3, CHR 0x80, CHR 0xE7, CHR 0xB4, CHR 0xA2,
      CHR 0xE4, CHR 0xB8, CHR 0x8D, CHR 0xE5, CHR 0x8F, CHR 0xAF, CHR 0xE7, CHR 0x94, CHR 0xA8,
      CHR 0xEF, CHR 0xBC, CHR 0x8C, CHR 0xE4, CHR 0xBD, CHR 0xBF, CHR 0xE7, CHR 0x94, CHR 0xA8,
      CHR 0xE5, CHR 0x85, CHR 0xB3, CHR 0xE9, CHR 0x94, CHR 0xAE, CHR 0xE8, CHR 0xAF, CHR 0x8D] @
     ''+'' @
     [CHR 0xE7, CHR 0xBB, CHR 0x93, CHR 0xE6, CHR 0x9E, CHR 0x84, CHR 0xE5, CHR 0x8C, CHR 0x96,
      CHR 0xE6, CHR 0xA3, CHR 0x80, CHR 0xE7, CHR 0xB4, CHR 0xA2])
   | NoHotContext \<Rightarrow> Some ([CHR 0xE9, CHR 0x99, CHR 0x8D, CHR 0xE7, CHR 0xBA, CHR 0xA7, CHR 0xE6, CHR 0xA8, CHR 0xA1,
      CHR 0xE5, CHR 0xBC, CHR 0x8F, CHR 0xEF, CHR 0xBC, CHR 0x9A, CHR 0xE7, CHR 0x83, CHR 0xAD,
      CHR 0xE4, CHR 0xB8, CHR 0x8A, CHR 0xE4, CHR 0xB8, CHR 0x8B, CHR 0xE6, CHR 0x96, CHR 0x87,
      CHR 0xE4, CHR 0xB8, CHR 0x8D, CHR 0xE5, CHR 0x8F, CHR 0xAF, CHR 0xE7, CHR 0x94, CHR 0xA8,
      CHR 0xEF, CHR 0xBC, CHR 0x8C, CHR 0xE7, CHR 0x9B, CHR 0xB4, CHR 0xE6, CHR 0x8E, CHR 0xA5,
      CHR 0xE6, CHR 0x9F, CHR 0xA5, CHR 0xE8, CHR 0xAF, CHR 0xA2] @
     '' PostgreSQL'')
   | MinimalContext \<Rightarrow> Some ([CHR 0xE9, CHR 0x99, CHR 0x8D, CHR 0xE7, CHR 0xBA, CHR 0xA7, CHR 0xE6, CHR 0xA8, CHR 0xA1,
      CHR 0xE5, CHR 0xBC, CHR 0x8F, CHR 0xEF, CHR 0xBC, CHR 0x9A, CHR 0xE5, CHR 0xAE, CHR 0x8C,
      CHR 0xE6, CHR 0x95, CHR 0xB4, CHR 0xE5, CHR 0x8F, CHR 0xAC, CHR 0xE5, CHR 0x9B, CHR 0x9E,
      CHR 0xE4, CHR 0xB8, CHR 0x8D, CHR 0xE5, CHR 0x8F, CHR 0xAF, CHR 0xE7, CHR 0x94, CHR 0xA8,
      CHR 0xEF, CHR 0xBC, CHR 0x8C, CHR 0xE4, CHR 0xBB, CHR 0x85, CHR 0xE8, CHR 0xBF, CHR 0x94,
      CHR 0xE5, CHR 0x9B, CHR 0x9E, CHR 0xE7, CHR 0x83, CHR 0xAD, CHR 0xE4, CHR 0xB8, CHR 0x8A,
      CHR 0xE4, CHR 0xB8, CHR 0x8B, CHR 0xE6, CHR 0x96, CHR 0x87] @
     ''+'' @
     [CHR 0xE8, CHR 0xBA, CHR 0xAB, CHR 0xE4, CHR 0xBB, CHR 0xBD, CHR 0xE4, CHR 0xB8, CHR 0x8A,
      CHR 0xE4, CHR 0xB8, CHR 0x8B, CHR 0xE6, CHR 0x96, CHR 0x87])
   | Deny \<Rightarrow> Some ([CHR 0xE6, CHR 0x8B, CHR 0x92, CHR 0xE7, CHR 0xBB, CHR 0x9D, CHR 0xE8, CHR 0xAF, CHR 0xB7,
      CHR 0xE6, CHR 0xB1, CHR 0x82, CHR 0xEF, CHR 0xBC, CHR 0x9A, CHR 0xE6, CHR 0x9D, CHR 0x83,
      CHR 0xE9, CHR 0x99, CHR 0x90, CHR 0xE6, CHR 0x88, CHR 0x96, CHR 0xE8, CHR 0xBA, CHR 0xAB,
      CHR 0xE4, CHR 0xBB, CHR 0xBD, CHR 0xE6, CHR 0x9C, CHR 0x8D, CHR 0xE5, CHR 0x8A, CHR 0xA1,
      CHR 0xE4, CHR 0xB8, CHR 0x8D, CHR 0xE5, CHR 0x8F, CHR 0xAF, CHR 0xE7, CHR 0x94, CHR 0xA8,
      CHR 0xEF, CHR 0xBC, CHR 0x8C, CHR 0xE4, CHR 0xB8, CHR 0x8D, CHR 0xE6, CHR 0x89, CHR 0xA7,
      CHR 0xE8, CHR 0xA1, CHR 0x8C] @
     '' fail-open''))"

section \<open>One report at a time\<close>

datatype report = ReportFailure subsystem | ReportRecovery subsystem

fun run_report :: "report \<Rightarrow> degradation_manager \<Rightarrow> degradation_manager" where
  "run_report (ReportFailure s) m = report_failure s m"
| "run_report (ReportRecovery s) m = report_recovery s m"

text \<open>
  The specification is written without the code's computations.  A subsystem is failing when a
  failure was reported and no recovery after it.
\<close>

definition failing :: "report list \<Rightarrow> subsystem set" where
  "failing rs = {s. \<exists>before later. rs = before @ ReportFailure s # later \<and> ReportRecovery s \<notin> set later}"

text \<open>
  The documented table: which failures call for which level, and which level is the graver.
  The manager must be at the gravest level called for.
\<close>

fun calls_for :: "subsystem set \<Rightarrow> degradation_level \<Rightarrow> bool" where
  "calls_for failed Normal = True"
| "calls_for failed PgBaselineOnly = (failed \<inter> {SMem0, SCognee, SGraphiti} \<noteq> {})"
| "calls_for failed NoHotContext = (SRedis \<in> failed)"
| "calls_for failed KeywordFallback = (SPostgresVector \<in> failed)"
| "calls_for failed MinimalContext = ({SPostgresVector, SPostgresKeyword, SPostgresStructured} \<subseteq> failed)"
| "calls_for failed Deny = (failed \<inter> {SPermissionEngine, SIdentityResolver} \<noteq> {})"

fun gravity :: "degradation_level \<Rightarrow> nat" where
  "gravity Normal = 0"
| "gravity PgBaselineOnly = 1"
| "gravity NoHotContext = 2"
| "gravity KeywordFallback = 3"
| "gravity MinimalContext = 4"
| "gravity Deny = 5"

lemma failing_Nil [simp]: "failing [] = {}"
  by (simp add: failing_def)

lemma failing_snoc_failure: "failing (rs @ [ReportFailure s]) = insert s (failing rs)"
proof (rule set_eqI)
  fix x
  have "x \<in> failing (rs @ [ReportFailure s])" if "x = s \<or> x \<in> failing rs"
    using that
  proof
    assume "x = s"
    then show ?thesis unfolding failing_def by (intro CollectI exI [of _ rs] exI [of _ "[]"]) simp
  next
    assume "x \<in> failing rs"
    then obtain before later where "rs = before @ ReportFailure x # later" "ReportRecovery x \<notin> set later"
      by (auto simp: failing_def)
    then show ?thesis
      unfolding failing_def by (intro CollectI exI [of _ before] exI [of _ "later @ [ReportFailure s]"]) simp
  qed
  moreover have "x = s \<or> x \<in> failing rs" if mem: "x \<in> failing (rs @ [ReportFailure s])"
  proof -
    obtain before later where split: "rs @ [ReportFailure s] = before @ ReportFailure x # later"
      "ReportRecovery x \<notin> set later" using mem by (auto simp: failing_def)
    show ?thesis
    proof (cases later rule: rev_cases)
      case (snoc front r)
      then have "rs = before @ ReportFailure x # front" using split(1) by simp
      then show ?thesis using split(2) snoc by (auto simp: failing_def)
    qed (use split in simp)
  qed
  ultimately show "x \<in> failing (rs @ [ReportFailure s]) \<longleftrightarrow> x \<in> insert s (failing rs)" by blast
qed

lemma failing_snoc_recovery: "failing (rs @ [ReportRecovery s]) = failing rs - {s}"
proof (rule set_eqI)
  fix x
  have "x \<in> failing (rs @ [ReportRecovery s])" if mem: "x \<in> failing rs" and other: "x \<noteq> s"
  proof -
    obtain before later where "rs = before @ ReportFailure x # later" "ReportRecovery x \<notin> set later"
      using mem by (auto simp: failing_def)
    then show ?thesis
      unfolding failing_def using other by (intro CollectI exI [of _ before] exI [of _ "later @ [ReportRecovery s]"]) simp
  qed
  moreover have "x \<in> failing rs \<and> x \<noteq> s" if mem: "x \<in> failing (rs @ [ReportRecovery s])"
  proof -
    obtain before later where split: "rs @ [ReportRecovery s] = before @ ReportFailure x # later"
      "ReportRecovery x \<notin> set later" using mem by (auto simp: failing_def)
    show ?thesis
    proof (cases later rule: rev_cases)
      case (snoc front r)
      then have "rs = before @ ReportFailure x # front" "r = ReportRecovery s" using split(1) by simp_all
      then show ?thesis using split(2) snoc by (auto simp: failing_def)
    qed (use split in simp)
  qed
  ultimately show "x \<in> failing (rs @ [ReportRecovery s]) \<longleftrightarrow> x \<in> failing rs - {s}" by blast
qed

definition represents :: "degradation_manager \<Rightarrow> subsystem set \<Rightarrow> bool" where
  "represents m failed \<longleftrightarrow> dm_degraded_subsystems m = failed \<and> dm_current_level m = level_of failed \<and>
     dm_deny_request m = deny_of failed"

lemma represents_reports: "represents (fold run_report rs degradation_new) (failing rs)"
proof (induction rs rule: rev_induct)
  case Nil
  then show ?case by (simp add: represents_def degradation_new_def level_of_def deny_of_def)
next
  case (snoc r rs)
  then show ?case
    by (cases r) (simp_all add: represents_def report_failure_def report_recovery_def recompute_level_def Let_def
        failing_snoc_failure failing_snoc_recovery)
qed

lemma level_called_for: "calls_for failed (level_of failed)"
  by (auto simp: level_of_def deny_of_def Let_def)

lemma level_gravest: "calls_for failed l \<Longrightarrow> gravity l \<le> gravity (level_of failed)"
  by (cases l) (auto simp: level_of_def deny_of_def Let_def)

lemma level_Normal_iff: "level_of failed = Normal \<longleftrightarrow> failed \<subseteq> {SPostgresKeyword, SPostgresStructured, SOutboxWorker}"
proof -
  have "failed \<subseteq> {SPostgresKeyword, SPostgresStructured, SOutboxWorker} \<longleftrightarrow>
    failed \<inter> {SRedis, SPostgresVector, SMem0, SCognee, SGraphiti, SPermissionEngine, SIdentityResolver} = {}"
  proof -
    have "x \<in> {SPostgresKeyword, SPostgresStructured, SOutboxWorker} \<or>
      x \<in> {SRedis, SPostgresVector, SMem0, SCognee, SGraphiti, SPermissionEngine, SIdentityResolver}" for x
      by (cases x) auto
    then show ?thesis by blast
  qed
  also have "\<dots> \<longleftrightarrow> level_of failed = Normal" by (auto simp: level_of_def deny_of_def Let_def)
  finally show ?thesis by blast
qed

section \<open>Interleaved reports\<close>

text \<open>
  A task between two lock acquisitions: before the change of the set, before reading it,
  before writing the level, before writing the flag, and done.
\<close>

fun change_set :: "report \<Rightarrow> subsystem set \<Rightarrow> subsystem set" where
  "change_set (ReportFailure s) failed = insert s failed"
| "change_set (ReportRecovery s) failed = failed - {s}"

datatype task_state =
    Start report
  | Changed
  | Computed degradation_level bool
  | LevelWritten bool
  | Finished

inductive task_step :: "degradation_manager \<Rightarrow> task_state \<Rightarrow> degradation_manager \<Rightarrow> task_state \<Rightarrow> bool" where
  change: "task_step m (Start r) (m\<lparr>dm_degraded_subsystems := change_set r (dm_degraded_subsystems m)\<rparr>) Changed"
| compute: "task_step m Changed m (Computed (level_of (dm_degraded_subsystems m)) (deny_of (dm_degraded_subsystems m)))"
| write_level: "task_step m (Computed l d) (m\<lparr>dm_current_level := l\<rparr>) (LevelWritten d)"
| write_deny: "task_step m (LevelWritten d) (m\<lparr>dm_deny_request := d\<rparr>) Finished"

text \<open>Any task may take the next step.\<close>

inductive sys_step :: "degradation_manager \<times> task_state list \<Rightarrow> degradation_manager \<times> task_state list \<Rightarrow> bool" where
  "i < length ts \<Longrightarrow> task_step m (ts ! i) m' t' \<Longrightarrow> sys_step (m, ts) (m', ts[i := t'])"

text \<open>Alone, a task computes what the operation computes.\<close>

lemma task_alone:
  "sys_step\<^sup>*\<^sup>* (m, [Start r]) (run_report r m, [Finished])"
proof -
  let ?s = "change_set r (dm_degraded_subsystems m)"
  let ?m1 = "m\<lparr>dm_degraded_subsystems := ?s\<rparr>"
  have "sys_step (m, [Start r]) (?m1, [Changed])"
    using sys_step.intros [of 0 "[Start r]" m] task_step.change by fastforce
  moreover have "sys_step (?m1, [Changed]) (?m1, [Computed (level_of ?s) (deny_of ?s)])"
    using sys_step.intros [of 0 "[Changed]" ?m1] task_step.compute [of ?m1] by fastforce
  moreover have "sys_step (?m1, [Computed (level_of ?s) (deny_of ?s)])
      (?m1\<lparr>dm_current_level := level_of ?s\<rparr>, [LevelWritten (deny_of ?s)])"
    using sys_step.intros [of 0 "[Computed (level_of ?s) (deny_of ?s)]" ?m1] task_step.write_level by fastforce
  moreover have "sys_step (?m1\<lparr>dm_current_level := level_of ?s\<rparr>, [LevelWritten (deny_of ?s)])
      (run_report r m, [Finished])"
  proof -
    have "run_report r m = ?m1\<lparr>dm_current_level := level_of ?s, dm_deny_request := deny_of ?s\<rparr>"
      by (cases r) (simp_all add: report_failure_def report_recovery_def recompute_level_def Let_def)
    then show ?thesis
      using sys_step.intros [of 0 "[LevelWritten (deny_of ?s)]" "?m1\<lparr>dm_current_level := level_of ?s\<rparr>"]
        task_step.write_deny by fastforce
  qed
  ultimately show ?thesis by (meson rtranclp.rtrancl_refl rtranclp.rtrancl_into_rtrancl)
qed

section \<open>Properties\<close>

text \<open>
  C26 (refinement).  Processed one at a time, any sequence of failure and recovery reports leaves
  the manager in the state the documented table gives for the subsystems whose last report is
  a failure: exactly these are unavailable, the level is one they call for and none they call
  for is graver, requests are denied exactly while the permission engine or the identity
  resolver is among them, and the annotation is absent exactly when the level is normal, which
  is when nothing failed beyond the keyword search, the structured search and the outbox worker.
\<close>

theorem reports_refine_spec:
  "let m = fold run_report rs degradation_new; failed = failing rs in
     {s. \<not> is_available s m} = failed \<and>
     calls_for failed (dm_current_level m) \<and>
     {l. calls_for failed l \<and> gravity (dm_current_level m) < gravity l} = {} \<and>
     (must_deny m \<longleftrightarrow> SPermissionEngine \<in> failed \<or> SIdentityResolver \<in> failed) \<and>
     (degradation_annotation m = None \<longleftrightarrow> failed \<subseteq> {SPostgresKeyword, SPostgresStructured, SOutboxWorker})"
proof -
  have m: "dm_degraded_subsystems (fold run_report rs degradation_new) = failing rs"
    "dm_current_level (fold run_report rs degradation_new) = level_of (failing rs)"
    "dm_deny_request (fold run_report rs degradation_new) = deny_of (failing rs)"
    using represents_reports [of rs] by (simp_all add: represents_def)
  have ann: "degradation_annotation (fold run_report rs degradation_new) = None \<longleftrightarrow> level_of (failing rs) = Normal"
    by (cases "level_of (failing rs)") (simp_all add: degradation_annotation_def m)
  show ?thesis
    unfolding Let_def ann level_Normal_iff
    using level_called_for [of "failing rs"] level_gravest [of "failing rs"]
    by (auto simp: m is_available_def must_deny_def deny_of_def not_less)
qed

text \<open>A schedule names the task that takes each step.\<close>

fun task_next :: "degradation_manager \<Rightarrow> task_state \<Rightarrow> degradation_manager \<times> task_state" where
  "task_next m (Start r) = (m\<lparr>dm_degraded_subsystems := change_set r (dm_degraded_subsystems m)\<rparr>, Changed)"
| "task_next m Changed = (m, Computed (level_of (dm_degraded_subsystems m)) (deny_of (dm_degraded_subsystems m)))"
| "task_next m (Computed l d) = (m\<lparr>dm_current_level := l\<rparr>, LevelWritten d)"
| "task_next m (LevelWritten d) = (m\<lparr>dm_deny_request := d\<rparr>, Finished)"
| "task_next m Finished = (m, Finished)"

fun run_schedule :: "nat list \<Rightarrow> degradation_manager \<times> task_state list \<Rightarrow> degradation_manager \<times> task_state list" where
  "run_schedule [] c = c"
| "run_schedule (i # is) (m, ts) =
     (case task_next m (ts ! i) of (m', t') \<Rightarrow> run_schedule is (m', ts[i := t']))"

lemma task_next_step: "t \<noteq> Finished \<Longrightarrow> task_next m t = (m', t') \<Longrightarrow> task_step m t m' t'"
  by (cases t) (auto intro: task_step.intros)

lemma sys_next: "i < length ts \<Longrightarrow> task_next m (ts ! i) = (m', t') \<Longrightarrow> sys_step\<^sup>*\<^sup>* (m, ts) (m', ts[i := t'])"
proof (cases "ts ! i = Finished")
  case True
  assume "i < length ts" and "task_next m (ts ! i) = (m', t')"
  with True have "m' = m" "ts[i := t'] = ts" by (auto simp: list_update_same_conv)
  then show ?thesis by simp
qed (auto intro: sys_step.intros task_next_step)

lemma run_schedule_reaches:
  "\<forall>i \<in> set is. i < length ts \<Longrightarrow> sys_step\<^sup>*\<^sup>* (m, ts) (run_schedule is (m, ts))"
proof (induction "is" arbitrary: m ts)
  case (Cons i "is")
  obtain m' t' where n: "task_next m (ts ! i) = (m', t')" by (cases "task_next m (ts ! i)")
  have "sys_step\<^sup>*\<^sup>* (m', ts[i := t']) (run_schedule is (m', ts[i := t']))"
    using Cons.IH [of "ts[i := t']" m'] Cons.prems by simp
  with sys_next [OF _ n] Cons.prems show ?case using n by (simp add: rtranclp_trans)
qed simp

text \<open>
  Two concurrent failure reports can end with the permission engine recorded as failed
  while requests are not denied: the other task computed its verdict before the failure was
  recorded and wrote it last.  The documented rule is never to fail open.
\<close>

theorem concurrent_reports_fail_open:
  "\<exists>m. sys_step\<^sup>*\<^sup>* (degradation_new, [Start (ReportFailure SPermissionEngine), Start (ReportFailure SRedis)])
       (m, [Finished, Finished]) \<and>
     SPermissionEngine \<in> dm_degraded_subsystems m \<and> \<not> must_deny m \<and> dm_current_level m = NoHotContext"
proof -
  let ?ts = "[Start (ReportFailure SPermissionEngine), Start (ReportFailure SRedis)]"
  let ?fin = "run_schedule [1, 1, 0, 0, 0, 0, 1, 1] (degradation_new, ?ts)"
  have "sys_step\<^sup>*\<^sup>* (degradation_new, ?ts) ?fin" by (rule run_schedule_reaches) simp
  moreover have "snd ?fin = [Finished, Finished]" "SPermissionEngine \<in> dm_degraded_subsystems (fst ?fin)"
    "\<not> must_deny (fst ?fin)" "dm_current_level (fst ?fin) = NoHotContext"
    by (simp_all add: degradation_new_def level_of_def deny_of_def must_deny_def)
  ultimately show ?thesis by (metis prod.collapse)
qed

end
