(* ===== verification/Keys.thy ===== *)
theory Keys
  imports Schema
begin

text \<open>
  \<open>key_service/\<close>: API keys with expiry, scopes and revocation, and versioned public keys, in an
  SQLite database of their own.  Only the SHA-256 of a key is stored; the digest is a
  parameter.  The lemmas show what a verification implies, that revocation is final under
  every operation, and that a sender has at most one active public key.
\<close>

section \<open>Types\<close>

datatype key_status = KeyActive | KeyRevoked | KeyExpired

fun key_status_text :: "key_status \<Rightarrow> string" where
  "key_status_text KeyActive = ''Active''"
| "key_status_text KeyRevoked = ''Revoked''"
| "key_status_text KeyExpired = ''Expired''"

definition parse_key_status :: "string \<Rightarrow> key_status" where
  "parse_key_status s =
     (if s = ''Active'' then KeyActive else if s = ''Revoked'' then KeyRevoked
      else if s = ''Expired'' then KeyExpired else KeyActive)"

datatype public_key_status = PkActive | PkRevoked

definition parse_public_key_status :: "string \<Rightarrow> public_key_status" where
  "parse_public_key_status s = (if s = ''Active'' then PkActive else if s = ''Revoked'' then PkRevoked else PkActive)"

text \<open>\<open>KeyPanic\<close> stands for the panic of an overflowing date.\<close>

datatype key_service_error =
    KeyNotFound | InvalidKey | Expired | Revoked | AgentMismatch | KeyAlreadyExists
  | StoreError db_error | PublicKeyNotFound | InvalidPublicKey | KeyPanic

record api_key_info =
  ki_key_id :: string
  ki_agent_id :: string
  ki_description :: "string option"
  ki_status :: key_status
  ki_created_at :: time
  ki_expires_at :: "time option"
  ki_last_used_at :: "time option"
  ki_scopes :: "string list"

record api_key =
  ak_key_id :: string
  ak_api_key_hash :: string
  ak_agent_id :: string
  ak_description :: "string option"
  ak_status :: key_status
  ak_created_at :: time
  ak_expires_at :: "time option"
  ak_revoked_at :: "time option"
  ak_last_used_at :: "time option"

definition info_of_api_key :: "api_key \<Rightarrow> api_key_info" where
  "info_of_api_key k = \<lparr>ki_key_id = ak_key_id k, ki_agent_id = ak_agent_id k, ki_description = ak_description k,
     ki_status = ak_status k, ki_created_at = ak_created_at k, ki_expires_at = ak_expires_at k,
     ki_last_used_at = ak_last_used_at k, ki_scopes = []\<rparr>"

definition has_scope :: "api_key_info \<Rightarrow> string \<Rightarrow> bool" where
  "has_scope info sc = list_ex (\<lambda>c. c = sc \<or> c = ''*'') (ki_scopes info)"

record public_key =
  pk_sender_id :: string
  pk_public_key_hex :: string
  pk_version :: int
  pk_created_at :: time
  pk_status :: public_key_status

definition validate_hex :: "string \<Rightarrow> bool" where
  "validate_hex hex \<longleftrightarrow> length hex = 64 \<and> list_all is_ascii_hexdigit hex"

section \<open>The database\<close>

text \<open>
  A time column holds RFC 3339 text.  Writing and reading back is the identity for the years
  0 to 9999; other years are written but not read back.
\<close>

record api_key_row =
  k_key_id :: string
  k_api_key_hash :: string
  k_agent_id :: string
  k_description :: "string option"
  k_status :: string
  k_created_at :: time
  k_expires_at :: "time option"
  k_revoked_at :: "time option"
  k_last_used_at :: "time option"

record public_key_row =
  q_sender_id :: string
  q_version :: int
  q_public_key_hex :: string
  q_created_at :: time
  q_status :: string

record keystore = env +
  api_keys :: "api_key_row list"
  api_key_scopes :: "(string \<times> string) list"
  public_keys :: "public_key_row list"

definition parse_rfc3339 :: "time \<Rightarrow> time option" where
  "parse_rfc3339 t = (if secs (-62167219200) \<le> t \<and> t < secs 253402300800 then Some t else None)"

definition read_time :: "time \<Rightarrow> time" where
  "read_time t = (case parse_rfc3339 t of Some x \<Rightarrow> x | None \<Rightarrow> 0)"

definition read_time_option :: "time option \<Rightarrow> time option" where
  "read_time_option t = Option.bind t parse_rfc3339"

definition map_row_to_api_key :: "api_key_row \<Rightarrow> api_key" where
  "map_row_to_api_key r = \<lparr>ak_key_id = k_key_id r, ak_api_key_hash = k_api_key_hash r, ak_agent_id = k_agent_id r,
     ak_description = k_description r, ak_status = parse_key_status (k_status r),
     ak_created_at = read_time (k_created_at r), ak_expires_at = read_time_option (k_expires_at r),
     ak_revoked_at = read_time_option (k_revoked_at r), ak_last_used_at = read_time_option (k_last_used_at r)\<rparr>"

definition map_row_to_info :: "api_key_row \<Rightarrow> api_key_info" where
  "map_row_to_info r = info_of_api_key (map_row_to_api_key r)"

definition map_row_to_public_key :: "public_key_row \<Rightarrow> public_key" where
  "map_row_to_public_key r = \<lparr>pk_sender_id = q_sender_id r, pk_public_key_hex = q_public_key_hex r,
     pk_version = q_version r, pk_created_at = read_time (q_created_at r),
     pk_status = parse_public_key_status (q_status r)\<rparr>"

section \<open>API keys\<close>

text \<open>\<open>now + Duration::days(n)\<close>, within chrono's range.\<close>

definition checked_days :: "time \<Rightarrow> int \<Rightarrow> time option" where
  "checked_days t n =
     (let r = t + days n in
      if secs (-8334601228800) \<le> r \<and> r \<le> secs 8210266876799 + 999999999 then Some r else None)"

definition load_scopes :: "string \<Rightarrow> (keystore, key_service_error, string list) op" where
  "load_scopes key_id = map_err StoreError (exec (gets (\<lambda>s.
     sort (map snd (filter (\<lambda>(k, sc). k = key_id) (api_key_scopes s))))))"

definition default_scopes :: "string list" where
  "default_scopes = [''experience:read'', ''experience:write'']"

definition with_scopes :: "api_key_info \<Rightarrow> (keystore, key_service_error, api_key_info) op" where
  "with_scopes info =
     bindE (load_scopes (ki_key_id info)) (\<lambda>scopes.
     ret (info\<lparr>ki_scopes := (if scopes = [] then default_scopes else scopes)\<rparr>))"

text \<open>\<open>INSERT OR IGNORE\<close> on the primary key \<open>(key_id, scope)\<close>.\<close>

fun insert_scopes :: "string \<Rightarrow> string list \<Rightarrow> (keystore, key_service_error, unit) op" where
  "insert_scopes key_id [] = ret ()"
| "insert_scopes key_id (sc # scs) =
     bindE (map_err StoreError (exec (modify (\<lambda>s.
        if (key_id, sc) \<in> set (api_key_scopes s) then s
        else s\<lparr>api_key_scopes := api_key_scopes s @ [(key_id, sc)]\<rparr>)))) (\<lambda>_.
     insert_scopes key_id scs)"

definition raw_key_of :: "uuid \<Rightarrow> string" where
  "raw_key_of u = ''sk_live_'' @ filter (\<lambda>c. c \<noteq> CHR ''-'') u"

definition insert_key_row :: "api_key_row \<Rightarrow> (keystore, key_service_error, unit) op" where
  "insert_key_row row = map_err StoreError (exec (\<lambda>s.
     if k_key_id row \<in> k_key_id ` set (api_keys s) \<or> k_api_key_hash row \<in> k_api_key_hash ` set (api_keys s)
     then (Inl DbError, s)
     else (Inr (), s\<lparr>api_keys := api_keys s @ [row]\<rparr>)))"

definition new_key_row :: "string \<Rightarrow> string \<Rightarrow> string \<Rightarrow> string option \<Rightarrow> time \<Rightarrow> time option \<Rightarrow> api_key_row" where
  "new_key_row key_id hash agent_id description now expires_at = \<lparr>
     k_key_id = key_id, k_api_key_hash = hash, k_agent_id = agent_id, k_description = description,
     k_status = key_status_text KeyActive, k_created_at = now, k_expires_at = expires_at,
     k_revoked_at = None, k_last_used_at = None\<rparr>"

definition create_key :: "(string \<Rightarrow> string) \<Rightarrow> string \<Rightarrow> string option \<Rightarrow> int option \<Rightarrow>
    (keystore, key_service_error, string \<times> api_key_info) op" where
  "create_key sha256_hex agent_id description ttl_days =
     bindE new_v4 (\<lambda>key_id.
     bindE new_v4 (\<lambda>u.
     bindE utc_now (\<lambda>now.
     bindE (case ttl_days of
              None \<Rightarrow> ret None
            | Some n \<Rightarrow> (case checked_days now n of None \<Rightarrow> throw KeyPanic | Some t \<Rightarrow> ret (Some t))) (\<lambda>expires_at.
     let raw_key = raw_key_of u; hash = sha256_hex raw_key in
     bindE (insert_key_row (new_key_row key_id hash agent_id description now expires_at)) (\<lambda>_.
     bindE (insert_scopes key_id default_scopes) (\<lambda>_.
     bindE (with_scopes (info_of_api_key \<lparr>ak_key_id = key_id, ak_api_key_hash = hash, ak_agent_id = agent_id,
        ak_description = description, ak_status = KeyActive, ak_created_at = now, ak_expires_at = expires_at,
        ak_revoked_at = None, ak_last_used_at = None\<rparr>)) (\<lambda>info.
     ret (raw_key, info))))))))"

definition create_key_with_scopes :: "(string \<Rightarrow> string) \<Rightarrow> string \<Rightarrow> string option \<Rightarrow> int option \<Rightarrow> string list \<Rightarrow>
    (keystore, key_service_error, string \<times> api_key_info) op" where
  "create_key_with_scopes sha256_hex agent_id description ttl_days scopes =
     bindE (create_key sha256_hex agent_id description ttl_days) (\<lambda>(raw, info).
     bindE (map_err StoreError (exec (modify (\<lambda>s.
        s\<lparr>api_key_scopes := filter (\<lambda>(k, sc). k \<noteq> ki_key_id info) (api_key_scopes s)\<rparr>)))) (\<lambda>_.
     bindE (insert_scopes (ki_key_id info) scopes) (\<lambda>_.
     bindE (with_scopes info) (\<lambda>info'.
     ret (raw, info')))))"

text \<open>\<open>query_row\<close> fails on a database error and on an empty result alike.\<close>

definition query_key :: "(api_key_row \<Rightarrow> bool) \<Rightarrow> key_service_error \<Rightarrow> (keystore, key_service_error, api_key_row) op" where
  "query_key p err = map_err (\<lambda>_. err) (exec (\<lambda>s.
     case find p (api_keys s) of None \<Rightarrow> (Inl DbError, s) | Some r \<Rightarrow> (Inr r, s)))"

definition update_key_rows :: "(api_key_row \<Rightarrow> bool) \<Rightarrow> (api_key_row \<Rightarrow> api_key_row) \<Rightarrow> (keystore, key_service_error, nat) op" where
  "update_key_rows p f = map_err StoreError (exec (\<lambda>s.
     (Inr (rows_matching p (api_keys s)), s\<lparr>api_keys := sql_update p f (api_keys s)\<rparr>)))"

definition verify_key :: "(string \<Rightarrow> string) \<Rightarrow> string \<Rightarrow> (keystore, key_service_error, api_key_info) op" where
  "verify_key sha256_hex raw =
     bindE (query_key (\<lambda>r. k_api_key_hash r = sha256_hex raw) InvalidKey) (\<lambda>row.
     let key = map_row_to_api_key row in
     case ak_status key of
       KeyRevoked \<Rightarrow> throw Revoked
     | KeyExpired \<Rightarrow> throw Expired
     | KeyActive \<Rightarrow>
         bindE (case ak_expires_at key of
                  None \<Rightarrow> ret ()
                | Some e \<Rightarrow> bindE utc_now (\<lambda>now. if now > e then throw Expired else ret ())) (\<lambda>_.
         bindE utc_now (\<lambda>now.
         bindE (update_key_rows (\<lambda>r. k_key_id r = ak_key_id key) (\<lambda>r. r\<lparr>k_last_used_at := Some now\<rparr>)) (\<lambda>_.
         with_scopes (info_of_api_key key)))))"

fun with_scopes_all :: "api_key_info list \<Rightarrow> (keystore, key_service_error, api_key_info list) op" where
  "with_scopes_all [] = ret []"
| "with_scopes_all (k # ks) = bindE (with_scopes k) (\<lambda>k'. bindE (with_scopes_all ks) (\<lambda>ks'. ret (k' # ks')))"

text \<open>RFC 3339 text of UTC times sorts as the times do.\<close>

definition list_keys :: "(keystore, key_service_error, api_key_info list) op" where
  "list_keys =
     bindE (map_err StoreError (exec (gets (\<lambda>s. order_desc k_created_at (api_keys s))))) (\<lambda>rows.
     with_scopes_all (map map_row_to_info rows))"

definition revoke_key :: "string \<Rightarrow> (keystore, key_service_error, unit) op" where
  "revoke_key key_id =
     bindE utc_now (\<lambda>now.
     bindE (update_key_rows (\<lambda>r. k_key_id r = key_id)
        (\<lambda>r. r\<lparr>k_status := ''Revoked'', k_revoked_at := Some now\<rparr>)) (\<lambda>n.
     if n = 0 then throw KeyNotFound else ret ()))"

definition get_key_info :: "string \<Rightarrow> (keystore, key_service_error, api_key_info) op" where
  "get_key_info key_id =
     bindE (query_key (\<lambda>r. k_key_id r = key_id) KeyNotFound) (\<lambda>row. with_scopes (map_row_to_info row))"

definition rotate_key :: "(string \<Rightarrow> string) \<Rightarrow> string \<Rightarrow> int option \<Rightarrow>
    (keystore, key_service_error, string \<times> api_key_info) op" where
  "rotate_key sha256_hex key_id ttl_days =
     bindE (query_key (\<lambda>r. k_key_id r = key_id) KeyNotFound) (\<lambda>row.
     bindE (get_key_info key_id) (\<lambda>info.
     bindE (revoke_key key_id) (\<lambda>_.
     create_key_with_scopes sha256_hex (k_agent_id row) None ttl_days (ki_scopes info))))"

section \<open>Public keys\<close>

text \<open>\<open>i32\<close> addition in a release build.\<close>

definition i32_wrap :: "int \<Rightarrow> int" where
  "i32_wrap n = (n + 2 ^ 31) mod 2 ^ 32 - 2 ^ 31"

text \<open>\<open>MAX(version)\<close>; no rows, or a failing query, gives no version.\<close>

definition max_version :: "string \<Rightarrow> (keystore, key_service_error, int option) op" where
  "max_version sender =
     tryE (exec (gets (\<lambda>s. map q_version (filter (\<lambda>r. q_sender_id r = sender) (public_keys s))))) (\<lambda>r.
     case r of Inl _ \<Rightarrow> ret None | Inr [] \<Rightarrow> ret None | Inr (v # vs) \<Rightarrow> ret (Some (fold max vs v)))"

definition supersede_public_keys :: "string \<Rightarrow> (keystore, key_service_error, unit) op" where
  "supersede_public_keys sender_id = map_err StoreError (exec (modify (\<lambda>s. s\<lparr>public_keys :=
     sql_update (\<lambda>r. q_sender_id r = sender_id \<and> q_status r = ''Active'') (\<lambda>r. r\<lparr>q_status := ''Revoked''\<rparr>)
       (public_keys s)\<rparr>)))"

definition insert_public_key :: "public_key_row \<Rightarrow> (keystore, key_service_error, unit) op" where
  "insert_public_key row = map_err StoreError (exec (\<lambda>s.
     if \<exists>r \<in> set (public_keys s). q_sender_id r = q_sender_id row \<and> q_version r = q_version row then (Inl DbError, s)
     else (Inr (), s\<lparr>public_keys := public_keys s @ [row]\<rparr>)))"

definition register_public_key :: "string \<Rightarrow> string \<Rightarrow> (keystore, key_service_error, public_key) op" where
  "register_public_key sender_id public_key_hex =
     (if \<not> validate_hex public_key_hex then throw InvalidPublicKey
      else
     bindE utc_now (\<lambda>now.
     bindE (max_version sender_id) (\<lambda>max_v.
     let new_version = i32_wrap ((case max_v of Some v \<Rightarrow> v | None \<Rightarrow> 0) + 1) in
     bindE (supersede_public_keys sender_id) (\<lambda>_.
     bindE (insert_public_key \<lparr>q_sender_id = sender_id, q_version = new_version,
               q_public_key_hex = public_key_hex, q_created_at = now, q_status = ''Active''\<rparr>) (\<lambda>_.
     ret \<lparr>pk_sender_id = sender_id, pk_public_key_hex = public_key_hex, pk_version = new_version,
          pk_created_at = now, pk_status = PkActive\<rparr>)))))"

definition get_public_key :: "string \<Rightarrow> (keystore, key_service_error, public_key option) op" where
  "get_public_key sender_id =
     map_err StoreError (exec (gets (\<lambda>s.
        case order_desc q_version (filter (\<lambda>r. q_sender_id r = sender_id \<and> q_status r = ''Active'') (public_keys s)) of
          [] \<Rightarrow> None | r # _ \<Rightarrow> Some (map_row_to_public_key r))))"

definition get_public_key_versions :: "string \<Rightarrow> (keystore, key_service_error, public_key list) op" where
  "get_public_key_versions sender_id =
     map_err StoreError (exec (gets (\<lambda>s.
        map map_row_to_public_key (order_desc q_version (filter (\<lambda>r. q_sender_id r = sender_id) (public_keys s))))))"

definition revoke_public_key :: "string \<Rightarrow> (keystore, key_service_error, unit) op" where
  "revoke_public_key sender_id =
     bindE (map_err StoreError (exec (\<lambda>s.
        (Inr (rows_matching (\<lambda>r. q_sender_id r = sender_id) (public_keys s)),
         s\<lparr>public_keys := sql_update (\<lambda>r. q_sender_id r = sender_id) (\<lambda>r. r\<lparr>q_status := ''Revoked''\<rparr>) (public_keys s)\<rparr>)))) (\<lambda>n.
     if n = 0 then throw PublicKeyNotFound else ret ())"

definition list_public_keys :: "(keystore, key_service_error, public_key list) op" where
  "list_public_keys =
     map_err StoreError (exec (gets (\<lambda>s.
        map map_row_to_public_key (order_desc q_created_at (filter (\<lambda>r.
          (\<exists>a \<in> set (public_keys s). q_sender_id a = q_sender_id r \<and> q_version a = q_version r \<and> q_status a = ''Active'') \<and>
          (\<forall>a \<in> set (public_keys s). q_sender_id a = q_sender_id r \<longrightarrow> q_status a = ''Active'' \<longrightarrow> q_version a \<le> q_version r))
        (public_keys s))))))"

section \<open>Reachable states\<close>

text \<open>One call of the service, whatever its outcome.\<close>

inductive key_step :: "(string \<Rightarrow> string) \<Rightarrow> keystore \<Rightarrow> keystore \<Rightarrow> bool" for h where
  step_create: "create_key_with_scopes h a d ttl scopes s = (r, s') \<Longrightarrow> key_step h s s'"
| step_create_default: "create_key h a d ttl s = (r, s') \<Longrightarrow> key_step h s s'"
| step_verify: "verify_key h raw s = (r, s') \<Longrightarrow> key_step h s s'"
| step_list: "list_keys s = (r, s') \<Longrightarrow> key_step h s s'"
| step_revoke: "revoke_key i s = (r, s') \<Longrightarrow> key_step h s s'"
| step_rotate: "rotate_key h i ttl s = (r, s') \<Longrightarrow> key_step h s s'"
| step_info: "get_key_info i s = (r, s') \<Longrightarrow> key_step h s s'"
| step_register: "register_public_key sender hex s = (r, s') \<Longrightarrow> key_step h s s'"
| step_get_public: "get_public_key sender s = (r, s') \<Longrightarrow> key_step h s s'"
| step_versions: "get_public_key_versions sender s = (r, s') \<Longrightarrow> key_step h s s'"
| step_revoke_public: "revoke_public_key sender s = (r, s') \<Longrightarrow> key_step h s s'"
| step_list_public: "list_public_keys s = (r, s') \<Longrightarrow> key_step h s s'"

text \<open>The key tables after a call are those before it with rows added or changed as one of two rules allows.\<close>

definition keys_wf :: "keystore \<Rightarrow> bool" where
  "keys_wf s \<longleftrightarrow> distinct (map k_key_id (api_keys s)) \<and> distinct (map k_api_key_hash (api_keys s))"

definition pki_wf :: "keystore \<Rightarrow> bool" where
  "pki_wf s \<longleftrightarrow>
     distinct (map (\<lambda>r. (q_sender_id r, q_version r)) (public_keys s)) \<and>
     distinct (map q_sender_id (filter (\<lambda>r. q_status r = ''Active'') (public_keys s)))"

definition hash_revoked :: "string \<Rightarrow> keystore \<Rightarrow> bool" where
  "hash_revoked hash s \<longleftrightarrow>
     (\<exists>r \<in> set (api_keys s). k_api_key_hash r = hash \<and> k_status r = ''Revoked'')"

text \<open>
  A predicate of the two key tables is kept by every call that keeps it in its statements: the
  insertion of a key, the update of the time of last use, the revocation, and for the public
  keys the two revocations and the guarded insertion.
\<close>

lemma keeps_insert_scopes [keep_intros]:
  assumes "\<And>w t. P w \<Longrightarrow> P (w\<lparr>tick := t\<rparr>)" and "\<And>w x. P w \<Longrightarrow> P (w\<lparr>api_key_scopes := x\<rparr>)"
  shows "keeps P (insert_scopes k scs)"
  by (induction scs) (auto intro!: keep_intros assms)

lemma keeps_with_scopes [keep_intros]:
  assumes "\<And>w t. P w \<Longrightarrow> P (w\<lparr>tick := t\<rparr>)"
  shows "keeps P (with_scopes i)"
  unfolding with_scopes_def load_scopes_def by (intro keep_intros assms)

lemma keeps_with_scopes_all [keep_intros]:
  assumes "\<And>w t. P w \<Longrightarrow> P (w\<lparr>tick := t\<rparr>)"
  shows "keeps P (with_scopes_all ks)"
  by (induction ks) (auto intro!: keep_intros assms)

lemma keeps_query_key [keep_intros]:
  assumes "\<And>w t. P w \<Longrightarrow> P (w\<lparr>tick := t\<rparr>)"
  shows "keeps P (query_key p e)"
  unfolding query_key_def
  by (intro keep_intros assms) (auto simp: keeps_def split: option.split)

lemma sql_update_clears:
  "(\<And>r. \<not> p (f r)) \<Longrightarrow> q \<in> set (sql_update p f xs) \<Longrightarrow> \<not> p q"
  by (auto simp: sql_update_def)

lemma supersede_none_active:
  assumes "supersede_public_keys sender s = (Inr u, t)"
  shows "\<forall>q \<in> set (public_keys t). \<not> (q_sender_id q = sender \<and> q_status q = ''Active'')"
proof -
  let ?p = "\<lambda>r. q_sender_id r = sender \<and> q_status r = ''Active''"
  let ?f = "\<lambda>r. r\<lparr>q_status := ''Revoked''\<rparr>"
  have t: "public_keys t = sql_update ?p ?f (public_keys s)"
    using assms by (auto simp: supersede_public_keys_def exec_def modify_def split: if_splits)
  have "\<not> ?p (?f r)" for r
    by simp
  from sql_update_clears [of ?p ?f, OF this] show ?thesis
    unfolding t by blast
qed

locale key_table_law =
  fixes P :: "keystore \<Rightarrow> bool"
  assumes tick: "P w \<Longrightarrow> P (w\<lparr>tick := t\<rparr>)"
    and scopes: "P w \<Longrightarrow> P (w\<lparr>api_key_scopes := x\<rparr>)"
    and inserted: "P w \<Longrightarrow> k_key_id row \<notin> k_key_id ` set (api_keys w) \<Longrightarrow>
          k_api_key_hash row \<notin> k_api_key_hash ` set (api_keys w) \<Longrightarrow> P (w\<lparr>api_keys := api_keys w @ [row]\<rparr>)"
    and used: "P w \<Longrightarrow> P (w\<lparr>api_keys := sql_update (\<lambda>r. k_key_id r = i) (\<lambda>r. r\<lparr>k_last_used_at := v\<rparr>) (api_keys w)\<rparr>)"
    and revoked: "P w \<Longrightarrow> P (w\<lparr>api_keys := sql_update (\<lambda>r. k_key_id r = i)
          (\<lambda>r. r\<lparr>k_status := ''Revoked'', k_revoked_at := v\<rparr>) (api_keys w)\<rparr>)"
    and pk_revoked: "P w \<Longrightarrow> P (w\<lparr>public_keys := sql_update (\<lambda>r. q_sender_id r = sender)
          (\<lambda>r. r\<lparr>q_status := ''Revoked''\<rparr>) (public_keys w)\<rparr>)"
    and pk_registered: "P w \<Longrightarrow> q_status prow = ''Active'' \<Longrightarrow>
          \<not> (\<exists>r \<in> set (public_keys w). q_sender_id r = q_sender_id prow \<and> q_version r = q_version prow) \<Longrightarrow>
          \<not> (\<exists>r \<in> set (public_keys w). q_sender_id r = q_sender_id prow \<and> q_status r = ''Active'') \<Longrightarrow>
          P (w\<lparr>public_keys := public_keys w @ [prow]\<rparr>)"
    and pk_superseded: "P w \<Longrightarrow> P (w\<lparr>public_keys := sql_update (\<lambda>r. q_sender_id r = sender \<and> q_status r = ''Active'')
          (\<lambda>r. r\<lparr>q_status := ''Revoked''\<rparr>) (public_keys w)\<rparr>)"
begin

lemmas laws = tick scopes

lemma insert_key_row: "keeps P (insert_key_row row)"
  unfolding insert_key_row_def
  by (intro keep_intros tick) (auto simp: keeps_def intro: inserted)

lemma update_key_rows:
  "(\<And>w. P w \<Longrightarrow> P (w\<lparr>api_keys := sql_update p f (api_keys w)\<rparr>)) \<Longrightarrow> keeps P (update_key_rows p f)"
  unfolding update_key_rows_def
  by (intro keep_intros tick) (auto simp: keeps_def)

lemma create_key: "keeps P (create_key h a d ttl)"
  unfolding create_key_def Let_def by (intro keep_intros insert_key_row laws)

lemma create_key_with_scopes: "keeps P (create_key_with_scopes h a d ttl scs)"
  unfolding create_key_with_scopes_def split_def by (intro keep_intros create_key laws)

lemma verify_key: "keeps P (verify_key h raw)"
  unfolding verify_key_def Let_def
  by (auto intro!: keep_intros laws update_key_rows used split: key_status.split)

lemma revoke_key: "keeps P (revoke_key i)"
  unfolding revoke_key_def by (intro keep_intros laws update_key_rows revoked)

lemma get_key_info: "keeps P (get_key_info i)"
  unfolding get_key_info_def by (intro keep_intros laws)

lemma rotate_key: "keeps P (rotate_key h i ttl)"
  unfolding rotate_key_def by (intro keep_intros laws get_key_info revoke_key create_key_with_scopes)

lemma list_keys: "keeps P list_keys"
  unfolding list_keys_def by (intro keep_intros laws)

lemma get_public_key: "keeps P (get_public_key x)"
  unfolding get_public_key_def by (intro keep_intros laws)

lemma get_public_key_versions: "keeps P (get_public_key_versions x)"
  unfolding get_public_key_versions_def by (intro keep_intros laws)

lemma list_public_keys: "keeps P list_public_keys"
  unfolding list_public_keys_def by (intro keep_intros laws)

lemma revoke_public_key: "keeps P (revoke_public_key x)"
  unfolding revoke_public_key_def
  by (intro keep_intros laws) (auto simp: keeps_def intro: pk_revoked)

lemma max_version: "keeps P (max_version sender)"
  unfolding max_version_def
  by (intro keep_intros laws) (auto split: list.split intro: keep_intros)

lemma supersede: "keeps P (supersede_public_keys sender)"
  unfolding supersede_public_keys_def by (intro keep_intros laws pk_superseded)

lemma insert_public_key:
  assumes "P s" and "insert_public_key prow s = (r, t)" and "q_status prow = ''Active''"
    and "\<forall>q \<in> set (public_keys s). \<not> (q_sender_id q = q_sender_id prow \<and> q_status q = ''Active'')"
  shows "P t"
proof (cases "fails s (tick s)")
  case True
  with assms(2) tick [OF assms(1)] show ?thesis by (auto simp: insert_public_key_def map_err_def)
next
  case False
  with assms(2-) tick [OF assms(1)] pk_registered [OF tick [OF assms(1)], of prow "Suc (tick s)"] show ?thesis
    by (auto simp: insert_public_key_def map_err_def split: if_splits)
qed

lemma store_public_key:
  assumes "q_sender_id prow = sender" and "q_status prow = ''Active''"
  shows "keeps P (bindE (supersede_public_keys sender) (\<lambda>_. bindE (insert_public_key prow) (\<lambda>_. ret x)))"
proof (rule keepsI)
  fix s r t
  assume P: "P s" and run: "bindE (supersede_public_keys sender) (\<lambda>_. bindE (insert_public_key prow) (\<lambda>_. ret x)) s = (r, t)"
  from run show "P t"
  proof (cases rule: bindE_E)
    case (step u s')
    note ins = insert_public_key [OF keepsD [OF supersede P step(1)] _ assms(2)
        supersede_none_active [OF step(1), folded assms(1)]]
    from step(2) show ?thesis
      by (cases rule: bindE_E) (auto simp: ret_def dest: ins)
  qed (use keepsD [OF supersede P] in auto)
qed

lemma register_public_key: "keeps P (register_public_key sender hex)"
  unfolding register_public_key_def Let_def
  by (intro keep_intros laws max_version store_public_key) simp_all

lemma step: "key_step h s s' \<Longrightarrow> P s \<Longrightarrow> P s'"
  by (cases rule: key_step.cases, assumption)
    (blast dest: keepsD [OF create_key] keepsD [OF create_key_with_scopes] keepsD [OF verify_key]
      keepsD [OF revoke_key] keepsD [OF rotate_key] keepsD [OF get_key_info] keepsD [OF list_keys]
      keepsD [OF get_public_key] keepsD [OF get_public_key_versions] keepsD [OF list_public_keys]
      keepsD [OF revoke_public_key] keepsD [OF register_public_key])+

lemma run: "(key_step h)\<^sup>*\<^sup>* s s' \<Longrightarrow> P s \<Longrightarrow> P s'"
  by (induction rule: rtranclp_induct) (auto dest: step)

end

lemma filter_sql_update_cleared:
  "(\<And>r. \<not> P (f r)) \<Longrightarrow> filter P (sql_update p f xs) = filter (\<lambda>r. \<not> p r) (filter P xs)"
  by (induction xs) (auto simp: sql_update_def)

lemma bex_sql_update:
  "r \<in> set xs \<Longrightarrow> Q (if p r then f r else r) \<Longrightarrow> \<exists>q \<in> set (sql_update p f xs). Q q"
  by (simp only: sql_update_def set_map) blast

interpretation keys_unique: key_table_law keys_wf
  by unfold_locales (auto simp: keys_wf_def)

interpretation key_dead: key_table_law "hash_revoked hash" for hash
  by unfold_locales (auto simp: hash_revoked_def intro!: bex_sql_update)

interpretation key_env: key_table_law "\<lambda>w. fails w = F \<and> clock w = C" for F C
  by unfold_locales auto

interpretation one_active_key: key_table_law pki_wf
proof
  fix w :: keystore and prow :: public_key_row
  assume "pki_wf w" "q_status prow = ''Active''"
    "\<not> (\<exists>r \<in> set (public_keys w). q_sender_id r = q_sender_id prow \<and> q_version r = q_version prow)"
    "\<not> (\<exists>r \<in> set (public_keys w). q_sender_id r = q_sender_id prow \<and> q_status r = ''Active'')"
  then show "pki_wf (w\<lparr>public_keys := public_keys w @ [prow]\<rparr>)"
    by (auto simp: pki_wf_def)
qed (simp_all add: pki_wf_def filter_sql_update_cleared distinct_map_filter del: filter_filter)

section \<open>Properties of API keys\<close>

lemma find_hash_revoked:
  assumes "keys_wf s" and "hash_revoked hash s"
  obtains r where "find (\<lambda>r. k_api_key_hash r = hash) (api_keys s) = Some r" and "k_status r = ''Revoked''"
  using assms find_key_distinct [of k_api_key_hash "api_keys s"]
  by (auto simp: keys_wf_def hash_revoked_def)

lemma verify_revoked:
  assumes "keys_wf s" and "hash_revoked (h raw) s"
  shows "fst (verify_key h raw s) = Inl (if fails s (tick s) then InvalidKey else Revoked)"
proof -
  obtain r where r: "find (\<lambda>r. k_api_key_hash r = h raw) (api_keys s) = Some r" "k_status r = ''Revoked''"
    using find_hash_revoked [OF assms] .
  then show ?thesis
    by (simp add: verify_key_def query_key_def bindE_def map_err_def exec_def throw_def map_row_to_api_key_def
        parse_key_status_def)
qed

text \<open>
  C12 (safety).  Revocation is final: once \<open>revoke_key\<close> has returned for a stored key, no later
  history of calls of the service, whatever their arguments and whichever of their statements
  fail, makes \<open>verify_key\<close> accept that key; it answers that the key is revoked, or invalid when
  its query fails.
\<close>

theorem revocation_is_final:
  assumes "keys_wf s" and "r \<in> set (api_keys s)" and "k_api_key_hash r = h raw"
    and "revoke_key (k_key_id r) s = (Inr (), s1)" and "(key_step h)\<^sup>*\<^sup>* s1 s2"
  shows "fst (verify_key h raw s2) = Inl (if fails s2 (tick s2) then InvalidKey else Revoked)"
proof (rule verify_revoked)
  have wf1: "keys_wf s1"
    using keepsD [OF keys_unique.revoke_key assms(1,4)] .
  then show "keys_wf s2"
    using keys_unique.run [OF assms(5)] by blast
  have "api_keys s1 = sql_update (\<lambda>q. k_key_id q = k_key_id r)
      (\<lambda>q. q\<lparr>k_status := ''Revoked'', k_revoked_at := Some (clock s (tick s))\<rparr>) (api_keys s)"
    using assms(4)
    by (auto simp: revoke_key_def update_key_rows_def utc_now_def throw_def ret_def
        elim!: bindE_InrE exec_InrE split: if_splits)
  then have "hash_revoked (h raw) s1"
    using assms(2,3) by (auto simp: hash_revoked_def intro!: bex_sql_update [of r])
  then show "hash_revoked (h raw) s2"
    using key_dead.run [OF assms(5)] by blast
qed

definition key_world :: keystore where
  "key_world = \<lparr>tick = 0, clock = int, uuids = (\<lambda>n. replicate (Suc n) CHR ''a''), fails = (\<lambda>_. False),
     api_keys = [], api_key_scopes = [], public_keys = []\<rparr>"

definition stored_key :: "string \<Rightarrow> string \<Rightarrow> api_key_row" where
  "stored_key i status = \<lparr>k_key_id = i, k_api_key_hash = i, k_agent_id = ''agent'', k_description = None,
     k_status = status, k_created_at = 0, k_expires_at = None, k_revoked_at = None, k_last_used_at = None\<rparr>"

definition one_key_world :: "string \<Rightarrow> keystore" where
  "one_key_world status = key_world\<lparr>api_keys := [stored_key ''k'' status]\<rparr>"

lemma revocation_is_final_witness:
  "fst (verify_key (\<lambda>x. x) ''k'' (snd (revoke_key ''k'' (one_key_world ''Active'')))) = Inl Revoked"
proof -
  have "revoke_key ''k'' (one_key_world ''Active'') = (Inr (), snd (revoke_key ''k'' (one_key_world ''Active'')))"
    by (simp add: prod_eq_iff, code_simp)
  moreover have "keys_wf (one_key_world ''Active'')" by code_simp
  ultimately have "fst (verify_key (\<lambda>x. x) ''k'' (snd (revoke_key ''k'' (one_key_world ''Active'')))) =
      Inl (if fails (snd (revoke_key ''k'' (one_key_world ''Active'')))
             (tick (snd (revoke_key ''k'' (one_key_world ''Active'')))) then InvalidKey else Revoked)"
    using revocation_is_final [of "one_key_world ''Active''" "stored_key ''k'' ''Active''" "\<lambda>x. x" "''k''"]
    by (simp add: one_key_world_def stored_key_def)
  then show ?thesis
    by (simp add: revoke_key_def update_key_rows_def one_key_world_def key_world_def bindE_def utc_now_def exec_def
        map_err_def rows_matching_def stored_key_def ret_def)
qed

definition scopes_of :: "keystore \<Rightarrow> string \<Rightarrow> string list" where
  "scopes_of s i = (let scs = sort (map snd (filter (\<lambda>(k, sc). k = i) (api_key_scopes s)))
                    in if scs = [] then default_scopes else scs)"

lemma scopes_of_tick [simp]: "scopes_of (s\<lparr>tick := t\<rparr>) i = scopes_of s i"
  and scopes_of_keys [simp]: "scopes_of (s\<lparr>api_keys := x\<rparr>) i = scopes_of s i"
  by (simp_all add: scopes_of_def)

lemma with_scopes_run:
  "with_scopes info s = (if fails s (tick s) then Inl (StoreError DbError)
     else Inr (info\<lparr>ki_scopes := scopes_of s (ki_key_id info)\<rparr>), s\<lparr>tick := Suc (tick s)\<rparr>)"
  by (simp add: with_scopes_def load_scopes_def bindE_def map_err_def exec_def gets_def ret_def scopes_of_def Let_def)

lemma insert_scopes_frame:
  assumes "insert_scopes k scs s = (r, t)"
  shows "api_keys t = api_keys s"
  by (rule keepsD [OF keeps_insert_scopes [of "\<lambda>w. api_keys w = api_keys s"] _ assms]) auto

lemma insert_scopes_set:
  "insert_scopes k scs s = (Inr u, t) \<Longrightarrow> set (api_key_scopes t) = set (api_key_scopes s) \<union> {k} \<times> set scs"
proof (induction scs arbitrary: s)
  case (Cons sc scs)
  then show ?case
    by (auto elim!: bindE_InrE exec_InrE simp: modify_def split: if_splits)
qed (simp add: ret_def)

lemma new_key_row_simps [simp]:
  "k_key_id (new_key_row i hash a d now e) = i" "k_api_key_hash (new_key_row i hash a d now e) = hash"
  "k_status (new_key_row i hash a d now e) = ''Active''"
  by (simp_all add: new_key_row_def)

lemma create_keyE:
  assumes "create_key h a d ttl s = (Inr (raw, info), s1)"
  obtains i now e where "api_keys s1 = api_keys s @ [new_key_row i (h raw) a d now e]"
    and "i \<notin> k_key_id ` set (api_keys s)" and "h raw \<notin> k_api_key_hash ` set (api_keys s)"
    and "info = \<lparr>ki_key_id = i, ki_agent_id = a, ki_description = d, ki_status = KeyActive, ki_created_at = now,
           ki_expires_at = e, ki_last_used_at = None, ki_scopes = scopes_of s1 i\<rparr>"
    and "ttl = None \<longrightarrow> e = None"
  using assms
  by (auto simp: create_key_def Let_def ret_def throw_def new_v4_def utc_now_def insert_key_row_def with_scopes_run
      info_of_api_key_def elim!: bindE_InrE exec_InrE dest!: insert_scopes_frame split: if_splits option.splits)

lemma set_scopes_or_default:
  "set xs = set ys \<Longrightarrow> set (let l = sort xs in if l = [] then ds else l) = set (if ys = [] then ds else ys)"
proof -
  assume eq: "set xs = set ys"
  then have "xs = [] \<longleftrightarrow> ys = []" by (metis set_empty)
  moreover have "sort xs = [] \<longleftrightarrow> xs = []" by (metis set_empty set_sort)
  ultimately show ?thesis using eq by (simp add: Let_def)
qed

lemma create_key_with_scopesE:
  assumes "create_key_with_scopes h a d ttl scopes s = (Inr (raw, info), s1)"
  obtains i now e where "api_keys s1 = api_keys s @ [new_key_row i (h raw) a d now e]"
    and "i \<notin> k_key_id ` set (api_keys s)"
    and "ki_agent_id info = a" and "ki_key_id info = i"
    and "set (ki_scopes info) = set (if scopes = [] then default_scopes else scopes)"
    and "h raw \<notin> k_api_key_hash ` set (api_keys s)" and "ki_scopes info = scopes_of s1 i" and "ttl = None \<longrightarrow> e = None"
proof -
  from assms obtain info0 s2 s3 where c: "create_key h a d ttl s = (Inr (raw, info0), s2)"
    and ins: "insert_scopes (ki_key_id info0) scopes
        (s2\<lparr>tick := Suc (tick s2), api_key_scopes := filter (\<lambda>(k, sc). k \<noteq> ki_key_id info0) (api_key_scopes s2)\<rparr>) = (Inr (), s3)"
    and s1: "s1 = s3\<lparr>tick := Suc (tick s3)\<rparr>"
    and info: "info = info0\<lparr>ki_scopes := scopes_of s3 (ki_key_id info0)\<rparr>"
    unfolding create_key_with_scopes_def
    by (auto elim!: bindE_InrE exec_InrE simp: modify_def ret_def with_scopes_run split: if_splits prod.splits)
  have "set (map snd (filter (\<lambda>(k, sc). k = ki_key_id info0) (api_key_scopes s3))) = set scopes"
    using insert_scopes_set [OF ins] by (auto simp: image_def)
  from set_scopes_or_default [OF this, of default_scopes]
  have sc: "set (ki_scopes info) = set (if scopes = [] then default_scopes else scopes)"
    unfolding info scopes_of_def by simp
  have kept: "ki_scopes info = scopes_of s1 (ki_key_id info0)" by (simp add: s1 info)
  show thesis
    by (rule create_keyE [OF c], rule that) (use insert_scopes_frame [OF ins] s1 info sc kept in auto)
qed

text \<open>The secret of a row just added verifies.\<close>

lemma verify_new_row:
  assumes "api_keys s1 = api_keys s @ [new_key_row i (h raw) a d now e]" and "h raw \<notin> k_api_key_hash ` set (api_keys s)"
    and "\<And>n. \<not> fails s1 n" and "\<And>t. e = Some t \<Longrightarrow> clock s1 (Suc (tick s1)) \<le> t" and "read_time_option e = e"
  shows "fst (verify_key h raw s1) = Inr \<lparr>ki_key_id = i, ki_agent_id = a, ki_description = d, ki_status = KeyActive,
     ki_created_at = read_time now, ki_expires_at = e, ki_last_used_at = None, ki_scopes = scopes_of s1 i\<rparr>"
proof -
  have "find (\<lambda>r. k_api_key_hash r = h raw) (api_keys s1) = Some (new_key_row i (h raw) a d now e)"
    using find_key_None [OF assms(2)] by (simp add: assms(1) find_append)
  moreover have "map_row_to_api_key (new_key_row i (h raw) a d now e) = \<lparr>ak_key_id = i, ak_api_key_hash = h raw,
      ak_agent_id = a, ak_description = d, ak_status = KeyActive, ak_created_at = read_time now, ak_expires_at = e,
      ak_revoked_at = None, ak_last_used_at = None\<rparr>"
    using assms(5) by (simp add: map_row_to_api_key_def new_key_row_def parse_key_status_def read_time_option_def)
  ultimately show ?thesis
    using assms(3,4)
    by (cases e) (auto simp: verify_key_def query_key_def bindE_def map_err_def utc_now_def ret_def
        update_key_rows_def with_scopes_run info_of_api_key_def)
qed

text \<open>
  The secret that \<open>create_key\<close> returns verifies: as long as no statement fails,
  the clock has not passed the key's expiry and its dates lie in the years 0 to 9999, \<open>verify_key\<close>
  on the returned secret gives back exactly the information \<open>create_key\<close> returned.
\<close>

theorem create_then_verify:
  assumes "create_key h a d ttl s = (Inr (raw, info), s1)"
    and "\<And>n. \<not> fails s1 n"
    and "\<And>e. ki_expires_at info = Some e \<Longrightarrow> clock s1 (Suc (tick s1)) \<le> e"
    and "parse_rfc3339 (ki_created_at info) \<noteq> None"
    and "\<And>e. ki_expires_at info = Some e \<Longrightarrow> parse_rfc3339 e \<noteq> None"
  shows "fst (verify_key h raw s1) = Inr info"
proof -
  obtain i now e where keys: "api_keys s1 = api_keys s @ [new_key_row i (h raw) a d now e]"
    and fresh: "h raw \<notin> k_api_key_hash ` set (api_keys s)"
    and info: "info = \<lparr>ki_key_id = i, ki_agent_id = a, ki_description = d, ki_status = KeyActive, ki_created_at = now,
           ki_expires_at = e, ki_last_used_at = None, ki_scopes = scopes_of s1 i\<rparr>"
    using create_keyE [OF assms(1)] .
  have rt: "read_time now = now" "read_time_option e = e"
    using assms(4,5) by (auto simp: info read_time_def read_time_option_def parse_rfc3339_def split: if_splits option.splits
        bind_splits)
  show ?thesis
    using verify_new_row [of s1 s i h raw a d now e, OF keys fresh assms(2)] assms(3) rt info by simp
qed

lemma create_then_verify_witness:
  "fst (verify_key (\<lambda>x. x) (''sk_live_'' @ ''aa'') (snd (create_key (\<lambda>x. x) ''agent'' None (Some 1) key_world))) =
     Inr \<lparr>ki_key_id = ''a'', ki_agent_id = ''agent'', ki_description = None, ki_status = KeyActive, ki_created_at = 2,
       ki_expires_at = Some (2 + days 1), ki_last_used_at = None, ki_scopes = default_scopes\<rparr>"
proof -
  have run: "create_key (\<lambda>x. x) ''agent'' None (Some 1) key_world =
    (Inr (''sk_live_'' @ ''aa'', \<lparr>ki_key_id = ''a'', ki_agent_id = ''agent'', ki_description = None, ki_status = KeyActive,
       ki_created_at = 2, ki_expires_at = Some (2 + days 1), ki_last_used_at = None, ki_scopes = default_scopes\<rparr>),
     snd (create_key (\<lambda>x. x) ''agent'' None (Some 1) key_world))"
    by (simp only: prod_eq_iff fst_conv snd_conv simp_thms) code_simp
  have env: "\<And>n. \<not> fails (snd (create_key (\<lambda>x. x) ''agent'' None (Some 1) key_world)) n"
    "clock (snd (create_key (\<lambda>x. x) ''agent'' None (Some 1) key_world)) = int"
    using keepsD [OF key_env.create_key [of "\<lambda>_. False" int] _ run] by (simp_all add: key_world_def)
  have "tick (snd (create_key (\<lambda>x. x) ''agent'' None (Some 1) key_world)) = 7"
    by code_simp
  then show ?thesis
    by (intro create_then_verify [OF run])
      (auto simp: env parse_rfc3339_def days_def secs_def)
qed

text \<open>A rotation is a revocation followed by the creation of a key with the old one's agent and scopes.\<close>

lemma rotate_keyE:
  assumes "rotate_key h i ttl s = (Inr (raw, info), s1)"
  obtains r s2 where "r \<in> set (api_keys s)" and "k_key_id r = i"
    and "api_keys s2 = sql_update (\<lambda>r. k_key_id r = i)
      (\<lambda>r. r\<lparr>k_status := ''Revoked'', k_revoked_at := Some (clock s (tick s + 3))\<rparr>) (api_keys s)"
    and "create_key_with_scopes h (k_agent_id r) None ttl (scopes_of s i) s2 = (Inr (raw, info), s1)"
    and "fails s2 = fails s" and "clock s2 = clock s"
proof -
  define s2 where "s2 = s\<lparr>tick := tick s + 5, api_keys := sql_update (\<lambda>r. k_key_id r = i)
      (\<lambda>r. r\<lparr>k_status := ''Revoked'', k_revoked_at := Some (clock s (tick s + 3))\<rparr>) (api_keys s)\<rparr>"
  from assms obtain r where
    r: "find (\<lambda>r. k_key_id r = i) (api_keys s) = Some r"
    and cr: "create_key_with_scopes h (k_agent_id r) None ttl (scopes_of s (k_key_id r)) s2 = (Inr (raw, info), s1)"
    unfolding s2_def
    by (auto simp: rotate_key_def get_key_info_def query_key_def revoke_key_def update_key_rows_def utc_now_def
        with_scopes_run map_row_to_info_def info_of_api_key_def map_row_to_api_key_def ret_def throw_def
        eval_nat_numeral elim!: bindE_InrE exec_InrE split: if_splits option.splits)
  have rin: "r \<in> set (api_keys s)" "k_key_id r = i"
    using find_Some_in_set [OF r] by auto
  show thesis
    by (rule that [of r s2]) (use rin cr in \<open>simp_all add: s2_def\<close>)
qed

text \<open>
  \<open>rotate_key\<close> that returns has revoked the old key for good and issued a fresh
  key for the same agent with the same scopes.  It does so whatever the old key's status: also a
  revoked or expired key rotates into an active one.
\<close>

theorem rotation_replaces_key:
  assumes "keys_wf s" and "rotate_key h i ttl s = (Inr (raw, info), s1)"
  shows "\<exists>r \<in> set (api_keys s). k_key_id r = i \<and> ki_agent_id info = k_agent_id r \<and>
           set (ki_scopes info) = set (scopes_of s i) \<and> hash_revoked (k_api_key_hash r) s1 \<and>
           (\<exists>q \<in> set (api_keys s1). k_key_id q = ki_key_id info \<and> k_api_key_hash q = h raw \<and>
              k_status q = ''Active'' \<and> ki_key_id info \<notin> k_key_id ` set (api_keys s))"
proof -
  obtain r s2 where rin: "r \<in> set (api_keys s)" "k_key_id r = i"
    and rev: "api_keys s2 = sql_update (\<lambda>r. k_key_id r = i)
      (\<lambda>r. r\<lparr>k_status := ''Revoked'', k_revoked_at := Some (clock s (tick s + 3))\<rparr>) (api_keys s)"
    and cr: "create_key_with_scopes h (k_agent_id r) None ttl (scopes_of s i) s2 = (Inr (raw, info), s1)"
    by (rule rotate_keyE [OF assms(2)])
  have ids: "k_key_id ` set (api_keys s2) = k_key_id ` set (api_keys s)"
    by (simp add: rev flip: set_map)
  have ne: "scopes_of s i \<noteq> []"
    by (simp add: scopes_of_def Let_def default_scopes_def)
  have dead: "hash_revoked (k_api_key_hash r) s2"
    using rin by (auto simp: hash_revoked_def rev intro!: bex_sql_update [of r])
  obtain j now e where new: "api_keys s1 = api_keys s2 @ [new_key_row j (h raw) (k_agent_id r) None now e]"
    "j \<notin> k_key_id ` set (api_keys s2)" "ki_agent_id info = k_agent_id r" "ki_key_id info = j"
    and "set (ki_scopes info) = set (if scopes_of s i = [] then default_scopes else scopes_of s i)"
    by (rule create_key_with_scopesE [OF cr])
  then have scopes: "set (ki_scopes info) = set (scopes_of s i)" using ne by simp
  show ?thesis
    by (rule bexI [OF _ rin(1)]) (use rin(2) new scopes ids dead in \<open>auto simp: hash_revoked_def\<close>)
qed

lemma rotation_replaces_key_witness:
  "\<exists>q \<in> set (api_keys (snd (rotate_key (\<lambda>x. x) ''k'' None (one_key_world ''Revoked'')))).
     k_agent_id q = ''agent'' \<and> k_status q = ''Active''"
proof -
  let ?run = "rotate_key (\<lambda>x. x) ''k'' None (one_key_world ''Revoked'')"
  have "case fst ?run of Inl _ \<Rightarrow> False | Inr (raw, info) \<Rightarrow> ki_key_id info = ''aaaaaa''" by code_simp
  then obtain raw info where "?run = (Inr (raw, info), snd ?run)" and "ki_key_id info = ''aaaaaa''"
    by (cases ?run) (auto split: sum.splits)
  moreover have "keys_wf (one_key_world ''Revoked'')" by code_simp
  ultimately have "\<exists>q \<in> set (api_keys (snd ?run)). k_key_id q = ''aaaaaa'' \<and> k_status q = ''Active''"
    using rotation_replaces_key [of "one_key_world ''Revoked''" "\<lambda>x. x" "''k''" None raw info "snd ?run"] by metis
  moreover have "\<forall>q \<in> set (api_keys (snd ?run)). k_agent_id q = ''agent''" by code_simp
  ultimately show ?thesis by blast
qed

section \<open>Properties of public keys\<close>

text \<open>
  From an empty key store, whatever calls are made and whichever statements
  fail, key ids and key digests are unique, versions of a sender's public key are unique and at
  most one of them is active.
\<close>

theorem keystore_invariant:
  assumes "api_keys s = []" and "public_keys s = []" and "(key_step h)\<^sup>*\<^sup>* s s'"
  shows "keys_wf s' \<and> pki_wf s'"
  using assms keys_unique.run [OF assms(3)] one_active_key.run [OF assms(3)]
  by (simp add: keys_wf_def pki_wf_def)

lemma keystore_invariant_witness:
  "pki_wf (snd (register_public_key ''bob'' (replicate 64 CHR ''b'') (snd (register_public_key ''bob'' (replicate 64 CHR ''a'') key_world))))"
proof -
  have step: "key_step (\<lambda>x. x) s (snd (register_public_key sender hex s))" for s sender hex
    by (rule step_register [OF prod.collapse [symmetric]])
  have "(key_step (\<lambda>x. x))\<^sup>*\<^sup>* key_world (snd (register_public_key ''bob'' (replicate 64 CHR ''b'')
      (snd (register_public_key ''bob'' (replicate 64 CHR ''a'') key_world))))"
    by (rule rtranclp.rtrancl_into_rtrancl, rule rtranclp.rtrancl_into_rtrancl, rule rtranclp.rtrancl_refl)
      (rule step)+
  from keystore_invariant [OF _ _ this] show ?thesis
    by (simp add: key_world_def)
qed

text \<open>
  A registration that returns makes the new key the sender's only active key:
  \<open>get_public_key\<close> answers it, and every version stored for the sender before is revoked.
\<close>

theorem registration_takes_effect:
  assumes "register_public_key sender hex s = (Inr pk, s1)" and "\<not> fails s1 (tick s1)"
    and "parse_rfc3339 (pk_created_at pk) \<noteq> None"
  shows "fst (get_public_key sender s1) = Inr (Some pk) \<and> pk_public_key_hex pk = hex \<and>
     (\<forall>r \<in> set (public_keys s1). q_sender_id r = sender \<longrightarrow> q_status r = ''Active'' \<longrightarrow>
        map_row_to_public_key r = pk)"
proof -
  obtain s2 s3 m now where pk: "pk = \<lparr>pk_sender_id = sender, pk_public_key_hex = hex, pk_version = m,
          pk_created_at = now, pk_status = PkActive\<rparr>"
    and sup: "supersede_public_keys sender s2 = (Inr (), s3)"
    and ins: "public_keys s1 = public_keys s3 @ [\<lparr>q_sender_id = sender, q_version = m, q_public_key_hex = hex,
          q_created_at = now, q_status = ''Active''\<rparr>]"
    using assms(1)
    by (auto simp: register_public_key_def throw_def ret_def Let_def insert_public_key_def split: if_splits
        elim!: bindE_InrE exec_InrE)
  have row: "map_row_to_public_key \<lparr>q_sender_id = sender, q_version = m, q_public_key_hex = hex,
          q_created_at = now, q_status = ''Active''\<rparr> = pk"
    using assms(3) by (auto simp: map_row_to_public_key_def pk parse_public_key_status_def read_time_def parse_rfc3339_def
        split: if_splits)
  have "filter (\<lambda>r. q_sender_id r = sender \<and> q_status r = ''Active'') (public_keys s1) =
      [\<lparr>q_sender_id = sender, q_version = m, q_public_key_hex = hex, q_created_at = now, q_status = ''Active''\<rparr>]"
    using supersede_none_active [OF sup] by (simp add: ins filter_empty_conv)
  with row have "fst (get_public_key sender s1) = Inr (Some pk)"
    using assms(2) by (simp add: get_public_key_def map_err_def gets_def order_desc_def)
  moreover have "\<forall>r \<in> set (public_keys s1). q_sender_id r = sender \<longrightarrow> q_status r = ''Active'' \<longrightarrow>
        map_row_to_public_key r = pk"
    using supersede_none_active [OF sup] row by (auto simp: ins)
  ultimately show ?thesis by (simp add: pk)
qed

lemma registration_takes_effect_witness:
  "fst (get_public_key ''bob'' (snd (register_public_key ''bob'' (replicate 64 CHR ''a'') key_world))) =
     Inr (Some \<lparr>pk_sender_id = ''bob'', pk_public_key_hex = replicate 64 CHR ''a'', pk_version = 1,
       pk_created_at = 0, pk_status = PkActive\<rparr>)"
proof -
  have run: "register_public_key ''bob'' (replicate 64 CHR ''a'') key_world =
     (Inr \<lparr>pk_sender_id = ''bob'', pk_public_key_hex = replicate 64 CHR ''a'', pk_version = 1,
       pk_created_at = 0, pk_status = PkActive\<rparr>, snd (register_public_key ''bob'' (replicate 64 CHR ''a'') key_world))"
    by (simp only: prod_eq_iff fst_conv snd_conv simp_thms) code_simp
  have "fails (snd (register_public_key ''bob'' (replicate 64 CHR ''a'') key_world)) = (\<lambda>_. False)"
    using keepsD [OF key_env.register_public_key [of "\<lambda>_. False" int] _ run] by (simp add: key_world_def)
  then show ?thesis
    by (intro registration_takes_effect [OF run, THEN conjunct1]) (simp_all add: parse_rfc3339_def secs_def)
qed

end
