(* ===== verification/SharedTask.thy ===== *)
theory SharedTask
  imports MemoryRepo Redis
begin

text \<open>
  \<open>task_repo.rs\<close> and \<open>shared_task.rs\<close>: the shared task context of cooperating agents, its
  read-through cache and the handoff of ownership under a distributed lock.  The lemmas show
  what a handoff that returns has done, that a held lock keeps a second handoff out, that no
  finding is ever lost, and where the cache can serve a stale owner.
\<close>

section \<open>The repository\<close>

datatype task_repo_error = TaskDatabase db_error

definition map_row_to_task :: "task_row \<Rightarrow> shared_task_context" where
  "map_row_to_task r = \<lparr>
     st_task_id = t_task_id r,
     st_parent_task_id = t_parent_task_id r,
     st_initiator_user_id = t_initiator_user_id r,
     st_organization_scope = t_organization_scope r,
     st_goal = t_goal r,
     st_constraints = array_or_empty (t_constraints r),
     st_success_criteria = array_or_empty (t_success_criteria r),
     st_entities = array_or_empty (t_entities r),
     st_business_refs = array_or_empty (t_business_refs r),
     st_current_findings = array_or_empty (t_current_findings r),
     st_evidence_refs = array_or_empty (t_evidence_refs r),
     st_decisions = array_or_empty (t_decisions r),
     st_assumptions = array_or_empty (t_assumptions r),
     st_completed_steps = array_or_empty (t_completed_steps r),
     st_pending_steps = array_or_empty (t_pending_steps r),
     st_current_owner_agent = t_current_owner_agent r,
     st_participant_agents = array_or_empty (t_participant_agents r),
     st_artifact_refs = array_or_empty (t_artifact_refs r),
     st_source_system_refs = array_or_empty (t_source_system_refs r),
     st_status = t_status r,
     st_version = t_version r,
     st_expires_at = t_expires_at r,
     st_acl = t_acl r,
     st_privacy_class = parse_privacy_class (t_privacy_class r),
     st_audit_ref = t_audit_ref r,
     st_created_at = t_created_at r,
     st_updated_at = t_updated_at r\<rparr>"

definition row_of_task :: "uuid \<Rightarrow> shared_task_context \<Rightarrow> time \<Rightarrow> task_row" where
  "row_of_task i t now = \<lparr>
     t_task_id = i,
     t_parent_task_id = st_parent_task_id t,
     t_initiator_user_id = st_initiator_user_id t,
     t_organization_scope = st_organization_scope t,
     t_goal = st_goal t,
     t_constraints = JArray (st_constraints t),
     t_success_criteria = JArray (st_success_criteria t),
     t_entities = JArray (st_entities t),
     t_business_refs = JArray (st_business_refs t),
     t_current_findings = JArray (st_current_findings t),
     t_evidence_refs = JArray (st_evidence_refs t),
     t_decisions = JArray (st_decisions t),
     t_assumptions = JArray (st_assumptions t),
     t_completed_steps = JArray (st_completed_steps t),
     t_pending_steps = JArray (st_pending_steps t),
     t_current_owner_agent = st_current_owner_agent t,
     t_participant_agents = JArray (st_participant_agents t),
     t_artifact_refs = JArray (st_artifact_refs t),
     t_source_system_refs = JArray (st_source_system_refs t),
     t_status = st_status t,
     t_version = 1,
     t_expires_at = st_expires_at t,
     t_acl = st_acl t,
     t_privacy_class = privacy_class_as_str (st_privacy_class t),
     t_audit_ref = st_audit_ref t,
     t_created_at = now,
     t_updated_at = now\<rparr>"

definition task_insert :: "shared_task_context \<Rightarrow> (world, task_repo_error, uuid) op" where
  "task_insert task =
     bindE (if st_task_id task = uuid_nil then new_v4 else ret (st_task_id task)) (\<lambda>i.
     bindE (map_err TaskDatabase (exec (\<lambda>w.
        if i \<in> t_task_id ` set (task_contexts w) then (Inl DbError, w)
        else (Inr (), w\<lparr>task_contexts := task_contexts w @ [row_of_task i task (sql_now w)]\<rparr>)))) (\<lambda>_.
     ret i))"

definition task_get_by_id :: "uuid \<Rightarrow> (world, task_repo_error, shared_task_context option) op" where
  "task_get_by_id i =
     bindE (map_err TaskDatabase (exec (gets (\<lambda>w. find (\<lambda>r. t_task_id r = i) (task_contexts w))))) (\<lambda>row.
     ret (map_option map_row_to_task row))"

text \<open>
  \<open>UPDATE shared_task_context SET .. WHERE task_id = $1\<close>: the number of rows is not looked at.
  A statement that would take \<open>version\<close> past \<open>INTEGER\<close> is rejected.
\<close>

definition update_task_row :: "uuid \<Rightarrow> bool \<Rightarrow> (time \<Rightarrow> task_row \<Rightarrow> task_row) \<Rightarrow> (world, task_repo_error, unit) op" where
  "update_task_row i bump f = map_err TaskDatabase (exec (\<lambda>w.
     if bump \<and> (\<exists>r \<in> set (task_contexts w). t_task_id r = i \<and> t_version r \<ge> int4_max) then (Inl DbError, w)
     else (Inr (), w\<lparr>task_contexts := sql_update (\<lambda>r. t_task_id r = i) (f (sql_now w)) (task_contexts w)\<rparr>)))"

definition task_add_findings :: "uuid \<Rightarrow> json list \<Rightarrow> (world, task_repo_error, unit) op" where
  "task_add_findings i findings = update_task_row i True (\<lambda>now r.
     r\<lparr>t_current_findings := jsonb_concat (t_current_findings r) (JArray findings),
       t_version := t_version r + 1, t_updated_at := now\<rparr>)"

definition task_update_status :: "uuid \<Rightarrow> string \<Rightarrow> (world, task_repo_error, unit) op" where
  "task_update_status i status = update_task_row i False (\<lambda>now r. r\<lparr>t_status := status, t_updated_at := now\<rparr>)"

definition task_handoff :: "uuid \<Rightarrow> string \<Rightarrow> (world, task_repo_error, unit) op" where
  "task_handoff i new_owner_agent = update_task_row i True (\<lambda>now r.
     r\<lparr>t_current_owner_agent := Some new_owner_agent, t_version := t_version r + 1, t_updated_at := now\<rparr>)"

section \<open>The manager\<close>

datatype shared_task_error =
    TaskRepoErr task_repo_error
  | CacheErr
  | LockErr
  | InvalidHandoff string
  | TaskNotFound

record task_handoff_request =
  hr_task_id :: uuid
  hr_from_agent :: string
  hr_to_agent :: string
  hr_reason :: string
  hr_pending_steps :: "json list"

definition validate :: "task_handoff_request \<Rightarrow> shared_task_error + unit" where
  "validate req =
     (if hr_from_agent req = [] \<or> hr_to_agent req = []
      then Inl (InvalidHandoff ''from_agent and to_agent must not be empty'')
      else if hr_from_agent req = hr_to_agent req
      then Inl (InvalidHandoff (''from_agent and to_agent must differ (both are '' @ quoted (hr_from_agent req) @ '')''))
      else Inr ())"

definition lock_resource :: "task_handoff_request \<Rightarrow> string" where
  "lock_resource req = ''task:'' @ hr_task_id req"

definition lock_holder :: "task_handoff_request \<Rightarrow> string" where
  "lock_holder req = hr_from_agent req"

text \<open>
  Whether a hot-context and a session repository are attached, and \<open>serde_json\<close>'s encoding of
  a task: \<open>to_vec\<close> may fail, \<open>from_slice\<close> rejects what is not an encoded task.
\<close>

record shared_task_manager =
  sm_hot_context :: bool
  sm_session :: bool
  sm_to_vec :: "shared_task_context \<Rightarrow> string option"
  sm_from_slice :: "string \<Rightarrow> shared_task_context option"

definition create_task :: "shared_task_context \<Rightarrow> (world, shared_task_error, uuid) op" where
  "create_task task = map_err TaskRepoErr (task_insert task)"

definition populate_task_cache :: "shared_task_manager \<Rightarrow> uuid \<Rightarrow> shared_task_context \<Rightarrow> (world, shared_task_error, unit) op" where
  "populate_task_cache m i task =
     (if sm_hot_context m
      then case sm_to_vec m task of
             None \<Rightarrow> ret ()
           | Some data \<Rightarrow> tryE (set_task_context i data DEFAULT_TTL_SECS) (\<lambda>_. ret ())
      else ret ())"

definition cached_task :: "shared_task_manager \<Rightarrow> uuid \<Rightarrow> (world, shared_task_error, shared_task_context option) op" where
  "cached_task m i =
     (if sm_hot_context m
      then tryE (get_task_context i) (\<lambda>r.
             case r of Inr (Some data) \<Rightarrow> ret (sm_from_slice m data) | Inr None \<Rightarrow> ret None | Inl _ \<Rightarrow> ret None)
      else ret None)"

definition get_context :: "shared_task_manager \<Rightarrow> uuid \<Rightarrow> (world, shared_task_error, shared_task_context option) op" where
  "get_context m i =
     bindE (cached_task m i) (\<lambda>hit.
     case hit of
       Some task \<Rightarrow> ret (Some task)
     | None \<Rightarrow>
         bindE (map_err TaskRepoErr (task_get_by_id i)) (\<lambda>task.
         bindE (case task of None \<Rightarrow> ret () | Some t \<Rightarrow> populate_task_cache m i t) (\<lambda>_.
         ret task)))"

definition invalidate_task_cache_best_effort :: "shared_task_manager \<Rightarrow> uuid \<Rightarrow> (world, shared_task_error, unit) op" where
  "invalidate_task_cache_best_effort m i =
     (if sm_hot_context m then tryE (invalidate_task_context i) (\<lambda>_. ret ()) else ret ())"

definition invalidate_task_cache :: "shared_task_manager \<Rightarrow> uuid \<Rightarrow> (world, shared_task_error, unit) op" where
  "invalidate_task_cache m i =
     (if sm_hot_context m then map_err (\<lambda>_. CacheErr) (invalidate_task_context i) else ret ())"

definition add_findings :: "shared_task_manager \<Rightarrow> uuid \<Rightarrow> json list \<Rightarrow> (world, shared_task_error, unit) op" where
  "add_findings m i findings =
     bindE (map_err TaskRepoErr (task_add_findings i findings)) (\<lambda>_. invalidate_task_cache_best_effort m i)"

definition update_task_status :: "shared_task_manager \<Rightarrow> uuid \<Rightarrow> string \<Rightarrow> (world, shared_task_error, unit) op" where
  "update_task_status m i status =
     bindE (map_err TaskRepoErr (task_update_status i status)) (\<lambda>_. invalidate_task_cache_best_effort m i)"

definition perform_handoff :: "shared_task_manager \<Rightarrow> task_handoff_request \<Rightarrow> (world, shared_task_error, unit) op" where
  "perform_handoff m req =
     bindE (map_err TaskRepoErr (task_handoff (hr_task_id req) (hr_to_agent req))) (\<lambda>_.
     bindE (if hr_pending_steps req = [] then ret ()
            else map_err TaskRepoErr (task_add_findings (hr_task_id req) (hr_pending_steps req))) (\<lambda>_.
     invalidate_task_cache_best_effort m (hr_task_id req)))"

definition handoff :: "shared_task_manager \<Rightarrow> task_handoff_request \<Rightarrow> (world, shared_task_error, unit) op" where
  "handoff m req =
     (case validate req of
        Inl e \<Rightarrow> throw e
      | Inr _ \<Rightarrow>
          if \<not> sm_session m then throw (InvalidHandoff ''distributed lock (SessionRepo) is required for handoff'')
          else
            bindE (map_err (\<lambda>_. LockErr) (acquire_lock (lock_resource req) (lock_holder req) 30)) (\<lambda>acquired.
            if \<not> acquired then throw LockErr
            else
              tryE (perform_handoff m req) (\<lambda>result.
              tryE (release_lock (lock_resource req) (lock_holder req)) (\<lambda>_.
              case result of Inl e \<Rightarrow> throw e | Inr x \<Rightarrow> ret x))))"

lemmas task_ops = task_add_findings_def task_update_status_def task_handoff_def update_task_row_def

section \<open>Frames\<close>

lemma keeps_redis_frame:
  assumes "\<And>w t. P w \<Longrightarrow> P (w\<lparr>tick := t\<rparr>)" and "\<And>w r. P w \<Longrightarrow> P (w\<lparr>redis_keys := r\<rparr>)"
  shows "keeps P (get_task_context i)" "keeps P (set_task_context i d n)" "keeps P (invalidate_task_context i)"
    "keeps P (acquire_lock res h n)" "keeps P (release_lock res h)"
proof -
  show "keeps P (get_task_context i)" "keeps P (set_task_context i d n)" "keeps P (invalidate_task_context i)"
    unfolding redis_ops by (auto intro!: keeps_redis_get keeps_redis_set_ex keeps_redis_del intro: assms)
  show "keeps P (acquire_lock res h n)" "keeps P (release_lock res h)"
    unfolding redis_ops by (intro keep_intros assms keepsI; auto split: if_splits intro: assms)+
qed

lemma keeps_cache_frame:
  assumes "\<And>w t. P w \<Longrightarrow> P (w\<lparr>tick := t\<rparr>)" and "\<And>w r. P w \<Longrightarrow> P (w\<lparr>redis_keys := r\<rparr>)"
  shows "keeps P (populate_task_cache m i t)" "keeps P (cached_task m i)"
    "keeps P (invalidate_task_cache_best_effort m i)" "keeps P (invalidate_task_cache m i)"
  unfolding populate_task_cache_def cached_task_def invalidate_task_cache_best_effort_def invalidate_task_cache_def
  by (auto intro!: keep_intros keeps_redis_frame assms split: option.split sum.split)

lemma keeps_get_context:
  assumes "\<And>w t. P w \<Longrightarrow> P (w\<lparr>tick := t\<rparr>)" and "\<And>w r. P w \<Longrightarrow> P (w\<lparr>redis_keys := r\<rparr>)"
  shows "keeps P (get_context m i)"
  unfolding get_context_def task_get_by_id_def
  by (auto intro!: keep_intros keeps_cache_frame assms split: option.split)

lemma keeps_handoff:
  assumes "\<And>w t. P w \<Longrightarrow> P (w\<lparr>tick := t\<rparr>)" and "\<And>w r. P w \<Longrightarrow> P (w\<lparr>redis_keys := r\<rparr>)"
    and "keeps P (task_handoff (hr_task_id req) (hr_to_agent req))"
    and "keeps P (task_add_findings (hr_task_id req) (hr_pending_steps req))"
  shows "keeps P (handoff m req)"
  unfolding handoff_def perform_handoff_def
  by (auto intro!: keep_intros keeps_redis_frame keeps_cache_frame assms split: sum.split)

section \<open>Findings are never lost\<close>

text \<open>One call of the manager by some agent, whatever its outcome.\<close>

inductive task_call :: "shared_task_manager \<Rightarrow> world \<Rightarrow> world \<Rightarrow> bool" for m where
  call_create: "create_task t w = (r, w') \<Longrightarrow> task_call m w w'"
| call_get: "get_context m i w = (r, w') \<Longrightarrow> task_call m w w'"
| call_findings: "add_findings m i fs w = (r, w') \<Longrightarrow> task_call m w w'"
| call_status: "update_task_status m i st w = (r, w') \<Longrightarrow> task_call m w w'"
| call_handoff: "handoff m req w = (r, w') \<Longrightarrow> task_call m w w'"
| call_invalidate: "invalidate_task_cache m i w = (r, w') \<Longrightarrow> task_call m w w'"

text \<open>The row of task \<open>i\<close> holds at least the findings \<open>F\<close>, in order, at version \<open>v\<close> or later.\<close>

definition has_findings :: "uuid \<Rightarrow> json list \<Rightarrow> int \<Rightarrow> world \<Rightarrow> bool" where
  "has_findings i F v w \<longleftrightarrow> (\<exists>r \<in> set (task_contexts w). t_task_id r = i \<and> v \<le> t_version r \<and>
     (\<exists>fs. t_current_findings r = JArray fs \<and> prefix F fs))"

lemma has_findings_frame [simp]:
  "has_findings i F v (w\<lparr>tick := t\<rparr>) = has_findings i F v w"
  "has_findings i F v (w\<lparr>redis_keys := k\<rparr>) = has_findings i F v w"
  by (simp_all add: has_findings_def)

lemma bex_map_rows:
  "r \<in> set rows \<Longrightarrow> Q (if p r then f r else r) \<Longrightarrow> \<exists>q \<in> set (sql_update p f rows). Q q"
  by (simp only: sql_update_def set_map) blast

lemma keeps_findings_update:
  assumes "\<And>now r. t_task_id (f now r) = t_task_id r" "\<And>now r. t_version r \<le> t_version (f now r)"
    and "\<And>now r fs. t_current_findings r = JArray fs \<Longrightarrow> \<exists>gs. t_current_findings (f now r) = JArray (fs @ gs)"
  shows "keeps (has_findings i F v) (update_task_row j b f)"
  unfolding update_task_row_def
proof (intro keep_intros, simp_all, rule keepsI)
  fix w :: world and r :: "db_error + unit" and w'
  assume has: "has_findings i F v w"
    and run: "(if b \<and> (\<exists>r\<in>set (task_contexts w). t_task_id r = j \<and> int4_max \<le> t_version r) then (Inl DbError, w)
       else (Inr (), w\<lparr>task_contexts := sql_update (\<lambda>r. t_task_id r = j) (f (sql_now w)) (task_contexts w)\<rparr>)) = (r, w')"
  from has obtain q fs where q: "q \<in> set (task_contexts w)" "t_task_id q = i" "v \<le> t_version q"
      "t_current_findings q = JArray fs" "prefix F fs"
    by (auto simp: has_findings_def)
  obtain gs where gs: "t_current_findings (f (sql_now w) q) = JArray (fs @ gs)"
    using assms(3) [OF q(4)] by blast
  have le: "v \<le> t_version (f (sql_now w) q)"
    using q(3) assms(2) order.trans by blast
  have "\<exists>r \<in> set (sql_update (\<lambda>r. t_task_id r = j) (f (sql_now w)) (task_contexts w)).
      t_task_id r = i \<and> v \<le> t_version r \<and> (\<exists>fs. t_current_findings r = JArray fs \<and> prefix F fs)"
    using q gs le assms(1) by (intro bex_map_rows [OF q(1)]) (auto simp: prefix_prefix)
  with run has show "has_findings i F v w'"
    by (auto simp: has_findings_def split: if_splits)
qed

lemma keeps_findings_insert: "keeps (has_findings i F v) (task_insert t)"
  unfolding task_insert_def
  by (intro keep_intros; simp?) (auto simp: keeps_def has_findings_def)

lemma findings_call:
  assumes "task_call m w w'" and "has_findings i F v w"
  shows "has_findings i F v w'"
proof -
  note upd = keeps_findings_update [where i = i and F = F and v = v]
  have a: "keeps (has_findings i F v) (task_add_findings j fs)" for j fs
    unfolding task_add_findings_def by (rule upd) auto
  have s: "keeps (has_findings i F v) (task_update_status j st)" for j st
    unfolding task_update_status_def by (rule upd) auto
  have h: "keeps (has_findings i F v) (task_handoff j ag)" for j ag
    unfolding task_handoff_def by (rule upd) auto
  have k: "keeps (has_findings i F v) (create_task t)" "keeps (has_findings i F v) (get_context m j)"
    "keeps (has_findings i F v) (add_findings m j fs)" "keeps (has_findings i F v) (update_task_status m j st)"
    "keeps (has_findings i F v) (handoff m req)" "keeps (has_findings i F v) (invalidate_task_cache m j)"
    for t j fs st req
    unfolding create_task_def add_findings_def update_task_status_def
    by (intro keep_intros keeps_get_context keeps_handoff keeps_cache_frame keeps_findings_insert a s h; simp)+
  from assms show ?thesis
    by (cases rule: task_call.cases) (blast dest: keepsD [OF k(1)] keepsD [OF k(2)] keepsD [OF k(3)]
        keepsD [OF k(4)] keepsD [OF k(5)] keepsD [OF k(6)])+
qed

text \<open>
  Findings are never lost: whatever agents call afterwards on whatever tasks, and
  whichever statements fail, the findings a task had stay in its row, in order and at the front,
  and its version never goes back.
\<close>

theorem findings_only_grow:
  assumes "(task_call m)\<^sup>*\<^sup>* w w'" and "r \<in> set (task_contexts w)" and "t_current_findings r = JArray F"
  shows "\<exists>r' \<in> set (task_contexts w'). t_task_id r' = t_task_id r \<and> t_version r \<le> t_version r' \<and>
           (\<exists>G. t_current_findings r' = JArray (F @ G))"
proof -
  have "has_findings (t_task_id r) F (t_version r) w"
    using assms(2,3) by (auto simp: has_findings_def)
  with assms(1) have "has_findings (t_task_id r) F (t_version r) w'"
    by (induction rule: rtranclp_induct) (auto dest: findings_call)
  then show ?thesis
    by (auto simp: has_findings_def prefix_def)
qed

definition demo_task :: shared_task_context where
  "demo_task = \<lparr>st_task_id = ''T'', st_parent_task_id = None, st_initiator_user_id = ''u'', st_organization_scope = ''o'',
     st_goal = ''g'', st_constraints = [], st_success_criteria = [], st_entities = [], st_business_refs = [],
     st_current_findings = [JString ''f1''], st_evidence_refs = [], st_decisions = [], st_assumptions = [],
     st_completed_steps = [], st_pending_steps = [], st_current_owner_agent = Some ''a'', st_participant_agents = [],
     st_artifact_refs = [], st_source_system_refs = [], st_status = ''active'', st_version = 1, st_expires_at = None,
     st_acl = JObject [], st_privacy_class = Internal, st_audit_ref = None, st_created_at = 0, st_updated_at = 0\<rparr>"

definition demo_manager :: shared_task_manager where
  "demo_manager = \<lparr>sm_hot_context = True, sm_session = True, sm_to_vec = (\<lambda>_. None),
     sm_from_slice = (\<lambda>s. if s = ''T'' then Some demo_task else None)\<rparr>"

definition demo_tasks :: world where
  "demo_tasks = empty_world\<lparr>task_contexts := [row_of_task ''T'' demo_task 0]\<rparr>"

definition demo_handoff :: "json list \<Rightarrow> task_handoff_request" where
  "demo_handoff steps = \<lparr>hr_task_id = ''T'', hr_from_agent = ''a'', hr_to_agent = ''b'', hr_reason = [], hr_pending_steps = steps\<rparr>"

lemma findings_only_grow_witness:
  "\<exists>r' \<in> set (task_contexts (snd (handoff demo_manager (demo_handoff [JString ''s'']) demo_tasks))).
     t_task_id r' = ''T'' \<and> (\<exists>G. t_current_findings r' = JArray (JString ''f1'' # G))"
  using findings_only_grow [OF r_into_rtranclp [of "task_call demo_manager",
        OF call_handoff [OF prod.collapse [symmetric]]], of "row_of_task ''T'' demo_task 0" demo_tasks
      "[JString ''f1'']" "demo_handoff [JString ''s'']"]
  by (simp add: demo_tasks_def row_of_task_def demo_task_def) blast

section \<open>Handoff\<close>

definition handed_over :: "task_handoff_request \<Rightarrow> time \<Rightarrow> task_row \<Rightarrow> task_row" where
  "handed_over req now r =
     (let steps = hr_pending_steps req in
      r\<lparr>t_current_owner_agent := Some (hr_to_agent req),
        t_current_findings := (if steps = [] then t_current_findings r else jsonb_concat (t_current_findings r) (JArray steps)),
        t_version := t_version r + (if steps = [] then 1 else 2),
        t_updated_at := now\<rparr>)"

lemma update_task_row_InrD:
  "update_task_row i b f w = (Inr u, w') \<Longrightarrow>
     \<exists>now. task_contexts w' = sql_update (\<lambda>r. t_task_id r = i) (f now) (task_contexts w)"
  by (rule exI [of _ "sql_now (w\<lparr>tick := Suc (tick w)\<rparr>)"])
    (auto simp: update_task_row_def elim!: exec_InrE split: if_splits)

lemma tasks_frame:
  assumes "keeps (\<lambda>w. task_contexts w = T) m" and "m w = (r, w')" and "task_contexts w = T"
  shows "task_contexts w' = T"
  using keepsD [OF assms(1,3,2)] .

lemma sql_update_twice:
  assumes "\<And>r. p (f r) = p r"
  shows "sql_update p g (sql_update p f rows) = sql_update p (g \<circ> f) rows"
  using assms by (auto simp: sql_update_def)

lemma perform_handoff_InrD:
  assumes "perform_handoff m req w = (Inr u, w')"
  shows "\<exists>now. task_contexts w' =
    sql_update (\<lambda>r. t_task_id r = hr_task_id req) (handed_over req now) (task_contexts w)"
proof -
  let ?p = "\<lambda>r. t_task_id r = hr_task_id req"
  obtain w1 w2 where 1: "task_handoff (hr_task_id req) (hr_to_agent req) w = (Inr (), w1)"
    and 2: "(if hr_pending_steps req = [] then ret ()
            else map_err TaskRepoErr (task_add_findings (hr_task_id req) (hr_pending_steps req))) w1 = (Inr (), w2)"
    and 3: "invalidate_task_cache_best_effort m (hr_task_id req) w2 = (Inr u, w')"
    using assms unfolding perform_handoff_def by (auto elim!: bindE_InrE)
  have w': "task_contexts w' = task_contexts w2"
    by (rule tasks_frame [OF keeps_cache_frame(3) 3]) auto
  obtain n1 where n1: "task_contexts w1 = sql_update ?p (\<lambda>r. r\<lparr>t_current_owner_agent := Some (hr_to_agent req),
      t_version := t_version r + 1, t_updated_at := n1\<rparr>) (task_contexts w)"
    using update_task_row_InrD [OF 1 [unfolded task_handoff_def]] by blast
  show ?thesis
  proof (cases "hr_pending_steps req = []")
    case True
    with 2 have "w2 = w1" by (simp add: ret_def)
    moreover have "handed_over req n1 r = r\<lparr>t_current_owner_agent := Some (hr_to_agent req),
        t_version := t_version r + 1, t_updated_at := n1\<rparr>" for r
      using True by (cases r) (simp add: handed_over_def)
    ultimately show ?thesis using n1 w' by (intro exI [of _ n1]) (simp add: sql_update_def)
  next
    case False
    then obtain n2 where "task_contexts w2 = sql_update ?p (\<lambda>r. r\<lparr>t_current_findings :=
        jsonb_concat (t_current_findings r) (JArray (hr_pending_steps req)),
       t_version := t_version r + 1, t_updated_at := n2\<rparr>) (task_contexts w1)"
      using 2 update_task_row_InrD [of "hr_task_id req" True _ w1 "()" w2] by (auto simp: task_add_findings_def)
    with n1 w' False show ?thesis
      by (intro exI [of _ n2]) (simp add: sql_update_twice handed_over_def [abs_def] comp_def add.commute)
  qed
qed

lemma others_handed_over:
  "filter (\<lambda>x. t_task_id x \<noteq> hr_task_id req) (sql_update (\<lambda>r. t_task_id r = hr_task_id req) (handed_over req now) rows) =
     filter (\<lambda>x. t_task_id x \<noteq> hr_task_id req) rows"
  by (induction rows) (auto simp: sql_update_def handed_over_def Let_def)

text \<open>
  C24 (functional).  A handoff of a task that has a row, when it returns, was a valid request, found
  the task's lock free, and made the receiving agent the owner: the row now names it, has the
  pending steps appended to its findings and a higher version, and is otherwise as it was but for
  the modification time; the rows of all other tasks are untouched.
\<close>

theorem handoff_effect:
  assumes "handoff m req w = (Inr u, w')" and "r \<in> set (task_contexts w)" and "t_task_id r = hr_task_id req"
  shows "hr_from_agent req \<noteq> hr_to_agent req \<and> hr_from_agent req \<noteq> [] \<and> hr_to_agent req \<noteq> [] \<and>
     live_value (w\<lparr>tick := Suc (tick w)\<rparr>) (lock_key (lock_resource req)) = None \<and>
     (\<exists>now v. r\<lparr>t_current_owner_agent := Some (hr_to_agent req),
          t_current_findings := (if hr_pending_steps req = [] then t_current_findings r
             else jsonb_concat (t_current_findings r) (JArray (hr_pending_steps req))),
          t_version := v, t_updated_at := now\<rparr> \<in> set (task_contexts w') \<and> t_version r < v) \<and>
     filter (\<lambda>x. t_task_id x \<noteq> hr_task_id req) (task_contexts w') =
       filter (\<lambda>x. t_task_id x \<noteq> hr_task_id req) (task_contexts w)"
proof -
  obtain w1 w2 where v: "validate req = Inr ()"
    and 1: "acquire_lock (lock_resource req) (lock_holder req) 30 w = (Inr True, w1)"
    and 2: "perform_handoff m req w1 = (Inr u, w2)"
    and 3: "\<exists>r. release_lock (lock_resource req) (lock_holder req) w2 = (r, w')"
    using assms
    by (auto simp: handoff_def throw_def ret_def tryE_def elim!: bindE_InrE split: sum.splits if_splits prod.splits)
  have "task_contexts w' = task_contexts w2" "task_contexts w1 = task_contexts w"
    using 3 by (auto intro: tasks_frame [OF keeps_redis_frame(5)] tasks_frame [OF keeps_redis_frame(4) 1])
  moreover have "live_value (w\<lparr>tick := Suc (tick w)\<rparr>) (lock_key (lock_resource req)) = None"
    using 1 by (auto simp: acquire_lock_def redis_exec_def elim!: exec_InrE split: if_splits)
  moreover obtain now where "task_contexts w2 =
      sql_update (\<lambda>r. t_task_id r = hr_task_id req) (handed_over req now) (task_contexts w1)"
    using perform_handoff_InrD [OF 2] by blast
  ultimately have rows: "task_contexts w' =
      sql_update (\<lambda>r. t_task_id r = hr_task_id req) (handed_over req now) (task_contexts w)"
    and free: "live_value (w\<lparr>tick := Suc (tick w)\<rparr>) (lock_key (lock_resource req)) = None" by simp_all
  have "handed_over req now r \<in> set (task_contexts w')"
    using assms(2,3) unfolding rows set_sql_update by blast
  then have "\<exists>now v. r\<lparr>t_current_owner_agent := Some (hr_to_agent req),
          t_current_findings := (if hr_pending_steps req = [] then t_current_findings r
             else jsonb_concat (t_current_findings r) (JArray (hr_pending_steps req))),
          t_version := v, t_updated_at := now\<rparr> \<in> set (task_contexts w') \<and> t_version r < v"
    by (intro exI [of _ now] exI [of _ "t_version (handed_over req now r)"]) (simp add: handed_over_def Let_def)
  moreover have "filter (\<lambda>x. t_task_id x \<noteq> hr_task_id req) (task_contexts w') =
       filter (\<lambda>x. t_task_id x \<noteq> hr_task_id req) (task_contexts w)"
    unfolding rows by (rule others_handed_over)
  ultimately show ?thesis
    using v free by (auto simp: validate_def split: if_splits)
qed

lemma handoff_effect_witness:
  "\<exists>now v. (row_of_task ''T'' demo_task 0)\<lparr>t_current_owner_agent := Some ''b'',
       t_current_findings := jsonb_concat (t_current_findings (row_of_task ''T'' demo_task 0)) (JArray [JString ''s'']),
       t_version := v, t_updated_at := now\<rparr>
     \<in> set (task_contexts (snd (handoff demo_manager (demo_handoff [JString ''s'']) demo_tasks)))"
proof -
  have run: "handoff demo_manager (demo_handoff [JString ''s'']) demo_tasks =
      (Inr (), snd (handoff demo_manager (demo_handoff [JString ''s'']) demo_tasks))"
    by (simp only: prod_eq_iff fst_conv snd_conv simp_thms) code_simp
  have row: "row_of_task ''T'' demo_task 0 \<in> set (task_contexts demo_tasks)"
    "t_task_id (row_of_task ''T'' demo_task 0) = hr_task_id (demo_handoff [JString ''s''])"
    by (simp_all add: demo_tasks_def demo_handoff_def row_of_task_def)
  have req: "hr_to_agent (demo_handoff [JString ''s'']) = ''b''" "hr_pending_steps (demo_handoff [JString ''s'']) = [JString ''s'']"
    by (simp_all add: demo_handoff_def)
  show ?thesis using handoff_effect [OF run row, unfolded req] by (simp only: list.distinct if_False) blast
qed

text \<open>
  While a handoff of a task holds its lock, any other handoff of that task, by whatever
  agent, fails and changes no task and no lock.
\<close>

theorem handoff_excluded:
  assumes "live_value (w\<lparr>tick := Suc (tick w)\<rparr>) (lock_key (''task:'' @ hr_task_id req)) = Some holder"
  shows "(\<exists>e. fst (handoff m req w) = Inl e) \<and> task_contexts (snd (handoff m req w)) = task_contexts w \<and>
     redis_keys (snd (handoff m req w)) = redis_keys w"
  using assms
  by (cases "validate req"; cases "fails w (tick w)")
    (auto simp: handoff_def throw_def acquire_lock_def redis_exec_def bindE_def map_err_def lock_resource_def)

definition lock_world :: world where
  "lock_world = demo_tasks\<lparr>redis_keys := [lock_key ''task:T'' \<mapsto> (''a'', secs 30)]\<rparr>"

lemma handoff_excluded_witness:
  "task_contexts (snd (handoff demo_manager (demo_handoff []) lock_world)) = task_contexts lock_world"
proof -
  have "live_value (lock_world\<lparr>tick := Suc (tick lock_world)\<rparr>) (lock_key (''task:'' @ hr_task_id (demo_handoff []))) = Some ''a''"
    by (simp add: lock_world_def demo_handoff_def live_value_def demo_tasks_def sql_now_def secs_def empty_world_def)
  from handoff_excluded [OF this] show ?thesis by blast
qed

text \<open>
  A handoff whose second statement fails reports an error but has changed the owner
  already, and it leaves the cached task in place: until that entry expires \<open>get_context\<close> answers
  the old task, owner included.  The module comment says a write always invalidates the cache.
\<close>

theorem failed_handoff_serves_old_task:
  assumes "sm_hot_context m" and "hr_pending_steps req \<noteq> []"
    and "\<not> fails w (tick w)" and "fails w (Suc (tick w))" and "\<not> fails w (Suc (Suc (tick w)))"
    and "\<And>r. r \<in> set (task_contexts w) \<Longrightarrow> t_version r < int4_max"
    and "redis_keys w (task_context_key (hr_task_id req)) = Some (data, expiry)"
    and "clock w (Suc (Suc (Suc (tick w)))) < expiry" and "sm_from_slice m data = Some old"
  shows "(\<exists>e. fst (perform_handoff m req w) = Inl e) \<and>
     (\<forall>r \<in> set (task_contexts (snd (perform_handoff m req w))). t_task_id r = hr_task_id req \<longrightarrow>
        t_current_owner_agent r = Some (hr_to_agent req)) \<and>
     fst (get_context m (hr_task_id req) (snd (perform_handoff m req w))) = Inr (Some old)"
proof -
  define w1 where "w1 = w\<lparr>tick := Suc (tick w), task_contexts := sql_update (\<lambda>r. t_task_id r = hr_task_id req)
     (\<lambda>r. r\<lparr>t_current_owner_agent := Some (hr_to_agent req), t_version := t_version r + 1,
        t_updated_at := clock w (Suc (tick w))\<rparr>) (task_contexts w)\<rparr>"
  have "task_handoff (hr_task_id req) (hr_to_agent req) w = (Inr (), w1)"
    using assms(3,6) by (fastforce simp: task_ops map_err_def w1_def sql_now_def)
  then have run: "perform_handoff m req w = (Inl (TaskRepoErr (TaskDatabase DbError)), w1\<lparr>tick := Suc (tick w1)\<rparr>)"
    using assms(2,4) by (simp add: perform_handoff_def bindE_def map_err_def task_ops w1_def)
  have "fst (get_context m (hr_task_id req) (w1\<lparr>tick := Suc (tick w1)\<rparr>)) = Inr (Some old)"
    using assms(1,5,7-9)
    by (simp add: get_context_def cached_task_def get_task_context_def redis_get_def redis_exec_def tryE_def
        bindE_def map_err_def gets_def ret_def live_value_def w1_def sql_now_def)
  moreover have "\<forall>r \<in> set (task_contexts w1). t_task_id r = hr_task_id req \<longrightarrow>
      t_current_owner_agent r = Some (hr_to_agent req)"
    by (auto simp: w1_def set_sql_update)
  ultimately show ?thesis by (simp add: run)
qed

definition failing_world :: world where
  "failing_world = demo_tasks\<lparr>fails := (\<lambda>n. n = 1), redis_keys := [task_context_key ''T'' \<mapsto> (''T'', secs 300)]\<rparr>"

lemma failed_handoff_serves_old_task_witness:
  "fst (get_context demo_manager ''T'' (snd (perform_handoff demo_manager (demo_handoff [JString ''s'']) failing_world))) =
     Inr (Some demo_task)"
  using failed_handoff_serves_old_task [of demo_manager "demo_handoff [JString ''s'']" failing_world "''T''" "secs 300" demo_task]
  by (simp add: demo_manager_def demo_handoff_def failing_world_def demo_tasks_def empty_world_def row_of_task_def
      int4_max_def secs_def)

end
