(* ===== verification/CanonicalUser.thy ===== *)
theory CanonicalUser
  imports MemoryRepo Redis
begin

text \<open>
  \<open>user_repo.rs\<close> and \<open>canonical_user.rs\<close>: the canonical user profile, its table and cache, and
  the merge of profiles from several sources.  The lemmas show that in a merge the highest
  authority wins field by field and that disagreements are recorded, with the one input on
  which neither holds; that the upsert cannot run against the shipped table, and that the
  lookup by identity link never answers.
\<close>

section \<open>The profile\<close>

record canonical_user_profile =
  cu_user_id :: string
  cu_organization_id :: string
  cu_factory_id :: "string option"
  cu_identity_links :: "json list"
  cu_role :: "string option"
  cu_position :: "string option"
  cu_language :: "string option"
  cu_timezone :: "string option"
  cu_preferences :: json
  cu_explicit_preferences :: json
  cu_inferred_preferences :: json
  cu_common_entities :: "json list"
  cu_active_projects :: "json list"
  cu_consent_scope :: json
  cu_privacy_class :: privacy_class
  cu_source :: source_type
  cu_authority_level :: authority_level
  cu_version :: int
  cu_valid_from :: "time option"
  cu_valid_to :: "time option"
  cu_last_verified_at :: "time option"
  cu_updated_at :: time

section \<open>Merging\<close>

record conflict_entry =
  ce_field :: string
  ce_values :: "(string \<times> authority_level) list"
  ce_resolution :: string

record merged_user_profile =
  mp_profile :: canonical_user_profile
  mp_conflicts :: "conflict_entry list"
  mp_sources :: "string list"

definition empty_profile :: "time \<Rightarrow> canonical_user_profile" where
  "empty_profile now = \<lparr>cu_user_id = [], cu_organization_id = [], cu_factory_id = None, cu_identity_links = [],
     cu_role = None, cu_position = None, cu_language = None, cu_timezone = None, cu_preferences = JNull,
     cu_explicit_preferences = JNull, cu_inferred_preferences = JNull, cu_common_entities = [],
     cu_active_projects = [], cu_consent_scope = JNull, cu_privacy_class = Internal, cu_source = UserExplicit,
     cu_authority_level = L3Inferred, cu_version = 0, cu_valid_from = None, cu_valid_to = None,
     cu_last_verified_at = None, cu_updated_at = now\<rparr>"

definition em_dash :: string where
  "em_dash = [CHR 0xE2, CHR 0x80, CHR 0x94]"

text \<open>A \<open>HashSet\<close> of the values has more than one element.\<close>

definition disagree :: "'a list \<Rightarrow> bool" where
  "disagree xs \<longleftrightarrow> card (set xs) > 1"

definition opt_entries :: "canonical_user_profile list \<Rightarrow> (canonical_user_profile \<Rightarrow> string option) \<Rightarrow>
    (string \<times> authority_level) list" where
  "opt_entries profiles get =
     List.map_filter (\<lambda>p. map_option (\<lambda>v. (v, cu_authority_level p)) (get p)) profiles"

definition resolve_opt_string :: "string \<Rightarrow> canonical_user_profile list \<Rightarrow>
    (canonical_user_profile \<Rightarrow> string option) \<Rightarrow> conflict_entry list \<Rightarrow> string option \<times> conflict_entry list" where
  "resolve_opt_string field profiles get conflicts =
     (case opt_entries profiles get of
        [] \<Rightarrow> (None, conflicts)
      | (winner_val, winner_auth) # rest \<Rightarrow>
          let entries = (winner_val, winner_auth) # rest in
          (Some winner_val,
           if disagree (map fst entries)
           then conflicts @ [\<lparr>ce_field = field, ce_values = entries,
                  ce_resolution = ''Resolved to '' @ quoted winner_val @ '' from '' @ authority_level_as_str winner_auth @
                    '' '' @ em_dash @ '' highest authority wins''\<rparr>]
           else conflicts))"

definition json_values :: "json_text \<Rightarrow> canonical_user_profile list \<Rightarrow> (canonical_user_profile \<Rightarrow> json) \<Rightarrow>
    (string \<times> authority_level) list" where
  "json_values to_string profiles get = map (\<lambda>p. (to_string (get p), cu_authority_level p)) profiles"

definition resolve_json :: "json_text \<Rightarrow> string \<Rightarrow> canonical_user_profile list \<Rightarrow>
    (canonical_user_profile \<Rightarrow> json) \<Rightarrow> conflict_entry list \<Rightarrow> json \<times> conflict_entry list" where
  "resolve_json to_string field profiles get conflicts =
     (get (hd profiles),
      if disagree (map (\<lambda>p. to_string (get p)) profiles)
      then conflicts @ [\<lparr>ce_field = field, ce_values = json_values to_string profiles get,
             ce_resolution = ''Resolved to value from '' @ authority_level_as_str (cu_authority_level (hd profiles)) @
               '' '' @ em_dash @ '' highest authority wins''\<rparr>]
      else conflicts)"

text \<open>The loop from the lowest authority up: \<open>Inl\<close> is the early return with a non-object value.\<close>

definition insert_entries :: "(string \<times> json) list \<Rightarrow> (string \<times> json) list \<Rightarrow> (string \<times> json) list" where
  "insert_entries obj merged = fold (\<lambda>(k, v). obj_insert k v) obj merged"

fun merge_loop :: "json list \<Rightarrow> (string \<times> json) list \<Rightarrow> json + (string \<times> json) list" where
  "merge_loop [] merged = Inr merged"
| "merge_loop (JObject obj # vs) merged = merge_loop vs (insert_entries obj merged)"
| "merge_loop (v # vs) merged = (if v \<noteq> JNull then Inl v else merge_loop vs merged)"

definition merge_json_object :: "json_text \<Rightarrow> string \<Rightarrow> canonical_user_profile list \<Rightarrow>
    (canonical_user_profile \<Rightarrow> json) \<Rightarrow> conflict_entry list \<Rightarrow> json \<times> conflict_entry list" where
  "merge_json_object to_string field profiles get conflicts =
     (case merge_loop (map get (rev profiles)) [] of
        Inl v \<Rightarrow> (v, conflicts)
      | Inr merged \<Rightarrow>
          (JObject merged,
           if disagree (map (\<lambda>p. to_string (get p)) profiles)
           then conflicts @ [\<lparr>ce_field = field, ce_values = json_values to_string profiles get,
                  ce_resolution = ''Merged key-by-key '' @ em_dash @ '' higher-authority keys override''\<rparr>]
           else conflicts))"

fun push_unseen :: "json_text \<Rightarrow> json list \<Rightarrow> string set \<Rightarrow> json list \<Rightarrow> json list" where
  "push_unseen to_string [] seen result = result"
| "push_unseen to_string (v # vs) seen result =
     (if to_string v \<in> seen then push_unseen to_string vs seen result
      else push_unseen to_string vs (insert (to_string v) seen) (result @ [v]))"

definition union_arrays :: "json_text \<Rightarrow> canonical_user_profile list \<Rightarrow> (canonical_user_profile \<Rightarrow> json list) \<Rightarrow> json list" where
  "union_arrays to_string profiles get = push_unseen to_string (concat (map get profiles)) {} []"

definition by_authority :: "canonical_user_profile list \<Rightarrow> canonical_user_profile list" where
  "by_authority profiles = sort_key (\<lambda>p. - int (authority_rank (cu_authority_level p))) profiles"

definition merge_profiles_impl :: "json_text \<Rightarrow> time \<Rightarrow> canonical_user_profile list \<Rightarrow> merged_user_profile" where
  "merge_profiles_impl to_string now profiles =
     (let sources = map (\<lambda>p. source_type_as_str (cu_source p)) profiles in
      case profiles of
        [] \<Rightarrow> \<lparr>mp_profile = empty_profile now, mp_conflicts = [], mp_sources = sources\<rparr>
      | [p] \<Rightarrow> \<lparr>mp_profile = p, mp_conflicts = [], mp_sources = sources\<rparr>
      | _ \<Rightarrow>
          let sorted = by_authority profiles;
              base = hd sorted;
              (role, c1) = resolve_opt_string ''role'' sorted cu_role [];
              (position, c2) = resolve_opt_string ''position'' sorted cu_position c1;
              (language, c3) = resolve_opt_string ''language'' sorted cu_language c2;
              (timezone, c4) = resolve_opt_string ''timezone'' sorted cu_timezone c3;
              (preferences, c5) = merge_json_object to_string ''preferences'' sorted cu_preferences c4;
              (explicit_preferences, c6) = merge_json_object to_string ''explicit_preferences'' sorted cu_explicit_preferences c5;
              (inferred_preferences, c7) = merge_json_object to_string ''inferred_preferences'' sorted cu_inferred_preferences c6;
              (consent_scope, c8) = resolve_json to_string ''consent_scope'' sorted cu_consent_scope c7
          in \<lparr>mp_profile = \<lparr>
                cu_user_id = cu_user_id base, cu_organization_id = cu_organization_id base, cu_factory_id = cu_factory_id base,
                cu_identity_links = union_arrays to_string sorted cu_identity_links,
                cu_role = role, cu_position = position, cu_language = language, cu_timezone = timezone,
                cu_preferences = preferences, cu_explicit_preferences = explicit_preferences,
                cu_inferred_preferences = inferred_preferences,
                cu_common_entities = union_arrays to_string sorted cu_common_entities,
                cu_active_projects = union_arrays to_string sorted cu_active_projects,
                cu_consent_scope = consent_scope, cu_privacy_class = cu_privacy_class base, cu_source = cu_source base,
                cu_authority_level = cu_authority_level base,
                cu_version = fold (\<lambda>p v. max (cu_version p) v) (tl profiles) (cu_version (hd profiles)),
                cu_valid_from = cu_valid_from base, cu_valid_to = cu_valid_to base,
                cu_last_verified_at = cu_last_verified_at base,
                cu_updated_at = fold (\<lambda>p v. max (cu_updated_at p) v) (tl profiles) (cu_updated_at (hd profiles))\<rparr>,
              mp_conflicts = c8, mp_sources = sources\<rparr>)"

section \<open>The repository\<close>

datatype user_repo_error = UserNotFound | UserDatabase db_error

text \<open>
  The columns \<open>upsert\<close> names and those of the table in the shipped DDL.  The table a deployment
  has is a parameter: PostgreSQL rejects a statement that names a column it does not have.
\<close>

definition upsert_columns :: "string list" where
  "upsert_columns = [''user_id'', ''organization_id'', ''factory_id'', ''identity_links'', ''role'', ''position'',
     ''language'', ''timezone'', ''preferences'', ''explicit_preferences'', ''inferred_preferences'', ''common_entities'',
     ''active_projects'', ''consent_scope'', ''privacy_class'', ''source'', ''authority_level'', ''version'',
     ''valid_from'', ''valid_to'', ''last_verified_at'', ''updated_at'']"

definition ddl_columns :: "string list" where
  "ddl_columns = [''user_id'', ''organization_id'', ''factory_id'', ''identity_links'', ''role'', ''position'',
     ''language'', ''timezone'', ''preferences'', ''common_entities'', ''active_projects'', ''consent_scope'',
     ''privacy_class'', ''source'', ''authority_level'', ''version'', ''valid_from'', ''valid_to'',
     ''last_verified_at'', ''updated_at'']"

definition row_of_profile :: "canonical_user_profile \<Rightarrow> int \<Rightarrow> time \<Rightarrow> profile_row" where
  "row_of_profile p version now = \<lparr>
     u_user_id = cu_user_id p, u_organization_id = cu_organization_id p, u_factory_id = cu_factory_id p,
     u_identity_links = JArray (cu_identity_links p), u_role = cu_role p, u_position = cu_position p,
     u_language = cu_language p, u_timezone = cu_timezone p, u_preferences = cu_preferences p,
     u_explicit_preferences = cu_explicit_preferences p, u_inferred_preferences = cu_inferred_preferences p,
     u_common_entities = JArray (cu_common_entities p), u_active_projects = JArray (cu_active_projects p),
     u_consent_scope = cu_consent_scope p, u_privacy_class = privacy_class_as_str (cu_privacy_class p),
     u_source = source_type_as_str (cu_source p), u_authority_level = authority_level_as_str (cu_authority_level p),
     u_version = version, u_valid_from = cu_valid_from p, u_valid_to = cu_valid_to p,
     u_last_verified_at = cu_last_verified_at p, u_updated_at = now\<rparr>"

definition user_upsert :: "string list \<Rightarrow> canonical_user_profile \<Rightarrow> (world, user_repo_error, unit) op" where
  "user_upsert columns p = map_err UserDatabase (exec (\<lambda>w.
     if \<not> set upsert_columns \<subseteq> set columns then (Inl DbError, w)
     else case find (\<lambda>r. u_user_id r = cu_user_id p) (user_profiles w) of
            None \<Rightarrow> (Inr (), w\<lparr>user_profiles := user_profiles w @ [row_of_profile p (cu_version p) (sql_now w)]\<rparr>)
          | Some r \<Rightarrow>
              if u_version r \<ge> int4_max then (Inl DbError, w)
              else (Inr (), w\<lparr>user_profiles := sql_update (\<lambda>r. u_user_id r = cu_user_id p)
                     (\<lambda>r. row_of_profile p (u_version r + 1) (sql_now w)) (user_profiles w)\<rparr>)))"

definition parse_profile_source :: "string \<Rightarrow> source_type" where
  "parse_profile_source s =
     (if s = ''iam'' then Iam else if s = ''hr'' then Hr else if s = ''agent_inferred'' then AgentInferred
      else if s = ''tool_result'' then ToolResult else if s = ''business_event'' then BusinessEvent else UserExplicit)"

definition parse_profile_authority :: "string \<Rightarrow> authority_level" where
  "parse_profile_authority s =
     (if s = ''L0_source_of_truth'' then L0SourceOfTruth else if s = ''L2_verified'' then L2Verified
      else if s = ''L3_inferred'' then L3Inferred else L1Authoritative)"

definition map_row_to_profile :: "profile_row \<Rightarrow> canonical_user_profile" where
  "map_row_to_profile r = \<lparr>
     cu_user_id = u_user_id r, cu_organization_id = u_organization_id r, cu_factory_id = u_factory_id r,
     cu_identity_links = array_or_empty (u_identity_links r), cu_role = u_role r, cu_position = u_position r,
     cu_language = u_language r, cu_timezone = u_timezone r, cu_preferences = u_preferences r,
     cu_explicit_preferences = u_explicit_preferences r, cu_inferred_preferences = u_inferred_preferences r,
     cu_common_entities = array_or_empty (u_common_entities r),
     cu_active_projects = array_or_empty (u_active_projects r), cu_consent_scope = u_consent_scope r,
     cu_privacy_class = parse_privacy_class (u_privacy_class r), cu_source = parse_profile_source (u_source r),
     cu_authority_level = parse_profile_authority (u_authority_level r), cu_version = u_version r,
     cu_valid_from = u_valid_from r, cu_valid_to = u_valid_to r, cu_last_verified_at = u_last_verified_at r,
     cu_updated_at = u_updated_at r\<rparr>"

definition query_profile :: "(profile_row \<Rightarrow> bool) \<Rightarrow> (world, user_repo_error, canonical_user_profile option) op" where
  "query_profile p =
     bindE (map_err UserDatabase (exec (gets (\<lambda>w. find p (user_profiles w))))) (\<lambda>row.
     ret (map_option map_row_to_profile row))"

definition user_get_by_id :: "string \<Rightarrow> (world, user_repo_error, canonical_user_profile option) op" where
  "user_get_by_id user_id = query_profile (\<lambda>r. u_user_id r = user_id)"

definition identity_link :: "string \<Rightarrow> string \<Rightarrow> json" where
  "identity_link system external_id = JObject [(''external_id'', JString external_id), (''system'', JString system)]"

definition user_find_by_identity :: "string \<Rightarrow> string \<Rightarrow> (world, user_repo_error, canonical_user_profile option) op" where
  "user_find_by_identity system external_id =
     query_profile (\<lambda>r. jsonb_contains (u_identity_links r) (identity_link system external_id))"

definition user_update_consent :: "string \<Rightarrow> json \<Rightarrow> (world, user_repo_error, unit) op" where
  "user_update_consent user_id consent_scope =
     bindE (map_err UserDatabase (exec (\<lambda>w.
        if \<exists>r \<in> set (user_profiles w). u_user_id r = user_id \<and> u_version r \<ge> int4_max then (Inl DbError, w)
        else (Inr (rows_matching (\<lambda>r. u_user_id r = user_id) (user_profiles w)),
              w\<lparr>user_profiles := sql_update (\<lambda>r. u_user_id r = user_id)
                (\<lambda>r. r\<lparr>u_consent_scope := consent_scope, u_version := u_version r + 1, u_updated_at := sql_now w\<rparr>)
                (user_profiles w)\<rparr>)))) (\<lambda>n.
     if n = 0 then throw UserNotFound else ret ())"

section \<open>The manager\<close>

datatype canonical_user_error = UserRepoErr user_repo_error | UserCacheErr

text \<open>The table's columns, whether a cache is attached, and \<open>serde_json::to_vec\<close>.\<close>

record canonical_user_manager =
  um_columns :: "string list"
  um_hot_context :: bool
  um_to_vec :: "canonical_user_profile \<Rightarrow> string option"

definition populate_user_cache :: "canonical_user_manager \<Rightarrow> canonical_user_profile \<Rightarrow> (world, canonical_user_error, unit) op" where
  "populate_user_cache m p =
     (if um_hot_context m
      then case um_to_vec m p of
             None \<Rightarrow> ret ()
           | Some data \<Rightarrow>
               tryE (set_user_context (cu_user_id p) (cu_organization_id p) data DEFAULT_TTL_SECS) (\<lambda>_. ret ())
      else ret ())"

definition get_user_profile :: "canonical_user_manager \<Rightarrow> string \<Rightarrow> (world, canonical_user_error, canonical_user_profile option) op" where
  "get_user_profile m user_id =
     bindE (map_err UserRepoErr (user_get_by_id user_id)) (\<lambda>profile.
     bindE (case profile of None \<Rightarrow> ret () | Some p \<Rightarrow> populate_user_cache m p) (\<lambda>_.
     ret profile))"

definition invalidate_user_cache_best_effort :: "canonical_user_manager \<Rightarrow> string \<Rightarrow> string \<Rightarrow> (world, canonical_user_error, unit) op" where
  "invalidate_user_cache_best_effort m user_id tenant_id =
     (if um_hot_context m then tryE (invalidate_user_context user_id tenant_id) (\<lambda>_. ret ()) else ret ())"

definition upsert_profile :: "canonical_user_manager \<Rightarrow> canonical_user_profile \<Rightarrow> (world, canonical_user_error, unit) op" where
  "upsert_profile m p =
     bindE (map_err UserRepoErr (user_upsert (um_columns m) p)) (\<lambda>_.
     invalidate_user_cache_best_effort m (cu_user_id p) (cu_organization_id p))"

definition update_consent :: "string \<Rightarrow> json \<Rightarrow> (world, canonical_user_error, unit) op" where
  "update_consent user_id consent_scope = map_err UserRepoErr (user_update_consent user_id consent_scope)"

definition find_by_identity :: "string \<Rightarrow> string \<Rightarrow> (world, canonical_user_error, canonical_user_profile option) op" where
  "find_by_identity system external_id = map_err UserRepoErr (user_find_by_identity system external_id)"

definition invalidate_user_cache :: "canonical_user_manager \<Rightarrow> string \<Rightarrow> string \<Rightarrow> (world, canonical_user_error, unit) op" where
  "invalidate_user_cache m user_id tenant_id =
     (if um_hot_context m then map_err (\<lambda>_. UserCacheErr) (invalidate_user_context user_id tenant_id) else ret ())"

section \<open>The highest authority wins\<close>

definition rank_of :: "canonical_user_profile \<Rightarrow> nat" where
  "rank_of p = authority_rank (cu_authority_level p)"

text \<open>
  \<open>authoritative g ps r\<close>: \<open>r\<close> is the value \<open>g\<close> has in a profile no other profile with a value
  outranks, and nothing if no profile has a value.
\<close>

definition authoritative :: "(canonical_user_profile \<Rightarrow> 'v option) \<Rightarrow> canonical_user_profile list \<Rightarrow> 'v option \<Rightarrow> bool" where
  "authoritative g ps r \<longleftrightarrow> (case r of
      None \<Rightarrow> \<forall>p \<in> set ps. g p = None
    | Some v \<Rightarrow> \<exists>q \<in> set ps. g q = Some v \<and> (\<forall>p \<in> set ps. g p \<noteq> None \<longrightarrow> rank_of p \<le> rank_of q))"

fun first_value :: "(canonical_user_profile \<Rightarrow> 'v option) \<Rightarrow> canonical_user_profile list \<Rightarrow> 'v option" where
  "first_value g [] = None"
| "first_value g (p # ps) = (case g p of Some v \<Rightarrow> Some v | None \<Rightarrow> first_value g ps)"

lemma set_by_authority [simp]: "set (by_authority ps) = set ps"
  by (simp add: by_authority_def)

lemma by_authority_ne [simp]: "by_authority ps = [] \<longleftrightarrow> ps = []"
  by (metis set_by_authority set_empty)

lemma ranked_by_authority: "sorted_wrt (\<lambda>a b. rank_of b \<le> rank_of a) (by_authority ps)"
proof -
  have "sorted (map (\<lambda>p. - int (authority_rank (cu_authority_level p))) (by_authority ps))"
    unfolding by_authority_def by (rule sorted_sort_key)
  then show ?thesis by (simp add: sorted_map rank_of_def)
qed

lemma first_value_authoritative:
  "sorted_wrt (\<lambda>a b. rank_of b \<le> rank_of a) ps \<Longrightarrow> authoritative g ps (first_value g ps)"
  by (induction ps) (auto simp: authoritative_def split: option.splits)

lemma authoritative_set: "set ps = set qs \<Longrightarrow> authoritative g ps r = authoritative g qs r"
  by (simp add: authoritative_def split: option.split)

lemma first_value_by_authority: "authoritative g ps (first_value g (by_authority ps))"
  using first_value_authoritative [OF ranked_by_authority, of g ps] authoritative_set [OF set_by_authority] by blast

lemma fst_resolve_opt: "fst (resolve_opt_string field ps get cs) = first_value get ps"
  by (induction ps) (auto simp: resolve_opt_string_def opt_entries_def map_filter_simps Let_def split: option.splits list.splits)

text \<open>A JSON field that the key-by-key merge applies to: an object with one entry per key, or null.\<close>

definition mergeable :: "json \<Rightarrow> bool" where
  "mergeable v = (case v of JNull \<Rightarrow> True | JObject m \<Rightarrow> distinct (map fst m) | _ \<Rightarrow> False)"

lemma map_of_insert_entries: "distinct (map fst obj) \<Longrightarrow> map_of (insert_entries obj m) = map_of m ++ map_of obj"
proof (induction obj arbitrary: m)
  case (Cons e obj)
  obtain k v where e: "e = (k, v)" by (cases e)
  have "map_of obj k = None" using Cons.prems e by (simp add: map_of_eq_None_iff)
  then have "(map_of m)(k \<mapsto> v) ++ map_of obj = map_of m ++ (map_of obj)(k \<mapsto> v)"
    by (auto simp: fun_eq_iff map_add_def split: option.split)
  then have "(map_of m)(k \<mapsto> v) ++ map_of obj = map_of m ++ map_of (e # obj)"
    by (simp add: e)
  moreover have "map_of (insert_entries obj (obj_insert k v m)) = (map_of m)(k \<mapsto> v) ++ map_of obj"
    using Cons by simp
  moreover have "insert_entries (e # obj) m = insert_entries obj (obj_insert k v m)"
    by (simp add: insert_entries_def e)
  ultimately show ?case by (simp only:)
qed (simp add: insert_entries_def)

lemma merge_loop_mergeable:
  "list_all mergeable vs \<Longrightarrow> \<exists>m'. merge_loop vs m = Inr m' \<and> map_of m' = foldl (\<lambda>f v. f ++ json_get v) (map_of m) vs"
proof (induction vs arbitrary: m)
  case (Cons v vs)
  show ?case
  proof (cases v)
    case JNull
    then show ?thesis using Cons by (simp add: map_add_def)
  next
    case (JObject obj)
    then have "distinct (map fst obj)" using Cons.prems by (simp add: mergeable_def)
    moreover have "json_get (JObject obj) = map_of obj" by (simp add: fun_eq_iff)
    ultimately show ?thesis
      using Cons.IH [of "insert_entries obj m"] Cons.prems JObject map_of_insert_entries [of obj m] by simp
  qed (use Cons.prems in \<open>simp_all add: mergeable_def\<close>)
qed simp

lemma foldl_first_value:
  "foldl (\<lambda>f v. f ++ json_get v) Map.empty (map get (rev ps)) k = first_value (\<lambda>p. json_get (get p) k) ps"
  by (induction ps) (auto simp: map_add_def split: option.splits)

lemma merge_json_lookup:
  assumes "list_all (\<lambda>p. mergeable (get p)) ps"
  shows "json_get (fst (merge_json_object ts field ps get cs)) k = first_value (\<lambda>p. json_get (get p) k) ps"
proof -
  have "list_all mergeable (map get (rev ps))" using assms by (simp add: list_all_iff)
  from merge_loop_mergeable [OF this, of "[]"] obtain m where
    "merge_loop (map get (rev ps)) [] = Inr m" "map_of m = foldl (\<lambda>f v. f ++ json_get v) (map_of []) (map get (rev ps))" by blast
  then show ?thesis
    using foldl_first_value [of get ps k] by (simp add: merge_json_object_def)
qed

text \<open>The fields, with the names the conflicts carry.\<close>

definition scalar_fields :: "(string \<times> (canonical_user_profile \<Rightarrow> string option)) list" where
  "scalar_fields = [(''role'', cu_role), (''position'', cu_position), (''language'', cu_language), (''timezone'', cu_timezone)]"

definition object_fields :: "(string \<times> (canonical_user_profile \<Rightarrow> json)) list" where
  "object_fields = [(''preferences'', cu_preferences), (''explicit_preferences'', cu_explicit_preferences),
     (''inferred_preferences'', cu_inferred_preferences)]"

lemma merged_scalar:
  assumes "(name, get) \<in> set scalar_fields"
  shows "get (mp_profile (merge_profiles_impl ts now (p # q # ps))) = first_value get (by_authority (p # q # ps))"
  using assms
  by (auto simp: scalar_fields_def merge_profiles_impl_def Let_def split_def fst_resolve_opt)

lemma merged_object:
  assumes "(name, get) \<in> set object_fields" and "list_all (\<lambda>p. mergeable (get p)) (p # q # ps)"
  shows "json_get (get (mp_profile (merge_profiles_impl ts now (p # q # ps)))) k =
           first_value (\<lambda>p. json_get (get p) k) (by_authority (p # q # ps))"
proof -
  have "list_all (\<lambda>p. mergeable (get p)) (by_authority (p # q # ps))"
    using assms(2) unfolding list_all_iff set_by_authority .
  then show ?thesis
    using assms(1) by (auto simp: object_fields_def merge_profiles_impl_def Let_def split_def merge_json_lookup)
qed

text \<open>The base of a merge is a profile no other outranks, whichever of its fields have a value.\<close>

lemma by_authority_base:
  assumes "ps \<noteq> []"
  shows "hd (by_authority ps) \<in> set ps \<and> (\<forall>p \<in> set ps. rank_of p \<le> rank_of (hd (by_authority ps)))"
proof -
  obtain q qs where qs: "by_authority ps = q # qs" using assms by (metis by_authority_ne list.exhaust)
  have "set ps = insert q (set qs)" using set_by_authority [of ps] qs by simp
  then show ?thesis using ranked_by_authority [of ps] by (auto simp: qs)
qed

lemma merged_factory:
  "cu_factory_id (mp_profile (merge_profiles_impl ts now (p # q # ps))) = cu_factory_id (hd (by_authority (p # q # ps)))"
  by (simp add: merge_profiles_impl_def Let_def split_def)

text \<open>
  C25 (functional).  Role, position, language and time zone each take, in a merge, the value of a
  profile that no other profile with a value outranks; where a preference field is an object
  with one entry per key, or null, in every profile, so does every key of it.  The factory does
  not follow the rule: it is that of a profile of the highest authority even when that
  profile names none.
\<close>

theorem merge_authority_wins:
  "(\<forall>(name, get) \<in> set scalar_fields. authoritative get ps (get (mp_profile (merge_profiles_impl ts now ps)))) \<and>
   (\<forall>(name, get) \<in> set object_fields. (\<forall>p \<in> set ps. mergeable (get p)) \<longrightarrow>
      (\<forall>k. authoritative (\<lambda>p. json_get (get p) k) ps
             (json_get (get (mp_profile (merge_profiles_impl ts now ps))) k))) \<and>
   (ps = [] \<or> (\<exists>base \<in> set ps. (\<forall>p \<in> set ps. rank_of p \<le> rank_of base) \<and>
      cu_factory_id (mp_profile (merge_profiles_impl ts now ps)) = cu_factory_id base))"
proof -
  consider "ps = []" | p where "ps = [p]" | p q qs where "ps = p # q # qs"
    by (metis list.exhaust)
  then show ?thesis
  proof cases
    case 1
    then show ?thesis
      by (simp add: merge_profiles_impl_def scalar_fields_def object_fields_def empty_profile_def authoritative_def)
  next
    case (2 p)
    then show ?thesis
      by (auto simp: merge_profiles_impl_def authoritative_def split: option.split)
  next
    case (3 p q qs)
    have "\<exists>base \<in> set ps. (\<forall>p \<in> set ps. rank_of p \<le> rank_of base) \<and>
        cu_factory_id (mp_profile (merge_profiles_impl ts now ps)) = cu_factory_id base"
      using by_authority_base [of ps] merged_factory [of ts now p q qs] by (auto simp: 3)
    then have "ps = [] \<or> (\<exists>base \<in> set ps. (\<forall>p \<in> set ps. rank_of p \<le> rank_of base) \<and>
        cu_factory_id (mp_profile (merge_profiles_impl ts now ps)) = cu_factory_id base)" by blast
    then show ?thesis
    proof (intro conjI ballI, clarify)
      fix name get
      assume "(name, get) \<in> set scalar_fields"
      from merged_scalar [OF this] show "authoritative get ps (get (mp_profile (merge_profiles_impl ts now ps)))"
        by (simp add: 3 first_value_by_authority)
    next
      fix x
      assume x: "x \<in> set object_fields"
      obtain name get where "x = (name, get)" by (cases x)
      moreover have "authoritative (\<lambda>p. json_get (get p) k) ps
          (json_get (get (mp_profile (merge_profiles_impl ts now ps))) k)"
        if "(name, get) \<in> set object_fields" "\<forall>p \<in> set ps. mergeable (get p)" for k
        using merged_object [of name get p q qs] that by (simp add: 3 list_all_iff first_value_by_authority)
      ultimately show "case x of (name, get) \<Rightarrow> (\<forall>p \<in> set ps. mergeable (get p)) \<longrightarrow>
          (\<forall>k. authoritative (\<lambda>p. json_get (get p) k) ps
             (json_get (get (mp_profile (merge_profiles_impl ts now ps))) k))"
        using x by simp
    qed
  qed
qed

definition demo_profile :: "authority_level \<Rightarrow> string option \<Rightarrow> json \<Rightarrow> canonical_user_profile" where
  "demo_profile a role prefs = (empty_profile 0)\<lparr>cu_authority_level := a, cu_role := role, cu_preferences := prefs\<rparr>"

lemma merge_authority_wins_witness:
  "json_get (cu_preferences (mp_profile (merge_profiles_impl (\<lambda>_. []) 0
      [demo_profile L3Inferred None (JObject [(''lang'', JString ''en'')]),
       demo_profile L1Authoritative None (JObject [(''lang'', JString ''fr'')])]))) ''lang'' = Some (JString ''fr'')"
  (is "json_get (cu_preferences (mp_profile (merge_profiles_impl ?ts 0 ?ps))) _ = _")
proof -
  have "authoritative (\<lambda>p. json_get (cu_preferences p) ''lang'') ?ps
      (json_get (cu_preferences (mp_profile (merge_profiles_impl ?ts 0 ?ps))) ''lang'')"
    using merge_authority_wins [of ?ps ?ts 0] by (auto simp: object_fields_def demo_profile_def mergeable_def)
  then show ?thesis
    by (auto simp: authoritative_def demo_profile_def rank_of_def split: option.splits)
qed

section \<open>Conflicts are recorded\<close>

lemma disagree_iff: "disagree xs \<longleftrightarrow> (\<exists>x \<in> set xs. \<exists>y \<in> set xs. x \<noteq> y)"
proof -
  have "\<not> disagree xs \<longleftrightarrow> (\<forall>x \<in> set xs. \<forall>y \<in> set xs. x = y)"
    by (simp add: disagree_def not_less card_le_Suc0_iff_eq)
  then show ?thesis by blast
qed

lemma set_opt_entries: "fst ` set (opt_entries ps get) = {v. \<exists>p \<in> set ps. get p = Some v}"
  by (induction ps) (auto simp: opt_entries_def map_filter_simps image_iff split: option.splits)

text \<open>Two profiles have different values.\<close>

definition clash :: "(canonical_user_profile \<Rightarrow> 'v option) \<Rightarrow> canonical_user_profile list \<Rightarrow> bool" where
  "clash g ps \<longleftrightarrow> (\<exists>p \<in> set ps. \<exists>q \<in> set ps. g p \<noteq> None \<and> g q \<noteq> None \<and> g p \<noteq> g q)"

lemma clash_by_authority [simp]: "clash g (by_authority ps) = clash g ps"
  by (simp add: clash_def)

lemma disagree_opt_entries: "disagree (map fst (opt_entries ps get)) \<longleftrightarrow> clash get ps"
  unfolding disagree_iff set_map set_opt_entries clash_def by fastforce

lemma disagree_json:
  assumes "inj_on ts (get ` set ps)"
  shows "disagree (map (\<lambda>p. ts (get p)) ps) \<longleftrightarrow> clash (Some \<circ> get) ps"
proof -
  have "ts (get p) \<noteq> ts (get q) \<longleftrightarrow> get p \<noteq> get q" if "p \<in> set ps" "q \<in> set ps" for p q
    using assms that by (auto dest: inj_onD)
  then show ?thesis unfolding disagree_iff clash_def by auto
qed

text \<open>Each step adds at most one entry, of its own field, and does so exactly on a clash.\<close>

definition adds_own :: "string \<Rightarrow> bool \<Rightarrow> conflict_entry list \<Rightarrow> conflict_entry list \<Rightarrow> bool" where
  "adds_own field b cs cs' \<longleftrightarrow> (\<exists>es. cs' = cs @ es \<and> ce_field ` set es = (if b then {field} else {}))"

lemma resolve_opt_adds: "adds_own field (clash get ps) cs (snd (resolve_opt_string field ps get cs))"
proof (cases "opt_entries ps get")
  case Nil
  then have "\<not> clash get ps"
    using disagree_opt_entries [of ps get] by (simp add: disagree_def)
  with Nil show ?thesis by (simp add: resolve_opt_string_def adds_own_def)
next
  case (Cons e es)
  then show ?thesis
    using disagree_opt_entries [of ps get]
    by (cases e) (auto simp: resolve_opt_string_def adds_own_def Let_def)
qed

lemma resolve_json_adds:
  "inj_on ts (get ` set ps) \<Longrightarrow> adds_own field (clash (Some \<circ> get) ps) cs (snd (resolve_json ts field ps get cs))"
  using disagree_json [of ts get ps] by (simp add: resolve_json_def adds_own_def)

lemma merge_json_adds:
  assumes "inj_on ts (get ` set ps)" and "list_all (\<lambda>p. mergeable (get p)) ps"
  shows "adds_own field (clash (Some \<circ> get) ps) cs (snd (merge_json_object ts field ps get cs))"
proof -
  have "list_all mergeable (map get (rev ps))" using assms(2) by (simp add: list_all_iff)
  from merge_loop_mergeable [OF this, of "[]"] obtain m where "merge_loop (map get (rev ps)) [] = Inr m" by blast
  then show ?thesis
    using disagree_json [OF assms(1)] by (simp add: merge_json_object_def adds_own_def)
qed

lemma adds_own_fields: "adds_own f b cs cs' \<Longrightarrow> ce_field ` set cs' = ce_field ` set cs \<union> (if b then {f} else {})"
  unfolding adds_own_def by (elim exE conjE) (simp add: image_Un)

lemma names_Cons:
  "{n. \<exists>g. (n, g) \<in> set ((a, f) # xs) \<and> Q g} = (if Q f then {a} else {}) \<union> {n. \<exists>g. (n, g) \<in> set xs \<and> Q g}"
  by auto

lemma names_Nil: "{n. \<exists>g. (n, g) \<in> set [] \<and> Q g} = {}"
  by simp

text \<open>
  Every disagreement is recorded: when the preference fields are objects or null
  and JSON text tells the values apart, the fields named in the conflicts of a merge are exactly
  those on which two of the profiles have different values.
\<close>

theorem merge_conflicts_recorded:
  assumes "\<And>name get. (name, get) \<in> set object_fields \<Longrightarrow> \<forall>p \<in> set ps. mergeable (get p)"
    and "\<And>name get. (name, get) \<in> set (object_fields @ [(''consent_scope'', cu_consent_scope)]) \<Longrightarrow> inj_on ts (get ` set ps)"
  shows "ce_field ` set (mp_conflicts (merge_profiles_impl ts now ps)) =
     {name. \<exists>get. (name, get) \<in> set scalar_fields \<and> clash get ps} \<union>
     {name. \<exists>get. (name, get) \<in> set (object_fields @ [(''consent_scope'', cu_consent_scope)]) \<and> clash (Some \<circ> get) ps}"
proof -
  consider "ps = []" | p where "ps = [p]" | p q qs where "ps = p # q # qs"
    by (metis list.exhaust)
  then show ?thesis
  proof cases
    case (3 p q qs)
    let ?s = "by_authority ps"
    have obj: "ce_field ` set (snd (merge_json_object ts f ?s get cs)) =
        ce_field ` set cs \<union> (if clash (Some \<circ> get) ps then {f} else {})" if "(f, get) \<in> set object_fields" for f get cs
      using adds_own_fields [OF merge_json_adds, of ts get ?s f cs] assms(1) [OF that] assms(2) [of f get] that
      by (simp only: clash_by_authority set_by_authority list_all_iff set_append Un_iff simp_thms)
    have js: "ce_field ` set (snd (resolve_json ts f ?s cu_consent_scope cs)) =
        ce_field ` set cs \<union> (if clash (Some \<circ> cu_consent_scope) ps then {f} else {})" for f cs
      using adds_own_fields [OF resolve_json_adds, of ts cu_consent_scope ?s f cs] assms(2) [of "''consent_scope''" cu_consent_scope]
      by simp
    have opt: "ce_field ` set (snd (resolve_opt_string f ?s get cs)) =
        ce_field ` set cs \<union> (if clash get ps then {f} else {})" for f get cs
      using adds_own_fields [OF resolve_opt_adds [of f get ?s cs]] by (simp only: clash_by_authority)
    note objs = obj [of "''preferences''" cu_preferences] obj [of "''explicit_preferences''" cu_explicit_preferences]
      obj [of "''inferred_preferences''" cu_inferred_preferences]
    have mem: "(''preferences'', cu_preferences) \<in> set object_fields"
      "(''explicit_preferences'', cu_explicit_preferences) \<in> set object_fields"
      "(''inferred_preferences'', cu_inferred_preferences) \<in> set object_fields"
      by (simp_all add: object_fields_def)
    have "mp_conflicts (merge_profiles_impl ts now ps) =
        snd (resolve_json ts ''consent_scope'' ?s cu_consent_scope
        (snd (merge_json_object ts ''inferred_preferences'' ?s cu_inferred_preferences
        (snd (merge_json_object ts ''explicit_preferences'' ?s cu_explicit_preferences
        (snd (merge_json_object ts ''preferences'' ?s cu_preferences
        (snd (resolve_opt_string ''timezone'' ?s cu_timezone (snd (resolve_opt_string ''language'' ?s cu_language
        (snd (resolve_opt_string ''position'' ?s cu_position (snd (resolve_opt_string ''role'' ?s cu_role [])))))))))))))))"
      by (simp add: 3 merge_profiles_impl_def Let_def split_def)
    then have "ce_field ` set (mp_conflicts (merge_profiles_impl ts now ps)) =
        (if clash cu_role ps then {''role''} else {}) \<union> (if clash cu_position ps then {''position''} else {}) \<union>
        (if clash cu_language ps then {''language''} else {}) \<union> (if clash cu_timezone ps then {''timezone''} else {}) \<union>
        (if clash (Some \<circ> cu_preferences) ps then {''preferences''} else {}) \<union>
        (if clash (Some \<circ> cu_explicit_preferences) ps then {''explicit_preferences''} else {}) \<union>
        (if clash (Some \<circ> cu_inferred_preferences) ps then {''inferred_preferences''} else {}) \<union>
        (if clash (Some \<circ> cu_consent_scope) ps then {''consent_scope''} else {})"
      by (simp only: js opt objs(1) [OF mem(1)] objs(2) [OF mem(2)] objs(3) [OF mem(3)] list.set image_empty
          Un_empty_left split del: if_split)
    then show ?thesis
      by (simp only: scalar_fields_def object_fields_def append.simps names_Cons names_Nil Un_empty_right Un_assoc
          split del: if_split)
  qed (auto simp: merge_profiles_impl_def clash_def)
qed

lemma merge_conflicts_recorded_witness:
  "ce_field ` set (mp_conflicts (merge_profiles_impl (\<lambda>_. []) 0
      [demo_profile L3Inferred (Some ''guest'') JNull, demo_profile L1Authoritative (Some ''admin'') JNull])) = {''role''}"
  (is "ce_field ` set (mp_conflicts (merge_profiles_impl ?ts 0 ?ps)) = _")
proof -
  have "ce_field ` set (mp_conflicts (merge_profiles_impl ?ts 0 ?ps)) =
     {name. \<exists>get. (name, get) \<in> set scalar_fields \<and> clash get ?ps} \<union>
     {name. \<exists>get. (name, get) \<in> set (object_fields @ [(''consent_scope'', cu_consent_scope)]) \<and> clash (Some \<circ> get) ?ps}"
    by (rule merge_conflicts_recorded)
      (auto simp: object_fields_def demo_profile_def empty_profile_def mergeable_def)
  also have "\<dots> = {''role''}"
    by (auto simp: scalar_fields_def object_fields_def clash_def demo_profile_def empty_profile_def)
  finally show ?thesis .
qed

text \<open>
  A preference value that is not an object defeats both rules: the loop runs from the
  lowest authority up and returns at the first such value, so a lower authority overrides a
  higher one and no conflict is recorded.
\<close>

theorem low_authority_overrides:
  assumes "rank_of lo < rank_of hi" and "cu_preferences lo = JString v"
  shows "cu_preferences (mp_profile (merge_profiles_impl ts now [hi, lo])) = JString v \<and>
     ''preferences'' \<notin> ce_field ` set (mp_conflicts (merge_profiles_impl ts now [hi, lo]))"
proof -
  have s: "by_authority [hi, lo] = [hi, lo]"
    using assms(1) by (simp add: by_authority_def rank_of_def)
  have m: "merge_json_object ts ''preferences'' [hi, lo] cu_preferences cs = (JString v, cs)" for cs
    using assms(2) by (simp add: merge_json_object_def)
  have f: "''preferences'' \<notin> ce_field ` set (snd (merge_json_object ts f ps get cs))"
    if "''preferences'' \<notin> ce_field ` set cs" "f \<noteq> ''preferences''" for f ps get cs
    using that by (auto simp: merge_json_object_def split: sum.split)
  have j: "''preferences'' \<notin> ce_field ` set (snd (resolve_json ts f ps get cs))"
    if "''preferences'' \<notin> ce_field ` set cs" "f \<noteq> ''preferences''" for f ps get cs
    using that by (auto simp: resolve_json_def)
  have r: "''preferences'' \<notin> ce_field ` set (snd (resolve_opt_string f ps get cs))"
    if "''preferences'' \<notin> ce_field ` set cs" "f \<noteq> ''preferences''" for f ps get cs
    using that adds_own_fields [OF resolve_opt_adds [of f get ps cs]] by simp
  show ?thesis
    by (simp add: merge_profiles_impl_def Let_def split_def s m) (intro j f r; simp)
qed

lemma low_authority_overrides_witness:
  "cu_preferences (mp_profile (merge_profiles_impl (\<lambda>_. []) 0
      [demo_profile L0SourceOfTruth None (JObject [(''theme'', JString ''dark'')]), demo_profile L3Inferred None (JString ''guess'')])) =
     JString ''guess''"
  using low_authority_overrides [of "demo_profile L3Inferred None (JString ''guess'')"
      "demo_profile L0SourceOfTruth None (JObject [(''theme'', JString ''dark'')])"]
  by (simp add: demo_profile_def rank_of_def)

lemma push_unseen_spec:
  assumes "inj_on ts (set vs \<union> S)" and "distinct result" and "set result = S" and "seen = ts ` S"
  shows "distinct (push_unseen ts vs seen result) \<and> set (push_unseen ts vs seen result) = S \<union> set vs"
  using assms
proof (induction vs arbitrary: seen result S)
  case (Cons v vs)
  show ?case
  proof (cases "ts v \<in> seen")
    case True
    then have "v \<in> S" using Cons.prems by (auto dest: inj_onD)
    with True show ?thesis
      using Cons.IH [of S result seen] Cons.prems by (auto intro: inj_on_subset)
  next
    case False
    then have "v \<notin> S" using Cons.prems by auto
    with False show ?thesis
      using Cons.IH [of "insert v S" "result @ [v]" "insert (ts v) seen"] Cons.prems by (auto intro: inj_on_subset)
  qed
qed simp

lemma union_arrays_spec:
  assumes "inj_on ts (\<Union>p \<in> set ps. set (get p))"
  shows "distinct (union_arrays ts ps get) \<and> set (union_arrays ts ps get) = (\<Union>p \<in> set ps. set (get p))"
  using push_unseen_spec [of ts "concat (map get ps)" "{}" "[]" "{}"] assms by (simp add: union_arrays_def)

section \<open>The repository against its table\<close>

text \<open>
  Against the table of the shipped schema no profile can be stored: the upsert names the
  columns \<open>explicit_preferences\<close> and \<open>inferred_preferences\<close>, which the table does not have, so
  every call fails and the table stays as it is.
\<close>

theorem upsert_fails_on_schema:
  "(\<exists>e. fst (user_upsert ddl_columns p w) = Inl e) \<and> user_profiles (snd (user_upsert ddl_columns p w)) = user_profiles w"
proof -
  have "''explicit_preferences'' \<in> set upsert_columns" "''explicit_preferences'' \<notin> set ddl_columns"
    by (simp_all add: upsert_columns_def ddl_columns_def)
  then have "\<not> set upsert_columns \<subseteq> set ddl_columns" by blast
  then show ?thesis
    by (cases "fails w (tick w)") (simp_all add: user_upsert_def map_err_def)
qed

lemma profile_roundtrip:
  "map_row_to_profile (row_of_profile p v now) = p\<lparr>cu_version := v, cu_updated_at := now\<rparr>"
proof -
  have "parse_privacy_class (privacy_class_as_str c) = c" for c
    by (cases c) (simp_all add: parse_privacy_class_def)
  moreover have "parse_profile_source (source_type_as_str c) = c" for c
    by (cases c) (simp_all add: parse_profile_source_def)
  moreover have "parse_profile_authority (authority_level_as_str c) = c" for c
    by (cases c) (simp_all add: parse_profile_authority_def)
  ultimately show ?thesis
    by (cases p) (simp add: map_row_to_profile_def row_of_profile_def array_or_empty_def)
qed

text \<open>
  On a table with all the columns an upsert that returns is read back: the lookup
  gives the profile as written, with the version counted up from the stored one and the time of
  the write.
\<close>

theorem upsert_then_get:
  assumes "user_upsert columns p w = (Inr (), w1)" and "\<not> fails w1 (tick w1)"
  shows "\<exists>now. fst (user_get_by_id (cu_user_id p) w1) = Inr (Some (p\<lparr>cu_updated_at := now, cu_version :=
     (case find (\<lambda>r. u_user_id r = cu_user_id p) (user_profiles w) of None \<Rightarrow> cu_version p | Some r \<Rightarrow> u_version r + 1)\<rparr>))"
proof -
  let ?p = "\<lambda>r. u_user_id r = cu_user_id p" and ?now = "clock w (Suc (tick w))"
  let ?v = "case find ?p (user_profiles w) of None \<Rightarrow> cu_version p | Some r \<Rightarrow> u_version r + 1"
  have "find ?p (user_profiles w1) = Some (row_of_profile p ?v ?now)"
  proof (cases "find ?p (user_profiles w)")
    case None
    with assms(1) show ?thesis
      by (auto simp: user_upsert_def sql_now_def find_append row_of_profile_def elim!: exec_InrE split: if_splits)
  next
    case (Some r)
    have key: "u_user_id (row_of_profile p n t) = cu_user_id p" for n t by (simp add: row_of_profile_def)
    have "find ?p (sql_update ?p (\<lambda>r. row_of_profile p (u_version r + 1) ?now) rows) =
        map_option (\<lambda>r. row_of_profile p (u_version r + 1) ?now) (find ?p rows)" for rows
      by (induction rows) (simp_all add: sql_update_def key)
    with Some assms(1) show ?thesis
      by (auto simp: user_upsert_def sql_now_def elim!: exec_InrE split: if_splits)
  qed
  then show ?thesis
    using assms(2)
    by (intro exI [of _ ?now]) (simp add: user_get_by_id_def query_profile_def bindE_def map_err_def gets_def ret_def
        profile_roundtrip)
qed

lemma upsert_then_get_witness:
  "\<exists>now. fst (user_get_by_id ''alice'' (snd (user_upsert upsert_columns ((empty_profile 0)\<lparr>cu_user_id := ''alice''\<rparr>) empty_world))) =
     Inr (Some ((empty_profile 0)\<lparr>cu_user_id := ''alice'', cu_updated_at := now\<rparr>))"
proof -
  let ?p = "(empty_profile 0)\<lparr>cu_user_id := ''alice''\<rparr>"
  have run: "user_upsert upsert_columns ?p empty_world =
      (Inr (), empty_world\<lparr>tick := 1, user_profiles := [row_of_profile ?p 0 1]\<rparr>)"
    by (simp add: user_upsert_def map_err_def exec_def empty_world_def sql_now_def empty_profile_def)
  show ?thesis
    unfolding run snd_conv using upsert_then_get [OF run] by (simp add: empty_world_def empty_profile_def)
qed

text \<open>
  The lookup by identity link never answers a profile: the stored links are a JSON array,
  the query asks whether that array contains an object, and JSONB containment never holds between
  an array and an object.
\<close>

theorem find_by_identity_never_answers:
  assumes "\<And>r. r \<in> set (user_profiles w) \<Longrightarrow> \<exists>links. u_identity_links r = JArray links"
  shows "find_by_identity system external_id w =
     (if fails w (tick w) then Inl (UserRepoErr (UserDatabase DbError)) else Inr None, w\<lparr>tick := Suc (tick w)\<rparr>)"
proof -
  have "find (\<lambda>r. jsonb_contains (u_identity_links r) (identity_link system external_id)) (user_profiles w) = None"
    using assms by (fastforce simp: find_None_notin jsonb_contains_def is_object_def identity_link_def)
  then show ?thesis
    by (simp add: find_by_identity_def user_find_by_identity_def query_profile_def bindE_def map_err_def exec_def gets_def
        ret_def)
qed

definition linked_profile :: profile_row where
  "linked_profile = row_of_profile ((empty_profile 0)\<lparr>cu_user_id := ''alice'', cu_identity_links := [identity_link ''sso'' ''42'']\<rparr>) 1 0"

lemma find_by_identity_never_answers_witness:
  "fst (find_by_identity ''sso'' ''42'' (empty_world\<lparr>user_profiles := [linked_profile]\<rparr>)) = Inr None"
  using find_by_identity_never_answers [of "empty_world\<lparr>user_profiles := [linked_profile]\<rparr>" "''sso''" "''42''"]
  by (simp add: linked_profile_def row_of_profile_def empty_world_def)

end
