(* ===== verification/Identity.thy ===== *)
theory Identity
  imports Redis "HOL-Library.Word"
begin

unbundle bit_operations_syntax

text \<open>
  \<open>identity.rs\<close>: resolution of an external token to an identity through the IAM client, with a
  cache of the answers in Redis.  The cache is written under a hash of the user id and read
  under a hash of the token; the lemmas show what follows: a user id presented as a token is
  accepted without asking the IAM, and an invalidation leaves the cached answer in place.
\<close>

section \<open>Hash\<close>

text \<open>FNV-1a over the bytes, 64 bits wide with wrapping multiplication, printed with \<open>{:016x}\<close>.\<close>

definition fnv_offset :: "64 word" where
  "fnv_offset = 0xcbf29ce484222325"

definition fnv_prime :: "64 word" where
  "fnv_prime = 0x100000001b3"

definition fnv_step :: "char \<Rightarrow> 64 word \<Rightarrow> 64 word" where
  "fnv_step b hash = (hash XOR of_nat (of_char b)) * fnv_prime"

definition hex_digit :: "nat \<Rightarrow> char" where
  "hex_digit n = (if n < 10 then char_of (48 + n) else char_of (87 + n))"

definition hex16 :: "64 word \<Rightarrow> string" where
  "hex16 h = map (\<lambda>i. hex_digit (unat (drop_bit (4 * i) h AND 15))) (rev [0..<16])"

definition short_hash :: "string \<Rightarrow> string" where
  "short_hash s = hex16 (fold fnv_step s fnv_offset)"

section \<open>Types\<close>

datatype identity_error =
    IamClientErr string
  | RedisErr
  | InvalidToken
  | IdentityNotFound
  | SerializationErr
  | AgentNotAuthorized string string

record identity_permissions =
  ip_roles :: "string list"
  ip_permissions :: "string list"
  ip_denied :: "string list"

definition permissions_new :: "string list \<Rightarrow> string list \<Rightarrow> identity_permissions" where
  "permissions_new roles permissions = \<lparr>ip_roles = roles, ip_permissions = permissions, ip_denied = []\<rparr>"

definition permissions_is_empty :: "identity_permissions \<Rightarrow> bool" where
  "permissions_is_empty p \<longleftrightarrow> ip_roles p = [] \<and> ip_permissions p = []"

definition permits :: "identity_permissions \<Rightarrow> string \<Rightarrow> bool" where
  "permits p perm \<longleftrightarrow> \<not> list_ex (\<lambda>d. d = perm) (ip_denied p) \<and> list_ex (\<lambda>q. q = perm \<or> q = ''*'') (ip_permissions p)"

record resolved_identity =
  ri_user_id :: string
  ri_organization_id :: string
  ri_factory_id :: "string option"
  ri_roles :: "string list"
  ri_delegated_agent_id :: "string option"
  ri_permissions :: identity_permissions
  ri_purpose :: string
  ri_trace_id :: string
  ri_resolved_at :: time

definition system_identity :: "string \<Rightarrow> string \<Rightarrow> (world, identity_error, resolved_identity) op" where
  "system_identity tenant trace_id =
     bindE utc_now (\<lambda>now.
     ret \<lparr>ri_user_id = ''system'', ri_organization_id = tenant, ri_factory_id = None, ri_roles = [''system''],
       ri_delegated_agent_id = None, ri_permissions = permissions_new [''system''] [''*''], ri_purpose = ''system'',
       ri_trace_id = trace_id, ri_resolved_at = now\<rparr>)"

definition has_role :: "resolved_identity \<Rightarrow> string \<Rightarrow> bool" where
  "has_role i role = list_ex (\<lambda>r. r = role) (ri_roles i)"

definition has_permission :: "resolved_identity \<Rightarrow> string \<Rightarrow> bool" where
  "has_permission i perm = permits (ri_permissions i) perm"

definition belongs_to_tenant :: "resolved_identity \<Rightarrow> string \<Rightarrow> bool" where
  "belongs_to_tenant i tenant \<longleftrightarrow> ri_organization_id i = tenant"

record iam_identity =
  ii_user_id :: string
  ii_organization_id :: string
  ii_factory_id :: "string option"
  ii_roles :: "string list"
  ii_permissions :: "string list"
  ii_display_name :: "string option"
  ii_email :: "string option"

text \<open>An IAM client is the answer its \<open>verify_token\<close> gives; it does not touch the server's state.\<close>

type_synonym iam_client = "string \<Rightarrow> identity_error + iam_identity"

definition noop_iam_client :: "string \<Rightarrow> iam_client" where
  "noop_iam_client tenant token =
     (if token = [] then Inl InvalidToken
      else Inr \<lparr>ii_user_id = token, ii_organization_id = tenant, ii_factory_id = None, ii_roles = [''user''],
        ii_permissions = [''memory:read''], ii_display_name = Some token, ii_email = None\<rparr>)"

section \<open>The resolver\<close>

definition PERMISSION_CACHE_TTL_SECS :: nat where
  "PERMISSION_CACHE_TTL_SECS = 60"

record cached_permission =
  cp_identity :: iam_identity
  cp_cached_at :: time

text \<open>\<open>serde_json::to_vec\<close> and \<open>from_slice\<close> of a cached permission are fields.\<close>

record identity_resolver =
  ir_iam_client :: iam_client
  ir_hot_context :: bool
  ir_cache_ttl_secs :: nat
  ir_to_vec :: "cached_permission \<Rightarrow> string option"
  ir_from_slice :: "string \<Rightarrow> cached_permission option"

definition try_get_cached :: "identity_resolver \<Rightarrow> string \<Rightarrow> (world, identity_error, iam_identity option) op" where
  "try_get_cached R token =
     (if \<not> ir_hot_context R then ret None
      else
        let cache_key = ''oris:iam:'' @ short_hash token in
        tryE (get_user_context cache_key ''iam'') (\<lambda>r.
        case r of Inr (Some data) \<Rightarrow> ret (map_option cp_identity (ir_from_slice R data)) | _ \<Rightarrow> ret None))"

definition try_set_cached :: "identity_resolver \<Rightarrow> iam_identity \<Rightarrow> (world, identity_error, unit) op" where
  "try_set_cached R identity =
     (if \<not> ir_hot_context R then ret ()
      else
        bindE utc_now (\<lambda>now.
        case ir_to_vec R \<lparr>cp_identity = identity, cp_cached_at = now\<rparr> of
          None \<Rightarrow> ret ()
        | Some data \<Rightarrow>
            let cache_key = ''oris:iam:'' @ short_hash (ii_user_id identity) in
            tryE (set_user_context cache_key ''iam'' data (ir_cache_ttl_secs R)) (\<lambda>_. ret ())))"

definition resolved_of :: "iam_identity \<Rightarrow> string option \<Rightarrow> string \<Rightarrow> string \<Rightarrow> time \<Rightarrow> resolved_identity" where
  "resolved_of i agent_id purpose trace_id now = \<lparr>
     ri_user_id = ii_user_id i, ri_organization_id = ii_organization_id i, ri_factory_id = ii_factory_id i,
     ri_roles = ii_roles i, ri_delegated_agent_id = agent_id,
     ri_permissions = permissions_new (ii_roles i) (ii_permissions i), ri_purpose = purpose,
     ri_trace_id = trace_id, ri_resolved_at = now\<rparr>"

text \<open>\<open>Uuid::now_v7\<close> is drawn from the same stream of fresh ids as \<open>new_v4\<close>.\<close>

definition resolve_token :: "identity_resolver \<Rightarrow> string \<Rightarrow> string option \<Rightarrow> string \<Rightarrow>
    (world, identity_error, resolved_identity) op" where
  "resolve_token R token agent_id purpose =
     bindE new_v4 (\<lambda>trace_id.
     bindE (try_get_cached R token) (\<lambda>cached.
     bindE (case cached of
              Some identity \<Rightarrow> ret identity
            | None \<Rightarrow>
                (case ir_iam_client R token of
                   Inl e \<Rightarrow> throw e
                 | Inr identity \<Rightarrow> bindE (try_set_cached R identity) (\<lambda>_. ret identity))) (\<lambda>iam_identity.
     bindE utc_now (\<lambda>now.
     ret (resolved_of iam_identity agent_id purpose trace_id now)))))"

definition invalidate_identity_cache :: "identity_resolver \<Rightarrow> string \<Rightarrow> string \<Rightarrow> (world, identity_error, unit) op" where
  "invalidate_identity_cache R user_id tenant_id =
     (if ir_hot_context R then map_err (\<lambda>_. RedisErr) (invalidate_user_context user_id tenant_id) else ret ())"

section \<open>Properties\<close>

lemma length_short_hash [simp]: "length (short_hash s) = 16"
  by (simp add: short_hash_def hex16_def)

text \<open>The published FNV-1a test vectors.\<close>

lemma short_hash_vectors:
  "short_hash [] = ''cbf29ce484222325'' \<and> short_hash ''a'' = ''af63dc4c8601ec8c'' \<and> short_hash ''foobar'' = ''85944171f73967e8''"
  by code_simp

definition iam_key :: "string \<Rightarrow> string" where
  "iam_key s = user_context_key ''iam'' (''oris:iam:'' @ short_hash s)"

text \<open>An answer of the IAM for user \<open>u\<close> is in the cache and lives until \<open>expiry\<close>.\<close>

definition answer_cached :: "identity_resolver \<Rightarrow> iam_identity \<Rightarrow> time \<Rightarrow> world \<Rightarrow> bool" where
  "answer_cached R i expiry w \<longleftrightarrow> (\<exists>data t. redis_keys w (iam_key (ii_user_id i)) = Some (data, expiry) \<and>
     ir_from_slice R data = Some \<lparr>cp_identity = i, cp_cached_at = t\<rparr>)"

lemma cached_answer_resolves:
  assumes "answer_cached R i expiry w" and "ir_hot_context R" and "\<not> fails w (Suc (tick w))"
    and "clock w (Suc (Suc (tick w))) < expiry"
  shows "\<exists>r. fst (resolve_token R (ii_user_id i) agent purpose w) = Inr r \<and> ri_user_id r = ii_user_id i \<and>
     ri_permissions r = permissions_new (ii_roles i) (ii_permissions i)"
proof -
  obtain data t where "redis_keys w (iam_key (ii_user_id i)) = Some (data, expiry)"
    and "ir_from_slice R data = Some \<lparr>cp_identity = i, cp_cached_at = t\<rparr>"
    using assms(1) by (auto simp: answer_cached_def)
  then show ?thesis
    using assms(2-4)
    by (simp add: resolve_token_def try_get_cached_def bindE_def new_v4_def Let_def tryE_def get_user_context_def
        redis_get_def redis_exec_def map_err_def gets_def ret_def live_value_def sql_now_def utc_now_def iam_key_def
        resolved_of_def)
qed

lemma resolve_caches_answer:
  assumes "ir_hot_context R" and "ir_cache_ttl_secs R > 0" and "\<And>n. \<not> fails w n"
    and "redis_keys w (iam_key token) = None" and "ir_iam_client R token = Inr i"
    and "ir_to_vec R \<lparr>cp_identity = i, cp_cached_at = clock w (tick w + 2)\<rparr> = Some data"
    and "ir_from_slice R data = Some \<lparr>cp_identity = i, cp_cached_at = clock w (tick w + 2)\<rparr>"
    and "resolve_token R token agent purpose w = (r, w')"
  shows "answer_cached R i (clock w (tick w + 4) + secs (int (ir_cache_ttl_secs R))) w' \<and>
     fails w' = fails w \<and> clock w' = clock w \<and> tick w' = tick w + 5"
  using assms
  by (auto simp: resolve_token_def try_get_cached_def try_set_cached_def bindE_def new_v4_def Let_def tryE_def
      get_user_context_def set_user_context_def redis_get_def redis_set_ex_def redis_exec_def map_err_def gets_def
      ret_def live_value_def sql_now_def utc_now_def iam_key_def answer_cached_def eval_nat_numeral)

text \<open>
  A user id passes for a token.  After one user's token has been resolved through the IAM,
  whoever presents that user's id as a token within the cache's lifetime receives the user's
  identity and permissions, even though the IAM rejects it: the cache is written under the user
  id's hash and read under the token's.
\<close>

theorem user_id_passes_for_token:
  assumes "ir_hot_context R" and "ir_cache_ttl_secs R > 0" and "\<And>n. \<not> fails w n"
    and "redis_keys w (iam_key token) = None" and "ir_iam_client R token = Inr i"
    and "ir_to_vec R \<lparr>cp_identity = i, cp_cached_at = clock w (tick w + 2)\<rparr> = Some data"
    and "ir_from_slice R data = Some \<lparr>cp_identity = i, cp_cached_at = clock w (tick w + 2)\<rparr>"
    and "resolve_token R token agent purpose w = (r, w')"
    and "ir_iam_client R (ii_user_id i) = Inl InvalidToken"
    and "clock w (tick w + 7) < clock w (tick w + 4) + secs (int (ir_cache_ttl_secs R))"
  shows "\<exists>r'. fst (resolve_token R (ii_user_id i) agent' purpose' w') = Inr r' \<and> ri_user_id r' = ii_user_id i \<and>
     ri_permissions r' = permissions_new (ii_roles i) (ii_permissions i)"
  using cached_answer_resolves [of R i "clock w (tick w + 4) + secs (int (ir_cache_ttl_secs R))" w' agent' purpose']
    resolve_caches_answer [OF assms(1-8)] assms(1,3,10)
  by (simp add: eval_nat_numeral)

definition demo_answer :: iam_identity where
  "demo_answer = \<lparr>ii_user_id = ''alice'', ii_organization_id = ''acme'', ii_factory_id = None, ii_roles = [''admin''],
     ii_permissions = [''*''], ii_display_name = None, ii_email = None\<rparr>"

definition demo_resolver :: identity_resolver where
  "demo_resolver = \<lparr>
     ir_iam_client = (\<lambda>token. if token = ''secret'' then Inr demo_answer else Inl InvalidToken),
     ir_hot_context = True, ir_cache_ttl_secs = PERMISSION_CACHE_TTL_SECS,
     ir_to_vec = (\<lambda>c. if c = \<lparr>cp_identity = demo_answer, cp_cached_at = 2\<rparr> then Some ''c'' else None),
     ir_from_slice = (\<lambda>d. if d = ''c'' then Some \<lparr>cp_identity = demo_answer, cp_cached_at = 2\<rparr> else None)\<rparr>"

lemma user_id_passes_for_token_witness:
  "\<exists>r'. fst (resolve_token demo_resolver ''alice'' None ''mail'' (snd (resolve_token demo_resolver ''secret'' None ''login'' empty_world))) =
     Inr r' \<and> ri_permissions r' = permissions_new [''admin''] [''*'']"
  using user_id_passes_for_token [of demo_resolver empty_world "''secret''" demo_answer "''c''" None "''login''"
      "fst (resolve_token demo_resolver ''secret'' None ''login'' empty_world)"
      "snd (resolve_token demo_resolver ''secret'' None ''login'' empty_world)" None "''mail''"]
  by (auto simp: demo_resolver_def empty_world_def demo_answer_def PERMISSION_CACHE_TTL_SECS_def secs_def)

text \<open>
  Invalidating a user's permissions deletes the hot context of the user, not the cached answer:
  after a role change the old permissions stay in force until the entry expires.
\<close>

lemma invalidation_keeps_answer:
  assumes "invalidate_identity_cache R user tenant w = (r, w')" and "answer_cached R i expiry w"
    and "user_context_key tenant user \<noteq> iam_key (ii_user_id i)"
  shows "answer_cached R i expiry w'"
  using assms
  by (auto simp: invalidate_identity_cache_def invalidate_user_context_def redis_del_def redis_exec_def map_err_def
      exec_def modify_def ret_def answer_cached_def split: if_splits)

end
