(* ===== verification/Search.thy ===== *)
theory Search
  imports MemoryRepo TextOps StableSort
begin

text \<open>
  \<open>postgres/search.rs\<close>: a search is one SQL statement whose text is assembled from the
  parameters.  The model keeps the text, the number of the highest placeholder and the list
  of bound values, because PostgreSQL rejects a statement whose parentheses do not match
  and sqlx one that binds another number of values than the statement has placeholders.
  What PostgreSQL computes by itself (full-text matching, the score expression) is a
  parameter.  The lemmas say which rows a search returns and in which order, and that a
  search with a query text never returns any.
\<close>

section \<open>Parameters and results (\<open>memory_types.rs\<close>)\<close>

record search_params =
  sp_tenant_id :: string
  sp_query_text :: "string option"
  sp_memory_types :: "memory_type list"
  sp_scopes :: "scope list"
  sp_subject_id :: "string option"
  sp_min_confidence :: "f32 option"
  sp_limit :: int
  sp_offset :: int
  sp_embedding :: "f32 list option"
  sp_vector_weight :: f32
  sp_keyword_weight :: f32
  sp_authority_weight :: f32
  sp_freshness_weight :: f32

definition search_params_new :: "string \<Rightarrow> search_params" where
  "search_params_new tenant = \<lparr>
     sp_tenant_id = tenant, sp_query_text = None, sp_memory_types = [], sp_scopes = [],
     sp_subject_id = None, sp_min_confidence = None, sp_limit = 20, sp_offset = 0,
     sp_embedding = None, sp_vector_weight = f32_0_4, sp_keyword_weight = f32_0_3,
     sp_authority_weight = f32_0_2, sp_freshness_weight = f32_0_1\<rparr>"

datatype match_type = Structured | Keyword | Vector | Hybrid

record search_result =
  hit_item :: memory_item
  hit_score :: rat
  hit_matched_by :: match_type

section \<open>The statement\<close>

datatype bind_value = BindText string | BindReal f32 | BindInt int

record sql_statement =
  stmt_text :: string
  stmt_highest_placeholder :: nat
  stmt_binds :: "bind_value list"

definition placeholder :: "nat \<Rightarrow> string" where
  "placeholder n = CHR 0x24 # show_nat n"

definition has_keyword :: "search_params \<Rightarrow> bool" where
  "has_keyword p = (case sp_query_text p of Some t \<Rightarrow> trim t \<noteq> [] | None \<Rightarrow> False)"

text \<open>The conditions of the \<open>WHERE\<close> clause and the next free placeholder.\<close>

definition in_list :: "string \<Rightarrow> ('a \<Rightarrow> string) \<Rightarrow> 'a list \<Rightarrow> string list" where
  "in_list column text xs =
     (if xs = [] then []
      else [column @ '' IN ('' @ join '','' (map (\<lambda>x. quoted (text x)) xs) @ '')''])"

definition search_conditions :: "search_params \<Rightarrow> string list \<times> nat" where
  "search_conditions p =
     (let c0 = [''tenant_id = $1'', ''status = '' @ quoted ''active''] @
               in_list ''memory_type'' memory_type_as_str (sp_memory_types p) @
               in_list ''scope'' scope_as_str (sp_scopes p);
          (c1, i1) = (case sp_subject_id p of Some _ \<Rightarrow> (c0 @ [''subject_id = '' @ placeholder 2], 3)
                      | None \<Rightarrow> (c0, 2));
          (c2, i2) = (case sp_min_confidence p of Some _ \<Rightarrow> (c1 @ [''confidence >= '' @ placeholder i1], i1 + 1)
                      | None \<Rightarrow> (c1, i1));
          (c3, i3) = (if has_keyword p
                      then (c2 @ [''search_tsv @@ plainto_tsquery('' @ quoted ''simple'' @ '', '' @ placeholder i2], i2 + 1)
                      else (c2, i2))
      in (c3 @ [''(valid_to IS NULL OR valid_to > NOW())''], i3))"

definition where_clause :: "search_params \<Rightarrow> string" where
  "where_clause p = join '' AND '' (fst (search_conditions p))"

text \<open>The values bound for the conditions, and for the query text in the vector path.\<close>

definition filter_binds :: "search_params \<Rightarrow> bind_value list" where
  "filter_binds p =
     [BindText (sp_tenant_id p)] @
     (case sp_subject_id p of Some s \<Rightarrow> [BindText s] | None \<Rightarrow> []) @
     (case sp_min_confidence p of Some c \<Rightarrow> [BindReal c] | None \<Rightarrow> [])"

definition query_text_or_empty :: "search_params \<Rightarrow> string" where
  "query_text_or_empty p = (case sp_query_text p of Some t \<Rightarrow> t | None \<Rightarrow> [])"

type_synonym f32_text = "f32 \<Rightarrow> string"

definition encode_vector :: "f32_text \<Rightarrow> f32 list \<Rightarrow> string" where
  "encode_vector to_string v = ''['' @ join '','' (map to_string v) @ '']''"

definition ts_match_text :: "nat \<Rightarrow> string" where
  "ts_match_text i = ''search_tsv @@ plainto_tsquery('' @ quoted ''simple'' @ '', '' @ placeholder i @ '')''"

definition freshness_text :: "nat \<Rightarrow> string" where
  "freshness_text i =
     ''(1.0 / (EXTRACT(EPOCH FROM (NOW() - created_at)) / 86400.0 + 1.0)) * '' @ placeholder i"

definition authority_join_text :: string where
  "authority_join_text =
     ''CROSS JOIN LATERAL ( SELECT CASE authority_level'' @
     '' WHEN '' @ quoted ''L0_source_of_truth'' @ '' THEN 1.0'' @
     '' WHEN '' @ quoted ''L1_authoritative'' @ '' THEN 0.8'' @
     '' WHEN '' @ quoted ''L2_verified'' @ '' THEN 0.6'' @
     '' WHEN '' @ quoted ''L3_inferred'' @ '' THEN 0.4'' @
     '' ELSE 0.4 END AS authority_rank ) AS ar ''"

definition tail_text :: "search_params \<Rightarrow> nat \<Rightarrow> nat \<Rightarrow> string" where
  "tail_text p p_limit p_offset =
     ''WHERE '' @ where_clause p @ '' ORDER BY score DESC LIMIT '' @ placeholder p_limit @
     '' OFFSET '' @ placeholder p_offset"

definition vector_statement :: "f32_text \<Rightarrow> search_params \<Rightarrow> f32 list \<Rightarrow> sql_statement" where
  "vector_statement to_string p embedding =
     (let i = snd (search_conditions p) in \<lparr>
        stmt_text =
          ''SELECT *, (CASE WHEN '' @ ts_match_text i @ '' THEN '' @ placeholder (i + 1) @ '' ELSE 0 END'' @
          '' + (1.0 - (embedding <=> '' @ placeholder (i + 2) @ ''::vector)) * '' @ placeholder (i + 3) @
          '' + authority_rank * '' @ placeholder (i + 4) @ '' + '' @ freshness_text (i + 5) @ '') AS score, '' @
          ''(CASE WHEN '' @ ts_match_text i @ '' THEN TRUE ELSE FALSE END) AS matched_keyword, '' @
          ''TRUE AS matched_vector FROM memory_item '' @ authority_join_text @ tail_text p (i + 6) (i + 7),
        stmt_highest_placeholder = i + 7,
        stmt_binds = filter_binds p @ (if has_keyword p then [BindText (query_text_or_empty p)] else []) @
          [BindText (query_text_or_empty p), BindReal (sp_keyword_weight p),
           BindText (encode_vector to_string embedding), BindReal (sp_vector_weight p),
           BindReal (sp_authority_weight p), BindReal (sp_freshness_weight p),
           BindInt (sp_limit p), BindInt (sp_offset p)]\<rparr>)"

definition keyword_statement :: "search_params \<Rightarrow> sql_statement" where
  "keyword_statement p =
     (let i = snd (search_conditions p) in \<lparr>
        stmt_text =
          ''SELECT *, (CASE WHEN '' @ ts_match_text i @ '' THEN '' @ placeholder (i + 1) @ '' ELSE 0 END'' @
          '' + authority_rank * '' @ placeholder (i + 2) @ '' + '' @ freshness_text (i + 3) @ '') AS score '' @
          ''FROM memory_item '' @ authority_join_text @ tail_text p (i + 4) (i + 5),
        stmt_highest_placeholder = i + 5,
        stmt_binds = filter_binds p @
          [BindText (query_text_or_empty p), BindReal (sp_keyword_weight p), BindReal (sp_authority_weight p),
           BindReal (sp_freshness_weight p), BindInt (sp_limit p), BindInt (sp_offset p)]\<rparr>)"

definition structured_statement :: "search_params \<Rightarrow> sql_statement" where
  "structured_statement p =
     (let i = snd (search_conditions p) in \<lparr>
        stmt_text = ''SELECT *, confidence * 0.5 + importance * 0.5 AS score FROM memory_item '' @
          tail_text p i (i + 1),
        stmt_highest_placeholder = i + 1,
        stmt_binds = filter_binds p @ [BindInt (sp_limit p), BindInt (sp_offset p)]\<rparr>)"

section \<open>What PostgreSQL accepts\<close>

text \<open>
  The lexer skips quoted text; outside it every parenthesis must be matched.  The scan
  keeps the depth and whether it is inside quotes; a depth below zero never recovers.
\<close>

fun scan_char :: "(nat \<times> bool) option \<Rightarrow> char \<Rightarrow> (nat \<times> bool) option" where
  "scan_char None c = None"
| "scan_char (Some (d, q)) c =
     (if c = CHR 0x27 then Some (d, \<not> q)
      else if q then Some (d, q)
      else if c = CHR 0x28 then Some (Suc d, q)
      else if c = CHR 0x29 then (if d = 0 then None else Some (d - 1, q))
      else Some (d, q))"

definition scan_text :: "(nat \<times> bool) option \<Rightarrow> string \<Rightarrow> (nat \<times> bool) option" where
  "scan_text st t = foldl scan_char st t"

definition parens_match :: "string \<Rightarrow> bool" where
  "parens_match t \<longleftrightarrow> scan_text (Some (0, False)) t = Some (0, False)"

definition pg_accepts :: "sql_statement \<Rightarrow> bool" where
  "pg_accepts s \<longleftrightarrow> parens_match (stmt_text s) \<and> length (stmt_binds s) = stmt_highest_placeholder s"

section \<open>What PostgreSQL computes\<close>

text \<open>
  \<open>ts_match\<close> is \<open>search_tsv @@ plainto_tsquery('simple', text)\<close>, \<open>structured_score\<close>,
  \<open>keyword_score\<close> and \<open>vector_score\<close> are the double-precision score expressions over a row; the vector score is
  that of a row whose embedding is the second argument, and NULL without one.
\<close>

record search_engine =
  ts_match :: "string \<Rightarrow> memory_row \<Rightarrow> bool"
  structured_score :: "memory_row \<Rightarrow> rat"
  keyword_score :: "search_params \<Rightarrow> memory_row \<Rightarrow> rat"
  vector_score :: "search_params \<Rightarrow> f32 list \<Rightarrow> f32 list \<Rightarrow> memory_row \<Rightarrow> rat"

text \<open>\<open>>=\<close> on \<open>REAL\<close>: PostgreSQL puts \<open>NaN\<close> above every number.\<close>

definition pg_ge :: "f32 \<Rightarrow> f32 \<Rightarrow> bool" where
  "pg_ge a b \<longleftrightarrow> a = NaN \<or> f32_ge a b"

definition search_matches :: "search_engine \<Rightarrow> search_params \<Rightarrow> time \<Rightarrow> memory_row \<Rightarrow> bool" where
  "search_matches eng p now r \<longleftrightarrow>
     c_tenant_id r = sp_tenant_id p \<and> c_status r = ''active'' \<and>
     (sp_memory_types p = [] \<or> c_memory_type r \<in> memory_type_as_str ` set (sp_memory_types p)) \<and>
     (sp_scopes p = [] \<or> c_scope r \<in> scope_as_str ` set (sp_scopes p)) \<and>
     (case sp_subject_id p of Some i \<Rightarrow> c_subject_id r = Some i | None \<Rightarrow> True) \<and>
     (case sp_min_confidence p of Some m \<Rightarrow> pg_ge (c_confidence r) m | None \<Rightarrow> True) \<and>
     (has_keyword p \<longrightarrow> ts_match eng (query_text_or_empty p) r) \<and>
     (case c_valid_to r of None \<Rightarrow> True | Some v \<Rightarrow> v > now)"

text \<open>\<open>ORDER BY score DESC\<close> puts NULL first.\<close>

definition order_by_score :: "(memory_row \<Rightarrow> rat option) \<Rightarrow> memory_row list \<Rightarrow> memory_row list" where
  "order_by_score score rows =
     sort_key (\<lambda>r. case score r of None \<Rightarrow> (0 :: nat, 0) | Some x \<Rightarrow> (1, - x)) rows"

text \<open>
  The cast \<open>::vector\<close> rejects an empty or overlong literal and non-finite entries; \<open><=>\<close> rejects
  operands of different dimensions.
\<close>

definition vector_operand_ok :: "f32 list \<Rightarrow> memory_row list \<Rightarrow> bool" where
  "vector_operand_ok v rows \<longleftrightarrow> v \<noteq> [] \<and> length v \<le> 16000 \<and> list_all f32_finite v \<and>
     list_all (\<lambda>r. case c_embedding r of Some e \<Rightarrow> length e = length v | None \<Rightarrow> True) rows"

definition run_search :: "search_engine \<Rightarrow> search_params \<Rightarrow> sql_statement \<Rightarrow> (memory_row list \<Rightarrow> bool) \<Rightarrow>
    (memory_row \<Rightarrow> rat option) \<Rightarrow> (world, db_error, memory_row list) op" where
  "run_search eng p stmt operands_ok score = exec (\<lambda>w.
     let rows = filter (search_matches eng p (sql_now w)) (memory_items w) in
     if \<not> pg_accepts stmt \<or> \<not> operands_ok rows then (Inl DbError, w)
     else sql_limit (sp_limit p) (sp_offset p) (order_by_score score rows) w)"

section \<open>\<open>hybrid_search\<close>\<close>

datatype search_error = SearchDatabase db_error

text \<open>The row mapping of search results, with its own fallbacks and fixed fields.\<close>

definition brief_memory_type :: "string \<Rightarrow> memory_type" where
  "brief_memory_type s =
     (if s = ''semantic'' then Semantic else if s = ''episodic'' then Episodic
      else if s = ''decision'' then Decision else if s = ''experience'' then Experience
      else UserPreference)"

definition brief_scope :: "string \<Rightarrow> scope" where
  "brief_scope s =
     (if s = ''personal'' then Personal else if s = ''agent'' then Agent
      else if s = ''task'' then Task else if s = ''team'' then Team
      else if s = ''process'' then Process else if s = ''factory'' then Factory
      else Enterprise)"

definition brief_authority_level :: "string \<Rightarrow> authority_level" where
  "brief_authority_level s =
     (if s = ''L0_source_of_truth'' then L0SourceOfTruth
      else if s = ''L1_authoritative'' then L1Authoritative
      else if s = ''L2_verified'' then L2Verified else L3Inferred)"

definition brief_privacy_class :: "string \<Rightarrow> privacy_class" where
  "brief_privacy_class s =
     (if s = ''public'' then Public else if s = ''confidential'' then Confidential
      else if s = ''restricted'' then Restricted else Internal)"

definition brief_status :: "string \<Rightarrow> memory_status" where
  "brief_status s =
     (if s = ''candidate'' then Candidate else if s = ''archived'' then Archived
      else if s = ''revoked'' then Revoked else if s = ''quarantined'' then Quarantined
      else Active)"

definition map_row_brief :: "memory_row \<Rightarrow> memory_item" where
  "map_row_brief r = \<lparr>
     mi_memory_id = c_memory_id r,
     mi_tenant_id = c_tenant_id r,
     mi_memory_type = brief_memory_type (c_memory_type r),
     mi_scope = brief_scope (c_scope r),
     mi_subject_type = c_subject_type r,
     mi_subject_id = c_subject_id r,
     mi_entity_refs = [],
     mi_content = c_content r,
     mi_structured_payload = c_structured_payload r,
     mi_embedding = None,
     mi_source_type = AgentInferred,
     mi_source_reference = c_source_reference r,
     mi_evidence_refs = [],
     mi_confidence = c_confidence r,
     mi_authority_level = brief_authority_level (c_authority_level r),
     mi_importance = c_importance r,
     mi_observed_at = c_observed_at r,
     mi_valid_from = c_valid_from r,
     mi_valid_to = c_valid_to r,
     mi_privacy_class = brief_privacy_class (c_privacy_class r),
     mi_acl = c_acl r,
     mi_retention_policy = c_retention_policy r,
     mi_status = brief_status (c_status r),
     mi_version = c_version r,
     mi_derived_from = [],
     mi_created_by_user = c_created_by_user r,
     mi_created_by_agent = c_created_by_agent r,
     mi_last_verified_at = c_last_verified_at r,
     mi_created_at = c_created_at r,
     mi_updated_at = c_updated_at r\<rparr>"

text \<open>\<open>row.try_get("score").unwrap_or(0.0)\<close>.\<close>

definition score_or_zero :: "rat option \<Rightarrow> rat" where
  "score_or_zero s = (case s of Some x \<Rightarrow> x | None \<Rightarrow> 0)"

definition vector_row_score :: "search_engine \<Rightarrow> search_params \<Rightarrow> f32 list \<Rightarrow> memory_row \<Rightarrow> rat option" where
  "vector_row_score eng p embedding r = map_option (\<lambda>e. vector_score eng p embedding e r) (c_embedding r)"

definition hybrid_search :: "f32_text \<Rightarrow> search_engine \<Rightarrow> search_params \<Rightarrow> (world, search_error, search_result list) op" where
  "hybrid_search to_string eng p =
     (case sp_embedding p of
        Some embedding \<Rightarrow>
          bindE (map_err SearchDatabase (run_search eng p (vector_statement to_string p embedding)
             (vector_operand_ok embedding) (vector_row_score eng p embedding)))
          (\<lambda>rows. ret (map (\<lambda>r. \<lparr>hit_item = map_row_brief r,
             hit_score = score_or_zero (vector_row_score eng p embedding r),
             hit_matched_by = (if ts_match eng (query_text_or_empty p) r then Hybrid else Vector)\<rparr>) rows))
      | None \<Rightarrow>
          if has_keyword p then
            bindE (map_err SearchDatabase (run_search eng p (keyword_statement p) (\<lambda>_. True)
               (\<lambda>r. Some (keyword_score eng p r))))
            (\<lambda>rows. ret (map (\<lambda>r. \<lparr>hit_item = map_row_brief r, hit_score = keyword_score eng p r,
               hit_matched_by = Keyword\<rparr>) rows))
          else
            bindE (map_err SearchDatabase (run_search eng p (structured_statement p) (\<lambda>_. True)
               (\<lambda>r. Some (structured_score eng r))))
            (\<lambda>rows. ret (map (\<lambda>r. \<lparr>hit_item = map_row_brief r, hit_score = structured_score eng r,
               hit_matched_by = Structured\<rparr>) rows)))"

section \<open>Which statements PostgreSQL accepts\<close>

text \<open>\<open>opens k t\<close>: outside quotes, the text leaves \<open>k\<close> more parentheses open than it found.\<close>

definition opens :: "nat \<Rightarrow> string \<Rightarrow> bool" where
  "opens k t \<longleftrightarrow> (\<forall>d. scan_text (Some (d, False)) t = Some (d + k, False))"

lemma scan_text_Nil: "scan_text st [] = st"
  by (simp add: scan_text_def)

lemma scan_text_Cons: "scan_text st (c # t) = scan_text (scan_char st c) t"
  by (simp add: scan_text_def)

lemma scan_text_append: "scan_text st (a @ b) = scan_text (scan_text st a) b"
  by (simp add: scan_text_def)

lemma opens_append: "opens j a \<Longrightarrow> opens k b \<Longrightarrow> opens (j + k) (a @ b)"
  by (simp add: opens_def scan_text_append add.assoc)

lemma opens_0_append: "opens 0 a \<Longrightarrow> opens k b \<Longrightarrow> opens k (a @ b)"
  using opens_append [of 0 a k b] by simp

lemma opens_unquoted:
  assumes "\<And>c. c \<in> set t \<Longrightarrow> c \<noteq> CHR 0x27 \<and> c \<noteq> CHR 0x28 \<and> c \<noteq> CHR 0x29"
  shows "opens 0 t"
proof -
  have "scan_text (Some (d, False)) t = Some (d, False)" for d
    using assms by (induction t arbitrary: d) (auto simp: scan_text_def)
  then show ?thesis by (simp add: opens_def)
qed

lemma opens_quoted:
  assumes "CHR 0x27 \<notin> set t"
  shows "opens 0 (quoted t)"
proof -
  have "scan_text (Some (d, True)) t = Some (d, True)" for d
    using assms by (induction t arbitrary: d) (auto simp: scan_text_def)
  then show ?thesis by (auto simp: opens_def quoted_def scan_text_def)
qed

lemma show_nat_digits: "c \<in> set (show_nat n) \<Longrightarrow> 48 \<le> (of_char c :: nat) \<and> (of_char c :: nat) \<le> 57"
proof (induction n rule: show_nat.induct)
  case (1 n)
  have digit: "(of_char (char_of (48 + m :: nat) :: char) :: nat) = 48 + m" if "m < 10" for m :: nat
    using that by (simp add: of_char_of)
  show ?case
  proof (cases "n < 10")
    case True
    then show ?thesis using 1(2) digit [of n] by (simp add: show_nat.simps [of n])
  next
    case False
    then show ?thesis
      using 1 digit [of "n mod 10"] by (auto simp: show_nat.simps [of n] simp del: char_of_nat)
  qed
qed

lemma opens_placeholder: "opens 0 (placeholder n)"
proof (rule opens_unquoted)
  fix c assume "c \<in> set (placeholder n)"
  then show "c \<noteq> CHR 0x27 \<and> c \<noteq> CHR 0x28 \<and> c \<noteq> CHR 0x29"
    using show_nat_digits [of c n] by (auto simp: placeholder_def)
qed

lemma join_append:
  "xs \<noteq> [] \<Longrightarrow> ys \<noteq> [] \<Longrightarrow> join sep (xs @ ys) = join sep xs @ sep @ join sep ys"
proof (induction xs rule: induct_list012)
  case (2 x)
  then show ?case by (cases ys) simp_all
qed simp_all

lemma opens_join: "opens 0 sep \<Longrightarrow> list_all (opens 0) xs \<Longrightarrow> opens 0 (join sep xs)"
proof (induction xs rule: induct_list012)
  case 1
  then show ?case by (simp add: opens_def scan_text_def)
qed (auto intro!: opens_0_append)

text \<open>A literal of the source is scanned character by character.\<close>

lemmas scan_literal = opens_def scan_text_Nil scan_text_Cons

lemma opens_type: "opens 0 (quoted (memory_type_as_str m))"
  by (cases m) (simp_all add: opens_quoted)

lemma opens_scope: "opens 0 (quoted (scope_as_str m))"
  by (cases m) (simp_all add: opens_quoted)

lemma opens_in_list:
  assumes "\<And>x. opens 0 (quoted (text x))" and "opens 0 column"
  shows "list_all (opens 0) (in_list column text xs)"
proof -
  have "opens 0 (join '','' (map (\<lambda>x. quoted (text x)) xs))"
    using assms(1) by (intro opens_join) (simp_all add: list_all_iff scan_literal)
  then show ?thesis
    using assms(2) by (simp add: in_list_def opens_def scan_text_append scan_text_Cons scan_text_Nil)
qed

definition plain_conditions :: "search_params \<Rightarrow> string list" where
  "plain_conditions p =
     [''tenant_id = $1'', ''status = '' @ quoted ''active''] @
     in_list ''memory_type'' memory_type_as_str (sp_memory_types p) @
     in_list ''scope'' scope_as_str (sp_scopes p) @
     (case sp_subject_id p of Some _ \<Rightarrow> [''subject_id = '' @ placeholder 2] | None \<Rightarrow> []) @
     (case sp_min_confidence p of
        Some _ \<Rightarrow> [''confidence >= '' @ placeholder (case sp_subject_id p of Some _ \<Rightarrow> 3 | None \<Rightarrow> 2)]
      | None \<Rightarrow> [])"

definition condition_count :: "search_params \<Rightarrow> nat" where
  "condition_count p = 2 + (case sp_subject_id p of Some _ \<Rightarrow> 1 | None \<Rightarrow> 0) +
     (case sp_min_confidence p of Some _ \<Rightarrow> 1 | None \<Rightarrow> 0)"

definition keyword_condition :: "nat \<Rightarrow> string" where
  "keyword_condition i = ''search_tsv @@ plainto_tsquery('' @ quoted ''simple'' @ '', '' @ placeholder i"

lemma search_conditions_eq:
  "search_conditions p =
     (plain_conditions p @ (if has_keyword p then [keyword_condition (condition_count p)] else []) @
        [''(valid_to IS NULL OR valid_to > NOW())''],
      condition_count p + (if has_keyword p then 1 else 0))"
  by (simp add: search_conditions_def plain_conditions_def condition_count_def keyword_condition_def
      Let_def eval_nat_numeral split: option.splits)

lemma opens_plain_conditions: "list_all (opens 0) (plain_conditions p)"
proof -
  have "opens 0 ''tenant_id = $1''" "opens 0 ''memory_type''" "opens 0 ''scope''"
    "opens 0 (''status = '' @ quoted ''active'')"
    by (simp_all add: scan_literal quoted_def)
  moreover have "opens 0 (''subject_id = '' @ placeholder i)" "opens 0 (''confidence >= '' @ placeholder i)" for i
    by (rule opens_0_append, simp add: scan_literal, rule opens_placeholder)+
  ultimately show ?thesis
    by (auto simp: plain_conditions_def opens_in_list opens_type opens_scope simp del: append.simps split: option.splits)
qed

text \<open>With a query text the condition on it leaves its parenthesis open.\<close>

lemma opens_keyword_condition: "opens 1 (keyword_condition i)"
  using opens_placeholder [of i]
  by (simp add: keyword_condition_def quoted_def opens_def scan_text_append scan_text_Cons scan_text_Nil)

lemma plain_conditions_nonempty: "plain_conditions p \<noteq> []"
  by (simp add: plain_conditions_def)

lemma opens_where: "opens (if has_keyword p then 1 else 0) (where_clause p)"
proof -
  have plain: "opens 0 (join '' AND '' (plain_conditions p))"
    by (rule opens_join [OF _ opens_plain_conditions]) (simp add: scan_literal)
  have valid: "opens 0 ''(valid_to IS NULL OR valid_to > NOW())''" by (simp add: scan_literal)
  have sep: "opens 0 '' AND ''" by (simp add: scan_literal)
  show ?thesis
  proof (cases "has_keyword p")
    case True
    have "where_clause p = join '' AND '' (plain_conditions p) @ '' AND '' @
        (keyword_condition (condition_count p) @ ('' AND '' @ ''(valid_to IS NULL OR valid_to > NOW())''))"
      using True by (simp add: where_clause_def search_conditions_eq join_append plain_conditions_nonempty del: append.simps)
    moreover have "opens (1 + 0) (keyword_condition (condition_count p) @
        ('' AND '' @ ''(valid_to IS NULL OR valid_to > NOW())''))"
      by (intro opens_append opens_keyword_condition opens_0_append valid sep)
    ultimately show ?thesis using True plain sep by (auto intro!: opens_0_append simp del: append.simps)
  next
    case False
    then have "where_clause p = join '' AND '' (plain_conditions p) @
        ('' AND '' @ ''(valid_to IS NULL OR valid_to > NOW())'')"
      by (simp add: where_clause_def search_conditions_eq join_append plain_conditions_nonempty del: append_Cons)
    then show ?thesis using False plain sep valid by (auto intro!: opens_0_append simp del: append.simps)
  qed
qed

lemmas scan_pieces = scan_text_append scan_text_Cons scan_text_Nil ts_match_text_def freshness_text_def
  tail_text_def authority_join_text_def quoted_def

lemma scan_placeholder: "scan_text (Some (d, False)) (placeholder i) = Some (d, False)"
  using opens_placeholder by (simp add: opens_def)

lemma scan_where: "scan_text (Some (d, False)) (where_clause p) = Some (d + (if has_keyword p then 1 else 0), False)"
  using opens_where [of p] by (simp add: opens_def)

lemma statement_scans:
  "parens_match (stmt_text (structured_statement p)) \<longleftrightarrow> \<not> has_keyword p"
  "parens_match (stmt_text (keyword_statement p)) \<longleftrightarrow> \<not> has_keyword p"
  "parens_match (stmt_text (vector_statement to_string p v)) \<longleftrightarrow> \<not> has_keyword p"
  by (simp_all add: structured_statement_def keyword_statement_def vector_statement_def Let_def parens_match_def
      scan_pieces scan_placeholder scan_where)

lemma statement_binds:
  "length (stmt_binds (structured_statement p)) = stmt_highest_placeholder (structured_statement p) \<longleftrightarrow> \<not> has_keyword p"
  "length (stmt_binds (keyword_statement p)) = stmt_highest_placeholder (keyword_statement p) \<longleftrightarrow> \<not> has_keyword p"
  "length (stmt_binds (vector_statement to_string p v)) = stmt_highest_placeholder (vector_statement to_string p v)"
  by (simp_all add: structured_statement_def keyword_statement_def vector_statement_def Let_def
      search_conditions_eq condition_count_def filter_binds_def split: option.splits)

lemma accepted_statements:
  "pg_accepts (structured_statement p) \<longleftrightarrow> \<not> has_keyword p"
  "has_keyword p \<Longrightarrow> \<not> pg_accepts (keyword_statement p)"
  "pg_accepts (vector_statement to_string p v) \<longleftrightarrow> \<not> has_keyword p"
  by (auto simp: pg_accepts_def statement_scans statement_binds)

section \<open>What a search returns\<close>

lemma run_search_rejected: "\<not> pg_accepts stmt \<Longrightarrow> \<exists>w'. run_search eng p stmt ok score w = (Inl DbError, w')"
  by (auto simp: run_search_def exec_def Let_def)

text \<open>The matching rows at the statement's \<open>NOW()\<close>.\<close>

definition candidates :: "search_engine \<Rightarrow> search_params \<Rightarrow> world \<Rightarrow> memory_row list" where
  "candidates eng p w = filter (search_matches eng p (clock w (Suc (tick w)))) (memory_items w)"

lemma run_search_eq:
  "run_search eng p stmt ok score w =
     (if fails w (tick w) \<or> \<not> pg_accepts stmt \<or> \<not> ok (candidates eng p w) \<or> sp_limit p < 0 \<or> sp_offset p < 0
      then (Inl DbError, w\<lparr>tick := Suc (tick w)\<rparr>)
      else (Inr (take (nat (sp_limit p)) (drop (nat (sp_offset p)) (order_by_score score (candidates eng p w)))),
            w\<lparr>tick := Suc (tick w)\<rparr>))"
  by (simp add: run_search_def exec_def Let_def sql_limit_def throw_def ret_def candidates_def sql_now_def)

lemma run_search_rows:
  assumes "run_search eng p stmt ok score w = (Inr rows, w')"
  shows "rows = take (nat (sp_limit p)) (drop (nat (sp_offset p)) (order_by_score score (candidates eng p w)))"
    and "0 \<le> sp_limit p"
  using assms by (auto simp: run_search_eq split: if_splits)

lemma set_order_by_score [simp]: "set (order_by_score score rows) = set rows"
  by (simp add: order_by_score_def)

lemma run_search_sound:
  assumes "run_search eng p stmt ok score w = (Inr rows, w')" and "r \<in> set rows"
  shows "r \<in> set (candidates eng p w)"
proof -
  have "r \<in> set (order_by_score score (candidates eng p w))"
    using assms(2) unfolding run_search_rows(1) [OF assms(1)] by (meson in_set_dropD in_set_takeD)
  then show ?thesis by simp
qed

lemma hybrid_search_rows:
  assumes "hybrid_search to_string eng p w = (Inr hits, w')"
  obtains stmt ok score rows where "run_search eng p stmt ok score w = (Inr rows, w')"
    and "map hit_item hits = map map_row_brief rows"
    and "sp_embedding p = Some v \<Longrightarrow> score = vector_row_score eng p v"
  using assms unfolding hybrid_search_def
  by (auto split: option.splits if_splits elim!: bindE_InrE simp: ret_def comp_def)

text \<open>
  No search with a query text ever answers.  The condition on the text is
  pushed without its closing parenthesis, so PostgreSQL rejects the statement in all
  three paths, and the caller gets a database error.
\<close>

theorem keyword_search_always_fails:
  assumes "has_keyword p"
  shows "\<exists>w'. hybrid_search to_string eng p w = (Inl (SearchDatabase DbError), w')"
proof -
  have "\<exists>w'. bindE (map_err SearchDatabase (run_search eng p stmt ok score)) f w = (Inl (SearchDatabase DbError), w')"
    if "\<not> pg_accepts stmt" for stmt ok score and f :: "memory_row list \<Rightarrow> (world, search_error, search_result list) op"
    using run_search_rejected [OF that, of eng p ok score w] by (auto simp: bindE_def map_err_def)
  then show ?thesis
    using assms accepted_statements(2) [OF assms] accepted_statements(3) [of to_string p]
    by (auto simp: hybrid_search_def split: option.splits)
qed

definition demo_engine :: search_engine where
  "demo_engine = \<lparr>ts_match = (\<lambda>_ _. False), structured_score = (\<lambda>_. 0), keyword_score = (\<lambda>_ _. 0),
     vector_score = (\<lambda>_ _ _ _. 1)\<rparr>"

lemma trim_refund: "trim ''refund'' = ''refund''"
  by code_simp

lemma keyword_search_always_fails_witness:
  "\<exists>w'. hybrid_search (\<lambda>_. ''1'') demo_engine ((search_params_new ''t'')\<lparr>sp_query_text := Some ''refund''\<rparr>) empty_world
     = (Inl (SearchDatabase DbError), w')"
  by (rule keyword_search_always_fails) (simp add: has_keyword_def trim_refund)

text \<open>
  Which rows a caller may be shown, stated apart from the code's filter: the caller's tenant,
  active, not ended, and what was asked for (PostgreSQL takes \<open>NaN\<close> for the greatest number).
\<close>

definition row_permitted :: "search_params \<Rightarrow> time \<Rightarrow> memory_row \<Rightarrow> bool" where
  "row_permitted p now r \<longleftrightarrow>
     c_tenant_id r = sp_tenant_id p \<and> c_status r = ''active'' \<and>
     (c_valid_to r = None \<or> (\<exists>v. c_valid_to r = Some v \<and> now < v)) \<and>
     (sp_memory_types p = [] \<or> (\<exists>t \<in> set (sp_memory_types p). c_memory_type r = memory_type_as_str t)) \<and>
     (sp_scopes p = [] \<or> (\<exists>sc \<in> set (sp_scopes p). c_scope r = scope_as_str sc)) \<and>
     (sp_subject_id p = None \<or> c_subject_id r = sp_subject_id p) \<and>
     (\<forall>m. sp_min_confidence p = Some m \<longrightarrow> c_confidence r = NaN \<or> f32_ge (c_confidence r) m)"

lemma matches_permitted: "search_matches eng p now r \<Longrightarrow> row_permitted p now r"
  unfolding search_matches_def row_permitted_def pg_ge_def
  by (elim conjE, intro conjI) (simp_all add: image_iff split: option.splits)

text \<open>
  C7 (safety).  Whatever the path, every hit is a stored row whose tenant is the caller's,
  whose status is \<open>active\<close>, whose validity has not ended when the statement runs, and whose
  type, scope, subject and confidence are among those asked for; the hit shows that row's id
  and tenant.  No more hits are returned than the limit, and the table is not changed.
\<close>

theorem search_sound:
  assumes "hybrid_search to_string eng p w = (Inr hits, w')"
  shows "(\<forall>h \<in> set hits. \<exists>r \<in> set (memory_items w). row_permitted p (clock w (Suc (tick w))) r \<and>
            hit_item h = map_row_brief r \<and> mi_memory_id (hit_item h) = c_memory_id r \<and>
            mi_tenant_id (hit_item h) = sp_tenant_id p) \<and>
         int (length hits) \<le> sp_limit p \<and> memory_items w' = memory_items w"
proof -
  obtain stmt ok score rows where ran: "run_search eng p stmt ok score w = (Inr rows, w')"
    and items: "map hit_item hits = map map_row_brief rows"
    using hybrid_search_rows [OF assms] by metis
  have found: "\<exists>r \<in> set (memory_items w). row_permitted p (clock w (Suc (tick w))) r \<and>
      hit_item h = map_row_brief r \<and> mi_memory_id (hit_item h) = c_memory_id r \<and>
      mi_tenant_id (hit_item h) = sp_tenant_id p" if "h \<in> set hits" for h
  proof -
    have "hit_item h \<in> set (map map_row_brief rows)" using that items by (metis image_eqI set_map)
    then obtain r where r: "r \<in> set rows" "hit_item h = map_row_brief r" by auto
    then have "r \<in> set (memory_items w)" "row_permitted p (clock w (Suc (tick w))) r"
      using run_search_sound [OF ran, of r] matches_permitted [of eng p _ r] by (auto simp: candidates_def)
    then show ?thesis using r(2) by (intro bexI [of _ r]) (simp_all add: map_row_brief_def row_permitted_def)
  qed
  moreover have "length hits = length rows" by (metis items length_map)
  moreover have "int (length rows) \<le> sp_limit p" using run_search_rows [OF ran] by simp
  moreover have "memory_items w' = memory_items w" using ran by (auto simp: run_search_eq split: if_splits)
  ultimately show ?thesis by simp
qed

definition demo_rows :: world where
  "demo_rows = empty_world\<lparr>memory_items :=
     [row_of_id ''r1'', (row_of_id ''r2'')\<lparr>c_embedding := Some [f32_one]\<rparr>]\<rparr>"

definition vector_params :: search_params where
  "vector_params = (search_params_new ''t'')\<lparr>sp_embedding := Some [f32_one], sp_limit := 1\<rparr>"

lemma demo_candidates:
  "candidates demo_engine vector_params demo_rows = memory_items demo_rows"
  "candidates demo_engine (search_params_new ''t'') demo_rows = memory_items demo_rows"
  by (simp_all add: candidates_def demo_rows_def search_matches_def vector_params_def search_params_new_def
      has_keyword_def row_of_id_def)

lemma structured_run:
  assumes "sp_embedding p = None" and "\<not> has_keyword p" and "\<not> fails w (tick w)"
    and "0 \<le> sp_limit p" and "0 \<le> sp_offset p"
  shows "hybrid_search to_string eng p w =
     (Inr (map (\<lambda>r. \<lparr>hit_item = map_row_brief r, hit_score = structured_score eng r, hit_matched_by = Structured\<rparr>)
        (take (nat (sp_limit p)) (drop (nat (sp_offset p))
          (order_by_score (\<lambda>r. Some (structured_score eng r)) (candidates eng p w))))),
      w\<lparr>tick := Suc (tick w)\<rparr>)"
  using assms by (simp add: hybrid_search_def run_search_eq accepted_statements bindE_def map_err_def ret_def)

lemma sorted_order_by_score:
  "sorted_wrt (\<lambda>a b. score a \<ge> score b) (order_by_score (\<lambda>r. Some (score r)) rows)"
proof -
  have "sorted (map (\<lambda>r. (1 :: nat, - score r)) (order_by_score (\<lambda>r. Some (score r)) rows))"
    unfolding order_by_score_def by simp
  then show ?thesis unfolding sorted_map by (rule sorted_wrt_mono_rel [rotated]) auto
qed

text \<open>
  A search without text and embedding answers every time the database
  does, with a page of the matching rows in descending order of their scores.
\<close>

theorem structured_search_pages:
  assumes "sp_embedding p = None" and "\<not> has_keyword p" and "\<not> fails w (tick w)"
    and "0 \<le> sp_limit p" and "0 \<le> sp_offset p"
  shows "\<exists>ranked. mset ranked = mset (candidates eng p w) \<and>
     sorted_wrt (\<lambda>a b. structured_score eng a \<ge> structured_score eng b) ranked \<and>
     hybrid_search to_string eng p w =
       (Inr (map (\<lambda>r. \<lparr>hit_item = map_row_brief r, hit_score = structured_score eng r, hit_matched_by = Structured\<rparr>)
          (take (nat (sp_limit p)) (drop (nat (sp_offset p)) ranked))),
        w\<lparr>tick := Suc (tick w)\<rparr>)"
  using structured_run [OF assms] sorted_order_by_score
  by (intro exI [of _ "order_by_score (\<lambda>r. Some (structured_score eng r)) (candidates eng p w)"])
     (simp add: order_by_score_def)

lemma structured_search_pages_witness:
  "\<exists>ranked. mset ranked = mset (memory_items demo_rows) \<and>
     sorted_wrt (\<lambda>a b. structured_score demo_engine a \<ge> structured_score demo_engine b) ranked \<and>
     hybrid_search (\<lambda>_. ''1'') demo_engine (search_params_new ''t'') demo_rows =
       (Inr (map (\<lambda>r. \<lparr>hit_item = map_row_brief r, hit_score = structured_score demo_engine r, hit_matched_by = Structured\<rparr>)
          (take (nat (sp_limit (search_params_new ''t''))) (drop (nat (sp_offset (search_params_new ''t''))) ranked))),
        demo_rows\<lparr>tick := Suc (tick demo_rows)\<rparr>)"
proof -
  have pre: "sp_embedding (search_params_new ''t'') = None" "\<not> has_keyword (search_params_new ''t'')"
    "\<not> fails demo_rows (tick demo_rows)" "0 \<le> sp_limit (search_params_new ''t'')" "0 \<le> sp_offset (search_params_new ''t'')"
    by (simp_all add: search_params_new_def has_keyword_def demo_rows_def empty_world_def)
  show ?thesis by (rule structured_search_pages [OF pre, where eng = demo_engine, unfolded demo_candidates])
qed

text \<open>The rows without embedding come first, because their score is NULL.\<close>

lemma nulls_then_ranked:
  assumes "sorted (map (\<lambda>r. case score r of None \<Rightarrow> (0 :: nat, 0 :: rat) | Some x \<Rightarrow> (1, - x)) rows)"
  shows "rows = filter (\<lambda>r. score r = None) rows @ filter (\<lambda>r. score r \<noteq> None) rows"
  using assms
proof (induction rows)
  case (Cons r rows)
  show ?case
  proof (cases "score r")
    case None
    then show ?thesis using Cons by simp
  next
    case (Some x)
    then have "\<forall>q \<in> set rows. score q \<noteq> None"
      using Cons.prems by (fastforce split: option.splits)
    then show ?thesis using Some by (simp add: filter_id_conv filter_empty_conv)
  qed
qed simp

lemma order_by_score_nulls_first:
  assumes "n \<le> length (filter (\<lambda>r. score r = None) rows)" and "r \<in> set (take n (order_by_score score rows))"
  shows "score r = None"
proof -
  let ?ranked = "order_by_score score rows"
  have split: "?ranked = filter (\<lambda>r. score r = None) ?ranked @ filter (\<lambda>r. score r \<noteq> None) ?ranked"
    by (rule nulls_then_ranked) (simp add: order_by_score_def)
  have "mset (filter (\<lambda>r. score r = None) ?ranked) = mset (filter (\<lambda>r. score r = None) rows)"
    by (simp add: order_by_score_def mset_filter)
  then have "length (filter (\<lambda>r. score r = None) ?ranked) = length (filter (\<lambda>r. score r = None) rows)"
    by (rule mset_eq_length)
  then have "r \<in> set (filter (\<lambda>r. score r = None) ?ranked)"
    using assms split by (metis (no_types, lifting) in_set_takeD take_append diff_is_0_eq take0 append_Nil2)
  then show ?thesis by simp
qed

text \<open>
  A similarity search returns the rows without an embedding before every
  row it can compare: their score is NULL, which a descending order puts first.  When
  as many active rows lack an embedding as the page holds, no embedded row is returned,
  and every hit has score 0.
\<close>

theorem vector_search_prefers_unembedded:
  assumes "sp_embedding p = Some v" and "sp_offset p = 0"
    and "nat (sp_limit p) \<le> length (filter (\<lambda>r. c_embedding r = None) (candidates eng p w))"
    and "hybrid_search to_string eng p w = (Inr hits, w')"
  shows "\<forall>h \<in> set hits. hit_score h = 0 \<and>
     (\<exists>r \<in> set (memory_items w). c_embedding r = None \<and> hit_item h = map_row_brief r)"
proof -
  obtain rows where ran: "run_search eng p (vector_statement to_string p v) (vector_operand_ok v)
        (vector_row_score eng p v) w = (Inr rows, w')"
    and hits: "hits = map (\<lambda>r. \<lparr>hit_item = map_row_brief r, hit_score = score_or_zero (vector_row_score eng p v r),
             hit_matched_by = (if ts_match eng (query_text_or_empty p) r then Hybrid else Vector)\<rparr>) rows"
    using assms(1,4) unfolding hybrid_search_def by (auto simp: ret_def elim!: bindE_InrE)
  have none: "vector_row_score eng p v r = None \<longleftrightarrow> c_embedding r = None" for r
    by (simp add: vector_row_score_def)
  have "c_embedding r = None \<and> r \<in> set (memory_items w)" if "r \<in> set rows" for r
  proof -
    have "r \<in> set (take (nat (sp_limit p)) (order_by_score (vector_row_score eng p v) (candidates eng p w)))"
      using that run_search_rows(1) [OF ran] assms(2) by simp
    then have "vector_row_score eng p v r = None"
      by (rule order_by_score_nulls_first [rotated]) (simp add: none assms(3))
    then show ?thesis using none run_search_sound [OF ran that] by (simp add: candidates_def)
  qed
  moreover from this have "score_or_zero (vector_row_score eng p v r) = 0" if "r \<in> set rows" for r
    using that none [of r] by (simp add: score_or_zero_def)
  ultimately show ?thesis using hits by auto
qed

text \<open>The page holds one row; the embedded row matches too, and is not returned.\<close>

lemma vector_run:
  "hybrid_search (\<lambda>_. ''1'') demo_engine vector_params demo_rows =
     (Inr [\<lparr>hit_item = map_row_brief (row_of_id ''r1''), hit_score = 0, hit_matched_by = Vector\<rparr>],
      demo_rows\<lparr>tick := Suc (tick demo_rows)\<rparr>)"
proof -
  have "order_by_score (vector_row_score demo_engine vector_params [f32_one]) (memory_items demo_rows) = memory_items demo_rows"
    by (simp add: order_by_score_def demo_rows_def vector_row_score_def row_of_id_def)
  moreover have "\<not> has_keyword vector_params" "sp_embedding vector_params = Some [f32_one]"
    "sp_limit vector_params = 1" "sp_offset vector_params = 0"
    by (simp_all add: has_keyword_def vector_params_def search_params_new_def)
  moreover have "vector_operand_ok [f32_one] (memory_items demo_rows)" "\<not> fails demo_rows (tick demo_rows)"
    by (simp_all add: vector_operand_ok_def demo_rows_def row_of_id_def f32_one_def empty_world_def)
  ultimately show ?thesis
    by (simp add: hybrid_search_def run_search_eq demo_candidates accepted_statements bindE_def map_err_def ret_def)
       (simp add: demo_rows_def vector_row_score_def row_of_id_def score_or_zero_def demo_engine_def)
qed

lemma search_sound_witness:
  "\<exists>r \<in> set (memory_items demo_rows). row_permitted vector_params (clock demo_rows (Suc (tick demo_rows))) r \<and>
     map_row_brief (row_of_id ''r1'') = map_row_brief r"
  using search_sound [OF vector_run] by (simp only: list.set ball_simps search_result.simps) blast

lemma vector_search_prefers_unembedded_witness:
  "\<exists>r \<in> set (memory_items demo_rows). c_embedding r = None \<and> map_row_brief (row_of_id ''r1'') = map_row_brief r"
proof -
  have pre: "sp_embedding vector_params = Some [f32_one]" "sp_offset vector_params = 0"
    "nat (sp_limit vector_params) \<le> length (filter (\<lambda>r. c_embedding r = None)
      (candidates demo_engine vector_params demo_rows))"
    unfolding demo_candidates by (simp_all add: vector_params_def search_params_new_def demo_rows_def row_of_id_def)
  show ?thesis
    using vector_search_prefers_unembedded [OF pre vector_run]
    by (simp only: list.set ball_simps search_result.simps)
qed

text \<open>
  A hit does not carry the provenance of its row: whatever the source,
  the evidence and the derivation stored with the memory, the item says that an agent
  inferred it from nothing.
\<close>

theorem hits_lose_provenance:
  assumes "hybrid_search to_string eng p w = (Inr hits, w')" and "h \<in> set hits"
  shows "mi_source_type (hit_item h) = AgentInferred \<and> mi_evidence_refs (hit_item h) = [] \<and>
     mi_derived_from (hit_item h) = [] \<and> mi_entity_refs (hit_item h) = []"
proof -
  obtain stmt ok score rows where "map hit_item hits = map map_row_brief rows"
    using hybrid_search_rows [OF assms(1)] by metis
  then have "hit_item h \<in> map_row_brief ` set rows" using assms(2) by (metis image_eqI set_map)
  then show ?thesis by (auto simp: map_row_brief_def)
qed

lemma hits_lose_provenance_witness:
  "mi_source_type (map_row_brief (row_of_id ''r1'')) = AgentInferred \<and> c_source_type (row_of_id ''r1'') = ''user_explicit''"
  using hits_lose_provenance [OF vector_run, of "\<lparr>hit_item = map_row_brief (row_of_id ''r1''), hit_score = 0, hit_matched_by = Vector\<rparr>"]
  by (simp add: row_of_id_def)

end
