(* ===== verification/Assembler.thy ===== *)
theory Assembler
  imports Search Router SharedTask CanonicalUser Identity
begin

text \<open>
  \<open>context_assembler.rs\<close>: the context of a language model is collected from up to six sources,
  each under the latency budget of the plan, and packed into the token budget.  A source is
  a function from its arguments to a call that replies after some milliseconds or hangs.
  The lemmas show that the text never exceeds the budget, which sources are reported as
  degraded, what is kept when the text is compressed, and that with the production search
  behind it an assembly for a query with text always lacks its search sources.
\<close>

section \<open>Types\<close>

text \<open>\<open>AssemblerPanic\<close> stands for a panic that unwinds out of the call.\<close>

datatype assembler_error = SourceError string | SerializationError | AssemblerPanic

datatype context_source =
    FromIdentity | FromCanonicalUser | FromSharedTask | FromAgentPrivate | FromEnterpriseMemory
  | FromHotContext | FromBusinessState | FromStructuredSearch | FromVectorSearch | FromGraphSearch

record assembler_conflict_flag =
  cf_field :: string
  cf_description :: string
  cf_conflicting_values :: "string list"

record assembled_context =
  ac_context_text :: string
  ac_token_count :: nat
  ac_compressed :: bool
  ac_conflict_flags :: "assembler_conflict_flag list"
  ac_low_confidence_items :: "string list"
  ac_sources_used :: "context_source list"
  ac_degraded_sources :: "context_source list"

record context_segment =
  sg_text :: string
  sg_source :: context_source
  sg_priority :: nat
  sg_authority :: authority_level
  sg_confidence :: f32
  sg_status :: "memory_status option"
  sg_field :: "string option"
  sg_section :: string

record 'a fetch_outcome =
  fo_data :: "'a option"
  fo_degraded :: bool

definition outcome_ok :: "'a \<Rightarrow> 'a fetch_outcome" where
  "outcome_ok x = \<lparr>fo_data = Some x, fo_degraded = False\<rparr>"

definition outcome_empty :: "'a fetch_outcome" where
  "outcome_empty = \<lparr>fo_data = None, fo_degraded = False\<rparr>"

definition outcome_degraded :: "'a fetch_outcome" where
  "outcome_degraded = \<lparr>fo_data = None, fo_degraded = True\<rparr>"

text \<open>
  The future of a source: ready with its result after a number of milliseconds, or never.
  \<open>tokio::time::timeout\<close> polls the future before its timer.
\<close>

datatype 'a source_call = Replies nat "assembler_error + 'a" | Hangs

fun timeout :: "64 word \<Rightarrow> 'a source_call \<Rightarrow> (assembler_error + 'a) option" where
  "timeout latency (Replies t r) = (if t \<le> unat latency then Some r else None)"
| "timeout latency Hangs = None"

fun map_call :: "('a \<Rightarrow> 'b) \<Rightarrow> 'a source_call \<Rightarrow> 'b source_call" where
  "map_call f (Replies t (Inr x)) = Replies t (Inr (f x))"
| "map_call f (Replies t (Inl e)) = Replies t (Inl e)"
| "map_call f Hangs = Hangs"

type_synonym hot_source = "string \<Rightarrow> string \<Rightarrow> string option source_call"
type_synonym memory_source = "string \<Rightarrow> memory_status option \<Rightarrow> int \<Rightarrow> int \<Rightarrow> memory_item list source_call"
type_synonym search_source = "search_params \<Rightarrow> search_result list source_call"
type_synonym user_source = "string \<Rightarrow> canonical_user_profile option source_call"
type_synonym task_source = "uuid \<Rightarrow> shared_task_context option source_call"

record context_assembler =
  ca_hot_context :: "hot_source option"
  ca_memory :: "memory_source option"
  ca_search :: "search_source option"
  ca_canonical_user :: "user_source option"
  ca_shared_task :: "task_source option"
  ca_default_token_budget :: "64 word"

definition LOW_CONFIDENCE_THRESHOLD :: f32 where
  "LOW_CONFIDENCE_THRESHOLD = f32_0_7"

definition DEFAULT_TOKEN_BUDGET :: "64 word" where
  "DEFAULT_TOKEN_BUDGET = 4096"

definition CHARS_PER_TOKEN :: nat where
  "CHARS_PER_TOKEN = 4"

definition context_assembler_default :: context_assembler where
  "context_assembler_default = \<lparr>ca_hot_context = None, ca_memory = None, ca_search = None,
     ca_canonical_user = None, ca_shared_task = None, ca_default_token_budget = DEFAULT_TOKEN_BUDGET\<rparr>"

definition with_default_token_budget :: "context_assembler \<Rightarrow> 64 word \<Rightarrow> context_assembler" where
  "with_default_token_budget a b = a\<lparr>ca_default_token_budget := b\<rparr>"

definition with_hot_source :: "context_assembler \<Rightarrow> hot_source \<Rightarrow> context_assembler" where
  "with_hot_source a src = a\<lparr>ca_hot_context := Some src\<rparr>"

definition with_memory :: "context_assembler \<Rightarrow> memory_source \<Rightarrow> context_assembler" where
  "with_memory a src = a\<lparr>ca_memory := Some src\<rparr>"

definition with_search :: "context_assembler \<Rightarrow> search_source \<Rightarrow> context_assembler" where
  "with_search a src = a\<lparr>ca_search := Some src\<rparr>"

definition with_canonical_user :: "context_assembler \<Rightarrow> user_source \<Rightarrow> context_assembler" where
  "with_canonical_user a src = a\<lparr>ca_canonical_user := Some src\<rparr>"

definition with_shared_task :: "context_assembler \<Rightarrow> task_source \<Rightarrow> context_assembler" where
  "with_shared_task a src = a\<lparr>ca_shared_task := Some src\<rparr>"

section \<open>Fetching\<close>

text \<open>The three answers of a source under its timeout: data, no data, degraded.\<close>

definition outcome_of_option :: "(assembler_error + 'a option) option \<Rightarrow> 'a fetch_outcome" where
  "outcome_of_option r =
     (case r of
        Some (Inr (Some x)) \<Rightarrow> outcome_ok x
      | Some (Inr None) \<Rightarrow> outcome_empty
      | Some (Inl e) \<Rightarrow> outcome_degraded
      | None \<Rightarrow> outcome_degraded)"

definition outcome_of_list :: "(assembler_error + 'a list) option \<Rightarrow> 'a list fetch_outcome" where
  "outcome_of_list r =
     (case r of Some (Inr xs) \<Rightarrow> outcome_ok xs | Some (Inl e) \<Rightarrow> outcome_degraded | None \<Rightarrow> outcome_degraded)"

definition fetch_hot :: "hot_source option \<Rightarrow> bool \<Rightarrow> string \<Rightarrow> string \<Rightarrow> 64 word \<Rightarrow> string fetch_outcome" where
  "fetch_hot src enabled tenant user latency =
     (if \<not> enabled then outcome_empty
      else case src of
             None \<Rightarrow> outcome_degraded
           | Some get \<Rightarrow> outcome_of_option (timeout latency (get tenant user)))"

definition fetch_canonical :: "user_source option \<Rightarrow> bool \<Rightarrow> string \<Rightarrow> 64 word \<Rightarrow> canonical_user_profile fetch_outcome" where
  "fetch_canonical src enabled user latency =
     (if \<not> enabled then outcome_empty
      else case src of
             None \<Rightarrow> outcome_degraded
           | Some get \<Rightarrow> outcome_of_option (timeout latency (get user)))"

definition fetch_shared_task :: "task_source option \<Rightarrow> bool \<Rightarrow> uuid option \<Rightarrow> 64 word \<Rightarrow> shared_task_context fetch_outcome" where
  "fetch_shared_task src enabled task_id latency =
     (if \<not> enabled then outcome_empty
      else case task_id of
             None \<Rightarrow> outcome_degraded
           | Some i \<Rightarrow>
               (case src of
                  None \<Rightarrow> outcome_degraded
                | Some get \<Rightarrow> outcome_of_option (timeout latency (get i))))"

definition fetch_agent_private ::
  "memory_source option \<Rightarrow> request_intent \<Rightarrow> string option \<Rightarrow> string \<Rightarrow> 64 word \<Rightarrow> memory_item list fetch_outcome" where
  "fetch_agent_private src intent agent_id tenant latency =
     (case agent_id of
        None \<Rightarrow> outcome_empty
      | Some agent \<Rightarrow>
          if agent = [] then outcome_empty
          else if intent = Chat then outcome_empty
          else case src of
                 None \<Rightarrow> outcome_degraded
               | Some list_by_tenant \<Rightarrow>
                   outcome_of_list (timeout latency
                     (map_call (filter (\<lambda>i. mi_subject_id i = Some agent)) (list_by_tenant tenant (Some Active) 50 0))))"

definition enterprise_params :: "string \<Rightarrow> string \<Rightarrow> string \<Rightarrow> search_params" where
  "enterprise_params tenant user query =
     (search_params_new tenant)\<lparr>sp_query_text := Some query, sp_subject_id := Some user, sp_limit := 20\<rparr>"

definition fetch_enterprise ::
  "search_source option \<Rightarrow> bool \<Rightarrow> bool \<Rightarrow> string \<Rightarrow> string \<Rightarrow> string \<Rightarrow> 64 word \<Rightarrow> search_result list fetch_outcome" where
  "fetch_enterprise src vector_enabled graph_enabled tenant user query latency =
     (if \<not> vector_enabled \<and> \<not> graph_enabled then outcome_empty
      else case src of
             None \<Rightarrow> outcome_degraded
           | Some search \<Rightarrow> outcome_of_list (timeout latency (search (enterprise_params tenant user query))))"

definition business_params :: "string \<Rightarrow> string \<Rightarrow> search_params" where
  "business_params tenant query = (search_params_new tenant)\<lparr>sp_query_text := Some query, sp_limit := 10\<rparr>"

definition fetch_business_state ::
  "search_source option \<Rightarrow> bool \<Rightarrow> string \<Rightarrow> string \<Rightarrow> 64 word \<Rightarrow> search_result list fetch_outcome" where
  "fetch_business_state src enabled tenant query latency =
     (if \<not> enabled then outcome_empty
      else case src of
             None \<Rightarrow> outcome_degraded
           | Some search \<Rightarrow> outcome_of_list (timeout latency
               (map_call (filter (\<lambda>r. hit_matched_by r = Structured \<or> hit_matched_by r = Hybrid))
                  (search (business_params tenant query)))))"

section \<open>Segments\<close>

definition identity_segment :: "string \<Rightarrow> string \<Rightarrow> context_segment" where
  "identity_segment text field = \<lparr>sg_text = text, sg_source = FromIdentity, sg_priority = 100,
     sg_authority = L1Authoritative, sg_confidence = f32_one, sg_status = None, sg_field = Some field,
     sg_section = ''Identity''\<rparr>"

definition build_identity_segments :: "resolved_identity \<Rightarrow> context_segment list" where
  "build_identity_segments identity =
     [identity_segment (''User: '' @ ri_user_id identity @ '', Tenant: '' @ ri_organization_id identity @
        '', Roles: '' @ join '', '' (ri_roles identity)) ''identity''] @
     (case ri_factory_id identity of None \<Rightarrow> []
      | Some factory \<Rightarrow> [identity_segment (''Factory: '' @ factory) ''factory_id'']) @
     (case ri_delegated_agent_id identity of None \<Rightarrow> []
      | Some agent \<Rightarrow> [identity_segment (''Delegated Agent: '' @ agent) ''delegated_agent''])"

definition user_segment :: "canonical_user_profile \<Rightarrow> nat \<Rightarrow> string \<Rightarrow> string \<Rightarrow> context_segment" where
  "user_segment profile priority text field = \<lparr>sg_text = text, sg_source = FromCanonicalUser,
     sg_priority = priority, sg_authority = cu_authority_level profile, sg_confidence = f32_one,
     sg_status = None, sg_field = Some field, sg_section = ''Canonical User''\<rparr>"

definition build_canonical_user_segments :: "json_text \<Rightarrow> canonical_user_profile \<Rightarrow> context_segment list" where
  "build_canonical_user_segments to_string profile =
     (case cu_role profile of None \<Rightarrow> [] | Some v \<Rightarrow> [user_segment profile 90 (''Role: '' @ v) ''role'']) @
     (case cu_position profile of None \<Rightarrow> [] | Some v \<Rightarrow> [user_segment profile 88 (''Position: '' @ v) ''position'']) @
     (case cu_language profile of None \<Rightarrow> [] | Some v \<Rightarrow> [user_segment profile 82 (''Language: '' @ v) ''language'']) @
     (case cu_timezone profile of None \<Rightarrow> [] | Some v \<Rightarrow> [user_segment profile 82 (''Timezone: '' @ v) ''timezone'']) @
     (if cu_preferences profile = JNull then []
      else [user_segment profile 70 (''Preferences: '' @ to_string (cu_preferences profile)) ''preferences''])"

definition task_segment :: "nat \<Rightarrow> authority_level \<Rightarrow> f32 \<Rightarrow> string \<Rightarrow> string \<Rightarrow> context_segment" where
  "task_segment priority authority confidence text field = \<lparr>sg_text = text, sg_source = FromSharedTask,
     sg_priority = priority, sg_authority = authority, sg_confidence = confidence, sg_status = None,
     sg_field = Some field, sg_section = ''Shared Task''\<rparr>"

definition build_shared_task_segments :: "json_text \<Rightarrow> shared_task_context \<Rightarrow> context_segment list" where
  "build_shared_task_segments to_string task =
     [task_segment 88 L1Authoritative f32_one (''Task Goal: '' @ st_goal task) ''task_goal''] @
     (case st_current_owner_agent task of None \<Rightarrow> []
      | Some owner \<Rightarrow> [task_segment 86 L1Authoritative f32_one (''Current Owner: '' @ owner) ''task_owner'']) @
     (if st_current_findings task = [] then []
      else [task_segment 78 L2Verified f32_0_9
              (''Findings: '' @ join ''; '' (map to_string (st_current_findings task))) ''task_findings'']) @
     (if st_decisions task = [] then []
      else [task_segment 76 L2Verified f32_0_9
              (''Decisions: '' @ join ''; '' (map to_string (st_decisions task))) ''task_decisions''])"

definition memory_priority :: "context_source \<Rightarrow> nat" where
  "memory_priority source =
     (case source of FromAgentPrivate \<Rightarrow> 75 | FromEnterpriseMemory \<Rightarrow> 60 | FromBusinessState \<Rightarrow> 55 | _ \<Rightarrow> 60)"

definition memory_item_to_segment :: "json_text \<Rightarrow> memory_item \<Rightarrow> context_source \<Rightarrow> string \<Rightarrow> context_segment" where
  "memory_item_to_segment to_string item source section = \<lparr>
     sg_text = (case mi_content item of
        Some c \<Rightarrow> c
      | None \<Rightarrow> (case mi_structured_payload item of Some p \<Rightarrow> to_string p | None \<Rightarrow> [])),
     sg_source = source, sg_priority = memory_priority source, sg_authority = mi_authority_level item,
     sg_confidence = mi_confidence item, sg_status = Some (mi_status item), sg_field = mi_subject_id item,
     sg_section = section\<rparr>"

definition build_memory_segments :: "json_text \<Rightarrow> memory_item list \<Rightarrow> context_source \<Rightarrow> string \<Rightarrow> context_segment list" where
  "build_memory_segments to_string items source section =
     map (\<lambda>item. memory_item_to_segment to_string item source section) items"

definition build_search_result_segments ::
  "json_text \<Rightarrow> search_result list \<Rightarrow> context_source \<Rightarrow> string \<Rightarrow> context_segment list" where
  "build_search_result_segments to_string results source section =
     map (\<lambda>r. memory_item_to_segment to_string (hit_item r) source section) results"

definition hot_segment :: "string \<Rightarrow> context_segment" where
  "hot_segment data = \<lparr>sg_text = data, sg_source = FromHotContext, sg_priority = 80,
     sg_authority = L2Verified, sg_confidence = f32_0_85, sg_status = None, sg_field = None,
     sg_section = ''Hot Context''\<rparr>"

section \<open>Conflicts\<close>

text \<open>
  The groups are kept in a hash map, so the order in which the flags come out is the order of
  its iteration, a parameter.
\<close>

definition field_group :: "context_segment list \<Rightarrow> string \<Rightarrow> context_segment list" where
  "field_group segments field = filter (\<lambda>s. sg_field s = Some field) segments"

definition by_rank :: "context_segment list \<Rightarrow> context_segment list" where
  "by_rank members = sort_by (\<lambda>a b. cmp (authority_rank (sg_authority b)) (authority_rank (sg_authority a))) members"

definition group_flag :: "string \<Rightarrow> context_segment list \<Rightarrow> assembler_conflict_flag option" where
  "group_flag field members =
     (if length members < 2 then None
      else if length (remdups (map sg_source members)) < 2 then None
      else case by_rank members of
             [] \<Rightarrow> None
           | winner # rest \<Rightarrow>
               let conflicting = map sg_text (filter (\<lambda>s. sg_text s \<noteq> sg_text winner) rest) in
               if conflicting = [] then None
               else Some \<lparr>cf_field = field,
                 cf_description = ''Authority '' @ authority_level_as_str (sg_authority winner) @ '' overrides '' @
                   show_nat (length conflicting) @ '' lower-authority value(s)'',
                 cf_conflicting_values = conflicting\<rparr>)"

type_synonym hash_order = "string list \<Rightarrow> string list"

definition detect_conflicts :: "hash_order \<Rightarrow> context_segment list \<Rightarrow> assembler_conflict_flag list" where
  "detect_conflicts order segments =
     List.map_filter (\<lambda>field. group_flag field (field_group segments field))
       (order (remdups (List.map_filter sg_field segments)))"

section \<open>The token budget\<close>

definition estimate_tokens :: "string \<Rightarrow> nat" where
  "estimate_tokens text = length text div CHARS_PER_TOKEN"

definition resolve_budget :: "64 word \<Rightarrow> 64 word \<Rightarrow> 64 word" where
  "resolve_budget plan_budget default_budget = (if plan_budget = 0 then default_budget else plan_budget)"

fun f32_partial_cmp :: "f32 \<Rightarrow> f32 \<Rightarrow> ordering option" where
  "f32_partial_cmp NaN _ = None"
| "f32_partial_cmp _ NaN = None"
| "f32_partial_cmp a b = Some (if f32_lt a b then Less else if f32_lt b a then Greater else Equal)"

text \<open>The comparator of the greedy selection; with a \<open>NaN\<close> confidence it need not be transitive.\<close>

definition compare_segments :: "context_segment \<Rightarrow> context_segment \<Rightarrow> ordering" where
  "compare_segments a b =
     ord_then (cmp (sg_priority b) (sg_priority a))
    (ord_then (cmp (authority_rank (sg_authority b)) (authority_rank (sg_authority a)))
              (case f32_partial_cmp (sg_confidence b) (sg_confidence a) of Some c \<Rightarrow> c | None \<Rightarrow> Equal))"

text \<open>
  \<open>slice::sort_by\<close> promises the stable order only for a comparator that is a total order on the
  elements; otherwise it leaves some order of them, or panics.  What it does then is a field of
  the library parameter, \<open>None\<close> the panic.
\<close>

record std_library =
  sl_hash_order :: hash_order
  sl_unordered_sort :: "context_segment list \<Rightarrow> nat list option"

definition orderable :: "context_segment list \<Rightarrow> bool" where
  "orderable segments \<longleftrightarrow> list_all (\<lambda>a. list_all (\<lambda>b. list_all (\<lambda>c.
     compare_segments a b \<noteq> Greater \<and> compare_segments b c \<noteq> Greater \<longrightarrow> compare_segments a c \<noteq> Greater)
     segments) segments) segments"

definition priority_order :: "std_library \<Rightarrow> context_segment list \<Rightarrow> nat list option" where
  "priority_order lib segments =
     (if orderable segments
      then Some (sort_by (\<lambda>a b. compare_segments (segments ! a) (segments ! b)) [0..<length segments])
      else sl_unordered_sort lib segments)"

record selection =
  se_selected :: "nat list"
  se_total_chars :: nat
  se_compressed :: bool
  se_seen_sections :: "string list"

definition segment_cost :: "string list \<Rightarrow> context_segment \<Rightarrow> nat" where
  "segment_cost seen seg =
     (if sg_section seg \<notin> set seen then length (sg_section seg) + 6 else 0) + (length (sg_text seg) + 1)"

definition select_step :: "context_segment list \<Rightarrow> nat \<Rightarrow> selection \<Rightarrow> nat \<Rightarrow> selection" where
  "select_step segments char_budget st idx =
     (let seg = segments ! idx; cost = segment_cost (se_seen_sections st) seg in
      if se_total_chars st + cost > char_budget then st\<lparr>se_compressed := True\<rparr>
      else st\<lparr>se_total_chars := se_total_chars st + cost,
              se_seen_sections := List.insert (sg_section seg) (se_seen_sections st),
              se_selected := se_selected st @ [idx]\<rparr>)"

definition empty_selection :: selection where
  "empty_selection = \<lparr>se_selected = [], se_total_chars = 0, se_compressed = False, se_seen_sections = []\<rparr>"

definition select_segments :: "context_segment list \<Rightarrow> nat \<Rightarrow> nat list \<Rightarrow> selection" where
  "select_segments segments char_budget order = foldl (select_step segments char_budget) empty_selection order"

definition render_step :: "string \<times> string \<Rightarrow> context_segment \<Rightarrow> string \<times> string" where
  "render_step st seg =
     (let (text, current_section) = st;
          text' = (if sg_section seg \<noteq> current_section
                   then (if text \<noteq> [] then text @ [CHR 0x0A] else text) @ ''## '' @ sg_section seg @ [CHR 0x0A]
                   else text)
      in (text' @ sg_text seg @ [CHR 0x0A], sg_section seg))"

text \<open>
  After a header is written \<open>current_section\<close> is the section of the segment; without one it
  already was, so the step always leaves the section of its segment.
\<close>

definition render_segments :: "context_segment list \<Rightarrow> string" where
  "render_segments segs = fst (foldl render_step ([], []) segs)"

definition char_budget_of :: "64 word \<Rightarrow> nat" where
  "char_budget_of budget = min (unat budget * CHARS_PER_TOKEN) (2 ^ 64 - 1)"

definition assemble_within_budget :: "std_library \<Rightarrow> context_segment list \<Rightarrow> 64 word \<Rightarrow> (string \<times> nat \<times> bool) option" where
  "assemble_within_budget lib segments budget =
     (if segments = [] then Some ([], 0, False)
      else map_option (\<lambda>order.
             let sel = select_segments segments (char_budget_of budget) order;
                 text = render_segments (map ((!) segments) (sort (se_selected sel)))
             in (text, estimate_tokens text, se_compressed sel))
           (priority_order lib segments))"

section \<open>\<open>assemble\<close>\<close>

text \<open>The prefix of unverified items, in UTF-8.\<close>

definition unverified_prefix :: string where
  "unverified_prefix = ''['' @ [CHR 0xE5, CHR 0xBE, CHR 0x85, CHR 0xE9, CHR 0xAA, CHR 0x8C, CHR 0xE8, CHR 0xAF, CHR 0x81] @ ''] ''"

definition is_low_confidence :: "context_segment \<Rightarrow> bool" where
  "is_low_confidence seg \<longleftrightarrow> f32_lt (sg_confidence seg) LOW_CONFIDENCE_THRESHOLD \<or> sg_status seg = Some Candidate"

definition mark_segment :: "context_segment \<Rightarrow> context_segment" where
  "mark_segment seg = (if is_low_confidence seg then seg\<lparr>sg_text := unverified_prefix @ sg_text seg\<rparr> else seg)"

definition used_if :: "bool \<Rightarrow> context_source \<Rightarrow> context_source list" where
  "used_if b source = (if b then [source] else [])"

definition data_segments :: "('a \<Rightarrow> context_segment list) \<Rightarrow> 'a fetch_outcome \<Rightarrow> context_segment list" where
  "data_segments build fetched = (case fo_data fetched of Some x \<Rightarrow> build x | None \<Rightarrow> [])"

definition build_hot_segments :: "string \<Rightarrow> context_segment list" where
  "build_hot_segments data = (if data \<noteq> [] then [hot_segment data] else [])"

definition assemble :: "json_text \<Rightarrow> std_library \<Rightarrow> context_assembler \<Rightarrow> routing_plan \<Rightarrow> resolved_identity \<Rightarrow>
    string \<Rightarrow> uuid option \<Rightarrow> assembler_error + assembled_context" where
  "assemble to_string lib a plan identity query task_id =
     (let budget = resolve_budget (pl_token_budget plan) (ca_default_token_budget a);
          latency = pl_latency_budget_ms plan;
          tenant = ri_organization_id identity;
          user = ri_user_id identity;
          hot = fetch_hot (ca_hot_context a) (pl_hot_context plan) tenant user latency;
          canon = fetch_canonical (ca_canonical_user a) (pl_canonical_user plan) user latency;
          task = fetch_shared_task (ca_shared_task a) (pl_shared_task plan) task_id latency;
          agent = fetch_agent_private (ca_memory a) (pl_intent plan) (ri_delegated_agent_id identity) tenant latency;
          enterprise = fetch_enterprise (ca_search a) (pl_vector_search plan) (pl_graph_search plan) tenant user query latency;
          business = fetch_business_state (ca_search a) (pl_structured_search plan) tenant query latency;
          hot_segs = data_segments build_hot_segments hot;
          canon_segs = data_segments (build_canonical_user_segments to_string) canon;
          task_segs = data_segments (build_shared_task_segments to_string) task;
          agent_segs = data_segments (\<lambda>items. build_memory_segments to_string items FromAgentPrivate ''Agent Private Memory'') agent;
          enterprise_segs = data_segments (\<lambda>rs. build_search_result_segments to_string rs FromEnterpriseMemory ''Enterprise Memory'') enterprise;
          business_segs = data_segments (\<lambda>rs. build_search_result_segments to_string rs FromBusinessState ''Business State'') business;
          segments = build_identity_segments identity @ hot_segs @ canon_segs @ task_segs @ agent_segs @ enterprise_segs @ business_segs;
          marked = map mark_segment segments
      in case assemble_within_budget lib marked budget of None \<Rightarrow> Inl AssemblerPanic | Some (text, tokens, compressed) \<Rightarrow> Inr \<lparr>
        ac_context_text = text, ac_token_count = tokens, ac_compressed = compressed,
        ac_conflict_flags = detect_conflicts (sl_hash_order lib) segments,
        ac_low_confidence_items = map sg_text (filter is_low_confidence marked),
        ac_sources_used = [FromIdentity] @ used_if (hot_segs \<noteq> []) FromHotContext @
          used_if (canon_segs \<noteq> []) FromCanonicalUser @ used_if (task_segs \<noteq> []) FromSharedTask @
          used_if (agent_segs \<noteq> []) FromAgentPrivate @ used_if (enterprise_segs \<noteq> []) FromEnterpriseMemory @
          used_if (business_segs \<noteq> []) FromBusinessState,
        ac_degraded_sources = used_if (fo_degraded hot) FromHotContext @ used_if (fo_degraded canon) FromCanonicalUser @
          used_if (fo_degraded task) FromSharedTask @ used_if (fo_degraded agent) FromAgentPrivate @
          used_if (fo_degraded enterprise) FromEnterpriseMemory @ used_if (fo_degraded business) FromBusinessState\<rparr>)"

section \<open>The text fits the budget\<close>

text \<open>The headers a rendering writes, and the bound they give on its length.\<close>

fun headers :: "string \<Rightarrow> context_segment list \<Rightarrow> string list" where
  "headers cur [] = []"
| "headers cur (s # ss) =
     (if sg_section s = cur then headers cur ss else sg_section s # headers (sg_section s) ss)"

definition body_chars :: "context_segment list \<Rightarrow> nat" where
  "body_chars segs = sum_list (map (\<lambda>s. length (sg_text s) + 1) segs)"

definition header_chars :: "string list \<Rightarrow> nat" where
  "header_chars hs = sum_list (map (\<lambda>h. length h + 6) hs)"

lemma length_render:
  "length (fst (foldl render_step (t, cur) segs)) \<le> length t + body_chars segs + header_chars (headers cur segs)"
proof (induction segs arbitrary: t cur)
  case (Cons s ss)
  obtain t' where step: "render_step (t, cur) s = (t', sg_section s)"
    and len: "length t' \<le> length t + (length (sg_text s) + 1) +
       (if sg_section s = cur then 0 else length (sg_section s) + 6)"
    by (auto simp: render_step_def)
  show ?case using Cons.IH [of t' "sg_section s"] step len
    by (auto simp: body_chars_def header_chars_def)
qed (simp add: body_chars_def header_chars_def)

definition section_rank :: "string \<Rightarrow> nat" where
  "section_rank s =
     (if s = ''Identity'' then 1 else if s = ''Hot Context'' then 2 else if s = ''Canonical User'' then 3
      else if s = ''Shared Task'' then 4 else if s = ''Agent Private Memory'' then 5
      else if s = ''Enterprise Memory'' then 6 else if s = ''Business State'' then 7 else 0)"

lemma section_rank_inj: "section_rank a = section_rank b \<Longrightarrow> 0 < section_rank a \<Longrightarrow> a = b"
  by (auto simp: section_rank_def split: if_splits)

text \<open>The segments come section by section.\<close>

definition in_sections :: "context_segment list \<Rightarrow> bool" where
  "in_sections segs \<longleftrightarrow> (\<forall>s \<in> set segs. 0 < section_rank (sg_section s)) \<and>
     sorted (map (\<lambda>s. section_rank (sg_section s)) segs)"

lemma headers_distinct:
  assumes "in_sections segs" and "\<forall>s \<in> set segs. section_rank cur \<le> section_rank (sg_section s)"
  shows "distinct (headers cur segs) \<and> set (headers cur segs) \<subseteq> sg_section ` set segs \<and>
     (\<forall>h \<in> set (headers cur segs). section_rank cur < section_rank h)"
  using assms
proof (induction segs arbitrary: cur)
  case (Cons s ss)
  have secs: "in_sections ss" using Cons.prems(1) by (simp add: in_sections_def)
  have above: "\<forall>x \<in> set ss. section_rank (sg_section s) \<le> section_rank (sg_section x)"
    using Cons.prems(1) by (simp add: in_sections_def)
  show ?case
  proof (cases "sg_section s = cur")
    case True
    then show ?thesis using Cons.IH [OF secs] above by auto
  next
    case False
    have "section_rank cur \<noteq> section_rank (sg_section s)"
      using False section_rank_inj Cons.prems(1) by (metis in_sections_def list.set_intros(1))
    then have "section_rank cur < section_rank (sg_section s)" using Cons.prems(2) by (simp add: le_less)
    then show ?thesis using Cons.IH [OF secs above] False by fastforce
  qed
qed simp

lemma header_chars_mono:
  assumes "distinct hs" and "distinct seen" and "set hs \<subseteq> set seen"
  shows "header_chars hs \<le> header_chars seen"
  unfolding header_chars_def
  by (simp add: sum_list_distinct_conv_sum_set assms sum_mono2)

text \<open>What the greedy loop keeps, whatever the order of the indices.\<close>

definition selection_ok :: "context_segment list \<Rightarrow> nat \<Rightarrow> selection \<Rightarrow> bool" where
  "selection_ok segments char_budget st \<longleftrightarrow>
     se_total_chars st = body_chars (map ((!) segments) (se_selected st)) + header_chars (se_seen_sections st) \<and>
     distinct (se_seen_sections st) \<and>
     set (se_seen_sections st) = (\<lambda>i. sg_section (segments ! i)) ` set (se_selected st) \<and>
     se_total_chars st \<le> char_budget"

lemma selection_ok_step:
  "selection_ok segments char_budget st \<Longrightarrow> selection_ok segments char_budget (select_step segments char_budget st i)"
  by (auto simp: selection_ok_def select_step_def Let_def segment_cost_def body_chars_def header_chars_def
      List.insert_def insert_absorb)

lemma selection_ok_select: "selection_ok segments char_budget (select_segments segments char_budget order)"
proof -
  have "selection_ok segments char_budget st \<Longrightarrow>
      selection_ok segments char_budget (foldl (select_step segments char_budget) st order)" for st
    by (induction order arbitrary: st) (simp_all add: selection_ok_step)
  moreover have "selection_ok segments char_budget empty_selection"
    by (simp add: selection_ok_def empty_selection_def body_chars_def header_chars_def)
  ultimately show ?thesis unfolding select_segments_def by blast
qed

lemma selected_indices: "set (se_selected (select_segments segments char_budget order)) \<subseteq> set order"
proof -
  have "set (se_selected (foldl (select_step segments char_budget) st order)) \<subseteq> set (se_selected st) \<union> set order" for st
  proof (induction order arbitrary: st)
    case (Cons i order)
    have "set (se_selected (select_step segments char_budget st i)) \<subseteq> insert i (set (se_selected st))"
      by (auto simp: select_step_def Let_def)
    then show ?case using Cons.IH [of "select_step segments char_budget st i"] by auto
  qed simp
  from this [of empty_selection] show ?thesis by (simp add: select_segments_def empty_selection_def)
qed

lemma in_sections_pick:
  assumes "in_sections segs" and "sorted is" and "set is \<subseteq> {..<length segs}"
  shows "in_sections (map ((!) segs) is)"
proof -
  have mono: "section_rank (sg_section (segs ! i)) \<le> section_rank (sg_section (segs ! j))"
    if "i \<le> j" "j < length segs" for i j
    using assms(1) that sorted_nth_mono [of "map (\<lambda>s. section_rank (sg_section s)) segs" i j]
    by (simp add: in_sections_def)
  have "sorted_wrt (\<lambda>i j. section_rank (sg_section (segs ! i)) \<le> section_rank (sg_section (segs ! j))) is"
    by (rule sorted_wrt_mono_rel [OF _ assms(2)]) (use assms(3) mono in auto)
  then show ?thesis
    using assms(1,3) nth_mem by (simp add: in_sections_def sorted_map comp_def subset_iff)
qed

lemma body_chars_sort: "body_chars (map f (sort is)) = body_chars (map f is)"
  by (simp only: body_chars_def map_map flip: sum_mset_sum_list) simp

lemma render_selected_length:
  assumes "in_sections segments" and "set order \<subseteq> {..<length segments}"
  shows "length (render_segments (map ((!) segments) (sort (se_selected (select_segments segments char_budget order)))))
     \<le> char_budget"
proof -
  let ?sel = "select_segments segments char_budget order"
  let ?kept = "map ((!) segments) (sort (se_selected ?sel))"
  have ok: "selection_ok segments char_budget ?sel" by (rule selection_ok_select)
  have secs: "in_sections ?kept"
    using assms selected_indices [of segments char_budget order] by (intro in_sections_pick) auto
  have "distinct (headers [] ?kept) \<and> set (headers [] ?kept) \<subseteq> sg_section ` set ?kept"
    using headers_distinct [OF secs, of "[]"] by (simp add: section_rank_def)
  moreover have "sg_section ` set ?kept = set (se_seen_sections ?sel)"
    using ok by (simp add: selection_ok_def image_image)
  ultimately have "header_chars (headers [] ?kept) \<le> header_chars (se_seen_sections ?sel)"
    using ok by (intro header_chars_mono) (auto simp: selection_ok_def)
  then have "length (render_segments ?kept) \<le> se_total_chars ?sel"
    using length_render [of "[]" "[]" ?kept] ok
    by (simp add: render_segments_def selection_ok_def body_chars_sort)
  then show ?thesis using ok by (simp add: selection_ok_def)
qed

text \<open>What the standard library promises of the order: it is an order of the indices.\<close>

definition sorts_permute :: "std_library \<Rightarrow> bool" where
  "sorts_permute lib \<longleftrightarrow> (\<forall>segments is. sl_unordered_sort lib segments = Some is \<longrightarrow> mset is = mset [0..<length segments])"

lemma priority_order_perm:
  "sorts_permute lib \<Longrightarrow> priority_order lib segments = Some order \<Longrightarrow> mset order = mset [0..<length segments]"
  by (auto simp: priority_order_def sorts_permute_def split: if_splits)

lemma assemble_within_budget_bound:
  assumes "sorts_permute lib" and "in_sections segments"
    and "assemble_within_budget lib segments budget = Some (text, tokens, compressed)"
  shows "tokens \<le> unat budget \<and> tokens = length text div 4 \<and> length text \<le> 4 * unat budget"
proof (cases "segments = []")
  case False
  then obtain order where order: "priority_order lib segments = Some order"
    using assms(3) by (auto simp: assemble_within_budget_def)
  let ?text = "render_segments (map ((!) segments)
    (sort (se_selected (select_segments segments (char_budget_of budget) order))))"
  have out: "text = ?text" "tokens = length ?text div 4"
    using assms(3) False order by (auto simp: assemble_within_budget_def Let_def estimate_tokens_def CHARS_PER_TOKEN_def)
  have "set order = set [0..<length segments]" by (rule mset_eq_setD [OF priority_order_perm [OF assms(1) order]])
  then have "length ?text \<le> char_budget_of budget"
    by (intro render_selected_length [OF assms(2)]) auto
  moreover have "char_budget_of budget \<le> 4 * unat budget" by (simp add: char_budget_of_def CHARS_PER_TOKEN_def)
  ultimately have "length text \<le> 4 * unat budget" unfolding out(1) by (rule order_trans)
  moreover from this have "length text div 4 \<le> unat budget" by linarith
  ultimately show ?thesis using out by metis
qed (use assms(3) in \<open>simp add: assemble_within_budget_def\<close>)

text \<open>Without a \<open>NaN\<close> among the confidences the comparator is a total order.\<close>

lemma partial_cmp_total:
  assumes "a \<noteq> NaN" and "b \<noteq> NaN"
  shows "\<exists>c. f32_partial_cmp a b = Some c"
  using assms by (cases a; cases b) auto

lemma f32_lt_trans_ge:
  assumes "a \<noteq> NaN" "b \<noteq> NaN" "c \<noteq> NaN" and "\<not> f32_lt b a" and "\<not> f32_lt c b"
  shows "\<not> f32_lt c a"
  using assms by (cases a; cases b; cases c) auto

lemma partial_cmp_Greater:
  assumes "a \<noteq> NaN" and "b \<noteq> NaN"
  shows "(case f32_partial_cmp a b of Some c \<Rightarrow> c | None \<Rightarrow> Equal) = Greater \<longleftrightarrow> f32_lt b a"
  using assms by (cases a; cases b) auto

lemma compare_segments_Greater:
  assumes "sg_confidence a \<noteq> NaN" and "sg_confidence b \<noteq> NaN"
  shows "compare_segments a b = Greater \<longleftrightarrow>
     sg_priority a < sg_priority b \<or>
     sg_priority a = sg_priority b \<and> (authority_rank (sg_authority a) < authority_rank (sg_authority b) \<or>
       authority_rank (sg_authority a) = authority_rank (sg_authority b) \<and> f32_lt (sg_confidence a) (sg_confidence b))"
  using partial_cmp_Greater [OF assms(2,1)]
  by (auto simp: compare_segments_def cmp_def not_less order_le_less)

lemma orderable_without_NaN:
  assumes "\<forall>s \<in> set segments. sg_confidence s \<noteq> NaN"
  shows "orderable segments"
proof -
  have "compare_segments a c \<noteq> Greater"
    if mem: "a \<in> set segments" "b \<in> set segments" "c \<in> set segments"
      and le: "compare_segments a b \<noteq> Greater" "compare_segments b c \<noteq> Greater" for a b c
  proof -
    have nan: "sg_confidence a \<noteq> NaN" "sg_confidence b \<noteq> NaN" "sg_confidence c \<noteq> NaN" using assms mem by auto
    show ?thesis
      using le f32_lt_trans_ge [OF nan(3,2,1)]
      unfolding compare_segments_Greater [OF nan(1,2)] compare_segments_Greater [OF nan(2,3)]
        compare_segments_Greater [OF nan(1,3)] by force
  qed
  then show ?thesis unfolding orderable_def list_all_iff by blast
qed

text \<open>All segments of an assembly, in its order, before and after the marking.\<close>

definition collected :: "json_text \<Rightarrow> context_assembler \<Rightarrow> routing_plan \<Rightarrow> resolved_identity \<Rightarrow>
    string \<Rightarrow> uuid option \<Rightarrow> context_segment list" where
  "collected to_string a plan identity query task_id =
     (let latency = pl_latency_budget_ms plan; tenant = ri_organization_id identity; user = ri_user_id identity in
      build_identity_segments identity @
      data_segments build_hot_segments (fetch_hot (ca_hot_context a) (pl_hot_context plan) tenant user latency) @
      data_segments (build_canonical_user_segments to_string)
        (fetch_canonical (ca_canonical_user a) (pl_canonical_user plan) user latency) @
      data_segments (build_shared_task_segments to_string)
        (fetch_shared_task (ca_shared_task a) (pl_shared_task plan) task_id latency) @
      data_segments (\<lambda>items. build_memory_segments to_string items FromAgentPrivate ''Agent Private Memory'')
        (fetch_agent_private (ca_memory a) (pl_intent plan) (ri_delegated_agent_id identity) tenant latency) @
      data_segments (\<lambda>rs. build_search_result_segments to_string rs FromEnterpriseMemory ''Enterprise Memory'')
        (fetch_enterprise (ca_search a) (pl_vector_search plan) (pl_graph_search plan) tenant user query latency) @
      data_segments (\<lambda>rs. build_search_result_segments to_string rs FromBusinessState ''Business State'')
        (fetch_business_state (ca_search a) (pl_structured_search plan) tenant query latency))"

definition effective_budget :: "context_assembler \<Rightarrow> routing_plan \<Rightarrow> 64 word" where
  "effective_budget a plan = resolve_budget (pl_token_budget plan) (ca_default_token_budget a)"

lemma assemble_parts:
  assumes "assemble to_string lib a plan identity query task_id = Inr c"
  shows "assemble_within_budget lib (map mark_segment (collected to_string a plan identity query task_id)) (effective_budget a plan) =
       Some (ac_context_text c, ac_token_count c, ac_compressed c)"
    and "ac_conflict_flags c = detect_conflicts (sl_hash_order lib) (collected to_string a plan identity query task_id)"
    and "ac_low_confidence_items c =
       map sg_text (filter is_low_confidence (map mark_segment (collected to_string a plan identity query task_id)))"
  using assms unfolding assemble_def collected_def effective_budget_def Let_def
  by (auto split: option.splits prod.splits)

lemma assemble_Inl:
  "assemble to_string lib a plan identity query task_id = Inl e \<longleftrightarrow> e = AssemblerPanic \<and>
     assemble_within_budget lib (map mark_segment (collected to_string a plan identity query task_id)) (effective_budget a plan) = None"
  unfolding assemble_def collected_def effective_budget_def Let_def
  by (auto split: option.splits prod.splits)

lemma mark_confidence [simp]: "sg_confidence (mark_segment s) = sg_confidence s"
  by (simp add: mark_segment_def)

lemma assemble_ordered:
  assumes "\<forall>s \<in> set (collected to_string a plan identity query task_id). sg_confidence s \<noteq> NaN"
  shows "\<exists>c. assemble to_string lib a plan identity query task_id = Inr c"
proof -
  have "orderable (map mark_segment (collected to_string a plan identity query task_id))"
    using assms by (intro orderable_without_NaN) simp
  then have fits: "assemble_within_budget lib (map mark_segment (collected to_string a plan identity query task_id))
      (effective_budget a plan) \<noteq> None"
    by (simp add: assemble_within_budget_def priority_order_def del: not_None_eq)
  show ?thesis
  proof (cases "assemble to_string lib a plan identity query task_id")
    case (Inl e)
    then show ?thesis using fits unfolding assemble_Inl by blast
  qed blast
qed

lemma sections_data:
  "(\<And>x s. s \<in> set (build x) \<Longrightarrow> sg_section s = sec) \<Longrightarrow> s \<in> set (data_segments build o') \<Longrightarrow> sg_section s = sec"
  by (auto simp: data_segments_def split: option.splits)

lemma sections_build:
  "s \<in> set (build_identity_segments identity) \<Longrightarrow> sg_section s = ''Identity''"
  "s \<in> set (build_hot_segments data) \<Longrightarrow> sg_section s = ''Hot Context''"
  "s \<in> set (build_canonical_user_segments to_string profile) \<Longrightarrow> sg_section s = ''Canonical User''"
  "s \<in> set (build_shared_task_segments to_string task) \<Longrightarrow> sg_section s = ''Shared Task''"
  "s \<in> set (build_memory_segments to_string items source sec) \<Longrightarrow> sg_section s = sec"
  "s \<in> set (build_search_result_segments to_string results source sec) \<Longrightarrow> sg_section s = sec"
  by (auto simp: build_identity_segments_def identity_segment_def build_hot_segments_def hot_segment_def
      build_canonical_user_segments_def user_segment_def build_shared_task_segments_def task_segment_def
      build_memory_segments_def build_search_result_segments_def memory_item_to_segment_def
      split: option.splits if_splits)

lemma mark_section [simp]: "sg_section (mark_segment s) = sg_section s"
  by (simp add: mark_segment_def)

definition from_section :: "nat \<Rightarrow> context_segment list \<Rightarrow> bool" where
  "from_section n segs \<longleftrightarrow> in_sections segs \<and> (\<forall>s \<in> set segs. n \<le> section_rank (sg_section s))"

lemma from_section_append:
  assumes "\<And>s. s \<in> set xs \<Longrightarrow> sg_section s = sec" and "from_section (section_rank sec) ys"
    and "n \<le> section_rank sec" and "0 < section_rank sec"
  shows "from_section n (xs @ ys)"
proof -
  have "sorted (map (\<lambda>s. section_rank (sg_section s)) zs)" if "set zs \<subseteq> set xs" for zs
    using that assms(1) by (induction zs) auto
  then show ?thesis
    using assms by (auto simp: from_section_def in_sections_def sorted_append)
qed

lemma from_section_Nil: "from_section n []"
  by (simp add: from_section_def in_sections_def)

lemma in_sections_collected: "in_sections (map mark_segment (collected to_string a plan identity query task_id))"
proof -
  have mark: "in_sections (map mark_segment segs) = in_sections segs" for segs
    by (simp add: in_sections_def comp_def)
  note parts = sections_build(1) sections_data [OF sections_build(2)] sections_data [OF sections_build(3)]
    sections_data [OF sections_build(4)] sections_data [OF sections_build(5)] sections_data [OF sections_build(6)]
  have "from_section 0 (collected to_string a plan identity query task_id @ [])"
    unfolding collected_def Let_def append_assoc
    by (rule from_section_append [OF parts(1)] from_section_append [OF parts(2)] from_section_append [OF parts(3)]
        from_section_append [OF parts(4)] from_section_append [OF parts(5)] from_section_append [OF parts(6)]
        from_section_Nil | assumption | simp add: section_rank_def)+
  then show ?thesis by (simp add: mark from_section_def)
qed

text \<open>
  C6 (bounds).  Whatever the sources return and however much of it, an assembled text never
  exceeds the token budget of the plan (or the default when the plan has none), headers and
  separators included, in whichever order the sort leaves the segments; and the only way for an
  assembly not to return a text is the panic of the sort, for which some collected segment
  must have \<open>NaN\<close> as its confidence.
\<close>

theorem assembly_within_budget:
  assumes "sorts_permute lib"
  shows "case assemble to_string lib a plan identity query task_id of
      Inr c \<Rightarrow> ac_token_count c \<le> unat (effective_budget a plan) \<and>
        length (ac_context_text c) \<le> 4 * unat (effective_budget a plan) \<and>
        ac_token_count c = length (ac_context_text c) div 4
    | Inl e \<Rightarrow> e = AssemblerPanic \<and>
        (\<exists>s \<in> set (collected to_string a plan identity query task_id). sg_confidence s = NaN)"
proof (cases "assemble to_string lib a plan identity query task_id")
  case (Inl e)
  then show ?thesis
    using assemble_ordered [of to_string a plan identity query task_id lib]
      assemble_Inl [of to_string lib a plan identity query task_id e] by auto
next
  case (Inr c)
  show ?thesis using assemble_within_budget_bound [OF assms in_sections_collected assemble_parts(1) [OF Inr]] Inr by simp
qed

section \<open>What compression drops\<close>

definition full_chars :: "context_segment list \<Rightarrow> nat" where
  "full_chars segs = body_chars segs + header_chars (remdups (map sg_section segs))"

lemma header_chars_set:
  "distinct xs \<Longrightarrow> distinct ys \<Longrightarrow> set xs = set ys \<Longrightarrow> header_chars xs = header_chars ys"
  using header_chars_mono [of xs ys] header_chars_mono [of ys xs] by simp

lemma full_chars_mono: "full_chars xs \<le> full_chars (xs @ ys)"
proof -
  have "header_chars (remdups (map sg_section xs)) \<le> header_chars (remdups (map sg_section (xs @ ys)))"
    by (rule header_chars_mono) auto
  then show ?thesis by (simp add: full_chars_def body_chars_def)
qed

lemma full_chars_mset:
  assumes "mset xs = mset ys"
  shows "full_chars xs = full_chars ys"
proof -
  have "mset (map f xs) = mset (map f ys)" for f :: "context_segment \<Rightarrow> nat" using assms by simp
  then have "body_chars xs = body_chars ys"
    unfolding body_chars_def by (metis sum_mset_sum_list)
  moreover have "header_chars (remdups (map sg_section xs)) = header_chars (remdups (map sg_section ys))"
    by (rule header_chars_set) (use mset_eq_setD [OF assms] in auto)
  ultimately show ?thesis by (simp add: full_chars_def)
qed

lemma selection_total:
  "selection_ok segments char_budget st \<Longrightarrow>
     se_total_chars st = full_chars (map ((!) segments) (se_selected st))"
  by (simp add: selection_ok_def full_chars_def comp_def)
     (rule header_chars_set, auto)

lemma step_cost:
  assumes "selection_ok segments char_budget st"
  shows "se_total_chars st + segment_cost (se_seen_sections st) (segments ! i) =
     full_chars (map ((!) segments) (se_selected st @ [i]))"
proof -
  have "header_chars (remdups (map sg_section (map ((!) segments) (se_selected st @ [i])))) =
      header_chars (List.insert (sg_section (segments ! i)) (se_seen_sections st))"
    by (rule header_chars_set) (use assms in \<open>auto simp: selection_ok_def\<close>)
  then show ?thesis using assms
    by (auto simp: full_chars_def selection_ok_def segment_cost_def body_chars_def header_chars_def List.insert_def)
qed

text \<open>The loop drops a segment exactly when the rest no longer fits as a whole.\<close>

lemma fold_compressed_mono:
  "se_compressed st \<Longrightarrow> se_compressed (foldl (select_step segments char_budget) st order)"
  by (induction order arbitrary: st) (simp_all add: select_step_def Let_def)

lemma fold_keeps_all:
  assumes "selection_ok segments char_budget st" and "\<not> se_compressed st"
  shows "(se_compressed (foldl (select_step segments char_budget) st order) \<longleftrightarrow>
           full_chars (map ((!) segments) (se_selected st @ order)) > char_budget) \<and>
         (\<not> se_compressed (foldl (select_step segments char_budget) st order) \<longrightarrow>
           se_selected (foldl (select_step segments char_budget) st order) = se_selected st @ order)"
  using assms
proof (induction order arbitrary: st)
  case Nil
  then show ?case using selection_total [OF Nil(1)] by (simp add: selection_ok_def)
next
  case (Cons i order)
  let ?next = "select_step segments char_budget st i"
  show ?case
  proof (cases "se_total_chars st + segment_cost (se_seen_sections st) (segments ! i) > char_budget")
    case True
    then have "se_compressed ?next" by (simp add: select_step_def Let_def)
    then have "se_compressed (foldl (select_step segments char_budget) ?next order)" by (rule fold_compressed_mono)
    moreover have "full_chars (map ((!) segments) (se_selected st @ [i])) \<le>
        full_chars (map ((!) segments) (se_selected st @ i # order))"
      using full_chars_mono [of "map ((!) segments) (se_selected st @ [i])" "map ((!) segments) order"] by simp
    ultimately show ?thesis using True unfolding step_cost [OF Cons.prems(1)] by simp
  next
    case False
    then have "\<not> se_compressed ?next" "se_selected ?next = se_selected st @ [i]"
      using Cons.prems(2) by (simp_all add: select_step_def Let_def)
    then show ?thesis using Cons.IH [OF selection_ok_step [OF Cons.prems(1)]] by simp
  qed
qed

lemma assemble_compressed_iff:
  assumes "sorts_permute lib" and "assemble_within_budget lib segments budget = Some (text, tokens, compressed)"
  shows "(compressed \<longleftrightarrow> full_chars segments > char_budget_of budget) \<and>
     (\<not> compressed \<longrightarrow> text = render_segments segments)"
proof (cases "segments = []")
  case True
  then show ?thesis using assms(2)
    by (simp add: assemble_within_budget_def full_chars_def body_chars_def header_chars_def render_segments_def)
next
  case False
  then obtain order where order: "priority_order lib segments = Some order"
    using assms(2) by (auto simp: assemble_within_budget_def)
  let ?sel = "select_segments segments (char_budget_of budget) order"
  have start: "selection_ok segments (char_budget_of budget) empty_selection" "\<not> se_compressed empty_selection"
    by (simp_all add: selection_ok_def empty_selection_def body_chars_def header_chars_def)
  have out: "compressed = se_compressed ?sel" "text = render_segments (map ((!) segments) (sort (se_selected ?sel)))"
    using assms(2) False order by (auto simp: assemble_within_budget_def Let_def)
  note perm = priority_order_perm [OF assms(1) order]
  have "mset (map ((!) segments) order) = mset segments"
    unfolding mset_map perm by (metis map_nth mset_map)
  then have "full_chars (map ((!) segments) order) = full_chars segments"
    by (rule full_chars_mset)
  moreover have "sort order = [0..<length segments]"
    using perm by (metis sorted_upt sort_upt properties_for_sort)
  ultimately show ?thesis
    using fold_keeps_all [OF start, of order] out
    by (simp add: select_segments_def empty_selection_def map_nth)
qed

text \<open>
  The result is marked compressed exactly when all the segments with their
  headers do not fit, counted as the code counts them; otherwise the text holds every segment
  that was collected, section by section.
\<close>

theorem compression_iff:
  assumes "sorts_permute lib" and "assemble to_string lib a plan identity query task_id = Inr c"
  shows "let segments = map mark_segment (collected to_string a plan identity query task_id) in
        (ac_compressed c = (full_chars segments > char_budget_of (effective_budget a plan))) \<and>
        ac_context_text c = (if ac_compressed c then ac_context_text c else render_segments segments)"
  using assemble_compressed_iff [OF assms(1) assemble_parts(1) [OF assms(2)]] by (auto simp: Let_def)

section \<open>What compression keeps\<close>

lemma selected_grow:
  "subseq (se_selected (foldl (select_step segments char_budget) st order)) (se_selected st @ order) \<and>
   set (se_selected st) \<subseteq> set (se_selected (foldl (select_step segments char_budget) st order))"
proof (induction order arbitrary: st)
  case (Cons i order)
  let ?next = "select_step segments char_budget st i"
  have "subseq (se_selected ?next) (se_selected st @ [i])" "set (se_selected st) \<subseteq> set (se_selected ?next)"
    by (auto simp: select_step_def Let_def)
  moreover from this(1) have "subseq (se_selected ?next @ order) ((se_selected st @ [i]) @ order)"
    by (rule list_emb_append_mono) simp
  ultimately show ?case using Cons.IH [of ?next] by (auto intro: subseq_order.trans)
qed simp

lemma compare_segments_priority:
  "compare_segments a b = Greater \<Longrightarrow> sg_priority a \<le> sg_priority b"
  "compare_segments a b \<noteq> Greater \<Longrightarrow> sg_priority b \<le> sg_priority a"
  by (auto simp: compare_segments_def cmp_def split: if_splits)

lemma priority_order_split:
  assumes "orderable segments" and "priority_order lib segments = Some order"
  shows "\<exists>hi lo. order = hi @ lo \<and> (\<forall>i \<in> set hi. p \<le> sg_priority (segments ! i)) \<and>
     (\<forall>i \<in> set lo. sg_priority (segments ! i) < p)"
proof -
  have "sorted_wrt (\<lambda>i j. sg_priority (segments ! j) \<le> sg_priority (segments ! i)) order"
  proof -
    have "order = sort_by (\<lambda>a b. compare_segments (segments ! a) (segments ! b)) [0..<length segments]"
      using assms by (simp add: priority_order_def)
    then show ?thesis by (simp only:) (rule sorted_sort_by_key; simp add: compare_segments_priority)
  qed
  then have "\<exists>hi lo. is = hi @ lo \<and> (\<forall>i \<in> set hi. p \<le> sg_priority (segments ! i)) \<and>
      (\<forall>i \<in> set lo. sg_priority (segments ! i) < p)" if "is = order" for "is"
    unfolding that [symmetric]
  proof (induction "is")
    case (Cons i "is")
    then obtain hi lo where split: "is = hi @ lo" "\<forall>i \<in> set hi. p \<le> sg_priority (segments ! i)"
      "\<forall>i \<in> set lo. sg_priority (segments ! i) < p" by auto
    show ?case
    proof (cases "p \<le> sg_priority (segments ! i)")
      case True
      then show ?thesis using split by (intro exI [of _ "i # hi"] exI [of _ lo]) auto
    next
      case False
      then show ?thesis using split Cons.prems by (intro exI [of _ "[]"] exI [of _ "i # is"]) (auto intro: le_less_trans)
    qed
  qed simp
  then show ?thesis by blast
qed

text \<open>If the segments from some priority upwards fit together, all of them are kept.\<close>

lemma high_priority_kept:
  assumes "full_chars (filter (\<lambda>s. p \<le> sg_priority s) segments) \<le> char_budget"
    and "orderable segments" and order: "priority_order lib segments = Some order"
  shows "{i. i < length segments \<and> p \<le> sg_priority (segments ! i)} \<subseteq>
     set (se_selected (select_segments segments char_budget order))"
proof -
  obtain hi lo where split: "order = hi @ lo"
    and hi: "\<forall>i \<in> set hi. p \<le> sg_priority (segments ! i)" and lo: "\<forall>i \<in> set lo. sg_priority (segments ! i) < p"
    using priority_order_split [OF assms(2,3)] by blast
  have perm: "mset (hi @ lo) = mset [0..<length segments]"
    unfolding split [symmetric] using assms(2,3) by (auto simp: priority_order_def)
  have "filter (\<lambda>i. p \<le> sg_priority (segments ! i)) (hi @ lo) = hi"
    using hi lo by (simp add: filter_id_conv filter_empty_conv not_le)
  then have "mset hi = mset (filter (\<lambda>i. p \<le> sg_priority (segments ! i)) [0..<length segments])"
    using perm by (metis mset_filter)
  then have "mset (map ((!) segments) hi) = mset (filter (\<lambda>s. p \<le> sg_priority s) (map ((!) segments) [0..<length segments]))"
    by (simp add: filter_map comp_def)
  then have "full_chars (map ((!) segments) hi) = full_chars (filter (\<lambda>s. p \<le> sg_priority s) segments)"
    by (intro full_chars_mset) (simp add: map_nth)
  moreover have "selection_ok segments char_budget empty_selection" "\<not> se_compressed empty_selection"
    by (simp_all add: selection_ok_def empty_selection_def body_chars_def header_chars_def)
  ultimately have "se_selected (foldl (select_step segments char_budget) empty_selection hi) = hi"
    using fold_keeps_all [of segments char_budget empty_selection hi] assms by (simp add: empty_selection_def)
  then have "set hi \<subseteq> set (se_selected (select_segments segments char_budget order))"
    using selected_grow [of segments char_budget "foldl (select_step segments char_budget) empty_selection hi" lo]
    by (simp add: select_segments_def split)
  moreover have "{i. i < length segments \<and> p \<le> sg_priority (segments ! i)} \<subseteq> set hi"
  proof safe
    fix i assume i: "i < length segments" "p \<le> sg_priority (segments ! i)"
    then have "i \<in> set (hi @ lo)" unfolding mset_eq_setD [OF perm] by simp
    moreover have "i \<notin> set lo" using lo i(2) by (auto simp: not_le)
    ultimately show "i \<in> set hi" by simp
  qed
  ultimately show ?thesis by blast
qed

lemma distinct_subseq: "subseq xs ys \<Longrightarrow> distinct ys \<Longrightarrow> distinct xs"
proof (induction rule: list_emb.induct)
  case (list_emb_Cons2 x y xs ys)
  then show ?case by (auto dest: list_emb_set)
qed simp_all

text \<open>The kept segments, in assembly order.\<close>

lemma kept_segments:
  assumes "segments \<noteq> []" and "orderable segments"
    and "assemble_within_budget lib segments budget = Some (text, tokens, compressed)"
  shows "\<exists>kept. text = render_segments kept \<and> subseq kept segments \<and>
     (\<forall>p. full_chars (filter (\<lambda>s. p \<le> sg_priority s) segments) \<le> char_budget_of budget \<longrightarrow>
        filter (\<lambda>s. p \<le> sg_priority s) kept = filter (\<lambda>s. p \<le> sg_priority s) segments)"
proof -
  obtain order where order: "priority_order lib segments = Some order"
    using assms(1,3) by (auto simp: assemble_within_budget_def)
  have perm: "mset order = mset [0..<length segments]" using assms(2) order by (auto simp: priority_order_def)
  let ?sel = "se_selected (select_segments segments (char_budget_of budget) order)"
  let ?picked = "filter (\<lambda>i. i \<in> set ?sel) [0..<length segments]"
  have "subseq ?sel order"
    using selected_grow [of segments _ empty_selection order]
    by (simp add: select_segments_def empty_selection_def)
  moreover have "distinct order" using mset_eq_imp_distinct_iff [OF perm] by simp
  ultimately have dist: "distinct ?sel" by (rule distinct_subseq)
  have "set order = {0..<length segments}" using mset_eq_setD [OF perm] by simp
  then have range: "set ?sel \<subseteq> {..<length segments}"
    using selected_indices [of segments "char_budget_of budget" order] by auto
  have picked: "sort ?sel = ?picked"
    using dist range by (intro sorted_distinct_set_unique) (auto simp: sorted_wrt_filter)
  have "text = render_segments (map ((!) segments) ?picked)"
    using assms(1,3) order unfolding picked [symmetric] by (auto simp: assemble_within_budget_def Let_def)
  moreover have "subseq (map ((!) segments) ?picked) segments"
    by (metis map_nth subseq_filter_left subseq_map)
  moreover have "filter (\<lambda>s. p \<le> sg_priority s) (map ((!) segments) ?picked) = filter (\<lambda>s. p \<le> sg_priority s) segments"
    if fits: "full_chars (filter (\<lambda>s. p \<le> sg_priority s) segments) \<le> char_budget_of budget" for p
  proof -
    have "filter (\<lambda>s. p \<le> sg_priority s) (map ((!) segments) ?picked) =
        map ((!) segments) (filter (\<lambda>i. i \<in> set ?sel \<and> p \<le> sg_priority (segments ! i)) [0..<length segments])"
      by (simp add: filter_map comp_def conj_commute)
    also have "filter (\<lambda>i. i \<in> set ?sel \<and> p \<le> sg_priority (segments ! i)) [0..<length segments] =
        filter (\<lambda>i. p \<le> sg_priority (segments ! i)) [0..<length segments]"
      using high_priority_kept [OF fits assms(2) order] by (intro filter_cong) auto
    also have "map ((!) segments) \<dots> = filter (\<lambda>s. p \<le> sg_priority s) (map ((!) segments) [0..<length segments])"
      by (simp add: filter_map comp_def)
    finally show ?thesis by (simp add: map_nth)
  qed
  ultimately show ?thesis by blast
qed

text \<open>
  C30 (safety).  When no collected confidence is \<open>NaN\<close>, the text is made of some of the
  collected segments in their order, and whenever the segments from a priority upwards fit
  together, every one of them is in the text, however many segments of lower priority are
  collected and whichever of those are left out.  In particular the identity (priority 100)
  survives when it fits by itself.
\<close>

theorem compression_respects_priority:
  assumes "assemble to_string lib a plan identity query task_id = Inr c"
    and "\<forall>s \<in> set (collected to_string a plan identity query task_id). sg_confidence s \<noteq> NaN"
  shows "\<exists>kept. ac_context_text c = render_segments kept \<and>
     subseq kept (map mark_segment (collected to_string a plan identity query task_id)) \<and>
     (\<forall>p. full_chars (filter (\<lambda>s. p \<le> sg_priority s) (map mark_segment (collected to_string a plan identity query task_id)))
             \<le> char_budget_of (effective_budget a plan) \<longrightarrow>
        filter (\<lambda>s. p \<le> sg_priority s) kept =
          filter (\<lambda>s. p \<le> sg_priority s) (map mark_segment (collected to_string a plan identity query task_id)))"
proof -
  have "map mark_segment (collected to_string a plan identity query task_id) \<noteq> []"
    by (simp add: collected_def Let_def build_identity_segments_def)
  moreover have "orderable (map mark_segment (collected to_string a plan identity query task_id))"
    using assms(2) by (intro orderable_without_NaN) simp
  ultimately show ?thesis using assemble_parts(1) [OF assms(1)] by (rule kept_segments)
qed

section \<open>Degraded sources\<close>

definition failed_call :: "64 word \<Rightarrow> 'a source_call \<Rightarrow> bool" where
  "failed_call latency call \<longleftrightarrow> (\<forall>t x. call = Replies t (Inr x) \<longrightarrow> unat latency < t)"

lemma timeout_failed: "failed_call latency call \<longleftrightarrow> (\<forall>x. timeout latency call \<noteq> Some (Inr x))"
  by (cases "(latency, call)" rule: timeout.cases) (auto simp: failed_call_def not_le)

lemma degraded_outcomes:
  "fo_degraded (outcome_of_option (timeout latency ocall)) = failed_call latency ocall"
  "fo_degraded (outcome_of_list (timeout latency lcall)) = failed_call latency lcall"
  unfolding timeout_failed
  by (auto simp: outcome_of_option_def outcome_of_list_def outcome_ok_def outcome_empty_def outcome_degraded_def
      split: option.splits sum.splits)

lemma failed_map_call [simp]: "failed_call latency (map_call f call) = failed_call latency call"
  by (cases "(f, call)" rule: map_call.cases) (auto simp: failed_call_def)

definition unavailable :: "64 word \<Rightarrow> 'src option \<Rightarrow> ('src \<Rightarrow> 'a source_call) \<Rightarrow> bool" where
  "unavailable latency source ask =
     (case source of None \<Rightarrow> True | Some src \<Rightarrow> failed_call latency (ask src))"

lemma degraded_fetches:
  "fo_degraded (fetch_hot hot enabled tenant user latency) =
     (enabled \<and> unavailable latency hot (\<lambda>get. get tenant user))"
  "fo_degraded (fetch_canonical users enabled user latency) =
     (enabled \<and> unavailable latency users (\<lambda>get. get user))"
  "fo_degraded (fetch_shared_task tasks enabled task_id latency) =
     (enabled \<and> (case task_id of None \<Rightarrow> True | Some i \<Rightarrow> unavailable latency tasks (\<lambda>get. get i)))"
  "fo_degraded (fetch_agent_private memories intent agent tenant latency) =
     (agent \<noteq> None \<and> agent \<noteq> Some [] \<and> intent \<noteq> Chat \<and>
      unavailable latency memories (\<lambda>get. get tenant (Some Active) 50 0))"
  "fo_degraded (fetch_enterprise search vec graph tenant user query latency) =
     ((vec \<or> graph) \<and> unavailable latency search (\<lambda>get. get (enterprise_params tenant user query)))"
  "fo_degraded (fetch_business_state search enabled tenant query latency) =
     (enabled \<and> unavailable latency search (\<lambda>get. get (business_params tenant query)))"
  by (auto simp: fetch_hot_def fetch_canonical_def fetch_shared_task_def fetch_agent_private_def
      fetch_enterprise_def fetch_business_state_def unavailable_def degraded_outcomes
      outcome_degraded_def outcome_empty_def split: option.splits)

lemma in_used_if [simp]: "s \<in> set (used_if b t) \<longleftrightarrow> b \<and> s = t"
  by (auto simp: used_if_def)

lemma assemble_degraded:
  assumes "assemble to_string lib a plan identity query task_id = Inr c"
  shows "ac_degraded_sources c =
       used_if (fo_degraded (fetch_hot (ca_hot_context a) (pl_hot_context plan) (ri_organization_id identity)
          (ri_user_id identity) (pl_latency_budget_ms plan))) FromHotContext @
       used_if (fo_degraded (fetch_canonical (ca_canonical_user a) (pl_canonical_user plan) (ri_user_id identity)
          (pl_latency_budget_ms plan))) FromCanonicalUser @
       used_if (fo_degraded (fetch_shared_task (ca_shared_task a) (pl_shared_task plan) task_id
          (pl_latency_budget_ms plan))) FromSharedTask @
       used_if (fo_degraded (fetch_agent_private (ca_memory a) (pl_intent plan) (ri_delegated_agent_id identity)
          (ri_organization_id identity) (pl_latency_budget_ms plan))) FromAgentPrivate @
       used_if (fo_degraded (fetch_enterprise (ca_search a) (pl_vector_search plan) (pl_graph_search plan)
          (ri_organization_id identity) (ri_user_id identity) query (pl_latency_budget_ms plan))) FromEnterpriseMemory @
       used_if (fo_degraded (fetch_business_state (ca_search a) (pl_structured_search plan)
          (ri_organization_id identity) query (pl_latency_budget_ms plan))) FromBusinessState"
  using assms unfolding assemble_def Let_def by (auto split: option.splits prod.splits)

text \<open>
  A source appears among the degraded ones exactly when the plan (for the agent's
  own memory the identity and the intent) asks for it and it is missing, returns an error or
  does not reply within the latency budget; a shared task also without a task id.
\<close>

theorem degraded_iff:
  assumes "assemble to_string lib a plan identity query task_id = Inr c"
  shows "let latency = pl_latency_budget_ms plan; tenant = ri_organization_id identity; user = ri_user_id identity;
          degraded = (\<lambda>source. source \<in> set (ac_degraded_sources c)) in
        degraded FromHotContext = (pl_hot_context plan \<and> unavailable latency (ca_hot_context a) (\<lambda>get. get tenant user)) \<and>
        degraded FromCanonicalUser = (pl_canonical_user plan \<and> unavailable latency (ca_canonical_user a) (\<lambda>get. get user)) \<and>
        degraded FromSharedTask = (pl_shared_task plan \<and>
          (case task_id of None \<Rightarrow> True | Some i \<Rightarrow> unavailable latency (ca_shared_task a) (\<lambda>get. get i))) \<and>
        degraded FromAgentPrivate = (ri_delegated_agent_id identity \<noteq> None \<and> ri_delegated_agent_id identity \<noteq> Some [] \<and>
          pl_intent plan \<noteq> Chat \<and> unavailable latency (ca_memory a) (\<lambda>get. get tenant (Some Active) 50 0)) \<and>
        degraded FromEnterpriseMemory = ((pl_vector_search plan \<or> pl_graph_search plan) \<and>
          unavailable latency (ca_search a) (\<lambda>get. get (enterprise_params tenant user query))) \<and>
        degraded FromBusinessState = (pl_structured_search plan \<and>
          unavailable latency (ca_search a) (\<lambda>get. get (business_params tenant query)))"
  unfolding assemble_degraded [OF assms] by (simp add: Let_def degraded_fetches)

section \<open>Conflicts\<close>

lemma by_rank_head:
  assumes "members \<noteq> []"
  shows "\<exists>winner rest. by_rank members = winner # rest \<and> winner \<in> set members \<and>
     mset (winner # rest) = mset members \<and>
     (\<forall>s \<in> set members. authority_rank (sg_authority s) \<le> authority_rank (sg_authority winner))"
proof -
  obtain winner rest where srt: "by_rank members = winner # rest"
    using assms unfolding by_rank_def by (metis list.exhaust sort_by_Nil_iff)
  have "sorted_wrt (\<lambda>a b. authority_rank (sg_authority b) \<le> authority_rank (sg_authority a)) (by_rank members)"
    unfolding by_rank_def by (rule sorted_sort_by_key) (simp_all add: not_less)
  moreover have "mset (by_rank members) = mset members" by (simp add: by_rank_def)
  ultimately show ?thesis using srt
    by (metis (no_types, lifting) list.set_intros(1) mset_eq_setD order_refl set_ConsD sorted_wrt.simps(2))
qed

text \<open>
  A field is flagged exactly when two different sources speak of it and some
  segment disagrees with the first segment of the highest authority; the flag lists every
  text that differs from that of the winner, and no other.
\<close>

theorem conflict_flag_iff:
  "(group_flag field members \<noteq> None \<longleftrightarrow>
      (\<exists>x \<in> set members. \<exists>y \<in> set members. sg_source x \<noteq> sg_source y) \<and>
      (\<exists>x \<in> set members. \<exists>y \<in> set members. sg_text x \<noteq> sg_text y)) \<and>
   (\<forall>flag. group_flag field members = Some flag \<longrightarrow>
      (\<exists>winner \<in> set members. (\<forall>s \<in> set members. authority_rank (sg_authority s) \<le> authority_rank (sg_authority winner)) \<and>
         set (cf_conflicting_values flag) = sg_text ` set members - {sg_text winner}))"
proof (cases "members = []")
  case True
  then show ?thesis by (simp add: group_flag_def)
next
  case False
  obtain winner rest where srt: "by_rank members = winner # rest" and win: "winner \<in> set members"
    and perm: "mset (winner # rest) = mset members"
    and top: "\<forall>s \<in> set members. authority_rank (sg_authority s) \<le> authority_rank (sg_authority winner)"
    using by_rank_head [OF False] by blast
  have set: "set members = insert winner (set rest)" using mset_eq_setD [OF perm] by simp
  have texts: "map sg_text (filter (\<lambda>s. sg_text s \<noteq> sg_text winner) rest) = [] \<longleftrightarrow>
      \<not> (\<exists>x \<in> set members. \<exists>y \<in> set members. sg_text x \<noteq> sg_text y)"
    unfolding set by (auto simp: filter_empty_conv)
  have sources: "length (remdups (map sg_source members)) < 2 \<longleftrightarrow>
      \<not> (\<exists>x \<in> set members. \<exists>y \<in> set members. sg_source x \<noteq> sg_source y)"
    using card_le_Suc0_iff_eq [of "set (map sg_source members)"]
    by (auto simp: length_remdups_card_conv less_Suc_eq_le numeral_2_eq_2)
  have few: "length members < 2 \<Longrightarrow> length (remdups (map sg_source members)) < 2"
    using length_remdups_leq [of "map sg_source members"] by simp
  have vals: "set (map sg_text (filter (\<lambda>s. sg_text s \<noteq> sg_text winner) rest)) = sg_text ` set members - {sg_text winner}"
    unfolding set by auto
  show ?thesis
  proof (cases "length (remdups (map sg_source members)) < 2")
    case True
    then have "group_flag field members = None" by (simp add: group_flag_def)
    moreover note iffD1 [OF sources True]
    ultimately show ?thesis by (simp only: option.distinct simp_thms)
  next
    case False
    have many: "\<not> length members < 2" using False few by blast
    have flag: "group_flag field members =
        (let conflicting = map sg_text (filter (\<lambda>s. sg_text s \<noteq> sg_text winner) rest) in
         if conflicting = [] then None
         else Some \<lparr>cf_field = field,
           cf_description = ''Authority '' @ authority_level_as_str (sg_authority winner) @ '' overrides '' @
             show_nat (length conflicting) @ '' lower-authority value(s)'',
           cf_conflicting_values = conflicting\<rparr>)"
      unfolding group_flag_def by (simp only: many False if_False srt list.case)
    have "group_flag field members = None \<longleftrightarrow> map sg_text (filter (\<lambda>s. sg_text s \<noteq> sg_text winner) rest) = []"
      unfolding flag by (simp only: Let_def option.distinct if_splits) simp
    moreover have "cf_conflicting_values f = map sg_text (filter (\<lambda>s. sg_text s \<noteq> sg_text winner) rest)"
      if "group_flag field members = Some f" for f
      using that unfolding flag by (auto simp only: Let_def option.inject assembler_conflict_flag.simps split: if_splits)
    ultimately show ?thesis using False win top vals unfolding sources texts by metis
  qed
qed

text \<open>
  A value of the same authority as the winner is reported as a
  lower-authority value it overrides: which of the two is the winner only depends on the
  order of the sources.
\<close>

theorem equal_authority_flagged:
  assumes "sg_source x \<noteq> sg_source y" and "sg_text x \<noteq> sg_text y"
    and "sg_authority x = sg_authority y"
  shows "group_flag field [x, y] = Some \<lparr>cf_field = field,
     cf_description = ''Authority '' @ authority_level_as_str (sg_authority y) @ '' overrides 1 lower-authority value(s)'',
     cf_conflicting_values = [sg_text y]\<rparr>"
proof -
  have "by_rank [x, y] = [x, y]" using assms by (simp add: by_rank_def sort_by_def)
  moreover have "show_nat 1 = ''1''" by code_simp
  ultimately show ?thesis using assms by (auto simp: group_flag_def Let_def)
qed

definition demo_segment :: "string \<Rightarrow> context_source \<Rightarrow> context_segment" where
  "demo_segment text source = \<lparr>sg_text = text, sg_source = source, sg_priority = 60, sg_authority = L2Verified,
     sg_confidence = f32_one, sg_status = Some Active, sg_field = Some ''u1'', sg_section = ''Enterprise Memory''\<rparr>"

lemma equal_authority_flagged_witness:
  "group_flag ''u1'' [demo_segment ''on leave'' FromAgentPrivate, demo_segment ''on duty'' FromEnterpriseMemory] =
     Some \<lparr>cf_field = ''u1'', cf_description = ''Authority L2_verified overrides 1 lower-authority value(s)'',
       cf_conflicting_values = [''on duty'']\<rparr>"
  using equal_authority_flagged [of "demo_segment ''on leave'' FromAgentPrivate" "demo_segment ''on duty'' FromEnterpriseMemory"]
  by (simp add: demo_segment_def)

section \<open>The production sources\<close>

text \<open>
  The adapters over the repositories; \<open>describe\<close> renders the error, \<open>lossy\<close> is
  \<open>String::from_utf8_lossy\<close>.
\<close>

definition hot_context_adapter :: "(redis_error \<Rightarrow> string) \<Rightarrow> (string \<Rightarrow> string) \<Rightarrow> string \<Rightarrow> string \<Rightarrow>
    (world, assembler_error, string option) op" where
  "hot_context_adapter describe lossy tenant user =
     bindE (map_err (\<lambda>e. SourceError (describe e)) (get_user_context user tenant)) (\<lambda>data.
     ret (map_option lossy data))"

definition memory_list_adapter :: "(memory_repo_error \<Rightarrow> string) \<Rightarrow> string \<Rightarrow> memory_status option \<Rightarrow> int \<Rightarrow> int \<Rightarrow>
    (world, assembler_error, memory_item list) op" where
  "memory_list_adapter describe tenant status limit offset =
     map_err (\<lambda>e. SourceError (describe e)) (repo_list_by_tenant tenant status limit offset)"

definition memory_get_adapter :: "(memory_repo_error \<Rightarrow> string) \<Rightarrow> uuid \<Rightarrow> (world, assembler_error, memory_item option) op" where
  "memory_get_adapter describe i = map_err (\<lambda>e. SourceError (describe e)) (repo_get_by_id i)"

definition search_adapter :: "(search_error \<Rightarrow> string) \<Rightarrow> f32_text \<Rightarrow> search_engine \<Rightarrow> search_params \<Rightarrow>
    (world, assembler_error, search_result list) op" where
  "search_adapter describe to_string eng params =
     map_err (\<lambda>e. SourceError (describe e)) (hybrid_search to_string eng params)"

definition canonical_user_adapter :: "(canonical_user_error \<Rightarrow> string) \<Rightarrow> canonical_user_manager \<Rightarrow> string \<Rightarrow>
    (world, assembler_error, canonical_user_profile option) op" where
  "canonical_user_adapter describe mgr user = map_err (\<lambda>e. SourceError (describe e)) (get_user_profile mgr user)"

definition shared_task_adapter :: "(shared_task_error \<Rightarrow> string) \<Rightarrow> shared_task_manager \<Rightarrow> uuid \<Rightarrow>
    (world, assembler_error, shared_task_context option) op" where
  "shared_task_adapter describe mgr i = map_err (\<lambda>e. SourceError (describe e)) (get_context mgr i)"

text \<open>
  An adapter as a source: the call takes some time and gives the result the operation has
  on the database state it meets, both of which may depend on the arguments.
\<close>

definition source_of :: "('x \<Rightarrow> nat) \<Rightarrow> ('x \<Rightarrow> world) \<Rightarrow> ('x \<Rightarrow> (world, assembler_error, 'a) op) \<Rightarrow> 'x \<Rightarrow> 'a source_call" where
  "source_of delay world_at adapter x = Replies (delay x) (fst (adapter x (world_at x)))"

lemma map_err_op_Inl: "m w = (Inl e, w') \<Longrightarrow> map_err h m w = (Inl (h e), w')"
  by (simp add: map_err_def)

text \<open>
  With the production search behind it, an assembly for a query that is not blank
  loses every search source the plan asks for: the enterprise memory and the business state
  are always reported as degraded and never used, whatever is stored.
\<close>

theorem production_search_always_degraded:
  assumes "trim query \<noteq> []"
    and "ca_search a = Some (source_of delay world_at (search_adapter describe f32_to_string eng))"
    and "assemble to_string lib a plan identity query task_id = Inr c"
  shows "(pl_vector_search plan \<or> pl_graph_search plan \<longrightarrow> FromEnterpriseMemory \<in> set (ac_degraded_sources c)) \<and>
     (pl_structured_search plan \<longrightarrow> FromBusinessState \<in> set (ac_degraded_sources c))"
proof -
  have failed: "unavailable latency (ca_search a) (\<lambda>get. get p)" if kw: "has_keyword p" for latency p
  proof -
    obtain w' where "hybrid_search f32_to_string eng p (world_at p) = (Inl (SearchDatabase DbError), w')"
      using keyword_search_always_fails [OF kw] by blast
    then have "fst (search_adapter describe f32_to_string eng p (world_at p)) = Inl (SourceError (describe (SearchDatabase DbError)))"
      unfolding search_adapter_def by (simp add: map_err_op_Inl)
    then show ?thesis by (simp add: assms(2) unavailable_def failed_call_def source_of_def)
  qed
  have kw: "has_keyword (enterprise_params tenant user query)" "has_keyword (business_params tenant query)" for tenant user
    using assms(1) by (simp_all add: has_keyword_def enterprise_params_def business_params_def)
  show ?thesis
    unfolding assemble_degraded [OF assms(3)]
    by (simp add: degraded_fetches failed [OF kw(1)] failed [OF kw(2)])
qed

section \<open>Witnesses\<close>

definition demo_identity :: resolved_identity where
  "demo_identity = \<lparr>ri_user_id = ''u1'', ri_organization_id = ''t'', ri_factory_id = None, ri_roles = [''lead''],
     ri_delegated_agent_id = None, ri_permissions = permissions_new [] [], ri_purpose = ''chat'', ri_trace_id = ''x'',
     ri_resolved_at = 0\<rparr>"

definition demo_plan :: routing_plan where
  "demo_plan = (plan_for_intent DeepResearch 4096)"

lemma demo_collected:
  "collected (\<lambda>_. ''1'') context_assembler_default demo_plan demo_identity ''refund'' None =
     [identity_segment ''User: u1, Tenant: t, Roles: lead'' ''identity'']"
  by (simp add: collected_def context_assembler_default_def demo_identity_def demo_plan_def plan_for_intent_def
      build_identity_segments_def data_segments_def fetch_hot_def fetch_canonical_def fetch_shared_task_def
      fetch_agent_private_def fetch_enterprise_def fetch_business_state_def outcome_degraded_def outcome_empty_def)

lemma demo_marked:
  "map mark_segment [identity_segment text field] = [identity_segment text field]"
  by (simp add: mark_segment_def is_low_confidence_def identity_segment_def LOW_CONFIDENCE_THRESHOLD_def f32_literals)

text \<open>A library whose sort panics on a comparator that is no total order.\<close>

definition demo_library :: std_library where
  "demo_library = \<lparr>sl_hash_order = id, sl_unordered_sort = (\<lambda>_. None)\<rparr>"

lemma demo_library_permutes: "sorts_permute demo_library"
  by (simp add: sorts_permute_def demo_library_def)

lemma identity_ordered: "sg_confidence (identity_segment text field) \<noteq> NaN"
  by (simp add: identity_segment_def f32_literals)

lemma demo_assembled: "\<exists>c. assemble (\<lambda>_. ''1'') lib context_assembler_default demo_plan demo_identity ''refund'' None = Inr c"
  by (rule assemble_ordered) (simp add: demo_collected identity_ordered)

lemma assembly_within_budget_witness:
  "\<exists>c. assemble (\<lambda>_. ''1'') demo_library context_assembler_default demo_plan demo_identity ''refund'' None = Inr c \<and>
     ac_token_count c \<le> 8192"
proof -
  obtain c where c: "assemble (\<lambda>_. ''1'') demo_library context_assembler_default demo_plan demo_identity ''refund'' None = Inr c"
    using demo_assembled by blast
  have "effective_budget context_assembler_default demo_plan = 8192"
    by (simp add: effective_budget_def resolve_budget_def demo_plan_def plan_for_intent_def)
  then show ?thesis
    using assembly_within_budget [OF demo_library_permutes, of "\<lambda>_. ''1''" context_assembler_default demo_plan
        demo_identity "''refund''" None] c by simp
qed

text \<open>
  A compressed context: the budget of 20 tokens holds the identity, not the hundred characters the hot
  context returns.
\<close>

definition tight_assembler :: context_assembler where
  "tight_assembler = with_hot_source context_assembler_default (\<lambda>_ _. Replies 1 (Inr (Some (replicate 100 CHR ''x''))))"

definition tight_plan :: routing_plan where
  "tight_plan = demo_plan\<lparr>pl_token_budget := 20\<rparr>"

lemma tight_collected:
  "collected (\<lambda>_. ''1'') tight_assembler tight_plan demo_identity ''refund'' None =
     [identity_segment ''User: u1, Tenant: t, Roles: lead'' ''identity'', hot_segment (replicate 100 CHR ''x'')]"
  by (simp add: collected_def tight_assembler_def with_hot_source_def context_assembler_default_def demo_identity_def
      tight_plan_def demo_plan_def plan_for_intent_def
      build_identity_segments_def build_hot_segments_def data_segments_def fetch_hot_def fetch_canonical_def fetch_shared_task_def
      fetch_agent_private_def fetch_enterprise_def fetch_business_state_def outcome_degraded_def outcome_empty_def
      outcome_of_option_def outcome_ok_def)

lemma tight_marked:
  "map mark_segment [identity_segment text field, hot_segment data] = [identity_segment text field, hot_segment data]"
  by (simp add: mark_segment_def is_low_confidence_def identity_segment_def hot_segment_def LOW_CONFIDENCE_THRESHOLD_def f32_literals)

lemma tight_budget: "char_budget_of (effective_budget tight_assembler tight_plan) = 80"
  by (simp add: char_budget_of_def CHARS_PER_TOKEN_def effective_budget_def resolve_budget_def tight_plan_def)

lemma compression_respects_priority_witness:
  "\<exists>c kept. assemble (\<lambda>_. ''1'') demo_library tight_assembler tight_plan demo_identity ''refund'' None = Inr c \<and>
     ac_compressed c \<and> ac_context_text c = render_segments kept \<and>
     filter (\<lambda>s. 100 \<le> sg_priority s) kept = [identity_segment ''User: u1, Tenant: t, Roles: lead'' ''identity'']"
proof -
  have ordered: "\<forall>s \<in> set (collected (\<lambda>_. ''1'') tight_assembler tight_plan demo_identity ''refund'' None). sg_confidence s \<noteq> NaN"
    by (simp add: tight_collected identity_ordered hot_segment_def f32_literals)
  obtain c where c: "assemble (\<lambda>_. ''1'') demo_library tight_assembler tight_plan demo_identity ''refund'' None = Inr c"
    using assemble_ordered [OF ordered] by blast
  have "ac_compressed c"
    using assemble_compressed_iff [OF demo_library_permutes assemble_parts(1) [OF c, unfolded tight_collected tight_marked]]
    by (simp add: tight_budget full_chars_def body_chars_def hot_segment_def)
  moreover have "full_chars (filter (\<lambda>s. 100 \<le> sg_priority s)
      [identity_segment ''User: u1, Tenant: t, Roles: lead'' ''identity'', hot_segment (replicate 100 CHR ''x'')]) \<le> 80"
    by (simp add: full_chars_def body_chars_def header_chars_def identity_segment_def hot_segment_def)
  ultimately show ?thesis
    using compression_respects_priority [OF c ordered, unfolded tight_collected tight_marked tight_budget] c
    by (fastforce simp: identity_segment_def hot_segment_def)
qed

definition demo_search_assembler :: context_assembler where
  "demo_search_assembler = with_search context_assembler_default
     (source_of (\<lambda>_. 5) (\<lambda>_. demo_rows) (search_adapter (\<lambda>_. ''database error'') (\<lambda>_. ''1'') demo_engine))"

lemma production_search_always_degraded_witness:
  "\<exists>c. assemble (\<lambda>_. ''1'') demo_library demo_search_assembler demo_plan demo_identity ''refund'' None = Inr c \<and>
     FromEnterpriseMemory \<in> set (ac_degraded_sources c) \<and> FromBusinessState \<in> set (ac_degraded_sources c)"
proof -
  have kw: "has_keyword (enterprise_params tenant user ''refund'')" "has_keyword (business_params tenant ''refund'')" for tenant user
    by (simp_all add: has_keyword_def enterprise_params_def business_params_def trim_refund)
  have asked: "fst (search_adapter (\<lambda>_. ''database error'') (\<lambda>_. ''1'') demo_engine p demo_rows) = Inl (SourceError ''database error'')"
    if "has_keyword p" for p
    using keyword_search_always_fails [OF that, of "\<lambda>_. ''1''" demo_engine demo_rows]
    by (auto simp: search_adapter_def map_err_def)
  have "collected (\<lambda>_. ''1'') demo_search_assembler demo_plan demo_identity ''refund'' None =
     [identity_segment ''User: u1, Tenant: t, Roles: lead'' ''identity'']"
    by (simp add: collected_def demo_search_assembler_def with_search_def context_assembler_default_def demo_identity_def
        demo_plan_def plan_for_intent_def build_identity_segments_def data_segments_def fetch_hot_def fetch_canonical_def
        fetch_shared_task_def fetch_agent_private_def fetch_enterprise_def fetch_business_state_def outcome_degraded_def
        outcome_empty_def source_of_def outcome_of_list_def asked kw)
  then obtain c where c: "assemble (\<lambda>_. ''1'') demo_library demo_search_assembler demo_plan demo_identity ''refund'' None = Inr c"
    using assemble_ordered [of "\<lambda>_. ''1''" demo_search_assembler demo_plan demo_identity "''refund''" None demo_library]
    by (auto simp: identity_ordered)
  have "trim ''refund'' \<noteq> []" by (simp add: trim_refund)
  moreover have "ca_search demo_search_assembler =
      Some (source_of (\<lambda>_. 5) (\<lambda>_. demo_rows) (search_adapter (\<lambda>_. ''database error'') (\<lambda>_. ''1'') demo_engine))"
    by (simp add: demo_search_assembler_def with_search_def)
  ultimately show ?thesis
    using production_search_always_degraded [OF _ _ c] c by (auto simp: demo_plan_def plan_for_intent_def)
qed

lemma conflict_flag_iff_witness:
  "\<exists>winner \<in> set [demo_segment ''on leave'' FromAgentPrivate, demo_segment ''on duty'' FromEnterpriseMemory].
     [''on duty''] = filter (\<lambda>t. t \<noteq> sg_text winner) [''on leave'', ''on duty'']"
proof -
  let ?segs = "[demo_segment ''on leave'' FromAgentPrivate, demo_segment ''on duty'' FromEnterpriseMemory]"
  let ?flag = "\<lparr>cf_field = ''u1'', cf_description = ''Authority L2_verified overrides 1 lower-authority value(s)'',
       cf_conflicting_values = [''on duty'']\<rparr>"
  have "show_nat (Suc 0) = ''1''" by code_simp
  then have "group_flag ''u1'' ?segs = Some ?flag"
    by (simp add: group_flag_def by_rank_def sort_by_def demo_segment_def Let_def)
  then have "\<exists>winner \<in> set ?segs. set (cf_conflicting_values ?flag) = sg_text ` set ?segs - {sg_text winner}"
    using conflict_flag_iff [of "''u1''" ?segs] by blast
  then show ?thesis by (auto simp: demo_segment_def)
qed

end
