(* ===== verification/Contract.thy ===== *)
theory Contract
  imports Json TextOps "HOL-Library.Word"
begin

text \<open>
  \<open>oris-memory-contract/src/lib.rs\<close>: the experience bundle exchanged with agents, a gene with
  its capsules and usage receipts, and its validation.  The constructors carry a prefix per
  enum.  The lemmas say what a validated bundle guarantees.
\<close>

section \<open>Enums\<close>

datatype experience_scope = EsLocal | EsProject | EsTenant | EsTeam | EsNetwork

datatype constraint_operator = OpEquals | OpNotEquals | OpContains | OpSemver | OpExists

datatype secret_handling = Redact | Reject | AllowReferencesOnly

datatype evidence_kind = EvTest | EvCommand | EvDiff | EvArtifact | EvHumanApproval

datatype validation_success_condition = CondAll | CondAny | CondHumanApproved

datatype lifecycle_state = LcCandidate | LcStable | LcDeprecated | LcQuarantined | LcRevoked

datatype outcome_status = OcSucceeded | OcFailed | OcSafetyFailed | OcInconclusive

datatype redaction_status = RdRedacted | RdVerifiedClean | RdContainsReferencesOnly | RdRejected

datatype adoption_status = AdAdopted | AdPartiallyAdopted | AdRejected | AdNotApplicable

text \<open>\<open>serde(rename_all = "snake_case")\<close>.\<close>

fun experience_scope_text :: "experience_scope \<Rightarrow> string" where
  "experience_scope_text EsLocal = ''local''"
| "experience_scope_text EsProject = ''project''"
| "experience_scope_text EsTenant = ''tenant''"
| "experience_scope_text EsTeam = ''team''"
| "experience_scope_text EsNetwork = ''network''"

fun lifecycle_text :: "lifecycle_state \<Rightarrow> string" where
  "lifecycle_text LcCandidate = ''candidate''"
| "lifecycle_text LcStable = ''stable''"
| "lifecycle_text LcDeprecated = ''deprecated''"
| "lifecycle_text LcQuarantined = ''quarantined''"
| "lifecycle_text LcRevoked = ''revoked''"

fun outcome_text :: "outcome_status \<Rightarrow> string" where
  "outcome_text OcSucceeded = ''succeeded''"
| "outcome_text OcFailed = ''failed''"
| "outcome_text OcSafetyFailed = ''safety_failed''"
| "outcome_text OcInconclusive = ''inconclusive''"

section \<open>Records\<close>

record environment_constraint =
  en_key :: string
  en_operator :: constraint_operator
  en_value :: json

record applicability =
  ap_required_signals :: "string list"
  ap_excluded_signals :: "string list"
  ap_environments :: "environment_constraint list"
  ap_project_ids :: "string list"
  ap_tenant_ids :: "string list"
  ap_do_not_use_when :: "string list"

record procedure_step =
  ps_id :: string
  ps_instruction :: string
  ps_tool :: "string option"
  ps_requires_approval :: bool
  ps_expected_output :: "string option"

record tool_requirement =
  tr_name :: string
  tr_minimum_version :: "string option"
  tr_required_permissions :: "string list"

record safety_constraints =
  sf_suggestion_only :: bool
  sf_forbidden_operations :: "string list"
  sf_required_approvals :: "string list"
  sf_secret_handling :: secret_handling

record validation_check =
  vc_id :: string
  vc_command_or_assertion :: string
  vc_evidence_kind :: evidence_kind
  vc_timeout_seconds :: "64 word option"

record validation_contract =
  va_checks :: "validation_check list"
  va_success_condition :: validation_success_condition

record provenance =
  pv_source_agent :: string
  pv_source_run_id :: string
  pv_trace_refs :: "string list"
  pv_extractor_version :: "string option"
  pv_verified_successes :: nat
  pv_verified_failures :: nat
  pv_distinct_task_contexts :: nat

record gene_v1 =
  g_id :: string
  g_version :: nat
  g_name :: string
  g_description :: string
  g_scope :: experience_scope
  g_task_category :: string
  g_applicability :: applicability
  g_steps :: "procedure_step list"
  g_tool_requirements :: "tool_requirement list"
  g_safety :: safety_constraints
  g_validation :: validation_contract
  g_provenance :: provenance
  g_lifecycle :: lifecycle_state
  g_created_at :: time
  g_updated_at :: time
  g_metadata :: "(string \<times> json) list"

record check_result =
  cr_check_id :: string
  cr_passed :: bool
  cr_evidence_ref :: "string option"

record validation_result =
  vr_status :: outcome_status
  vr_checks :: "check_result list"
  vr_summary :: "string option"

record capsule_v1 =
  cp_id :: string
  cp_gene_id :: string
  cp_gene_version :: nat
  cp_environment_fingerprint :: string
  cp_task_context_hash :: string
  cp_execution_evidence_hash :: string
  cp_validation :: validation_result
  cp_artifact_refs :: "string list"
  cp_redaction :: redaction_status
  cp_created_at :: time

text \<open>\<open>monetary_cost\<close> is a finite double.\<close>

record cost_metrics =
  cm_input_tokens :: "64 word option"
  cm_output_tokens :: "64 word option"
  cm_latency_ms :: "64 word option"
  cm_monetary_cost :: "rat option"
  cm_currency :: "string option"

record usage_receipt_v1 =
  ur_id :: string
  ur_gene_id :: string
  ur_gene_version :: nat
  ur_agent_id :: string
  ur_run_id :: string
  ur_task_context_hash :: string
  ur_adoption :: adoption_status
  ur_applied_step_ids :: "string list"
  ur_outcome :: outcome_status
  ur_failure_reason :: "string option"
  ur_test_evidence_refs :: "string list"
  ur_cost :: "cost_metrics option"
  ur_created_at :: time

record experience_bundle_v1 =
  eb_schema_version :: string
  eb_gene :: gene_v1
  eb_capsules :: "capsule_v1 list"
  eb_usage_receipts :: "usage_receipt_v1 list"

section \<open>Validation\<close>

definition EXPERIENCE_BUNDLE_V1 :: string where
  "EXPERIENCE_BUNDLE_V1 = ''oris.experience.bundle/v1''"

datatype contract_error =
    UnsupportedSchema string
  | MissingRequiredField string
  | InvalidValue string
  | BrokenReference string
  | InvalidPromotionEvidence
  | MissingValidationEvidence

definition gene_validate :: "gene_v1 \<Rightarrow> contract_error + unit" where
  "gene_validate g =
     (if trim (g_id g) = [] \<or> trim (g_name g) = [] \<or> trim (g_task_category g) = []
      then Inl (MissingRequiredField ''gene identity'')
      else if g_version g = 0 then Inl (InvalidValue ''version must be >= 1'')
      else if g_steps g = [] \<or> va_checks (g_validation g) = []
      then Inl (MissingRequiredField ''steps and validation.checks'')
      else if \<not> sf_suggestion_only (g_safety g)
      then Inl (InvalidValue ''v1 engineering experiences must remain suggestion_only'')
      else if g_lifecycle g = LcStable \<and>
              (pv_verified_successes (g_provenance g) < 3 \<or> pv_distinct_task_contexts (g_provenance g) < 2)
      then Inl InvalidPromotionEvidence
      else Inr ())"

definition capsule_validate :: "capsule_v1 \<Rightarrow> contract_error + unit" where
  "capsule_validate c =
     (if trim (cp_execution_evidence_hash c) = [] \<or> trim (cp_task_context_hash c) = []
      then Inl (MissingRequiredField ''capsule evidence hashes'') else Inr ())"

definition receipt_validate :: "usage_receipt_v1 \<Rightarrow> contract_error + unit" where
  "receipt_validate r =
     (if ur_adoption r = AdAdopted \<and> ur_outcome r = OcSucceeded \<and> ur_test_evidence_refs r = []
      then Inl MissingValidationEvidence else Inr ())"

fun validate_capsules :: "gene_v1 \<Rightarrow> capsule_v1 list \<Rightarrow> contract_error + unit" where
  "validate_capsules g [] = Inr ()"
| "validate_capsules g (c # cs) =
     (if cp_gene_id c \<noteq> g_id g \<or> cp_gene_version c \<noteq> g_version g then Inl (BrokenReference (cp_id c))
      else case capsule_validate c of Inl e \<Rightarrow> Inl e | Inr _ \<Rightarrow> validate_capsules g cs)"

fun validate_receipts :: "gene_v1 \<Rightarrow> usage_receipt_v1 list \<Rightarrow> contract_error + unit" where
  "validate_receipts g [] = Inr ()"
| "validate_receipts g (r # rs) =
     (if ur_gene_id r \<noteq> g_id g \<or> ur_gene_version r \<noteq> g_version g then Inl (BrokenReference (ur_id r))
      else case receipt_validate r of Inl e \<Rightarrow> Inl e | Inr _ \<Rightarrow> validate_receipts g rs)"

definition bundle_validate :: "experience_bundle_v1 \<Rightarrow> contract_error + unit" where
  "bundle_validate b =
     (if eb_schema_version b \<noteq> EXPERIENCE_BUNDLE_V1 then Inl (UnsupportedSchema (eb_schema_version b))
      else case gene_validate (eb_gene b) of
             Inl e \<Rightarrow> Inl e
           | Inr _ \<Rightarrow> (case validate_capsules (eb_gene b) (eb_capsules b) of
                          Inl e \<Rightarrow> Inl e
                        | Inr _ \<Rightarrow> validate_receipts (eb_gene b) (eb_usage_receipts b)))"

section \<open>What validation guarantees\<close>

lemma validate_capsules_ok:
  "validate_capsules g cs = Inr () \<longleftrightarrow>
     (\<forall>c \<in> set cs. cp_gene_id c = g_id g \<and> cp_gene_version c = g_version g \<and> capsule_validate c = Inr ())"
  by (induction cs) (auto split: sum.splits)

lemma validate_receipts_ok:
  "validate_receipts g rs = Inr () \<longleftrightarrow>
     (\<forall>r \<in> set rs. ur_gene_id r = g_id g \<and> ur_gene_version r = g_version g \<and> receipt_validate r = Inr ())"
  by (induction rs) (auto split: sum.splits)

lemma bundle_validate_ok:
  "bundle_validate b = Inr () \<longleftrightarrow>
     eb_schema_version b = EXPERIENCE_BUNDLE_V1 \<and> gene_validate (eb_gene b) = Inr () \<and>
     validate_capsules (eb_gene b) (eb_capsules b) = Inr () \<and>
     validate_receipts (eb_gene b) (eb_usage_receipts b) = Inr ()"
  by (auto simp: bundle_validate_def split: sum.splits)

end
