(* ===== verification/ExperienceStore.thy ===== *)
theory ExperienceStore
  imports Contract Schema
begin

text \<open>
  \<open>control_plane.rs\<close>: the governed store of experience genes in SQLite, with their capsules,
  usage receipts and use sessions, and the lifecycle a gene runs through.  A JSON payload is
  the record it encodes.  The lemmas state how outcomes move a gene through its lifecycle,
  and which of the guarantees named in the source hold: a sharing scope wider than the
  project needs a promotion, but a revoked or quarantined gene does not stay so, and a
  proposal can overwrite a gene and make it stable by itself.
\<close>

section \<open>The database\<close>

record gene_row =
  xg_gene_id :: string
  xg_version :: nat
  xg_lifecycle :: string
  xg_task_category :: string
  xg_scope :: string
  xg_payload :: gene_v1
  xg_created_at :: time
  xg_updated_at :: time

record capsule_row =
  xc_capsule_id :: string
  xc_gene_id :: string
  xc_gene_version :: nat
  xc_task_context_hash :: string
  xc_payload :: capsule_v1
  xc_created_at :: time

record receipt_row =
  xr_receipt_id :: string
  xr_gene_id :: string
  xr_gene_version :: nat
  xr_task_context_hash :: string
  xr_outcome :: string
  xr_payload :: usage_receipt_v1
  xr_created_at :: time

record session_row =
  xs_session_id :: string
  xs_gene_id :: string
  xs_gene_version :: nat
  xs_agent_id :: string
  xs_run_id :: string
  xs_task_context_hash :: string
  xs_started_at :: time
  xs_completed_at :: "time option"

record expstore = env +
  exp_genes :: "gene_row list"
  exp_capsules :: "capsule_row list"
  exp_receipts :: "receipt_row list"
  exp_sessions :: "session_row list"

section \<open>Errors and results\<close>

text \<open>
  The text of \<open>Contract\<close> is the debug form of a contract error or a message of the store.
\<close>

datatype control_plane_error =
    CpContract "contract_error + string"
  | CpNotFound string
  | GovernanceRequired
  | InvalidTransition string
  | CpStorage db_error
  | CpSerialization

record use_session =
  us_id :: string
  us_gene_id :: string
  us_gene_version :: nat
  us_agent_id :: string
  us_run_id :: string
  us_task_context_hash :: string
  us_started_at :: time

type_synonym 'a exp_op = "(expstore, control_plane_error, 'a) op"

definition check_contract :: "contract_error + unit \<Rightarrow> unit exp_op" where
  "check_contract r = (case r of Inl e \<Rightarrow> throw (CpContract (Inl e)) | Inr _ \<Rightarrow> ret ())"

section \<open>Statements\<close>

definition row_of_gene :: "gene_v1 \<Rightarrow> gene_row" where
  "row_of_gene g = \<lparr>xg_gene_id = g_id g, xg_version = g_version g, xg_lifecycle = lifecycle_text (g_lifecycle g),
     xg_task_category = g_task_category g, xg_scope = experience_scope_text (g_scope g), xg_payload = g,
     xg_created_at = g_created_at g, xg_updated_at = g_updated_at g\<rparr>"

text \<open>\<open>ON CONFLICT (gene_id, version) DO UPDATE\<close> keeps the row's \<open>created_at\<close>.\<close>

definition same_gene :: "string \<Rightarrow> nat \<Rightarrow> gene_row \<Rightarrow> bool" where
  "same_gene i v r \<longleftrightarrow> xg_gene_id r = i \<and> xg_version r = v"

definition upsert_rows :: "gene_v1 \<Rightarrow> gene_row list \<Rightarrow> gene_row list" where
  "upsert_rows g rows =
     (if list_ex (same_gene (g_id g) (g_version g)) rows
      then sql_update (same_gene (g_id g) (g_version g)) (\<lambda>r. (row_of_gene g)\<lparr>xg_created_at := xg_created_at r\<rparr>) rows
      else rows @ [row_of_gene g])"

definition upsert_gene :: "gene_v1 \<Rightarrow> unit exp_op" where
  "upsert_gene g = map_err CpStorage (exec (modify (\<lambda>s. s\<lparr>exp_genes := upsert_rows g (exp_genes s)\<rparr>)))"

definition get_gene :: "string \<Rightarrow> nat option \<Rightarrow> gene_v1 exp_op" where
  "get_gene i version =
     bindE (map_err CpStorage (exec (gets (\<lambda>s.
        case version of
          Some v \<Rightarrow> find (same_gene i v) (exp_genes s)
        | None \<Rightarrow> (case order_desc (\<lambda>r. int (xg_version r)) (filter (\<lambda>r. xg_gene_id r = i) (exp_genes s)) of
                     [] \<Rightarrow> None | r # _ \<Rightarrow> Some r))))) (\<lambda>row.
     ok_or (map_option xg_payload row) (CpNotFound i))"

definition get_capsule :: "string \<Rightarrow> capsule_v1 exp_op" where
  "get_capsule i =
     bindE (map_err CpStorage (exec (gets (\<lambda>s. find (\<lambda>r. xc_capsule_id r = i) (exp_capsules s))))) (\<lambda>row.
     ok_or (map_option xc_payload row) (CpNotFound i))"

text \<open>\<open>INSERT OR IGNORE\<close> on the primary key.\<close>

definition insert_capsule :: "capsule_v1 \<Rightarrow> unit exp_op" where
  "insert_capsule c = map_err CpStorage (exec (modify (\<lambda>s.
     if cp_id c \<in> xc_capsule_id ` set (exp_capsules s) then s
     else s\<lparr>exp_capsules := exp_capsules s @ [\<lparr>xc_capsule_id = cp_id c, xc_gene_id = cp_gene_id c,
            xc_gene_version = cp_gene_version c, xc_task_context_hash = cp_task_context_hash c,
            xc_payload = c, xc_created_at = cp_created_at c\<rparr>]\<rparr>)))"

definition row_of_receipt :: "usage_receipt_v1 \<Rightarrow> receipt_row" where
  "row_of_receipt r = \<lparr>xr_receipt_id = ur_id r, xr_gene_id = ur_gene_id r, xr_gene_version = ur_gene_version r,
     xr_task_context_hash = ur_task_context_hash r, xr_outcome = outcome_text (ur_outcome r),
     xr_payload = r, xr_created_at = ur_created_at r\<rparr>"

definition insert_receipt :: "usage_receipt_v1 \<Rightarrow> unit exp_op" where
  "insert_receipt r = map_err CpStorage (exec (\<lambda>s.
     if ur_id r \<in> xr_receipt_id ` set (exp_receipts s) then (Inl DbError, s)
     else (Inr (), s\<lparr>exp_receipts := exp_receipts s @ [row_of_receipt r]\<rparr>)))"

definition complete_sessions :: "usage_receipt_v1 \<Rightarrow> time \<Rightarrow> unit exp_op" where
  "complete_sessions r now = map_err CpStorage (exec (modify (\<lambda>s. s\<lparr>exp_sessions :=
     sql_update (\<lambda>x. xs_gene_id x = ur_gene_id r \<and> xs_gene_version x = ur_gene_version r \<and> xs_run_id x = ur_run_id r)
       (\<lambda>x. x\<lparr>xs_completed_at := Some now\<rparr>) (exp_sessions s)\<rparr>)))"

section \<open>Outcome statistics\<close>

record outcome_tally =
  ot_successes :: nat
  ot_failures :: nat
  ot_contexts :: "string list"
  ot_consecutive :: nat

definition tally_step :: "outcome_tally \<Rightarrow> receipt_row \<Rightarrow> outcome_tally" where
  "tally_step t r =
     (let t' = t\<lparr>ot_contexts := List.insert (xr_task_context_hash r) (ot_contexts t)\<rparr> in
      if xr_outcome r = ''succeeded'' then t'\<lparr>ot_successes := ot_successes t + 1, ot_consecutive := 0\<rparr>
      else if xr_outcome r = ''failed'' \<or> xr_outcome r = ''safety_failed''
      then t'\<lparr>ot_failures := ot_failures t + 1, ot_consecutive := ot_consecutive t + 1\<rparr>
      else t')"

definition empty_tally :: outcome_tally where
  "empty_tally = \<lparr>ot_successes = 0, ot_failures = 0, ot_contexts = [], ot_consecutive = 0\<rparr>"

definition outcomes_of :: "string \<Rightarrow> nat \<Rightarrow> receipt_row list \<Rightarrow> receipt_row list" where
  "outcomes_of i v rows = sort_key xr_created_at (filter (\<lambda>r. xr_gene_id r = i \<and> xr_gene_version r = v) rows)"

definition outcome_stats :: "string \<Rightarrow> nat \<Rightarrow> (nat \<times> nat \<times> nat \<times> nat) exp_op" where
  "outcome_stats i v =
     bindE (map_err CpStorage (exec (gets (\<lambda>s. outcomes_of i v (exp_receipts s))))) (\<lambda>rows.
     let t = foldl tally_step empty_tally rows in
     ret (ot_successes t, ot_failures t, length (ot_contexts t), ot_consecutive t))"

section \<open>Operations\<close>

definition apply_outcome :: "outcome_status \<Rightarrow> nat \<times> nat \<times> nat \<times> nat \<Rightarrow> time \<Rightarrow> gene_v1 \<Rightarrow> gene_v1" where
  "apply_outcome outcome stats now g =
     (let (successes, failures, contexts, consecutive_failures) = stats;
          g' = g\<lparr>g_provenance := (g_provenance g)\<lparr>pv_verified_successes := successes,
                   pv_verified_failures := failures, pv_distinct_task_contexts := contexts\<rparr>,
                 g_updated_at := now\<rparr>
      in if outcome = OcSafetyFailed then g'\<lparr>g_lifecycle := LcQuarantined\<rparr>
         else if consecutive_failures \<ge> 2 then g'\<lparr>g_lifecycle := LcCandidate\<rparr>
         else if successes \<ge> 3 \<and> contexts \<ge> 2 \<and> failures = 0 then g'\<lparr>g_lifecycle := LcStable\<rparr>
         else g')"

definition check_capsule :: "usage_receipt_v1 \<Rightarrow> capsule_v1 \<Rightarrow> unit exp_op" where
  "check_capsule receipt capsule =
     bindE (check_contract (capsule_validate capsule)) (\<lambda>_.
     if cp_gene_id capsule \<noteq> ur_gene_id receipt \<or> cp_gene_version capsule \<noteq> ur_gene_version receipt \<or>
        cp_task_context_hash capsule \<noteq> ur_task_context_hash receipt
     then throw (CpContract (Inr ''capsule and receipt references differ''))
     else insert_capsule capsule)"

definition record_outcome :: "usage_receipt_v1 \<Rightarrow> capsule_v1 option \<Rightarrow> gene_v1 exp_op" where
  "record_outcome receipt capsule =
     bindE (check_contract (receipt_validate receipt)) (\<lambda>_.
     bindE (get_gene (ur_gene_id receipt) (Some (ur_gene_version receipt))) (\<lambda>gene.
     bindE (case capsule of None \<Rightarrow> ret () | Some c \<Rightarrow> check_capsule receipt c) (\<lambda>_.
     bindE (insert_receipt receipt) (\<lambda>_.
     bindE utc_now (\<lambda>done_at.
     bindE (complete_sessions receipt done_at) (\<lambda>_.
     bindE (outcome_stats (g_id gene) (g_version gene)) (\<lambda>stats.
     bindE utc_now (\<lambda>now.
     let gene' = apply_outcome (ur_outcome receipt) stats now gene in
     bindE (upsert_gene gene') (\<lambda>_. ret gene')))))))))"

fun insert_capsules :: "capsule_v1 list \<Rightarrow> unit exp_op" where
  "insert_capsules [] = ret ()"
| "insert_capsules (c # cs) = bindE (insert_capsule c) (\<lambda>_. insert_capsules cs)"

fun record_outcomes :: "usage_receipt_v1 list \<Rightarrow> unit exp_op" where
  "record_outcomes [] = ret ()"
| "record_outcomes (r # rs) = bindE (record_outcome r None) (\<lambda>_. record_outcomes rs)"

definition propose :: "experience_bundle_v1 \<Rightarrow> gene_v1 exp_op" where
  "propose bundle =
     bindE (check_contract (bundle_validate bundle)) (\<lambda>_.
     bindE utc_now (\<lambda>now.
     let g0 = eb_gene bundle;
         gene = g0\<lparr>g_lifecycle := LcCandidate,
                  g_scope := (if g_scope g0 = EsTeam \<or> g_scope g0 = EsNetwork then EsLocal else g_scope g0),
                  g_updated_at := now\<rparr> in
     bindE (upsert_gene gene) (\<lambda>_.
     bindE (insert_capsules (eb_capsules bundle)) (\<lambda>_.
     bindE (record_outcomes (eb_usage_receipts bundle)) (\<lambda>_.
     ret gene)))))"

definition experience_bundle :: "string \<Rightarrow> nat option \<Rightarrow> experience_bundle_v1 exp_op" where
  "experience_bundle i version =
     bindE (get_gene i version) (\<lambda>gene.
     bindE (map_err CpStorage (exec (gets (\<lambda>s. map xc_payload (sort_key xc_created_at
        (filter (\<lambda>r. xc_gene_id r = g_id gene \<and> xc_gene_version r = g_version gene) (exp_capsules s))))))) (\<lambda>capsules.
     bindE (map_err CpStorage (exec (gets (\<lambda>s. map xr_payload (outcomes_of (g_id gene) (g_version gene) (exp_receipts s)))))) (\<lambda>receipts.
     ret \<lparr>eb_schema_version = EXPERIENCE_BUNDLE_V1, eb_gene = gene, eb_capsules = capsules,
          eb_usage_receipts = receipts\<rparr>)))"

definition begin_use :: "string \<Rightarrow> nat \<Rightarrow> string \<Rightarrow> string \<Rightarrow> string \<Rightarrow> use_session exp_op" where
  "begin_use gene_id version agent_id run_id task_context_hash =
     bindE (get_gene gene_id (Some version)) (\<lambda>_.
     bindE new_v4 (\<lambda>i.
     bindE utc_now (\<lambda>now.
     bindE (map_err CpStorage (exec (\<lambda>s.
        if i \<in> xs_session_id ` set (exp_sessions s) then (Inl DbError, s)
        else (Inr (), s\<lparr>exp_sessions := exp_sessions s @ [\<lparr>xs_session_id = i, xs_gene_id = gene_id,
               xs_gene_version = version, xs_agent_id = agent_id, xs_run_id = run_id,
               xs_task_context_hash = task_context_hash, xs_started_at = now, xs_completed_at = None\<rparr>]\<rparr>)))) (\<lambda>_.
     ret \<lparr>us_id = i, us_gene_id = gene_id, us_gene_version = version, us_agent_id = agent_id,
          us_run_id = run_id, us_task_context_hash = task_context_hash, us_started_at = now\<rparr>))))"

definition promote_gene :: "string \<Rightarrow> nat \<Rightarrow> experience_scope \<Rightarrow> bool \<Rightarrow> gene_v1 exp_op" where
  "promote_gene i version sc governance =
     (if \<not> governance then throw GovernanceRequired
      else
     bindE (get_gene i (Some version)) (\<lambda>gene.
     if g_lifecycle gene \<noteq> LcStable then throw (InvalidTransition ''only stable genes can be published'')
     else
     bindE utc_now (\<lambda>now.
     let gene' = gene\<lparr>g_scope := sc, g_updated_at := now\<rparr> in
     bindE (upsert_gene gene') (\<lambda>_. ret gene'))))"

definition revoke_gene :: "string \<Rightarrow> nat \<Rightarrow> bool \<Rightarrow> bool \<Rightarrow> gene_v1 exp_op" where
  "revoke_gene i version quarantine governance =
     (if \<not> governance then throw GovernanceRequired
      else
     bindE (get_gene i (Some version)) (\<lambda>gene.
     bindE utc_now (\<lambda>now.
     let gene' = gene\<lparr>g_lifecycle := (if quarantine then LcQuarantined else LcRevoked), g_updated_at := now\<rparr> in
     bindE (upsert_gene gene') (\<lambda>_. ret gene'))))"

section \<open>The statistics, declaratively\<close>

definition succeeded :: "receipt_row \<Rightarrow> bool" where
  "succeeded r \<longleftrightarrow> xr_outcome r = ''succeeded''"

definition failing :: "receipt_row \<Rightarrow> bool" where
  "failing r \<longleftrightarrow> xr_outcome r = ''failed'' \<or> xr_outcome r = ''safety_failed''"

text \<open>The failures since the last success; inconclusive outcomes do not interrupt them.\<close>

definition trailing_failures :: "receipt_row list \<Rightarrow> nat" where
  "trailing_failures rows = length (takeWhile failing (rev (filter (\<lambda>r. failing r \<or> succeeded r) rows)))"

lemma tally_step_fields:
  "ot_successes (tally_step t r) = ot_successes t + (if succeeded r then 1 else 0)"
  "ot_failures (tally_step t r) = ot_failures t + (if failing r then 1 else 0)"
  "ot_contexts (tally_step t r) = List.insert (xr_task_context_hash r) (ot_contexts t)"
  "ot_consecutive (tally_step t r) = (if succeeded r then 0 else if failing r then ot_consecutive t + 1 else ot_consecutive t)"
  by (auto simp: tally_step_def Let_def succeeded_def failing_def)

lemma succeeded_not_failing: "succeeded r \<Longrightarrow> \<not> failing r"
  by (auto simp: succeeded_def failing_def)

lemma tally_snoc: "foldl tally_step t (rows @ [r]) = tally_step (foldl tally_step t rows) r"
  by simp

theorem tally_spec:
  "ot_successes (foldl tally_step empty_tally rows) = length (filter succeeded rows) \<and>
   ot_failures (foldl tally_step empty_tally rows) = length (filter failing rows) \<and>
   length (ot_contexts (foldl tally_step empty_tally rows)) = card (xr_task_context_hash ` set rows) \<and>
   ot_consecutive (foldl tally_step empty_tally rows) = trailing_failures rows"
proof -
  have "ot_successes (foldl tally_step empty_tally rows) = length (filter succeeded rows) \<and>
   ot_failures (foldl tally_step empty_tally rows) = length (filter failing rows) \<and>
   set (ot_contexts (foldl tally_step empty_tally rows)) = xr_task_context_hash ` set rows \<and>
   distinct (ot_contexts (foldl tally_step empty_tally rows)) \<and>
   ot_consecutive (foldl tally_step empty_tally rows) = trailing_failures rows"
  proof (induction rows rule: rev_induct)
    case Nil
    then show ?case by (simp add: empty_tally_def trailing_failures_def)
  next
    case (snoc r rows)
    then show ?case
      unfolding tally_snoc
      by (simp add: tally_step_fields trailing_failures_def succeeded_not_failing)
  qed
  then show ?thesis using distinct_card by metis
qed

lemma apply_outcome_lifecycle:
  "g_lifecycle (apply_outcome outcome (successes, failures, contexts, consecutive) now g) =
     (if outcome = OcSafetyFailed then LcQuarantined
      else if consecutive \<ge> 2 then LcCandidate
      else if successes \<ge> 3 \<and> contexts \<ge> 2 \<and> failures = 0 then LcStable
      else g_lifecycle g)"
  by (simp add: apply_outcome_def Let_def)

lemma apply_outcome_identity [simp]:
  "g_id (apply_outcome outcome stats now g) = g_id g"
  "g_version (apply_outcome outcome stats now g) = g_version g"
  "g_scope (apply_outcome outcome stats now g) = g_scope g"
  by (cases stats; simp add: apply_outcome_def Let_def)+

section \<open>The columns of a row are those of its payload\<close>

definition gene_row_ok :: "gene_row \<Rightarrow> bool" where
  "gene_row_ok r \<longleftrightarrow> xg_gene_id r = g_id (xg_payload r) \<and> xg_version r = g_version (xg_payload r) \<and>
     xg_lifecycle r = lifecycle_text (g_lifecycle (xg_payload r)) \<and>
     xg_scope r = experience_scope_text (g_scope (xg_payload r)) \<and>
     xg_task_category r = g_task_category (xg_payload r)"

definition exp_wf :: "expstore \<Rightarrow> bool" where
  "exp_wf s \<longleftrightarrow> (\<forall>r \<in> set (exp_genes s). gene_row_ok r) \<and>
     distinct (map (\<lambda>r. (xg_gene_id r, xg_version r)) (exp_genes s)) \<and>
     distinct (map xr_receipt_id (exp_receipts s)) \<and> distinct (map xc_capsule_id (exp_capsules s)) \<and>
     (\<forall>r \<in> set (exp_receipts s). r = row_of_receipt (xr_payload r))"

lemma gene_row_ok_row: "gene_row_ok (row_of_gene g)" "gene_row_ok ((row_of_gene g)\<lparr>xg_created_at := t\<rparr>)"
  by (simp_all add: gene_row_ok_def row_of_gene_def)

lemma same_gene_upsert: "same_gene (g_id g) (g_version g) ((row_of_gene g)\<lparr>xg_created_at := t\<rparr>)"
  by (simp add: same_gene_def row_of_gene_def)

lemma upsert_rows_ok:
  "\<forall>r \<in> set rows. gene_row_ok r \<Longrightarrow> \<forall>r \<in> set (upsert_rows g rows). gene_row_ok r"
  by (auto simp: upsert_rows_def sql_update_def gene_row_ok_row)

lemma upsert_rows_distinct:
  assumes "distinct (map (\<lambda>r. (xg_gene_id r, xg_version r)) rows)"
  shows "distinct (map (\<lambda>r. (xg_gene_id r, xg_version r)) (upsert_rows g rows))"
proof (cases "list_ex (same_gene (g_id g) (g_version g)) rows")
  case True
  have "map (\<lambda>r. (xg_gene_id r, xg_version r)) (upsert_rows g rows) = map (\<lambda>r. (xg_gene_id r, xg_version r)) rows"
    using True by (simp add: upsert_rows_def sql_update_def same_gene_def row_of_gene_def)
  then show ?thesis using assms by simp
next
  case False
  then show ?thesis using assms
    by (auto simp: upsert_rows_def row_of_gene_def same_gene_def list_ex_iff)
qed

section \<open>Laws of the store, kept by every operation\<close>

text \<open>
  \<open>P\<close> is a predicate of the store and \<open>ok\<close> what it demands of every stored gene; the laws are
  about single statements, and every operation that does not promote keeps \<open>P\<close>.
\<close>

locale store_law =
  fixes P :: "expstore \<Rightarrow> bool" and ok :: "gene_v1 \<Rightarrow> bool"
  assumes tick: "P s \<Longrightarrow> P (s\<lparr>tick := t\<rparr>)"
    and upsert: "P s \<Longrightarrow> ok g \<Longrightarrow> P (s\<lparr>exp_genes := upsert_rows g (exp_genes s)\<rparr>)"
    and capsules: "P s \<Longrightarrow> xc_capsule_id c \<notin> xc_capsule_id ` set (exp_capsules s) \<Longrightarrow>
          P (s\<lparr>exp_capsules := exp_capsules s @ [c]\<rparr>)"
    and receipts: "P s \<Longrightarrow> ur_id u \<notin> xr_receipt_id ` set (exp_receipts s) \<Longrightarrow>
          P (s\<lparr>exp_receipts := exp_receipts s @ [row_of_receipt u]\<rparr>)"
    and sessions: "P s \<Longrightarrow> P (s\<lparr>exp_sessions := xs\<rparr>)"
    and stored: "P s \<Longrightarrow> r \<in> set (exp_genes s) \<Longrightarrow> ok (xg_payload r)"
    and outcome: "ok g \<Longrightarrow> ok (apply_outcome oc stats now g)"
    and proposal: "ok (g\<lparr>g_lifecycle := LcCandidate,
          g_scope := (if g_scope g = EsTeam \<or> g_scope g = EsNetwork then EsLocal else g_scope g), g_updated_at := now\<rparr>)"
    and revocation: "ok g \<Longrightarrow> ok (g\<lparr>g_lifecycle := lc, g_updated_at := now\<rparr>)"
begin

lemma keeps_statement: "keeps P f \<Longrightarrow> keeps P (exec f)"
  by (rule keeps_exec) (rule tick)

lemma keeps_time: "keeps P utc_now" "keeps P new_v4"
  by (auto intro!: keepsI simp: utc_now_def new_v4_def tick)

lemma upsert_gene: "ok g \<Longrightarrow> keeps P (upsert_gene g)"
  unfolding upsert_gene_def by (intro keep_intros keeps_statement upsert)

lemma insert_capsule: "keeps P (insert_capsule c)"
  unfolding insert_capsule_def by (intro keep_intros keeps_statement) (auto intro!: capsules)

lemma insert_capsules: "keeps P (insert_capsules cs)"
  by (induction cs) (auto intro!: keep_intros insert_capsule)

lemma insert_receipt: "keeps P (insert_receipt r)"
  unfolding insert_receipt_def by (intro keep_intros keeps_statement keepsI) (auto intro!: receipts split: if_splits)

lemma complete_sessions: "keeps P (complete_sessions r now)"
  unfolding complete_sessions_def by (intro keep_intros keeps_statement sessions)

lemma outcome_stats: "keeps P (outcome_stats i v)"
  unfolding outcome_stats_def Let_def by (intro keep_intros keeps_statement)

lemma check_contract: "keeps P (check_contract r)"
  unfolding check_contract_def by (intro keep_intros)

lemma check_capsule: "keeps P (check_capsule r c)"
  unfolding check_capsule_def by (intro keep_intros check_contract insert_capsule)

lemma get_gene: "keeps P (get_gene i v)"
  unfolding get_gene_def by (intro keep_intros keeps_statement)

end

lemma order_desc_Cons: "order_desc k rows = r # rest \<Longrightarrow> r \<in> set rows"
  by (metis list.set_intros(1) set_order_desc)

lemma get_gene_stored:
  assumes "get_gene i v s = (Inr g, t)"
  shows "\<exists>r \<in> set (exp_genes s). xg_payload r = g"
proof -
  obtain row s' where q: "map_err CpStorage (exec (gets (\<lambda>s.
        case v of Some n \<Rightarrow> find (same_gene i n) (exp_genes s)
        | None \<Rightarrow> (case order_desc (\<lambda>r. int (xg_version r)) (filter (\<lambda>r. xg_gene_id r = i) (exp_genes s)) of
                     [] \<Rightarrow> None | r # _ \<Rightarrow> Some r)))) s = (Inr row, s')"
    and g: "ok_or (map_option xg_payload row) (CpNotFound i) s' = (Inr g, t)"
    using assms unfolding get_gene_def by (elim bindE_InrE)
  obtain r where r: "row = Some r" "xg_payload r = g"
    using g by (auto simp: ok_or_def throw_def ret_def split: option.splits)
  have "r \<in> set (exp_genes s)"
    using q r(1)
    by (auto simp: gets_def dest!: find_Some_in_set order_desc_Cons elim!: exec_InrE split: option.splits list.splits)
  then show ?thesis using r(2) by blast
qed

context store_law begin

lemma with_gene:
  assumes "\<And>g. ok g \<Longrightarrow> keeps P (f g)"
  shows "keeps P (bindE (get_gene i v) f)"
proof (rule keepsI)
  fix s r t assume P: "P s" and run: "bindE (get_gene i v) f s = (r, t)"
  from run show "P t"
  proof (cases rule: bindE_E)
    case (err e)
    then show ?thesis using keepsD [OF get_gene P] by blast
  next
    case (step g s')
    then have "ok g" using get_gene_stored stored [OF P] by blast
    then show ?thesis using keepsD [OF assms keepsD [OF get_gene P step(1)] step(2)] by blast
  qed
qed

lemma record_outcome: "keeps P (record_outcome r c)"
  unfolding record_outcome_def Let_def
  by (intro keep_intros with_gene check_contract check_capsule insert_receipt keeps_time complete_sessions
      outcome_stats upsert_gene outcome)

lemma record_outcomes: "keeps P (record_outcomes rs)"
  by (induction rs) (auto intro!: keep_intros record_outcome)

lemma propose: "keeps P (propose b)"
  unfolding propose_def Let_def
  by (intro keep_intros check_contract keeps_time upsert_gene proposal insert_capsules record_outcomes)

lemma revoke_gene: "keeps P (revoke_gene i v quarantine governance)"
  unfolding revoke_gene_def Let_def
  by (intro keep_intros with_gene keeps_time upsert_gene) (rule revocation)

lemma begin_use: "keeps P (begin_use i v a run ctx)"
  unfolding begin_use_def
  by (intro keep_intros get_gene keeps_time keeps_statement keepsI) (auto intro: sessions split: if_splits)

lemma experience_bundle: "keeps P (experience_bundle i v)"
  unfolding experience_bundle_def by (intro keep_intros get_gene keeps_statement)

lemma get_capsule: "keeps P (get_capsule i)"
  unfolding get_capsule_def by (intro keep_intros keeps_statement)

end

section \<open>The two laws\<close>

interpretation columns: store_law exp_wf "\<lambda>_. True"
proof
  show "exp_wf s \<Longrightarrow> exp_wf (s\<lparr>exp_receipts := exp_receipts s @ [row_of_receipt u]\<rparr>)"
    if "ur_id u \<notin> xr_receipt_id ` set (exp_receipts s)" for s u
    using that by (auto simp: exp_wf_def row_of_receipt_def)
qed (auto simp: exp_wf_def upsert_rows_ok upsert_rows_distinct)

text \<open>Not shared beyond the tenant.\<close>

definition narrow :: "gene_v1 \<Rightarrow> bool" where
  "narrow g \<longleftrightarrow> g_scope g \<noteq> EsTeam \<and> g_scope g \<noteq> EsNetwork"

definition all_narrow :: "expstore \<Rightarrow> bool" where
  "all_narrow s \<longleftrightarrow> (\<forall>r \<in> set (exp_genes s). narrow (xg_payload r))"

lemma payload_upsert: "r \<in> set (upsert_rows g rows) \<Longrightarrow> r \<in> set rows \<or> xg_payload r = g"
  by (auto simp: upsert_rows_def sql_update_def row_of_gene_def split: if_splits)

interpretation sharing: store_law all_narrow narrow
proof
  show "all_narrow s \<Longrightarrow> narrow g \<Longrightarrow> all_narrow (s\<lparr>exp_genes := upsert_rows g (exp_genes s)\<rparr>)" for s g
    by (auto simp: all_narrow_def dest: payload_upsert)
qed (auto simp: all_narrow_def narrow_def)

text \<open>One call of the store: those open to agents, and those that need governance.\<close>

inductive agent_step :: "expstore \<Rightarrow> expstore \<Rightarrow> bool" where
  step_propose: "propose b s = (r, s') \<Longrightarrow> agent_step s s'"
| step_outcome: "record_outcome u c s = (r, s') \<Longrightarrow> agent_step s s'"
| step_use: "begin_use i v a run ctx s = (r, s') \<Longrightarrow> agent_step s s'"
| step_get: "get_gene i ov s = (r, s') \<Longrightarrow> agent_step s s'"
| step_capsule: "get_capsule i s = (r, s') \<Longrightarrow> agent_step s s'"
| step_bundle: "experience_bundle i ov s = (r, s') \<Longrightarrow> agent_step s s'"
| step_revoke: "revoke_gene i v quarantine governance s = (r, s') \<Longrightarrow> agent_step s s'"

inductive exp_step :: "expstore \<Rightarrow> expstore \<Rightarrow> bool" where
  step_agent: "agent_step s s' \<Longrightarrow> exp_step s s'"
| step_promote: "promote_gene i v sc governance s = (r, s') \<Longrightarrow> exp_step s s'"

context store_law begin

lemma agent_step: "agent_step s s' \<Longrightarrow> P s \<Longrightarrow> P s'"
  by (erule agent_step.cases)
     (auto dest: keepsD [OF propose] keepsD [OF record_outcome] keepsD [OF begin_use] keepsD [OF get_gene]
       keepsD [OF get_capsule] keepsD [OF experience_bundle] keepsD [OF revoke_gene])

lemma agent_run: "agent_step\<^sup>*\<^sup>* s s' \<Longrightarrow> P s \<Longrightarrow> P s'"
  by (induction rule: rtranclp_induct) (auto dest: agent_step)

end

lemma promote_keeps_exp_wf: "keeps exp_wf (promote_gene i v sc governance)"
  unfolding promote_gene_def Let_def
  by (intro keep_intros columns.with_gene columns.keeps_time columns.upsert_gene TrueI)

text \<open>
  C28 (type).  Whatever calls are made, in whatever order and however they fail, the indexed
  columns of every gene and receipt are those of its JSON payload, and the keys of the
  three tables are unique.
\<close>

theorem columns_match_payloads:
  assumes "exp_step\<^sup>*\<^sup>* s s'" and "exp_wf s"
  shows "exp_wf s'"
  using assms
proof (induction rule: rtranclp_induct)
  case (step t u)
  then show ?case
    by (auto elim!: exp_step.cases dest: columns.agent_step keepsD [OF promote_keeps_exp_wf])
qed simp

text \<open>
  C8 (safety).  Without a promotion no gene is ever shared with a team or the network: neither
  a proposal nor an outcome nor a revocation widens a scope.
\<close>

theorem wide_scope_needs_promotion:
  assumes "agent_step\<^sup>*\<^sup>* s s'" and "all_narrow s"
  shows "all_narrow s'"
  by (rule sharing.agent_run [OF assms])

section \<open>Runs on a healthy database\<close>

lemma healthy_simps [simp]:
  "healthy (x\<lparr>exp_genes := a\<rparr>) = healthy x"
  "healthy (x\<lparr>exp_receipts := b\<rparr>) = healthy x"
  "healthy (x\<lparr>exp_capsules := c\<rparr>) = healthy x"
  "healthy (x\<lparr>exp_sessions := d\<rparr>) = healthy x"
  by (simp_all add: healthy_def)

definition stats_of :: "string \<Rightarrow> nat \<Rightarrow> receipt_row list \<Rightarrow> nat \<times> nat \<times> nat \<times> nat" where
  "stats_of i v rows =
     (length (filter succeeded (outcomes_of i v rows)), length (filter failing (outcomes_of i v rows)),
      card (xr_task_context_hash ` set (outcomes_of i v rows)), trailing_failures (outcomes_of i v rows))"

lemma outcome_stats_run:
  "healthy s \<Longrightarrow> outcome_stats i v s = (Inr (stats_of i v (exp_receipts s)), s\<lparr>tick := Suc (tick s)\<rparr>)"
  by (simp add: outcome_stats_def monad_defs exec_healthy Let_def stats_of_def tally_spec)

lemma get_gene_run:
  "healthy s \<Longrightarrow> find (same_gene i v) (exp_genes s) = Some row \<Longrightarrow>
     get_gene i (Some v) s = (Inr (xg_payload row), s\<lparr>tick := Suc (tick s)\<rparr>)"
  by (simp add: get_gene_def monad_defs exec_healthy)

lemma find_upsert:
  "find (same_gene (g_id g) (g_version g)) (upsert_rows g rows) = Some r \<Longrightarrow> xg_payload r = g"
  by (auto simp: upsert_rows_def row_of_gene_def sql_update_def find_Some_iff same_gene_def list_ex_iff nth_append split: if_splits)

text \<open>The outcome of a valid, fresh receipt on a gene that is stored.\<close>

lemma record_outcome_run:
  assumes "healthy s" and "receipt_validate u = Inr ()"
    and "find (same_gene (ur_gene_id u) (ur_gene_version u)) (exp_genes s) = Some row"
    and "gene_row_ok row" and "ur_id u \<notin> xr_receipt_id ` set (exp_receipts s)"
  shows "\<exists>now s'. record_outcome u None s =
       (Inr (apply_outcome (ur_outcome u)
          (stats_of (ur_gene_id u) (ur_gene_version u) (exp_receipts s @ [row_of_receipt u])) now (xg_payload row)), s') \<and>
     exp_genes s' = upsert_rows (apply_outcome (ur_outcome u)
          (stats_of (ur_gene_id u) (ur_gene_version u) (exp_receipts s @ [row_of_receipt u])) now (xg_payload row)) (exp_genes s) \<and>
     exp_receipts s' = exp_receipts s @ [row_of_receipt u] \<and> healthy s'"
proof -
  have key: "g_id (xg_payload row) = ur_gene_id u" "g_version (xg_payload row) = ur_gene_version u"
    using assms(3,4) by (auto simp: gene_row_ok_def same_gene_def dest!: find_Some_in_set)
  have fresh: "ur_id u \<notin> xr_receipt_id ` set (exp_receipts (s\<lparr>tick := n\<rparr>))" for n using assms(5) by simp
  show ?thesis
    using assms(1,5)
    by (intro exI [of _ "clock s (tick s + 5)"])
       (simp add: eval_nat_numeral record_outcome_def check_contract_def assms(2) bindE_def get_gene_run [OF assms(1,3)] insert_receipt_def
        exec_healthy map_err_def utc_now_def complete_sessions_def modify_def outcome_stats_run key upsert_gene_def Let_def ret_def)
qed

lemma upserted_row:
  assumes "r \<in> set (upsert_rows g rows)" and "same_gene (g_id g) (g_version g) r"
  shows "gene_row_ok r"
proof (cases "list_ex (same_gene (g_id g) (g_version g)) rows")
  case True
  then show ?thesis using assms by (auto simp: upsert_rows_def sql_update_def gene_row_ok_row split: if_splits)
next
  case False
  then have "r = row_of_gene g" using assms by (auto simp: upsert_rows_def list_ex_iff)
  then show ?thesis by (simp add: gene_row_ok_row)
qed

lemma find_upserted:
  "\<exists>r. find (same_gene (g_id g) (g_version g)) (upsert_rows g rows) = Some r \<and> xg_payload r = g"
proof -
  have "\<exists>r \<in> set (upsert_rows g rows). same_gene (g_id g) (g_version g) r"
  proof (cases "list_ex (same_gene (g_id g) (g_version g)) rows")
    case True
    then obtain x where x: "x \<in> set rows" "same_gene (g_id g) (g_version g) x" by (auto simp: list_ex_iff)
    then have "(row_of_gene g)\<lparr>xg_created_at := xg_created_at x\<rparr> \<in> set (upsert_rows g rows)"
      using True by (force simp: upsert_rows_def sql_update_def)
    then show ?thesis using same_gene_upsert by blast
  next
    case False
    then show ?thesis by (simp add: upsert_rows_def same_gene_def row_of_gene_def)
  qed
  then obtain r where r: "find (same_gene (g_id g) (g_version g)) (upsert_rows g rows) = Some r"
    by (metis find_None_notin option.exhaust)
  then show ?thesis using find_upsert by blast
qed

lemma outcome_stored:
  assumes "healthy s" and "receipt_validate u = Inr ()"
    and "find (same_gene (ur_gene_id u) (ur_gene_version u)) (exp_genes s) = Some row" and "gene_row_ok row"
    and "ur_id u \<notin> xr_receipt_id ` set (exp_receipts s)"
  obtains now s' stored where "record_outcome u None s = (Inr (xg_payload stored), s')"
    and "find (same_gene (ur_gene_id u) (ur_gene_version u)) (exp_genes s') = Some stored"
    and "xg_payload stored = apply_outcome (ur_outcome u)
          (stats_of (ur_gene_id u) (ur_gene_version u) (exp_receipts s @ [row_of_receipt u])) now (xg_payload row)"
proof -
  have key: "g_id (xg_payload row) = ur_gene_id u" "g_version (xg_payload row) = ur_gene_version u"
    using assms(3,4) by (auto simp: gene_row_ok_def same_gene_def dest!: find_Some_in_set)
  obtain now s' where run: "record_outcome u None s =
       (Inr (apply_outcome (ur_outcome u)
          (stats_of (ur_gene_id u) (ur_gene_version u) (exp_receipts s @ [row_of_receipt u])) now (xg_payload row)), s')"
    "exp_genes s' = upsert_rows (apply_outcome (ur_outcome u)
          (stats_of (ur_gene_id u) (ur_gene_version u) (exp_receipts s @ [row_of_receipt u])) now (xg_payload row)) (exp_genes s)"
    using record_outcome_run [OF assms] by blast
  define g where "g = apply_outcome (ur_outcome u)
          (stats_of (ur_gene_id u) (ur_gene_version u) (exp_receipts s @ [row_of_receipt u])) now (xg_payload row)"
  have ids: "g_id g = ur_gene_id u" "g_version g = ur_gene_version u" by (simp_all add: g_def key)
  obtain stored where "find (same_gene (g_id g) (g_version g)) (upsert_rows g (exp_genes s)) = Some stored" "xg_payload stored = g"
    using find_upserted by blast
  then show ?thesis
    using run that [of stored s' now] unfolding g_def [symmetric] ids by simp
qed

text \<open>
  C13 (functional).  The outcome of a use moves a gene through its lifecycle: a safety failure
  quarantines it, two failures since the last success make it a candidate again, three
  successes in two contexts without any failure make it stable, and anything else leaves it
  as it is; the row stored afterwards is the answer.
\<close>

theorem outcome_moves_lifecycle:
  assumes "healthy s" and "receipt_validate u = Inr ()"
    and "find (same_gene (ur_gene_id u) (ur_gene_version u)) (exp_genes s) = Some row" and "gene_row_ok row"
    and "ur_id u \<notin> xr_receipt_id ` set (exp_receipts s)"
  shows "\<exists>g s' stored. record_outcome u None s = (Inr g, s') \<and>
     find (same_gene (ur_gene_id u) (ur_gene_version u)) (exp_genes s') = Some stored \<and> xg_payload stored = g \<and>
     (let outcomes = outcomes_of (ur_gene_id u) (ur_gene_version u) (exp_receipts s @ [row_of_receipt u]) in
      g_lifecycle g =
        (if ur_outcome u = OcSafetyFailed then LcQuarantined
         else if trailing_failures outcomes \<ge> 2 then LcCandidate
         else if length (filter succeeded outcomes) \<ge> 3 \<and> card (xr_task_context_hash ` set outcomes) \<ge> 2 \<and>
                 filter failing outcomes = [] then LcStable
         else g_lifecycle (xg_payload row)))"
  by (rule outcome_stored [OF assms], intro exI conjI)
    (assumption, assumption, rule refl, simp add: stats_of_def apply_outcome_lifecycle Let_def length_0_conv)

text \<open>
  The latest receipt comes last in the order of the statistics.
\<close>

lemma insort_key_snoc: "k y \<le> k x \<Longrightarrow> insort_key k y (zs @ [x]) = insort_key k y zs @ [x]"
  by (induction zs) auto

lemma sort_key_snoc_last: "\<forall>y \<in> set xs. k y \<le> k x \<Longrightarrow> sort_key k (xs @ [x]) = sort_key k xs @ [x]"
  by (induction xs) (simp_all add: insort_key_snoc)

lemma outcomes_of_snoc:
  assumes "\<forall>r \<in> set rows. xr_gene_id r = i \<and> xr_gene_version r = v \<longrightarrow> xr_created_at r \<le> xr_created_at x"
    and "xr_gene_id x = i" and "xr_gene_version x = v"
  shows "outcomes_of i v (rows @ [x]) = outcomes_of i v rows @ [x]"
  using assms by (simp add: outcomes_of_def sort_key_snoc_last)

lemma trailing_failures_snoc:
  "trailing_failures (rows @ [r]) =
     (if failing r then Suc (trailing_failures rows) else if succeeded r then 0 else trailing_failures rows)"
  by (simp add: trailing_failures_def succeeded_not_failing)

text \<open>
  C35 (safety).  Quarantine does not outlast the next ordinary failure.  Take a stored gene, of
  whatever lifecycle (quarantined or revoked included) and with columns that mirror its payload, whose last conclusive outcome was already
  a failure, as it is after the safety failure that quarantined it.  Recording one more ordinary
  failure for it (a new receipt, dated no earlier than the gene's other receipts, on a store
  without failing statements) makes it a candidate again.  A gene that governance revoked or
  quarantined after a success is not lifted by one such failure.
\<close>

theorem failure_lifts_quarantine:
  assumes "healthy s" and "ur_outcome u = OcFailed"
    and "find (same_gene (ur_gene_id u) (ur_gene_version u)) (exp_genes s) = Some row" and "gene_row_ok row"
    and "ur_id u \<notin> xr_receipt_id ` set (exp_receipts s)"
    and "trailing_failures (outcomes_of (ur_gene_id u) (ur_gene_version u) (exp_receipts s)) \<ge> 1"
    and "\<forall>r \<in> set (exp_receipts s). xr_gene_id r = ur_gene_id u \<and> xr_gene_version r = ur_gene_version u \<longrightarrow>
           xr_created_at r \<le> ur_created_at u"
  shows "\<exists>s' stored. fst (record_outcome u None s) = Inr (xg_payload stored) \<and> snd (record_outcome u None s) = s' \<and>
     find (same_gene (ur_gene_id u) (ur_gene_version u)) (exp_genes s') = Some stored \<and>
     g_lifecycle (xg_payload stored) = LcCandidate"
proof -
  have valid: "receipt_validate u = Inr ()" using assms(2) by (simp add: receipt_validate_def)
  have "outcomes_of (ur_gene_id u) (ur_gene_version u) (exp_receipts s @ [row_of_receipt u]) =
      outcomes_of (ur_gene_id u) (ur_gene_version u) (exp_receipts s) @ [row_of_receipt u]"
    by (rule outcomes_of_snoc) (use assms(7) in \<open>simp_all add: row_of_receipt_def\<close>)
  moreover have "failing (row_of_receipt u)" using assms(2) by (simp add: failing_def row_of_receipt_def)
  ultimately have "trailing_failures (outcomes_of (ur_gene_id u) (ur_gene_version u) (exp_receipts s @ [row_of_receipt u])) \<ge> 2"
    using assms(6) by (simp add: trailing_failures_snoc)
  moreover obtain now s' stored where "record_outcome u None s = (Inr (xg_payload stored), s')"
    and "find (same_gene (ur_gene_id u) (ur_gene_version u)) (exp_genes s') = Some stored"
    and "xg_payload stored = apply_outcome (ur_outcome u)
          (stats_of (ur_gene_id u) (ur_gene_version u) (exp_receipts s @ [row_of_receipt u])) now (xg_payload row)"
    by (rule outcome_stored [OF assms(1) valid assms(3-5)])
  ultimately show ?thesis
    using assms(2) by (simp add: stats_of_def apply_outcome_lifecycle Let_def)
qed

text \<open>
  A proposal replaces whatever is stored under its id and version, whoever
  proposed it and even if it was revoked: afterwards the stored gene is the proposed one, as a
  candidate.
\<close>

theorem proposal_overwrites:
  assumes "healthy s" and "bundle_validate b = Inr ()" and "eb_capsules b = []" and "eb_usage_receipts b = []"
  shows "\<exists>now s' stored. snd (propose b s) = s' \<and>
     find (same_gene (g_id (eb_gene b)) (g_version (eb_gene b))) (exp_genes s') = Some stored \<and>
     xg_payload stored = (eb_gene b)\<lparr>g_lifecycle := LcCandidate,
       g_scope := (if g_scope (eb_gene b) = EsTeam \<or> g_scope (eb_gene b) = EsNetwork then EsLocal else g_scope (eb_gene b)),
       g_updated_at := now\<rparr>"
proof -
  define g where "g = (eb_gene b)\<lparr>g_lifecycle := LcCandidate,
       g_scope := (if g_scope (eb_gene b) = EsTeam \<or> g_scope (eb_gene b) = EsNetwork then EsLocal else g_scope (eb_gene b)),
       g_updated_at := clock s (tick s)\<rparr>"
  have "exp_genes (snd (propose b s)) = upsert_rows g (exp_genes s)"
    using assms by (simp add: propose_def check_contract_def bindE_def utc_now_def Let_def upsert_gene_def map_err_def
        exec_healthy modify_def ret_def g_def)
  moreover have "g_id g = g_id (eb_gene b)" "g_version g = g_version (eb_gene b)" by (simp_all add: g_def)
  ultimately show ?thesis using find_upserted [of g "exp_genes s"] unfolding g_def by metis
qed

lemma record_outcomes_append:
  "record_outcomes (rs @ [u]) = bindE (record_outcomes rs) (\<lambda>_. bindE (record_outcome u None) (\<lambda>_. ret ()))"
  by (induction rs) (simp_all add: bindE_assoc)

definition reports_on :: "string \<Rightarrow> nat \<Rightarrow> usage_receipt_v1 list \<Rightarrow> bool" where
  "reports_on i v rs \<longleftrightarrow> (\<forall>u \<in> set rs. receipt_validate u = Inr () \<and> ur_gene_id u = i \<and> ur_gene_version u = v)"

lemma record_outcomes_run:
  assumes "healthy s" and "find (same_gene i v) (exp_genes s) = Some row" and "gene_row_ok row"
    and "reports_on i v rs" and "distinct (map ur_id rs)"
    and "ur_id ` set rs \<inter> xr_receipt_id ` set (exp_receipts s) = {}"
  shows "\<exists>s' row'. record_outcomes rs s = (Inr (), s') \<and> healthy s' \<and>
     exp_receipts s' = exp_receipts s @ map row_of_receipt rs \<and>
     find (same_gene i v) (exp_genes s') = Some row' \<and> gene_row_ok row' \<and>
     (\<forall>u us. rs = us @ [u] \<longrightarrow> (\<exists>now g. xg_payload row' =
         apply_outcome (ur_outcome u) (stats_of i v (exp_receipts s @ map row_of_receipt rs)) now g))"
  using assms(4-6)
proof (induction rs rule: rev_induct)
  case Nil
  then show ?case using assms(1-3) by (simp add: ret_def)
next
  case (snoc u rs)
  obtain s1 row1 where pre: "record_outcomes rs s = (Inr (), s1)" "healthy s1"
    "exp_receipts s1 = exp_receipts s @ map row_of_receipt rs" "find (same_gene i v) (exp_genes s1) = Some row1" "gene_row_ok row1"
    using snoc by (auto simp: reports_on_def)
  have u: "receipt_validate u = Inr ()" "ur_gene_id u = i" "ur_gene_version u = v" using snoc.prems(1) by (simp_all add: reports_on_def)
  have fresh: "ur_id u \<notin> xr_receipt_id ` set (exp_receipts s1)"
    using snoc.prems(2,3) by (auto simp: pre(3) row_of_receipt_def)
  obtain now s' where run: "record_outcome u None s1 =
       (Inr (apply_outcome (ur_outcome u) (stats_of i v (exp_receipts s1 @ [row_of_receipt u])) now (xg_payload row1)), s')"
    "exp_genes s' = upsert_rows (apply_outcome (ur_outcome u) (stats_of i v (exp_receipts s1 @ [row_of_receipt u])) now (xg_payload row1)) (exp_genes s1)"
    "exp_receipts s' = exp_receipts s1 @ [row_of_receipt u]" "healthy s'"
    using record_outcome_run [OF pre(2) u(1) _ pre(5) fresh] pre(4) u(2,3) by auto
  define g where "g = apply_outcome (ur_outcome u) (stats_of i v (exp_receipts s1 @ [row_of_receipt u])) now (xg_payload row1)"
  have key: "g_id g = i" "g_version g = v"
    using pre(4,5) by (auto simp: g_def gene_row_ok_def same_gene_def dest!: find_Some_in_set)
  obtain row' where row': "find (same_gene i v) (exp_genes s') = Some row'" "xg_payload row' = g"
    using find_upserted [of g "exp_genes s1"] unfolding run(2) g_def [symmetric] key by blast
  have "row' \<in> set (upsert_rows g (exp_genes s1))" "same_gene i v row'"
    using find_Some_in_set [OF row'(1)] run(2) by (simp_all add: g_def)
  then have "gene_row_ok row'" using upserted_row [of row' g "exp_genes s1"] by (simp add: key)
  moreover have "record_outcomes (rs @ [u]) s = (Inr (), s')"
    using pre(1) run(1) by (simp add: record_outcomes_append bindE_def ret_def)
  ultimately show ?case
    using run(3,4) row' pre(3) by (intro exI [of _ s'] exI [of _ row']) (auto simp: g_def)
qed

lemma takeWhile_none: "\<forall>x \<in> set xs. \<not> p x \<Longrightarrow> takeWhile p xs = []"
  by (cases xs) auto

lemma stats_of_all_succeeded:
  assumes "\<forall>r \<in> set rows. xr_gene_id r = i \<and> xr_gene_version r = v \<longrightarrow> succeeded r"
  shows "stats_of i v rows = (length (filter (\<lambda>r. xr_gene_id r = i \<and> xr_gene_version r = v) rows), 0,
     card (xr_task_context_hash ` {r \<in> set rows. xr_gene_id r = i \<and> xr_gene_version r = v}), 0)"
proof -
  have ok: "\<forall>r \<in> set (outcomes_of i v rows). succeeded r" using assms by (simp add: outcomes_of_def)
  then have "filter succeeded (outcomes_of i v rows) = outcomes_of i v rows"
    "filter failing (outcomes_of i v rows) = []" "trailing_failures (outcomes_of i v rows) = 0"
    using succeeded_not_failing
    by (auto simp: filter_id_conv filter_empty_conv trailing_failures_def takeWhile_none)
  then show ?thesis by (simp add: stats_of_def outcomes_of_def)
qed

text \<open>
  A proposal makes its own gene stable: it answers with a candidate, but when the
  bundle brings three successful receipts from two contexts, the stored gene is stable at
  once.  The receipts need no evidence unless they claim full adoption.
\<close>

lemma proposal_promotes_itself:
  assumes "healthy s" and "bundle_validate b = Inr ()" and "eb_capsules b = []"
    and "\<forall>u \<in> set (eb_usage_receipts b). ur_outcome u = OcSucceeded"
    and "length (eb_usage_receipts b) \<ge> 3"
    and "card (ur_task_context_hash ` set (eb_usage_receipts b)) \<ge> 2"
    and "distinct (map ur_id (eb_usage_receipts b))"
    and "ur_id ` set (eb_usage_receipts b) \<inter> xr_receipt_id ` set (exp_receipts s) = {}"
    and "\<forall>r \<in> set (exp_receipts s). (xr_gene_id r, xr_gene_version r) \<noteq> (g_id (eb_gene b), g_version (eb_gene b))"
  shows "\<exists>answer s' stored. propose b s = (Inr answer, s') \<and> g_lifecycle answer = LcCandidate \<and>
     find (same_gene (g_id (eb_gene b)) (g_version (eb_gene b))) (exp_genes s') = Some stored \<and>
     g_lifecycle (xg_payload stored) = LcStable"
proof -
  let ?i = "g_id (eb_gene b)" and ?v = "g_version (eb_gene b)" and ?rs = "eb_usage_receipts b"
  define g where "g = (eb_gene b)\<lparr>g_lifecycle := LcCandidate,
       g_scope := (if g_scope (eb_gene b) = EsTeam \<or> g_scope (eb_gene b) = EsNetwork then EsLocal else g_scope (eb_gene b)),
       g_updated_at := clock s (tick s)\<rparr>"
  define s1 where "s1 = s\<lparr>tick := Suc (Suc (tick s)), exp_genes := upsert_rows g (exp_genes s)\<rparr>"
  have key: "g_id g = ?i" "g_version g = ?v" "g_lifecycle g = LcCandidate" by (simp_all add: g_def)
  obtain row where row: "find (same_gene ?i ?v) (exp_genes s1) = Some row" "xg_payload row = g"
    using find_upserted [of g "exp_genes s"] by (auto simp: s1_def key)
  have "gene_row_ok row"
    using upserted_row [of row g "exp_genes s"] find_Some_in_set [OF row(1)] by (simp add: s1_def key)
  moreover have "reports_on ?i ?v ?rs"
    using assms(2) by (simp add: bundle_validate_ok validate_receipts_ok reports_on_def)
  ultimately obtain s' row' where run: "record_outcomes ?rs s1 = (Inr (), s')"
    "find (same_gene ?i ?v) (exp_genes s') = Some row'"
    "\<forall>u us. ?rs = us @ [u] \<longrightarrow> (\<exists>now g. xg_payload row' =
       apply_outcome (ur_outcome u) (stats_of ?i ?v (exp_receipts s1 @ map row_of_receipt ?rs)) now g)"
    using record_outcomes_run [of s1 ?i ?v row ?rs] row(1) assms(1,7,8) by (auto simp: s1_def)
  have others: "\<forall>r \<in> set (exp_receipts s). \<not> (xr_gene_id r = ?i \<and> xr_gene_version r = ?v)"
    using assms(9) by auto
  have own: "\<forall>u \<in> set ?rs. ur_gene_id u = ?i \<and> ur_gene_version u = ?v"
    using assms(2) by (simp add: bundle_validate_ok validate_receipts_ok)
  have "filter (\<lambda>r. xr_gene_id r = ?i \<and> xr_gene_version r = ?v) (exp_receipts s @ map row_of_receipt ?rs) = map row_of_receipt ?rs"
    using others own by (auto simp: filter_empty_conv filter_id_conv row_of_receipt_def)
  moreover from this have "{r \<in> set (exp_receipts s @ map row_of_receipt ?rs). xr_gene_id r = ?i \<and> xr_gene_version r = ?v} =
      row_of_receipt ` set ?rs"
    by (metis set_filter set_map)
  moreover have "\<forall>r \<in> set (exp_receipts s @ map row_of_receipt ?rs). xr_gene_id r = ?i \<and> xr_gene_version r = ?v \<longrightarrow> succeeded r"
    using others assms(4) by (auto simp: succeeded_def row_of_receipt_def)
  ultimately have stats: "stats_of ?i ?v (exp_receipts s @ map row_of_receipt ?rs) =
      (length ?rs, 0, card (ur_task_context_hash ` set ?rs), 0)"
    using stats_of_all_succeeded [of "exp_receipts s @ map row_of_receipt ?rs" ?i ?v]
    by (simp add: image_image row_of_receipt_def)
  obtain us u where last: "?rs = us @ [u]" using assms(5) by (cases ?rs rule: rev_cases) auto
  then have "ur_outcome u = OcSucceeded" using assms(4) by simp
  then have "g_lifecycle (xg_payload row') = LcStable"
    using run(3) last assms(5,6) stats by (auto simp: s1_def apply_outcome_lifecycle)
  moreover have "propose b s = (Inr g, s')"
    using assms(1-3) run(1)
    by (simp add: propose_def check_contract_def bindE_def utc_now_def Let_def upsert_gene_def map_err_def
        exec_healthy modify_def ret_def g_def s1_def)
  ultimately show ?thesis using key run(2) by blast
qed

section \<open>Witnesses\<close>

definition demo_gene :: "lifecycle_state \<Rightarrow> gene_v1" where
  "demo_gene lc = \<lparr>g_id = ''g1'', g_version = 1, g_name = ''retry'', g_description = ''d'', g_scope = EsNetwork,
     g_task_category = ''http'',
     g_applicability = \<lparr>ap_required_signals = [], ap_excluded_signals = [], ap_environments = [], ap_project_ids = [],
        ap_tenant_ids = [], ap_do_not_use_when = []\<rparr>,
     g_steps = [\<lparr>ps_id = ''s'', ps_instruction = ''retry'', ps_tool = None, ps_requires_approval = False,
        ps_expected_output = None\<rparr>],
     g_tool_requirements = [],
     g_safety = \<lparr>sf_suggestion_only = True, sf_forbidden_operations = [], sf_required_approvals = [],
        sf_secret_handling = Redact\<rparr>,
     g_validation = \<lparr>va_checks = [\<lparr>vc_id = ''c'', vc_command_or_assertion = ''t'', vc_evidence_kind = EvTest,
        vc_timeout_seconds = None\<rparr>], va_success_condition = CondAll\<rparr>,
     g_provenance = \<lparr>pv_source_agent = ''a1'', pv_source_run_id = ''r'', pv_trace_refs = [], pv_extractor_version = None,
        pv_verified_successes = 0, pv_verified_failures = 0, pv_distinct_task_contexts = 0\<rparr>,
     g_lifecycle = lc, g_created_at = 0, g_updated_at = 0, g_metadata = []\<rparr>"

definition demo_receipt :: "string \<Rightarrow> string \<Rightarrow> outcome_status \<Rightarrow> time \<Rightarrow> usage_receipt_v1" where
  "demo_receipt i ctx outcome t = \<lparr>ur_id = i, ur_gene_id = ''g1'', ur_gene_version = 1, ur_agent_id = ''a1'',
     ur_run_id = ''r'', ur_task_context_hash = ctx, ur_adoption = AdPartiallyAdopted, ur_applied_step_ids = [],
     ur_outcome = outcome, ur_failure_reason = None, ur_test_evidence_refs = [], ur_cost = None, ur_created_at = t\<rparr>"

definition demo_bundle :: "usage_receipt_v1 list \<Rightarrow> experience_bundle_v1" where
  "demo_bundle rs = \<lparr>eb_schema_version = EXPERIENCE_BUNDLE_V1, eb_gene = demo_gene LcCandidate, eb_capsules = [],
     eb_usage_receipts = rs\<rparr>"

definition exp_world :: expstore where
  "exp_world = \<lparr>tick = 0, clock = int, uuids = (\<lambda>n. replicate (Suc n) CHR ''a''), fails = (\<lambda>_. False),
     exp_genes = [], exp_capsules = [], exp_receipts = [], exp_sessions = []\<rparr>"

definition quarantined_world :: expstore where
  "quarantined_world = exp_world\<lparr>exp_genes := [row_of_gene (demo_gene LcQuarantined)],
     exp_receipts := [row_of_receipt (demo_receipt ''u1'' ''c1'' OcSafetyFailed 1)]\<rparr>"

lemma demo_trims: "trim ''g1'' = ''g1''" "trim ''retry'' = ''retry''" "trim ''http'' = ''http''"
  by code_simp+

lemma demo_bundle_valid: "bundle_validate (demo_bundle []) = Inr ()"
  by (simp add: bundle_validate_ok demo_bundle_def gene_validate_def demo_gene_def demo_trims)

lemma exp_world_healthy: "healthy exp_world" "healthy quarantined_world"
  by (simp_all add: healthy_def exp_world_def quarantined_world_def)

lemma exp_world_wf: "exp_wf exp_world"
  by (simp add: exp_wf_def exp_world_def)

lemma columns_match_payloads_witness: "exp_wf (snd (propose (demo_bundle []) exp_world))"
proof (rule columns_match_payloads [OF r_into_rtranclp exp_world_wf])
  show "exp_step exp_world (snd (propose (demo_bundle []) exp_world))"
    by (rule exp_step.intros, rule agent_step.intros(1)) (simp add: prod_eq_iff)
qed

lemma wide_scope_needs_promotion_witness: "all_narrow (snd (propose (demo_bundle []) exp_world))"
proof (rule wide_scope_needs_promotion [OF r_into_rtranclp])
  show "agent_step exp_world (snd (propose (demo_bundle []) exp_world))"
    by (rule agent_step.intros(1)) (simp add: prod_eq_iff)
qed (simp add: all_narrow_def exp_world_def)

lemma outcome_moves_lifecycle_witness:
  "\<exists>g s'. record_outcome (demo_receipt ''u2'' ''c1'' OcSafetyFailed 2) None quarantined_world = (Inr g, s') \<and>
     g_lifecycle g = LcQuarantined"
proof -
  have pre: "receipt_validate (demo_receipt ''u2'' ''c1'' OcSafetyFailed 2) = Inr ()"
    "find (same_gene (ur_gene_id (demo_receipt ''u2'' ''c1'' OcSafetyFailed 2))
       (ur_gene_version (demo_receipt ''u2'' ''c1'' OcSafetyFailed 2))) (exp_genes quarantined_world)
      = Some (row_of_gene (demo_gene LcQuarantined))"
    "ur_id (demo_receipt ''u2'' ''c1'' OcSafetyFailed 2) \<notin> xr_receipt_id ` set (exp_receipts quarantined_world)"
    by (simp_all add: receipt_validate_def demo_receipt_def quarantined_world_def same_gene_def row_of_gene_def
        demo_gene_def row_of_receipt_def)
  show ?thesis
    using outcome_moves_lifecycle [OF exp_world_healthy(2) pre(1,2) gene_row_ok_row(1) pre(3)]
    by (auto simp: demo_receipt_def Let_def)
qed

lemma failure_lifts_quarantine_witness:
  "\<exists>s' stored. snd (record_outcome (demo_receipt ''u2'' ''c1'' OcFailed 2) None quarantined_world) = s' \<and>
     find (same_gene ''g1'' 1) (exp_genes s') = Some stored \<and> g_lifecycle (xg_payload stored) = LcCandidate"
proof -
  let ?u = "demo_receipt ''u2'' ''c1'' OcFailed 2"
  have pre: "ur_outcome ?u = OcFailed"
    "find (same_gene (ur_gene_id ?u) (ur_gene_version ?u)) (exp_genes quarantined_world)
      = Some (row_of_gene (demo_gene LcQuarantined))"
    "ur_id ?u \<notin> xr_receipt_id ` set (exp_receipts quarantined_world)"
    "trailing_failures (outcomes_of (ur_gene_id ?u) (ur_gene_version ?u) (exp_receipts quarantined_world)) \<ge> 1"
    "\<forall>r \<in> set (exp_receipts quarantined_world). xr_gene_id r = ur_gene_id ?u \<and> xr_gene_version r = ur_gene_version ?u \<longrightarrow>
       xr_created_at r \<le> ur_created_at ?u"
    by (simp_all add: demo_receipt_def quarantined_world_def same_gene_def row_of_gene_def demo_gene_def row_of_receipt_def
        trailing_failures_def outcomes_of_def failing_def)
  show ?thesis
    using failure_lifts_quarantine [OF exp_world_healthy(2) pre(1,2) gene_row_ok_row(1) pre(3-5)]
    by (auto simp: demo_receipt_def)
qed

lemma proposal_overwrites_witness:
  "\<exists>now stored. find (same_gene ''g1'' 1) (exp_genes (snd (propose (demo_bundle []) quarantined_world))) = Some stored \<and>
     xg_payload stored = (demo_gene LcCandidate)\<lparr>g_scope := EsLocal, g_updated_at := now\<rparr>"
  using proposal_overwrites [OF exp_world_healthy(2) demo_bundle_valid]
  by (auto simp: demo_bundle_def demo_gene_def)

end
