(* ===== verification/ExperienceSearch.thy ===== *)
theory ExperienceSearch
  imports ExperienceStore StableSort
begin

text \<open>
  The search of \<open>control_plane.rs\<close>: genes are filtered by category, project, tenant, tools and
  environment, ranked, and returned page by page with a cursor.  The relevance of a text
  (tokens, lexical and vector similarity, their weighted sum in double precision) is a
  parameter.  The lemmas say which genes a search can return and that following its
  cursors visits every match once.
\<close>

section \<open>Queries\<close>

record experience_query =
  eq_text :: string
  eq_task_category :: "string option"
  eq_project_id :: "string option"
  eq_tenant_id :: string
  eq_available_tools :: "string list"
  eq_environment :: "(string \<times> json) list"
  eq_limit :: nat
  eq_cursor :: "string option"

definition default_search_limit :: nat where
  "default_search_limit = 10"

definition default_tenant :: string where
  "default_tenant = ''default''"

record experience_result =
  xres_gene :: gene_v1
  xres_score :: rat
  xres_match_reasons :: "string list"
  xres_do_not_use_when :: "string list"
  xres_next_cursor :: "string option"

section \<open>Structural filters\<close>

definition ascii_replace :: "char \<Rightarrow> char \<Rightarrow> string \<Rightarrow> string" where
  "ascii_replace a b = map (\<lambda>c. if c = a then b else c)"

definition normalized_tool_capabilities :: "string \<Rightarrow> string list" where
  "normalized_tool_capabilities tool =
     (let normalized = ascii_replace CHR ''-'' CHR ''_'' (ascii_lowercase tool) in
      [tool, normalized] @
      (if normalized \<in> {''bash'', ''exec_command'', ''run_command'', ''run_terminal_command'', ''shell'', ''cargo'',
            ''pytest'', ''unittest'', ''test_runner''} then [''test-runner'']
       else if normalized \<in> {''read'', ''read_file'', ''rg'', ''ripgrep'', ''grep'', ''code_search'', ''search_files''}
       then [''code-search'']
       else if normalized \<in> {''edit'', ''apply_patch'', ''search_replace'', ''write_file'', ''editor''} then [''editor'']
       else []))"

text \<open>\<open>trim_end_matches(".*")\<close>.\<close>

function trim_end_star :: "string \<Rightarrow> string" where
  "trim_end_star s =
     (if length s \<ge> 2 \<and> drop (length s - 2) s = ''.*'' then trim_end_star (take (length s - 2) s) else s)"
  by pat_completeness auto

termination trim_end_star
  by (relation "measure length") auto

declare trim_end_star.simps [simp del]

definition constraint_holds :: "json_text \<Rightarrow> (string \<times> json) list \<Rightarrow> environment_constraint \<Rightarrow> bool" where
  "constraint_holds to_string env c =
     (case map_of env (en_key c) of
        None \<Rightarrow> False
      | Some actual \<Rightarrow>
          (case en_operator c of
             OpEquals \<Rightarrow> actual = en_value c
           | OpNotEquals \<Rightarrow> actual \<noteq> en_value c
           | OpContains \<Rightarrow> str_contains (to_string actual) (case as_str (en_value c) of Some t \<Rightarrow> t | None \<Rightarrow> [])
           | OpExists \<Rightarrow> True
           | OpSemver \<Rightarrow> (case (as_str actual, as_str (en_value c)) of
                (Some a, Some b) \<Rightarrow> str_starts_with a (trim_end_star b) | _ \<Rightarrow> False)))"

definition environment_score :: "json_text \<Rightarrow> gene_v1 \<Rightarrow> experience_query \<Rightarrow> rat" where
  "environment_score to_string g q =
     (let cs = ap_environments (g_applicability g) in
      if cs = [] then 1
      else of_nat (length (filter (constraint_holds to_string (eq_environment q)) cs)) / of_nat (length cs))"

definition structurally_compatible :: "json_text \<Rightarrow> gene_v1 \<Rightarrow> experience_query \<Rightarrow> bool" where
  "structurally_compatible to_string g q =
     (if (case eq_task_category q of Some c \<Rightarrow> g_task_category g \<noteq> c | None \<Rightarrow> False) then False
      else if (case eq_project_id q of
                 Some p \<Rightarrow> ap_project_ids (g_applicability g) \<noteq> [] \<and> p \<notin> set (ap_project_ids (g_applicability g))
               | None \<Rightarrow> False) then False
      else if ap_tenant_ids (g_applicability g) \<noteq> [] \<and> eq_tenant_id q \<notin> set (ap_tenant_ids (g_applicability g)) then False
      else let tools = concat (map normalized_tool_capabilities (eq_available_tools q)) in
        if \<not> list_all (\<lambda>required. tools = [] \<or> tr_name required \<in> set tools) (g_tool_requirements g) then False
        else environment_score to_string g q > 0)"

section \<open>Ranking\<close>

record relevance =
  rel_tokens :: "string \<Rightarrow> string list"
  rel_bm25 :: "string list \<Rightarrow> string list \<Rightarrow> rat"
  rel_cosine :: "string list \<Rightarrow> string list \<Rightarrow> rat"
  rel_weigh :: "rat \<Rightarrow> rat \<Rightarrow> rat \<Rightarrow> rat \<Rightarrow> rat \<Rightarrow> rat"

definition gene_document :: "gene_v1 \<Rightarrow> string" where
  "gene_document g = g_name g @ '' '' @ g_description g @ '' '' @ g_task_category g @ '' '' @
     join '' '' (ap_required_signals (g_applicability g))"

text \<open>The sum of the two counters is a \<open>u64\<close>; it wraps, as in a release build.\<close>

definition success_rate :: "gene_v1 \<Rightarrow> rat" where
  "success_rate g =
     (let s = pv_verified_successes (g_provenance g);
          uses = (s + pv_verified_failures (g_provenance g)) mod 2 ^ 64 in
      if uses = 0 then 1 / 2 else of_nat s / of_nat uses)"

definition score_gene :: "relevance \<Rightarrow> json_text \<Rightarrow> experience_query \<Rightarrow> gene_v1 \<Rightarrow> experience_result option" where
  "score_gene rel to_string q g =
     (if \<not> structurally_compatible to_string g q then None
      else
        let query_tokens = rel_tokens rel (eq_text q);
            doc_tokens = rel_tokens rel (gene_document g);
            lexical = rel_bm25 rel query_tokens doc_tokens;
            semantic = rel_cosine rel query_tokens doc_tokens in
        if query_tokens \<noteq> [] \<and> lexical = 0 \<and> semantic < 12 / 100 then None
        else
          let environment_match = environment_score to_string g q in
          Some \<lparr>xres_gene = g,
            xres_score = rel_weigh rel lexical semantic (success_rate g) environment_match
              (if g_lifecycle g = LcStable then 1 else 6 / 10),
            xres_match_reasons =
              (if lexical > 0 then [''keyword/BM25 signals matched''] else []) @
              (if semantic \<ge> 12 / 100 then [''semantic token-vector matched''] else []) @
              (if environment_match \<ge> 75 / 100 then [''environment constraints matched''] else []) @
              (if g_lifecycle g = LcStable then [''verified stable experience''] else []),
            xres_do_not_use_when = ap_do_not_use_when (g_applicability g),
            xres_next_cursor = None\<rparr>)"

text \<open>\<open>str::parse::<usize>\<close>: digits with an optional plus sign, below \<open>2^64\<close>.\<close>

definition digits_value :: "string \<Rightarrow> nat" where
  "digits_value ds = foldl (\<lambda>n c. 10 * n + (of_char c - 48)) 0 ds"

definition parse_usize :: "string \<Rightarrow> nat option" where
  "parse_usize s =
     (let ds = (case s of [] \<Rightarrow> [] | c # cs \<Rightarrow> if c = CHR ''+'' then cs else s) in
      if ds = [] \<or> \<not> list_all is_ascii_digit ds \<or> digits_value ds \<ge> 2 ^ 64 then None else Some (digits_value ds))"

definition search_offset :: "experience_query \<Rightarrow> nat" where
  "search_offset q = (case Option.bind (eq_cursor q) parse_usize of Some n \<Rightarrow> n | None \<Rightarrow> 0)"

definition searchable_rows :: "expstore \<Rightarrow> gene_row list" where
  "searchable_rows s =
     order_desc xg_updated_at (filter (\<lambda>r. xg_lifecycle r = ''candidate'' \<or> xg_lifecycle r = ''stable'') (exp_genes s))"

definition ranked_results :: "relevance \<Rightarrow> json_text \<Rightarrow> experience_query \<Rightarrow> gene_row list \<Rightarrow> experience_result list" where
  "ranked_results rel to_string q rows =
     sort_by (\<lambda>a b. cmp (xres_score b) (xres_score a))
       (List.map_filter (\<lambda>r. score_gene rel to_string q (xg_payload r)) rows)"

definition page_limit :: "experience_query \<Rightarrow> nat" where
  "page_limit q = max 1 (min 100 (eq_limit q))"

definition page_of :: "experience_query \<Rightarrow> experience_result list \<Rightarrow> experience_result list" where
  "page_of q results =
     (let offset = search_offset q;
          page = take (page_limit q) (drop offset results)
      in if offset + length page < length results
         then map (\<lambda>x. x\<lparr>xres_next_cursor := Some (show_nat (offset + length page))\<rparr>) page
         else page)"

definition search_experience :: "relevance \<Rightarrow> json_text \<Rightarrow> experience_query \<Rightarrow> experience_result list exp_op" where
  "search_experience rel to_string q =
     bindE (map_err CpStorage (exec (gets searchable_rows))) (\<lambda>rows.
     ret (page_of q (ranked_results rel to_string q rows)))"

section \<open>What a search returns\<close>

lemma set_map_filter: "set (List.map_filter f xs) = {y. \<exists>x \<in> set xs. f x = Some y}"
  by (induction xs) (auto simp: List.map_filter_def)

lemma ranked_gene:
  assumes "x \<in> set (ranked_results rel to_string q rows)"
  shows "\<exists>r \<in> set rows. xg_payload r = xres_gene x \<and> structurally_compatible to_string (xres_gene x) q"
  using assms by (auto simp: ranked_results_def set_map_filter score_gene_def Let_def split: if_splits)

lemma set_page_of: "x \<in> set (page_of q results) \<Longrightarrow> \<exists>y \<in> set results. xres_gene x = xres_gene y"
  by (auto simp: page_of_def Let_def split: if_splits dest!: in_set_takeD in_set_dropD)

lemma length_page_of: "length (page_of q results) \<le> 100"
  by (auto simp: page_of_def Let_def page_limit_def)

lemma lifecycle_text_cases:
  "lifecycle_text lc = ''candidate'' \<longleftrightarrow> lc = LcCandidate" "lifecycle_text lc = ''stable'' \<longleftrightarrow> lc = LcStable"
  by (cases lc; simp)+

text \<open>
  A search returns at most a hundred genes, each stored as a candidate or
  stable, meant for all tenants or the asking one, and compatible with the query's category,
  project, tools and environment: never a quarantined, revoked or deprecated one.
\<close>

theorem experience_search_sound:
  assumes "exp_wf s" and "search_experience rel to_string q s = (Inr page, s')"
  shows "length page \<le> 100 \<and> (\<forall>x \<in> set page.
     (\<exists>r \<in> set (exp_genes s). xg_payload r = xres_gene x) \<and>
     (g_lifecycle (xres_gene x) = LcCandidate \<or> g_lifecycle (xres_gene x) = LcStable) \<and>
     (ap_tenant_ids (g_applicability (xres_gene x)) = [] \<or> eq_tenant_id q \<in> set (ap_tenant_ids (g_applicability (xres_gene x)))) \<and>
     structurally_compatible to_string (xres_gene x) q)"
proof -
  have page: "page = page_of q (ranked_results rel to_string q (searchable_rows s))"
    using assms(2) unfolding search_experience_def
    by (auto simp: ret_def gets_def searchable_rows_def elim!: bindE_InrE exec_InrE)
  have "(\<exists>r \<in> set (exp_genes s). xg_payload r = xres_gene x) \<and>
     (g_lifecycle (xres_gene x) = LcCandidate \<or> g_lifecycle (xres_gene x) = LcStable) \<and>
     (ap_tenant_ids (g_applicability (xres_gene x)) = [] \<or> eq_tenant_id q \<in> set (ap_tenant_ids (g_applicability (xres_gene x)))) \<and>
     structurally_compatible to_string (xres_gene x) q" if x: "x \<in> set page" for x
  proof -
    obtain y where "y \<in> set (ranked_results rel to_string q (searchable_rows s))" "xres_gene x = xres_gene y"
      using set_page_of x unfolding page by blast
    then obtain r where r: "r \<in> set (searchable_rows s)" "xg_payload r = xres_gene x"
      "structurally_compatible to_string (xres_gene x) q" using ranked_gene by metis
    then have "r \<in> set (exp_genes s)" "xg_lifecycle r = ''candidate'' \<or> xg_lifecycle r = ''stable''"
      by (auto simp: searchable_rows_def)
    then have "g_lifecycle (xg_payload r) = LcCandidate \<or> g_lifecycle (xg_payload r) = LcStable"
      using assms(1) by (auto simp: exp_wf_def gene_row_ok_def lifecycle_text_cases)
    moreover have "ap_tenant_ids (g_applicability (xres_gene x)) = [] \<or>
        eq_tenant_id q \<in> set (ap_tenant_ids (g_applicability (xres_gene x)))"
      using r(3) by (auto simp: structurally_compatible_def split: if_splits)
    ultimately show ?thesis using r \<open>r \<in> set (exp_genes s)\<close> by metis
  qed
  then show ?thesis using length_page_of page by blast
qed

section \<open>Cursors\<close>

lemma digits_value_snoc: "digits_value (ds @ [c]) = 10 * digits_value ds + (of_char c - 48)"
  by (simp add: digits_value_def)

lemma digit_char: "m < 10 \<Longrightarrow> (of_char (char_of (48 + m :: nat) :: char) :: nat) = 48 + m"
  by (simp add: of_char_of)

lemma show_nat_parse:
  "show_nat n \<noteq> [] \<and> hd (show_nat n) \<noteq> CHR ''+'' \<and> list_all is_ascii_digit (show_nat n) \<and> digits_value (show_nat n) = n"
proof (induction n rule: show_nat.induct)
  case (1 n)
  show ?case
  proof (cases "n < 10")
    case True
    have "(char_of (48 + n) :: char) \<noteq> CHR ''+''"
    proof
      assume "(char_of (48 + n) :: char) = CHR ''+''"
      then have "(of_char (char_of (48 + n) :: char) :: nat) = of_char (CHR ''+'')" by simp
      then show False using digit_char [OF True] by simp
    qed
    then show ?thesis using True digit_char [OF True]
      by (simp add: show_nat.simps [of n] is_ascii_digit_def digits_value_def)
  next
    case False
    have m: "n mod 10 < 10" by simp
    have "digits_value (show_nat n) = 10 * digits_value (show_nat (n div 10)) + n mod 10"
      using False digit_char [OF m] by (simp only: show_nat.simps [of n] if_False digits_value_snoc)
    then show ?thesis using 1 False digit_char [OF m]
      by (simp add: show_nat.simps [of n] is_ascii_digit_def)
  qed
qed

text \<open>
  A cursor is read back as the offset it was written for.
\<close>

theorem cursor_roundtrip:
  assumes "n < 2 ^ 64"
  shows "search_offset (q\<lparr>eq_cursor := Some (show_nat n)\<rparr>) = n"
proof -
  obtain c cs where cs: "show_nat n = c # cs" "c \<noteq> CHR ''+''"
    using show_nat_parse [of n] by (cases "show_nat n") auto
  then have "parse_usize (show_nat n) = Some n"
    using show_nat_parse [of n] assms by (auto simp: parse_usize_def)
  then show ?thesis by (simp add: search_offset_def)
qed

definition demo_query :: experience_query where
  "demo_query = \<lparr>eq_text = [], eq_task_category = None, eq_project_id = None, eq_tenant_id = default_tenant,
     eq_available_tools = [], eq_environment = [], eq_limit = default_search_limit, eq_cursor = None\<rparr>"

lemma cursor_roundtrip_witness: "search_offset (demo_query\<lparr>eq_cursor := Some ''20''\<rparr>) = 20"
proof -
  have "show_nat 20 = ''20''" by code_simp
  then show ?thesis using cursor_roundtrip [of 20 demo_query] by simp
qed

text \<open>A client that follows the cursors, for a given number of pages at most.\<close>

fun follow_cursors :: "nat \<Rightarrow> experience_query \<Rightarrow> experience_result list \<Rightarrow> gene_v1 list" where
  "follow_cursors 0 q results = []"
| "follow_cursors (Suc n) q results =
     (let page = page_of q results in
      map xres_gene page @
      (case page of
         [] \<Rightarrow> []
       | x # _ \<Rightarrow> (case xres_next_cursor x of
            Some c \<Rightarrow> follow_cursors n (q\<lparr>eq_cursor := Some c\<rparr>) results | None \<Rightarrow> [])))"

lemma page_more:
  assumes "search_offset q + page_limit q < length results"
  shows "page_of q results = map (\<lambda>x. x\<lparr>xres_next_cursor := Some (show_nat (search_offset q + page_limit q))\<rparr>)
     (take (page_limit q) (drop (search_offset q) results))"
proof -
  have "length (take (page_limit q) (drop (search_offset q) results)) = page_limit q" using assms by simp
  then show ?thesis using assms by (simp add: page_of_def Let_def)
qed

lemma page_last:
  assumes "\<not> search_offset q + page_limit q < length results"
  shows "page_of q results = drop (search_offset q) results"
  using assms by (auto simp: page_of_def Let_def)

lemma follow_from_offset:
  assumes "\<forall>x \<in> set results. xres_next_cursor x = None" and "length results < 2 ^ 64"
    and "length results - search_offset q \<le> n"
  shows "follow_cursors n q results = drop (search_offset q) (map xres_gene results)"
  using assms(3)
proof (induction n arbitrary: q)
  case (Suc n)
  show ?case
  proof (cases "search_offset q + page_limit q < length results")
    case True
    let ?next = "search_offset q + page_limit q"
    obtain x xs where x: "take (page_limit q) (drop (search_offset q) results) = x # xs"
      using True by (cases "take (page_limit q) (drop (search_offset q) results)") (auto simp: page_limit_def)
    have off: "search_offset (q\<lparr>eq_cursor := Some (show_nat ?next)\<rparr>) = ?next"
      by (rule cursor_roundtrip) (use True assms(2) in linarith)
    have lim: "1 \<le> page_limit q" by (simp add: page_limit_def)
    have rest: "follow_cursors n (q\<lparr>eq_cursor := Some (show_nat ?next)\<rparr>) results = drop ?next (map xres_gene results)"
      using Suc.IH [of "q\<lparr>eq_cursor := Some (show_nat ?next)\<rparr>"] Suc.prems off lim by simp
    have page: "map xres_gene (page_of q results) = take (page_limit q) (drop (search_offset q) (map xres_gene results))"
      unfolding page_more [OF True] by (simp add: comp_def take_map drop_map)
    have "follow_cursors (Suc n) q results = map xres_gene (page_of q results) @ drop ?next (map xres_gene results)"
      unfolding follow_cursors.simps Let_def page_more [OF True] x by (simp add: rest)
    then show ?thesis unfolding page by (metis append_take_drop_id drop_drop add.commute)
  next
    case False
    have none: "\<forall>x \<in> set (drop (search_offset q) results). xres_next_cursor x = None"
      using assms(1) by (meson in_set_dropD)
    then show ?thesis
      unfolding follow_cursors.simps Let_def page_last [OF False]
      by (cases "drop (search_offset q) results") (auto simp: drop_map)
  qed
qed simp

lemma ranked_no_cursor: "\<forall>x \<in> set (ranked_results rel to_string q rows). xres_next_cursor x = None"
  by (auto simp: ranked_results_def set_map_filter score_gene_def Let_def split: if_splits)

text \<open>
  C36 (liveness).  A client that starts without a cursor and follows the cursors it is given
  ends, and has then seen every match exactly once, in the order of the ranking.
\<close>

theorem cursors_visit_every_match:
  assumes "eq_cursor q = None" and "length rows < 2 ^ 64"
  shows "follow_cursors (length rows) q (ranked_results rel to_string q rows) =
     map xres_gene (ranked_results rel to_string q rows)"
proof -
  have "length (List.map_filter f rows) \<le> length rows" for f :: "gene_row \<Rightarrow> experience_result option"
    by (simp add: List.map_filter_def le_trans [OF length_filter_le])
  then have len: "length (ranked_results rel to_string q rows) \<le> length rows" by (simp add: ranked_results_def)
  have "search_offset q = 0" using assms(1) by (simp add: search_offset_def)
  then show ?thesis
    using follow_from_offset [OF ranked_no_cursor, of rel to_string q rows q "length rows"] len assms(2) by simp
qed

definition demo_relevance :: relevance where
  "demo_relevance = \<lparr>rel_tokens = (\<lambda>_. []), rel_bm25 = (\<lambda>_ _. 1 / 2), rel_cosine = (\<lambda>_ _. 0),
     rel_weigh = (\<lambda>lex sem rate env life. lex + sem + rate + env + life)\<rparr>"

definition searchable_world :: expstore where
  "searchable_world = exp_world\<lparr>exp_genes := [row_of_gene (demo_gene LcStable), row_of_gene ((demo_gene LcRevoked)\<lparr>g_version := 2\<rparr>)]\<rparr>"

lemma experience_search_sound_witness:
  "\<exists>page s'. search_experience demo_relevance (\<lambda>_. ''1'') demo_query searchable_world = (Inr page, s') \<and>
     map xres_gene page = [demo_gene LcStable] \<and>
     list_all (\<lambda>x. g_lifecycle (xres_gene x) = LcCandidate \<or> g_lifecycle (xres_gene x) = LcStable) page"
proof -
  have wf: "exp_wf searchable_world"
    by (simp add: exp_wf_def searchable_world_def exp_world_def gene_row_ok_row) (simp add: row_of_gene_def demo_gene_def)
  define page where "page = page_of demo_query (ranked_results demo_relevance (\<lambda>_. ''1'') demo_query (searchable_rows searchable_world))"
  have run: "search_experience demo_relevance (\<lambda>_. ''1'') demo_query searchable_world =
      (Inr page, searchable_world\<lparr>tick := Suc (tick searchable_world)\<rparr>)"
    by (simp add: search_experience_def bindE_def map_err_def exec_def gets_def ret_def page_def searchable_world_def
        exp_world_def searchable_rows_def)
  have "searchable_rows searchable_world = [row_of_gene (demo_gene LcStable)]"
    by (simp add: searchable_rows_def searchable_world_def row_of_gene_def demo_gene_def order_desc_def)
  then have "map xres_gene page = [demo_gene LcStable]"
    by (simp add: page_def page_of_def search_offset_def demo_query_def page_limit_def default_search_limit_def ranked_results_def
        List.map_filter_def score_gene_def structurally_compatible_def demo_gene_def row_of_gene_def demo_relevance_def
        environment_score_def Let_def sort_by_def)
  then show ?thesis using experience_search_sound [OF wf run] run by (auto simp: list_all_iff)
qed

lemma cursors_visit_every_match_witness:
  "follow_cursors 1 demo_query (ranked_results demo_relevance (\<lambda>_. ''1'') demo_query [row_of_gene (demo_gene LcStable)]) =
     map xres_gene (ranked_results demo_relevance (\<lambda>_. ''1'') demo_query [row_of_gene (demo_gene LcStable)])"
  using cursors_visit_every_match [of demo_query "[row_of_gene (demo_gene LcStable)]" demo_relevance "\<lambda>_. ''1''"]
  by (simp add: demo_query_def)

end
