(* ===== verification/Skill.thy ===== *)
theory Skill
  imports ExperienceStore
begin

text \<open>
  \<open>skill_projection.rs\<close>: a gene is rendered as a portable skill package.  The lemmas show that
  the front matter cannot be broken out of by the gene's texts, that the skill's name is
  made of letters, digits and inner dashes, and what makes a skill installable.
\<close>

section \<open>Escaping\<close>

definition newline_to_space :: "string \<Rightarrow> string" where
  "newline_to_space = map (\<lambda>c. if c = CHR 0x0A \<or> c = CHR 0x0D then CHR '' '' else c)"

definition yaml_single_line :: "string \<Rightarrow> string" where
  "yaml_single_line v =
     concat (map (\<lambda>c. if c = CHR 0x27 then [CHR 0x27, CHR 0x27] else [c]) (newline_to_space v))"

definition yaml_double :: "string \<Rightarrow> string" where
  "yaml_double v = newline_to_space
     (concat (map (\<lambda>c. if c = CHR 0x22 then [CHR 0x5C, CHR 0x22] else [c])
       (concat (map (\<lambda>c. if c = CHR 0x5C then [CHR 0x5C, CHR 0x5C] else [c]) v))))"

text \<open>\<open>chars().take(n)\<close> on UTF-8 text: a character starts at every byte that is no continuation byte.\<close>

fun utf8_take :: "nat \<Rightarrow> string \<Rightarrow> string" where
  "utf8_take n [] = []"
| "utf8_take n (c # cs) =
     (if 128 \<le> (of_char c :: nat) \<and> (of_char c :: nat) < 192 then c # utf8_take n cs
      else case n of 0 \<Rightarrow> [] | Suc m \<Rightarrow> c # utf8_take m cs)"

text \<open>
  The loop of \<open>slug\<close>; the bytes of a character outside ASCII give one dash, as the character does.
\<close>

definition slug_step :: "string \<times> bool \<Rightarrow> char \<Rightarrow> string \<times> bool" where
  "slug_step st c =
     (let (out, dash) = st in
      if is_ascii_alphanumeric c then (out @ [c], False)
      else if \<not> dash \<and> out \<noteq> [] then (out @ [CHR ''-''], True)
      else (out, dash))"

definition trim_dashes :: "string \<Rightarrow> string" where
  "trim_dashes s = rev (dropWhile (\<lambda>c. c = CHR ''-'') (rev (dropWhile (\<lambda>c. c = CHR ''-'') s)))"

definition slug :: "lowercase \<Rightarrow> string \<Rightarrow> string" where
  "slug lower v = take 64 (trim_dashes (fst (foldl slug_step ([], False) (lower v))))"

section \<open>The package\<close>

record portable_skill =
  sk_skill_name :: string
  sk_gene_id :: string
  sk_gene_version :: nat
  sk_lifecycle :: lifecycle_state
  sk_installable :: bool
  sk_files :: "(string \<times> string) list"

fun evidence_kind_debug :: "evidence_kind \<Rightarrow> string" where
  "evidence_kind_debug EvTest = ''Test''"
| "evidence_kind_debug EvCommand = ''Command''"
| "evidence_kind_debug EvDiff = ''Diff''"
| "evidence_kind_debug EvArtifact = ''Artifact''"
| "evidence_kind_debug EvHumanApproval = ''HumanApproval''"

definition nl :: string where
  "nl = [CHR 0x0A]"

definition skill_description :: "gene_v1 \<Rightarrow> string" where
  "skill_description g = yaml_single_line (g_description g @ '' Use for '' @ g_task_category g @
     '' tasks when its applicability and safety boundaries match the current environment.'')"

definition front_matter :: "lowercase \<Rightarrow> gene_v1 \<Rightarrow> string" where
  "front_matter lower g = ''---'' @ nl @ ''name: '' @ slug lower (''oris-'' @ g_name g) @ nl @
     ''description: '' @ quoted (skill_description g) @ nl @ ''---'' @ nl @ nl"

definition step_lines :: "procedure_step list \<Rightarrow> string" where
  "step_lines steps = concat (map (\<lambda>(i, st). show_nat (i + 1) @ ''. '' @ ps_instruction st @
     (if ps_requires_approval st then '' Obtain the required approval before this step.'' else []) @ nl)
     (enumerate 0 steps))"

definition skill_body :: "lowercase \<Rightarrow> gene_v1 \<Rightarrow> string" where
  "skill_body lower g =
     (let ap = g_applicability g in
      front_matter lower g @ ''# '' @ g_name g @ nl @ nl @ g_description g @ nl @ nl @
      ''## Applicability'' @ nl @ nl @
      (if ap_required_signals ap \<noteq> [] then ''Required signals: '' @ join '', '' (ap_required_signals ap) @ ''.'' @ nl @ nl else []) @
      (if ap_do_not_use_when ap \<noteq> []
       then ''Do not use when:'' @ nl @ nl @ concat (map (\<lambda>i. ''- '' @ i @ nl) (ap_do_not_use_when ap)) @ nl else []) @
      ''## Procedure'' @ nl @ nl @ step_lines (g_steps g) @ nl @
      ''## Safety and validation'' @ nl @ nl @
      ''Treat this Skill as a suggestion. Preserve the Agent'' @ [CHR 0x27] @
      ''s permissions, sandbox, approvals, and repository rules.'' @ nl @ nl @
      concat (map (\<lambda>i. ''- Never: '' @ i @ nl) (sf_forbidden_operations (g_safety g))) @ nl @
      ''Run these checks and record an Oris UsageReceipt; never claim success without evidence:'' @ nl @ nl @
      concat (map (\<lambda>c. ''- `'' @ vc_command_or_assertion c @ ''` ('' @ evidence_kind_debug (vc_evidence_kind c) @ '')'' @ nl)
        (va_checks (g_validation g))) @ nl @
      ''Read `references/oris-evidence.json` for provenance and immutable evidence references.'' @ nl)"

definition agent_interface :: "gene_v1 \<Rightarrow> string" where
  "agent_interface g =
     (let q = [CHR 0x22] in
      ''interface:'' @ nl @ ''  display_name: '' @ q @ yaml_double (g_name g) @ q @ nl @
      ''  short_description: '' @ q @ yaml_double (utf8_take 80 (g_description g)) @ q @ nl @
      ''  default_prompt: '' @ q @
      ''Apply this Oris procedure only when applicable, validate it, and record the outcome.'' @ q @ nl)"

text \<open>The pretty JSON text of the bundle is a parameter; files are kept in the order of their names.\<close>

definition render_portable_skill :: "lowercase \<Rightarrow> (experience_bundle_v1 \<Rightarrow> string) \<Rightarrow> experience_bundle_v1 \<Rightarrow>
    string + portable_skill" where
  "render_portable_skill lower to_string_pretty b =
     (let g = eb_gene b in
      if g_lifecycle g = LcQuarantined \<or> g_lifecycle g = LcRevoked
      then Inl ''quarantined or revoked Genes cannot be projected''
      else Inr \<lparr>sk_skill_name = slug lower (''oris-'' @ g_name g), sk_gene_id = g_id g, sk_gene_version = g_version g,
        sk_lifecycle = g_lifecycle g, sk_installable = (g_lifecycle g = LcStable),
        sk_files = [(''SKILL.md'', skill_body lower g), (''agents/openai.yaml'', agent_interface g),
          (''references/oris-evidence.json'', to_string_pretty b)]\<rparr>)"

definition skill_projection :: "lowercase \<Rightarrow> (experience_bundle_v1 \<Rightarrow> string) \<Rightarrow> string \<Rightarrow> nat option \<Rightarrow> portable_skill exp_op" where
  "skill_projection lower to_string_pretty i version =
     bindE (experience_bundle i version) (\<lambda>b.
     case render_portable_skill lower to_string_pretty b of
       Inl e \<Rightarrow> throw (InvalidTransition e) | Inr skill \<Rightarrow> ret skill)"

section \<open>The front matter\<close>

text \<open>How a YAML reader reads a single-quoted scalar: up to the first quote that is not doubled.\<close>

fun read_single_quoted :: "string \<Rightarrow> (string \<times> string) option" where
  "read_single_quoted [] = None"
| "read_single_quoted (c # cs) =
     (if c = CHR 0x27 then
        (case cs of
           d # ds \<Rightarrow> if d = CHR 0x27 then map_option (\<lambda>(v, rest). (CHR 0x27 # v, rest)) (read_single_quoted ds)
                     else Some ([], cs)
         | [] \<Rightarrow> Some ([], []))
      else map_option (\<lambda>(v, rest). (c # v, rest)) (read_single_quoted cs))"

text \<open>
  The description in the front matter is read back as the gene's description
  with its line breaks as spaces, and the scalar ends where the code ends it: no text of the
  gene can close the quote and add keys to the front matter.
\<close>

theorem description_roundtrip:
  assumes "rest = [] \<or> hd rest \<noteq> CHR 0x27"
  shows "read_single_quoted (yaml_single_line v @ CHR 0x27 # rest) = Some (newline_to_space v, rest) \<and>
     CHR 0x0A \<notin> set (yaml_single_line v) \<and> CHR 0x0D \<notin> set (yaml_single_line v)"
proof -
  have "read_single_quoted (concat (map (\<lambda>c. if c = CHR 0x27 then [CHR 0x27, CHR 0x27] else [c]) w) @ CHR 0x27 # rest)
      = Some (w, rest)" for w
    using assms by (induction w) (auto split: list.splits)
  from this [of "newline_to_space v"] have "read_single_quoted (yaml_single_line v @ CHR 0x27 # rest) = Some (newline_to_space v, rest)"
    unfolding yaml_single_line_def .
  moreover have "CHR 0x0A \<notin> set (yaml_single_line v) \<and> CHR 0x0D \<notin> set (yaml_single_line v)"
    by (auto simp: yaml_single_line_def newline_to_space_def)
  ultimately show ?thesis by blast
qed

lemma description_roundtrip_witness:
  "read_single_quoted (yaml_single_line ''it''  @ CHR 0x27 # [CHR 0x0A]) = Some (''it'', [CHR 0x0A])"
  using description_roundtrip [of "[CHR 0x0A]" "''it''"] by (simp add: newline_to_space_def)

lemma slug_fold:
  "set (fst (foldl slug_step st v)) \<subseteq> set (fst st) \<union> {c. is_ascii_alphanumeric c} \<union> {CHR ''-''}"
  by (induction v arbitrary: st) (force simp: slug_step_def split: if_splits prod.splits)+

text \<open>The name of a skill has at most 64 characters, all letters, digits or dashes.\<close>

theorem skill_name_safe:
  "length (slug lower v) \<le> 64 \<and> set (slug lower v) \<subseteq> {c. is_ascii_alphanumeric c} \<union> {CHR ''-''}"
proof -
  have "set (trim_dashes s) \<subseteq> set s" for s
  proof
    fix x assume "x \<in> set (trim_dashes s)"
    then have "x \<in> set (rev (dropWhile (\<lambda>c. c = CHR ''-'') s))" by (metis trim_dashes_def set_rev set_dropWhileD)
    then show "x \<in> set s" by (metis set_rev set_dropWhileD)
  qed
  then have "set (slug lower v) \<subseteq> set (fst (foldl slug_step ([], False) (lower v)))"
    unfolding slug_def by (meson order_trans set_take_subset)
  also have "\<dots> \<subseteq> {c. is_ascii_alphanumeric c} \<union> {CHR ''-''}" using slug_fold [of "([], False)" "lower v"] by simp
  finally show ?thesis by (simp add: slug_def)
qed

section \<open>From a proposal to an installable skill\<close>

interpretation health: store_law "healthy :: expstore \<Rightarrow> bool" "\<lambda>_. True"
  by standard auto

lemma skill_projection_run:
  assumes "healthy s" and "find (same_gene i v) (exp_genes s) = Some row"
    and "g_lifecycle (xg_payload row) \<noteq> LcQuarantined" and "g_lifecycle (xg_payload row) \<noteq> LcRevoked"
  shows "\<exists>skill s'. skill_projection lower pretty i (Some v) s = (Inr skill, s') \<and>
     sk_installable skill = (g_lifecycle (xg_payload row) = LcStable) \<and> sk_gene_id skill = g_id (xg_payload row) \<and>
     sk_skill_name skill = slug lower (''oris-'' @ g_name (xg_payload row))"
  using assms
  by (simp add: skill_projection_def experience_bundle_def get_gene_def bindE_def map_err_def exec_healthy gets_def
      ok_or_def ret_def render_portable_skill_def Let_def)

text \<open>
  One proposal is enough to have a skill installed everywhere: a bundle of a new
  gene with three successes of its own author in two contexts is answered as a candidate, and
  the projection of that gene is installable, with no other agent and no governance involved.
\<close>

theorem proposed_skill_installable:
  assumes "healthy s" and "bundle_validate b = Inr ()" and "eb_capsules b = []"
    and "\<forall>u \<in> set (eb_usage_receipts b). ur_outcome u = OcSucceeded"
    and "length (eb_usage_receipts b) \<ge> 3"
    and "card (ur_task_context_hash ` set (eb_usage_receipts b)) \<ge> 2"
    and "distinct (map ur_id (eb_usage_receipts b))"
    and "ur_id ` set (eb_usage_receipts b) \<inter> xr_receipt_id ` set (exp_receipts s) = {}"
    and "\<forall>r \<in> set (exp_receipts s). (xr_gene_id r, xr_gene_version r) \<noteq> (g_id (eb_gene b), g_version (eb_gene b))"
  shows "\<exists>answer s' skill s''. propose b s = (Inr answer, s') \<and> g_lifecycle answer = LcCandidate \<and>
     skill_projection lower pretty (g_id (eb_gene b)) (Some (g_version (eb_gene b))) s' = (Inr skill, s'') \<and>
     sk_installable skill"
proof -
  obtain answer s' stored where run: "propose b s = (Inr answer, s')" "g_lifecycle answer = LcCandidate"
    "find (same_gene (g_id (eb_gene b)) (g_version (eb_gene b))) (exp_genes s') = Some stored"
    "g_lifecycle (xg_payload stored) = LcStable"
    using proposal_promotes_itself [OF assms] by blast
  have "healthy s'" using keepsD [OF health.propose assms(1) run(1)] .
  then show ?thesis using skill_projection_run [OF _ run(3), of lower pretty] run(1,2,4) by force
qed

lemma proposed_skill_installable_witness:
  "\<exists>answer s' skill s''. propose (demo_bundle [demo_receipt ''u1'' ''c1'' OcSucceeded 1,
       demo_receipt ''u2'' ''c1'' OcSucceeded 2, demo_receipt ''u3'' ''c2'' OcSucceeded 3]) exp_world = (Inr answer, s') \<and>
     g_lifecycle answer = LcCandidate \<and>
     skill_projection ascii_lowercase (\<lambda>_. ''{}'') ''g1'' (Some 1) s' = (Inr skill, s'') \<and> sk_installable skill"
proof -
  let ?b = "demo_bundle [demo_receipt ''u1'' ''c1'' OcSucceeded 1,
       demo_receipt ''u2'' ''c1'' OcSucceeded 2, demo_receipt ''u3'' ''c2'' OcSucceeded 3]"
  have "bundle_validate ?b = Inr ()"
    by (simp add: bundle_validate_ok demo_bundle_def gene_validate_def demo_gene_def demo_trims demo_receipt_def receipt_validate_def)
  then show ?thesis
    using proposed_skill_installable [OF exp_world_healthy(1), of ?b ascii_lowercase "\<lambda>_. ''{}''"]
    by (simp add: demo_bundle_def demo_receipt_def exp_world_def demo_gene_def)
qed

end
