(* ===== verification/RateLimit.thy ===== *)
theory RateLimit
  imports TextOps
begin

text \<open>
  \<open>server/middleware/rate_limit.rs\<close> and the client id of \<open>server/handlers.rs\<close>: a sliding
  window per endpoint and client.  The lemmas bound what a client is let through in any
  window, show that the hint to retry is right, and that the window of a client who chooses
  the forwarding header is always empty.
\<close>

section \<open>Limiters\<close>

record rate_limit_config =
  rc_get_experience_rpm :: nat
  rc_post_experience_rpm :: nat
  rc_key_management_rpm :: nat

definition default_rate_limits :: rate_limit_config where
  "default_rate_limits =
     \<lparr>rc_get_experience_rpm = 100, rc_post_experience_rpm = 30, rc_key_management_rpm = 20\<rparr>"

record endpoint_limiter =
  el_requests :: "string \<rightharpoonup> nat list"
  el_max_requests :: nat
  el_window_secs :: nat

definition new_limiter :: "nat \<Rightarrow> nat \<Rightarrow> endpoint_limiter" where
  "new_limiter max_requests window = \<lparr>el_requests = Map.empty, el_max_requests = max_requests, el_window_secs = window\<rparr>"

text \<open>
  Times are seconds since the epoch, far below \<open>2^64\<close>; the subtraction of \<open>nat\<close> saturates as
  \<open>saturating_sub\<close> does, and \<open>no_underflow\<close> shows that the plain subtraction never wraps.
\<close>

definition endpoint_check :: "string \<Rightarrow> nat \<Rightarrow> endpoint_limiter \<Rightarrow> (nat + unit) \<times> endpoint_limiter" where
  "endpoint_check key now l =
     (let window = el_window_secs l;
          cutoff = now - window;
          requests = (case el_requests l key of
                        Some timestamps \<Rightarrow> (el_requests l)(key \<mapsto> filter (\<lambda>t. t > cutoff) timestamps)
                      | None \<Rightarrow> el_requests l);
          count = (case requests key of Some v \<Rightarrow> length v | None \<Rightarrow> 0)
      in if count \<ge> el_max_requests l
         then (Inl (case requests key of
                      Some (oldest # _) \<Rightarrow> max (oldest + window - now) 1
                    | _ \<Rightarrow> window), l\<lparr>el_requests := requests\<rparr>)
         else (Inr (), l\<lparr>el_requests := requests(key \<mapsto>
                 (case requests key of Some v \<Rightarrow> v @ [now] | None \<Rightarrow> [now]))\<rparr>))"

section \<open>The registry\<close>

datatype http_method = MGet | MPost | MDelete | MOther string

record rate_limiters =
  rl_get_experience :: endpoint_limiter
  rl_post_experience :: endpoint_limiter
  rl_key_management :: endpoint_limiter

definition new_registry :: "rate_limit_config \<Rightarrow> rate_limiters" where
  "new_registry c = \<lparr>rl_get_experience = new_limiter (rc_get_experience_rpm c) 60,
     rl_post_experience = new_limiter (rc_post_experience_rpm c) 60,
     rl_key_management = new_limiter (rc_key_management_rpm c) 60\<rparr>"

datatype limiter_name = GetExperience | PostExperience | KeyManagement

definition get_limiter :: "http_method \<Rightarrow> string \<Rightarrow> limiter_name option" where
  "get_limiter m path =
     (if str_starts_with path ''/experience'' \<and> m = MGet then Some GetExperience
      else if str_starts_with path ''/experience'' \<and> m = MPost then Some PostExperience
      else if str_starts_with path ''/keys'' \<or> str_starts_with path ''/public-keys'' then Some KeyManagement
      else None)"

fun limiter_of :: "limiter_name \<Rightarrow> rate_limiters \<Rightarrow> endpoint_limiter" where
  "limiter_of GetExperience r = rl_get_experience r"
| "limiter_of PostExperience r = rl_post_experience r"
| "limiter_of KeyManagement r = rl_key_management r"

fun put_limiter :: "limiter_name \<Rightarrow> endpoint_limiter \<Rightarrow> rate_limiters \<Rightarrow> rate_limiters" where
  "put_limiter GetExperience l r = r\<lparr>rl_get_experience := l\<rparr>"
| "put_limiter PostExperience l r = r\<lparr>rl_post_experience := l\<rparr>"
| "put_limiter KeyManagement l r = r\<lparr>rl_key_management := l\<rparr>"

definition registry_check :: "http_method \<Rightarrow> string \<Rightarrow> string \<Rightarrow> nat \<Rightarrow> rate_limiters \<Rightarrow> (nat + unit) \<times> rate_limiters" where
  "registry_check m path client now r =
     (case get_limiter m path of
        None \<Rightarrow> (Inr (), r)
      | Some n \<Rightarrow> (case endpoint_check client now (limiter_of n r) of (res, l) \<Rightarrow> (res, put_limiter n l r)))"

section \<open>The client id\<close>

text \<open>
  A header map gives the first value of a name.  \<open>to_str\<close> accepts visible ASCII and tabs.
\<close>

type_synonym headers = "string \<Rightarrow> string option"

definition header_str :: "headers \<Rightarrow> string \<Rightarrow> string option" where
  "header_str h name = Option.bind (h name) (\<lambda>v.
     if list_all (\<lambda>c. (of_char c :: nat) = 9 \<or> 32 \<le> (of_char c :: nat) \<and> (of_char c :: nat) < 127) v then Some v else None)"

definition extract_client_id :: "headers \<Rightarrow> string" where
  "extract_client_id h =
     (case header_str h ''x-forwarded-for'' of
        Some v \<Rightarrow> trim (takeWhile (\<lambda>c. c \<noteq> CHR '','') v)
      | None \<Rightarrow> (case header_str h ''x-real-ip'' of Some v \<Rightarrow> v | None \<Rightarrow> ''default''))"

section \<open>What a limiter lets through\<close>

definition tracked :: "endpoint_limiter \<Rightarrow> string \<Rightarrow> nat list" where
  "tracked l key = (case el_requests l key of Some ts \<Rightarrow> ts | None \<Rightarrow> [])"

text \<open>The requests of the seen window.\<close>

definition recent :: "nat \<Rightarrow> nat \<Rightarrow> nat list \<Rightarrow> nat list" where
  "recent window now ts = filter (\<lambda>t. now - window < t) ts"

lemma endpoint_check_cases:
  assumes "0 < el_max_requests l"
  obtains (admitted) l' where "endpoint_check key now l = (Inr (), l')"
    "length (recent (el_window_secs l) now (tracked l key)) < el_max_requests l"
    "tracked l' key = recent (el_window_secs l) now (tracked l key) @ [now]"
    "\<And>k. k \<noteq> key \<Longrightarrow> tracked l' k = tracked l k"
    "el_max_requests l' = el_max_requests l" "el_window_secs l' = el_window_secs l"
  | (refused) oldest rest l' where
    "endpoint_check key now l = (Inl (max (oldest + el_window_secs l - now) 1), l')"
    "recent (el_window_secs l) now (tracked l key) = oldest # rest"
    "el_max_requests l \<le> length (oldest # rest)"
    "tracked l' key = oldest # rest" "\<And>k. k \<noteq> key \<Longrightarrow> tracked l' k = tracked l k"
    "el_max_requests l' = el_max_requests l" "el_window_secs l' = el_window_secs l"
proof (cases "length (recent (el_window_secs l) now (tracked l key)) < el_max_requests l")
  case True
  then show ?thesis
    using admitted assms
    by (force simp: endpoint_check_def Let_def tracked_def recent_def split: option.splits)
next
  case False
  then obtain oldest rest where "recent (el_window_secs l) now (tracked l key) = oldest # rest"
    using assms by (cases "recent (el_window_secs l) now (tracked l key)") auto
  then show ?thesis
    using refused False
    by (force simp: endpoint_check_def Let_def tracked_def recent_def split: option.splits)
qed

lemma no_underflow: "t \<in> set (recent window now ts) \<Longrightarrow> now \<le> t + window"
  by (auto simp: recent_def)

text \<open>A run of requests, each a client and a time, and the times at which a client was let through.\<close>

fun serve :: "endpoint_limiter \<Rightarrow> (string \<times> nat) list \<Rightarrow> (nat + unit) list \<times> endpoint_limiter" where
  "serve l [] = ([], l)"
| "serve l ((key, now) # reqs) =
     (let (r, l') = endpoint_check key now l; (rs, l'') = serve l' reqs in (r # rs, l''))"

fun admitted_at :: "string \<Rightarrow> (string \<times> nat) list \<Rightarrow> (nat + unit) list \<Rightarrow> nat list" where
  "admitted_at key ((k, now) # reqs) (r # rs) =
     (if k = key \<and> r = Inr () then now # admitted_at key reqs rs else admitted_at key reqs rs)"
| "admitted_at key _ _ = []"

definition in_window :: "nat \<Rightarrow> nat \<Rightarrow> nat list \<Rightarrow> nat list" where
  "in_window window T ts = filter (\<lambda>t. T - window < t \<and> t \<le> T) ts"

text \<open>
  The ghost list \<open>past\<close> holds the admissions so far: the tracked times are its recent part, and
  no window holds more than the maximum.
\<close>

definition limiter_inv :: "string \<Rightarrow> nat \<Rightarrow> nat list \<Rightarrow> endpoint_limiter \<Rightarrow> bool" where
  "limiter_inv key seen past l \<longleftrightarrow>
     list_all (\<lambda>t. t \<le> seen) past \<and>
     recent (el_window_secs l) seen (tracked l key) = recent (el_window_secs l) seen past \<and>
     (\<forall>T. length (in_window (el_window_secs l) T past) \<le> el_max_requests l)"

lemma recent_recent: "seen \<le> now \<Longrightarrow> recent w now (recent w seen ts) = recent w now ts"
  unfolding recent_def by (auto simp: filter_filter intro!: filter_cong)

lemma recent_later: "recent w seen xs = recent w seen ys \<Longrightarrow> seen \<le> now \<Longrightarrow> recent w now xs = recent w now ys"
  by (metis recent_recent)

lemma limiter_inv_check:
  assumes inv: "limiter_inv key seen past l" and now: "seen \<le> now" and pos: "0 < el_max_requests l"
    and run: "endpoint_check k now l = (r, l')"
  shows "limiter_inv key now (past @ (if k = key \<and> r = Inr () then [now] else [])) l'"
proof -
  let ?w = "el_window_secs l"
  have "list_all (\<lambda>t. t \<le> seen) past" using inv by (simp add: limiter_inv_def)
  then have past: "list_all (\<lambda>t. t \<le> now) past" using now by (induction past) auto
  have track: "recent ?w now (tracked l key) = recent ?w now past"
    using inv unfolding limiter_inv_def by (blast intro: recent_later now)
  have idem: "recent ?w now (recent ?w now xs) = recent ?w now xs" for xs
    by (rule recent_recent) simp
  show ?thesis
    using pos
  proof (cases rule: endpoint_check_cases [of l k now])
    case (admitted l1)
    have "length (in_window ?w T (past @ [now])) \<le> el_max_requests l" if "k = key" for T
    proof (cases "T < now")
      case True
      then have "in_window ?w T (past @ [now]) = in_window ?w T past" by (simp add: in_window_def)
      then show ?thesis using inv by (simp add: limiter_inv_def)
    next
      case False
      have "length (in_window ?w T past) \<le> length (recent ?w now past)"
        using False unfolding in_window_def recent_def
        by (induction past) auto
      also have "\<dots> < el_max_requests l" using admitted(2) track that by simp
      finally show ?thesis by (simp add: in_window_def)
    qed
    then show ?thesis
      using admitted run inv past track idem
      by (auto simp: limiter_inv_def recent_def)
  next
    case (refused oldest rest l1)
    then show ?thesis
      using run inv past track idem [of "tracked l key"]
      by (cases "k = key") (auto simp: limiter_inv_def)
  qed
qed

lemma serve_inv:
  assumes "limiter_inv key seen past l" and "0 < el_max_requests l"
    and "sorted (map snd reqs)" and "list_all (\<lambda>q. seen \<le> snd q) reqs" and "serve l reqs = (rs, l')"
  shows "\<exists>seen'. limiter_inv key seen' (past @ admitted_at key reqs rs) l'"
  using assms
proof (induction reqs arbitrary: seen past l rs)
  case Nil
  then show ?case by auto
next
  case (Cons q reqs)
  obtain k now where q: "q = (k, now)" by (cases q)
  obtain r l1 rs' where step: "endpoint_check k now l = (r, l1)" "serve l1 reqs = (rs', l')" "rs = r # rs'"
    using Cons.prems(5) q by (auto simp: Let_def split: prod.splits)
  have inv: "limiter_inv key now (past @ (if k = key \<and> r = Inr () then [now] else [])) l1"
    using limiter_inv_check [OF Cons.prems(1) _ Cons.prems(2) step(1)] Cons.prems(4) q by simp
  have pos: "0 < el_max_requests l1"
    using Cons.prems(2) by (cases rule: endpoint_check_cases [of l k now]) (use step(1) Cons.prems(2) in auto)
  have later: "sorted (map snd reqs)" "list_all (\<lambda>q. now \<le> snd q) reqs"
    using Cons.prems(3) q by (auto simp: list_all_iff)
  show ?case
    using Cons.IH [OF inv pos later step(2)] q step(3) by (auto split: if_splits)
qed

lemma serve_config: "0 < el_max_requests l \<Longrightarrow> serve l reqs = (rs, l') \<Longrightarrow>
    el_max_requests l' = el_max_requests l \<and> el_window_secs l' = el_window_secs l"
proof (induction reqs arbitrary: l rs)
  case (Cons q reqs)
  obtain k now where q: "q = (k, now)" by (cases q)
  obtain r l1 rs' where step: "endpoint_check k now l = (r, l1)" "serve l1 reqs = (rs', l')"
    using Cons.prems(2) q by (auto simp: Let_def split: prod.splits)
  from Cons.prems(1) have "el_max_requests l1 = el_max_requests l \<and> el_window_secs l1 = el_window_secs l"
    by (cases rule: endpoint_check_cases [of l k now]) (use step(1) in auto)
  then show ?case using Cons.IH [OF _ step(2)] Cons.prems(1) by simp
qed simp

text \<open>
  C40 (bounds).  Whatever the requests and however clients are interleaved, with a clock that
  does not go back no client is let through more often than the configured maximum in any
  window of the configured length.
\<close>

theorem rate_bound:
  assumes "serve (new_limiter m w) reqs = (rs, l')" and "0 < m" and "sorted (map snd reqs)"
  shows "length (in_window w T (admitted_at key reqs rs)) \<le> m"
proof -
  have "limiter_inv key 0 [] (new_limiter m w)"
    by (simp add: limiter_inv_def new_limiter_def tracked_def recent_def in_window_def)
  then obtain seen' where "limiter_inv key seen' (admitted_at key reqs rs) l'"
    using serve_inv [OF _ _ assms(3) _ assms(1)] assms(2) by (force simp: new_limiter_def list_all_iff)
  then show ?thesis
    using serve_config [OF _ assms(1)] assms(2) by (simp add: limiter_inv_def new_limiter_def)
qed

lemma rate_bound_witness:
  "length (in_window 60 1030 (admitted_at ''a'' [(''a'', 1000), (''b'', 1001), (''a'', 1002), (''a'', 1030)]
     (fst (serve (new_limiter 2 60) [(''a'', 1000), (''b'', 1001), (''a'', 1002), (''a'', 1030)])))) \<le> 2"
  using rate_bound [of 2 60 "[(''a'', 1000), (''b'', 1001), (''a'', 1002), (''a'', 1030)]"] by (simp add: prod_eq_iff)

text \<open>
  A refused client that waits as long as it is told, while no other request of
  its own is let through, is let through.
\<close>

theorem retry_after_admits:
  assumes "endpoint_check key now l = (Inl wait, l')" and "0 < el_max_requests l"
    and "length (tracked l key) \<le> el_max_requests l"
  shows "fst (endpoint_check key (now + wait) l') = Inr ()"
  using assms(2)
proof (cases rule: endpoint_check_cases [of l key now])
  case (admitted l1)
  then show ?thesis using assms(1) by simp
next
  case (refused oldest rest l1)
  then have l': "l' = l1" and wait: "wait = max (oldest + el_window_secs l - now) 1" using assms(1) by auto
  have "now \<le> oldest + el_window_secs l" by (rule no_underflow [where ts = "tracked l key"]) (simp add: refused(2))
  then have "oldest \<le> now + wait - el_window_secs l" using wait by simp
  then have "length (recent (el_window_secs l) (now + wait) (oldest # rest)) \<le> length rest"
    by (simp add: recent_def)
  also have "length rest < el_max_requests l"
  proof -
    have "length (oldest # rest) \<le> length (tracked l key)" using refused(2) unfolding recent_def by (metis length_filter_le)
    then show ?thesis using assms(3) by simp
  qed
  finally have few: "length (recent (el_window_secs l1) (now + wait) (tracked l1 key)) < el_max_requests l1"
    using refused by simp
  have "0 < el_max_requests l1" using refused assms(2) by simp
  then show ?thesis
    using few l' by (cases rule: endpoint_check_cases [of l1 key "now + wait"]) auto
qed

lemma retry_after_admits_witness:
  "fst (endpoint_check ''a'' (1030 + 30) (snd (endpoint_check ''a'' 1030
     ((new_limiter 1 60)\<lparr>el_requests := [''a'' \<mapsto> [1000]]\<rparr>)))) = Inr ()"
  using retry_after_admits [of "''a''" 1030 "(new_limiter 1 60)\<lparr>el_requests := [''a'' \<mapsto> [1000]]\<rparr>" 30]
  by (simp add: endpoint_check_def new_limiter_def tracked_def)

text \<open>
  The limit binds only those who let it: a request whose forwarding header names
  a client not seen before is let through, however many requests came before it.
\<close>

theorem fresh_client_admitted:
  assumes "0 < el_max_requests l" and "tracked l (extract_client_id h) = []"
  shows "fst (endpoint_check (extract_client_id h) now l) = Inr ()"
  using assms(1)
proof (cases rule: endpoint_check_cases [of l "extract_client_id h" now])
  case (refused oldest rest l1)
  then show ?thesis using assms(2) by (simp add: recent_def)
qed simp

lemma fresh_client_admitted_witness:
  "fst (endpoint_check (extract_client_id (\<lambda>n. if n = ''x-forwarded-for'' then Some ''2'' else None)) 1000
     ((new_limiter 1 60)\<lparr>el_requests := [''1'' \<mapsto> [1000]]\<rparr>)) = Inr ()"
proof (rule fresh_client_admitted)
  have "trim ''2'' = ''2''" by code_simp
  then show "tracked ((new_limiter 1 60)\<lparr>el_requests := [''1'' \<mapsto> [1000]]\<rparr>)
      (extract_client_id (\<lambda>n. if n = ''x-forwarded-for'' then Some ''2'' else None)) = []"
    by (simp add: tracked_def extract_client_id_def header_str_def)
qed (simp add: new_limiter_def)

end
