(* ===== verification/GeneStore.thy ===== *)
theory GeneStore
  imports Keys StableSort
begin

text \<open>
  \<open>oris-memory-store/src/store.rs\<close> and \<open>types.rs\<close>: the gene store in SQLite with its tag
  index and capsules.  A double is a rational and \<open>rnd\<close> rounds the exact result of an
  operation to a double; a list column is the list its JSON text encodes.  Use counts stay
  below \<open>2^63\<close> and limits below \<open>2^61\<close>.  The lemmas show what a search returns and what it
  misses, and how outcomes and decay move the confidence.
\<close>

section \<open>Genes and capsules\<close>

record gene =
  ge_id :: uuid
  ge_name :: string
  ge_description :: string
  ge_tags :: "string list"
  ge_template :: string
  ge_preconditions :: "string list"
  ge_validation_steps :: "string list"
  ge_confidence :: rat
  ge_use_count :: nat
  ge_success_count :: nat
  ge_quality_score :: rat
  ge_created_at :: time
  ge_last_used_at :: "time option"
  ge_last_boosted_at :: "time option"
  ge_contributor_id :: "string option"

record gene_capsule =
  gc_id :: uuid
  gc_gene_id :: uuid
  gc_content :: string
  gc_env_fingerprint :: string
  gc_quality_score :: rat
  gc_confidence :: rat
  gc_use_count :: nat
  gc_success_count :: nat
  gc_last_replay_run_id :: "uuid option"
  gc_created_at :: time
  gc_last_used_at :: "time option"

record gene_query =
  gq_min_confidence :: rat
  gq_limit :: nat
  gq_required_tags :: "string list"
  gq_problem_description :: string

definition default_gene_query :: gene_query where
  "default_gene_query = \<lparr>gq_min_confidence = 1 / 2, gq_limit = 10, gq_required_tags = [], gq_problem_description = []\<rparr>"

record gene_match =
  gm_gene :: gene
  gm_relevance_score :: rat

type_synonym rounding = "rat \<Rightarrow> rat"

definition STALE_THRESHOLD :: "rounding \<Rightarrow> rat" where "STALE_THRESHOLD rnd = rnd (30 / 100)"
definition DECAY_PER_QUERY :: "rounding \<Rightarrow> rat" where "DECAY_PER_QUERY rnd = rnd (2 / 1000)"
definition BOOST_ON_SUCCESS :: "rounding \<Rightarrow> rat" where "BOOST_ON_SUCCESS rnd = rnd (5 / 100)"
definition PENALTY_ON_FAILURE :: "rounding \<Rightarrow> rat" where "PENALTY_ON_FAILURE rnd = rnd (8 / 100)"

section \<open>The tables\<close>

text \<open>A row of \<open>genes\<close> or \<open>capsules\<close> holds the columns of the struct.\<close>

record genestore = env +
  gs_genes :: "gene list"
  gs_tags :: "(uuid \<times> string) list"
  gs_capsules :: "gene_capsule list"

text \<open>Every error is an \<open>anyhow::Error\<close> from the database.\<close>

type_synonym 'a gene_op = "(genestore, db_error, 'a) op"

definition upsert_gene_rows :: "gene \<Rightarrow> gene list \<Rightarrow> gene list" where
  "upsert_gene_rows g rows =
     (if \<exists>r \<in> set rows. ge_id r = ge_id g
      then sql_update (\<lambda>r. ge_id r = ge_id g) (\<lambda>r. g\<lparr>ge_created_at := ge_created_at r\<rparr>) rows
      else rows @ [g])"

text \<open>\<open>INSERT OR IGNORE\<close> on the primary key \<open>(gene_id, tag)\<close>.\<close>

fun insert_tags :: "uuid \<Rightarrow> string list \<Rightarrow> unit gene_op" where
  "insert_tags i [] = ret ()"
| "insert_tags i (t # ts) =
     bindE (exec (modify (\<lambda>s. if (i, t) \<in> set (gs_tags s) then s else s\<lparr>gs_tags := gs_tags s @ [(i, t)]\<rparr>))) (\<lambda>_.
     insert_tags i ts)"

definition store_upsert_gene :: "gene \<Rightarrow> unit gene_op" where
  "store_upsert_gene g =
     bindE (exec (modify (\<lambda>s. s\<lparr>gs_genes := upsert_gene_rows g (gs_genes s)\<rparr>))) (\<lambda>_.
     bindE (exec (modify (\<lambda>s. s\<lparr>gs_tags := sql_delete (\<lambda>(i, t). i = ge_id g) (gs_tags s)\<rparr>))) (\<lambda>_.
     insert_tags (ge_id g) (ge_tags g)))"

text \<open>A time outside the years 0 to 9999 is not read back: the creation time becomes the present.\<close>

definition row_to_gene :: "gene \<Rightarrow> gene gene_op" where
  "row_to_gene r =
     bindE (case parse_rfc3339 (ge_created_at r) of Some t \<Rightarrow> ret t | None \<Rightarrow> utc_now) (\<lambda>created.
     ret (r\<lparr>ge_created_at := created, ge_last_used_at := read_time_option (ge_last_used_at r),
            ge_last_boosted_at := read_time_option (ge_last_boosted_at r)\<rparr>))"

fun read_genes :: "gene list \<Rightarrow> gene list gene_op" where
  "read_genes [] = ret []"
| "read_genes (r # rs) = bindE (row_to_gene r) (\<lambda>g. bindE (read_genes rs) (\<lambda>gs. ret (g # gs)))"

definition store_get_gene :: "uuid \<Rightarrow> gene option gene_op" where
  "store_get_gene i =
     bindE (exec (gets (\<lambda>s. find (\<lambda>r. ge_id r = i) (gs_genes s)))) (\<lambda>row.
     case row of None \<Rightarrow> ret None | Some r \<Rightarrow> bindE (row_to_gene r) (\<lambda>g. ret (Some g)))"

text \<open>With \<open>foreign_keys=ON\<close> the tags and capsules of the gene are deleted with it.\<close>

definition store_delete_gene :: "uuid \<Rightarrow> unit gene_op" where
  "store_delete_gene i = exec (modify (\<lambda>s. s\<lparr>
     gs_genes := sql_delete (\<lambda>r. ge_id r = i) (gs_genes s),
     gs_tags := sql_delete (\<lambda>(j, t). j = i) (gs_tags s),
     gs_capsules := sql_delete (\<lambda>c. gc_gene_id c = i) (gs_capsules s)\<rparr>))"

section \<open>Search\<close>

text \<open>\<open>COUNT(DISTINCT tag)\<close> over the rows of the gene whose tag is asked for.\<close>

definition tag_hits :: "string list \<Rightarrow> (uuid \<times> string) list \<Rightarrow> uuid \<Rightarrow> nat" where
  "tag_hits required tags i = length (remdups (map snd (filter (\<lambda>(j, t). j = i \<and> t \<in> set required) tags)))"

definition tagged_ids :: "string list \<Rightarrow> (uuid \<times> string) list \<Rightarrow> uuid list" where
  "tagged_ids required tags =
     filter (\<lambda>i. tag_hits required tags i = length required)
       (remdups (map fst (filter (\<lambda>(i, t). t \<in> set required) tags)))"

definition by_confidence :: "gene list \<Rightarrow> gene list" where
  "by_confidence rows = sort_by (\<lambda>a b. cmp (ge_confidence b) (ge_confidence a)) rows"

definition candidate_ids :: "gene_query \<Rightarrow> genestore \<Rightarrow> uuid list" where
  "candidate_ids q s = take (gq_limit q * 3)
     (if gq_required_tags q = []
      then map ge_id (by_confidence (filter (\<lambda>r. gq_min_confidence q \<le> ge_confidence r) (gs_genes s)))
      else tagged_ids (gq_required_tags q) (gs_tags s))"

definition relevance_score :: "rounding \<Rightarrow> (string \<Rightarrow> string) \<Rightarrow> gene \<Rightarrow> gene_query \<Rightarrow> rat" where
  "relevance_score rnd lower g q =
     (let description_lower = lower (gq_problem_description q);
          keyword_hits = length (filter (str_contains description_lower) (ge_tags g));
          tag_score = (if ge_tags g = [] then 1 / 2 else rnd (of_nat keyword_hits / of_nat (length (ge_tags g))))
      in rnd (rnd (rnd (rnd (40 / 100) * tag_score) + rnd (rnd (35 / 100) * ge_confidence g)) +
              rnd (1 / 4 * ge_quality_score g)))"

fun score_candidates :: "rounding \<Rightarrow> (string \<Rightarrow> string) \<Rightarrow> gene_query \<Rightarrow> uuid list \<Rightarrow> gene_match list gene_op" where
  "score_candidates rnd lower q [] = ret []"
| "score_candidates rnd lower q (i # is) =
     bindE (exec (gets (\<lambda>s. find (\<lambda>r. ge_id r = i \<and> gq_min_confidence q \<le> ge_confidence r) (gs_genes s)))) (\<lambda>row.
     bindE (case row of
              None \<Rightarrow> ret []
            | Some r \<Rightarrow> bindE (row_to_gene r) (\<lambda>g. ret [\<lparr>gm_gene = g, gm_relevance_score = relevance_score rnd lower g q\<rparr>])) (\<lambda>m.
     bindE (score_candidates rnd lower q is) (\<lambda>ms. ret (m @ ms))))"

definition search_genes :: "rounding \<Rightarrow> (string \<Rightarrow> string) \<Rightarrow> gene_query \<Rightarrow> gene_match list gene_op" where
  "search_genes rnd lower q =
     bindE (exec (gets (candidate_ids q))) (\<lambda>ids.
     bindE (score_candidates rnd lower q ids) (\<lambda>matches.
     ret (take (gq_limit q) (sort_by (\<lambda>a b. cmp (gm_relevance_score b) (gm_relevance_score a)) matches))))"

section \<open>Confidence\<close>

definition decay_all :: "rounding \<Rightarrow> unit gene_op" where
  "decay_all rnd =
     bindE (exec (modify (\<lambda>s. s\<lparr>gs_genes := sql_update (\<lambda>_. True)
        (\<lambda>r. r\<lparr>ge_confidence := max (STALE_THRESHOLD rnd) (rnd (ge_confidence r - DECAY_PER_QUERY rnd))\<rparr>) (gs_genes s)\<rparr>))) (\<lambda>_.
     exec (modify (\<lambda>s. s\<lparr>gs_capsules := sql_update (\<lambda>_. True)
        (\<lambda>c. c\<lparr>gc_confidence := max (STALE_THRESHOLD rnd) (rnd (gc_confidence c - DECAY_PER_QUERY rnd))\<rparr>) (gs_capsules s)\<rparr>)))"

definition boosted :: "rounding \<Rightarrow> rat \<Rightarrow> rat" where
  "boosted rnd c = min 1 (rnd (c + BOOST_ON_SUCCESS rnd))"

definition penalised :: "rounding \<Rightarrow> rat \<Rightarrow> rat" where
  "penalised rnd c = max (STALE_THRESHOLD rnd) (rnd (c - PENALTY_ON_FAILURE rnd))"

definition record_gene_outcome :: "rounding \<Rightarrow> uuid \<Rightarrow> bool \<Rightarrow> unit gene_op" where
  "record_gene_outcome rnd i success =
     bindE utc_now (\<lambda>now. exec (modify (\<lambda>s. s\<lparr>gs_genes := sql_update (\<lambda>r. ge_id r = i)
       (\<lambda>r. if success
            then r\<lparr>ge_use_count := ge_use_count r + 1, ge_success_count := ge_success_count r + 1,
                   ge_confidence := boosted rnd (ge_confidence r), ge_last_used_at := Some now, ge_last_boosted_at := Some now\<rparr>
            else r\<lparr>ge_use_count := ge_use_count r + 1, ge_confidence := penalised rnd (ge_confidence r),
                   ge_last_used_at := Some now\<rparr>) (gs_genes s)\<rparr>)))"

definition stale_genes :: "rounding \<Rightarrow> gene list gene_op" where
  "stale_genes rnd =
     bindE (exec (gets (\<lambda>s. filter (\<lambda>r. ge_confidence r \<le> STALE_THRESHOLD rnd) (gs_genes s)))) read_genes"

section \<open>Capsules\<close>

text \<open>The gene of a new capsule must exist; the update keeps the gene and the creation time.\<close>

definition upsert_capsule :: "gene_capsule \<Rightarrow> unit gene_op" where
  "upsert_capsule c = exec (\<lambda>s.
     if \<exists>r \<in> set (gs_capsules s). gc_id r = gc_id c
     then (Inr (), s\<lparr>gs_capsules := sql_update (\<lambda>r. gc_id r = gc_id c)
            (\<lambda>r. c\<lparr>gc_gene_id := gc_gene_id r, gc_created_at := gc_created_at r\<rparr>) (gs_capsules s)\<rparr>)
     else if \<exists>g \<in> set (gs_genes s). ge_id g = gc_gene_id c
     then (Inr (), s\<lparr>gs_capsules := gs_capsules s @ [c]\<rparr>)
     else (Inl DbError, s))"

definition row_to_capsule :: "gene_capsule \<Rightarrow> gene_capsule gene_op" where
  "row_to_capsule r =
     bindE (case parse_rfc3339 (gc_created_at r) of Some t \<Rightarrow> ret t | None \<Rightarrow> utc_now) (\<lambda>created.
     ret (r\<lparr>gc_created_at := created, gc_last_used_at := read_time_option (gc_last_used_at r)\<rparr>))"

fun read_capsules :: "gene_capsule list \<Rightarrow> gene_capsule list gene_op" where
  "read_capsules [] = ret []"
| "read_capsules (r # rs) = bindE (row_to_capsule r) (\<lambda>c. bindE (read_capsules rs) (\<lambda>cs. ret (c # cs)))"

definition store_get_capsule :: "uuid \<Rightarrow> gene_capsule option gene_op" where
  "store_get_capsule i =
     bindE (exec (gets (\<lambda>s. find (\<lambda>r. gc_id r = i) (gs_capsules s)))) (\<lambda>row.
     case row of None \<Rightarrow> ret None | Some r \<Rightarrow> bindE (row_to_capsule r) (\<lambda>c. ret (Some c)))"

definition capsules_for_gene :: "uuid \<Rightarrow> gene_capsule list gene_op" where
  "capsules_for_gene i =
     bindE (exec (gets (\<lambda>s. sort_by (\<lambda>a b. cmp (gc_confidence b) (gc_confidence a))
        (filter (\<lambda>c. gc_gene_id c = i) (gs_capsules s))))) read_capsules"

definition record_capsule_outcome :: "rounding \<Rightarrow> uuid \<Rightarrow> bool \<Rightarrow> uuid option \<Rightarrow> unit gene_op" where
  "record_capsule_outcome rnd i success run =
     bindE utc_now (\<lambda>now. exec (modify (\<lambda>s. s\<lparr>gs_capsules := sql_update (\<lambda>r. gc_id r = i)
       (\<lambda>r. if success
            then r\<lparr>gc_use_count := gc_use_count r + 1, gc_success_count := gc_success_count r + 1,
                   gc_confidence := boosted rnd (gc_confidence r), gc_last_replay_run_id := run, gc_last_used_at := Some now\<rparr>
            else r\<lparr>gc_use_count := gc_use_count r + 1, gc_confidence := penalised rnd (gc_confidence r),
                   gc_last_used_at := Some now\<rparr>) (gs_capsules s)\<rparr>)))"

section \<open>A store for the witnesses\<close>

definition demo_stored_gene :: gene where
  "demo_stored_gene = \<lparr>ge_id = ''g'', ge_name = ''retry'', ge_description = ''d'', ge_tags = [''rust''], ge_template = ''t'',
     ge_preconditions = [], ge_validation_steps = [], ge_confidence = 8 / 10, ge_use_count = 0, ge_success_count = 0,
     ge_quality_score = 1 / 2, ge_created_at = 0, ge_last_used_at = None, ge_last_boosted_at = None, ge_contributor_id = None\<rparr>"

definition gene_world :: genestore where
  "gene_world = \<lparr>tick = 0, clock = int, uuids = (\<lambda>n. replicate (Suc n) CHR ''a''), fails = (\<lambda>_. False),
     gs_genes = [demo_stored_gene], gs_tags = [(''g'', ''rust'')], gs_capsules = []\<rparr>"

section \<open>Referential integrity\<close>

text \<open>Keys are unique and no tag or capsule is without its gene.\<close>

definition gs_wf :: "genestore \<Rightarrow> bool" where
  "gs_wf s \<longleftrightarrow> distinct (map ge_id (gs_genes s)) \<and> distinct (gs_tags s) \<and> distinct (map gc_id (gs_capsules s)) \<and>
     (\<forall>p \<in> set (gs_tags s). fst p \<in> ge_id ` set (gs_genes s)) \<and>
     (\<forall>c \<in> set (gs_capsules s). gc_gene_id c \<in> ge_id ` set (gs_genes s))"

text \<open>One call of the store.\<close>

inductive gene_step :: "rounding \<Rightarrow> (string \<Rightarrow> string) \<Rightarrow> genestore \<Rightarrow> genestore \<Rightarrow> bool" for rnd lower where
  step_upsert: "store_upsert_gene g s = (r, s') \<Longrightarrow> gene_step rnd lower s s'"
| step_get: "store_get_gene i s = (r, s') \<Longrightarrow> gene_step rnd lower s s'"
| step_delete: "store_delete_gene i s = (r, s') \<Longrightarrow> gene_step rnd lower s s'"
| step_search: "search_genes rnd lower q s = (r, s') \<Longrightarrow> gene_step rnd lower s s'"
| step_decay: "decay_all rnd s = (r, s') \<Longrightarrow> gene_step rnd lower s s'"
| step_outcome: "record_gene_outcome rnd i success s = (r, s') \<Longrightarrow> gene_step rnd lower s s'"
| step_stale: "stale_genes rnd s = (r, s') \<Longrightarrow> gene_step rnd lower s s'"
| step_upsert_capsule: "upsert_capsule c s = (r, s') \<Longrightarrow> gene_step rnd lower s s'"
| step_get_capsule: "store_get_capsule i s = (r, s') \<Longrightarrow> gene_step rnd lower s s'"
| step_capsules: "capsules_for_gene i s = (r, s') \<Longrightarrow> gene_step rnd lower s s'"
| step_capsule_outcome: "record_capsule_outcome rnd i success run s = (r, s') \<Longrightarrow> gene_step rnd lower s s'"


lemma tag_row [simp]: "gs_wf (s\<lparr>tick := t\<rparr>) = gs_wf s"
  by (simp add: gs_wf_def)

lemma gs_wf_tags:
  "gs_wf s \<Longrightarrow> distinct ts \<Longrightarrow> \<forall>p \<in> set ts. fst p \<in> ge_id ` set (gs_genes s) \<Longrightarrow> gs_wf (s\<lparr>gs_tags := ts\<rparr>)"
  unfolding gs_wf_def by simp

lemma gs_wf_capsules:
  "gs_wf s \<Longrightarrow> distinct (map gc_id cs) \<Longrightarrow> \<forall>c \<in> set cs. gc_gene_id c \<in> ge_id ` set (gs_genes s) \<Longrightarrow>
   gs_wf (s\<lparr>gs_capsules := cs\<rparr>)"
  unfolding gs_wf_def by simp

lemma gs_wf_genes:
  "gs_wf s \<Longrightarrow> distinct (map ge_id gs) \<Longrightarrow> ge_id ` set (gs_genes s) \<subseteq> ge_id ` set gs \<Longrightarrow> gs_wf (s\<lparr>gs_genes := gs\<rparr>)"
  unfolding gs_wf_def by (simp add: subset_iff)

lemma gs_wfD:
  "gs_wf s \<Longrightarrow> distinct (map ge_id (gs_genes s))" "gs_wf s \<Longrightarrow> distinct (gs_tags s)"
  "gs_wf s \<Longrightarrow> distinct (map gc_id (gs_capsules s))"
  "gs_wf s \<Longrightarrow> (i, t) \<in> set (gs_tags s) \<Longrightarrow> i \<in> ge_id ` set (gs_genes s)"
  "gs_wf s \<Longrightarrow> c \<in> set (gs_capsules s) \<Longrightarrow> gc_gene_id c \<in> ge_id ` set (gs_genes s)"
  by (auto simp: gs_wf_def)

lemma keeps_gene_reads [keep_intros]:
  assumes "\<And>s t. P s \<Longrightarrow> P (s\<lparr>tick := t\<rparr>)"
  shows "keeps P (row_to_gene r)" "keeps P (row_to_capsule c)" "keeps P (read_genes rs)" "keeps P (read_capsules cs)"
    "keeps P (score_candidates rnd lower q ids)"
proof -
  show row: "keeps P (row_to_gene r)" for r
    unfolding row_to_gene_def by (intro keep_intros assms)
  show capsule: "keeps P (row_to_capsule c)" for c
    unfolding row_to_capsule_def by (intro keep_intros assms)
  show "keeps P (read_genes rs)" by (induction rs) (auto intro!: keep_intros row)
  show "keeps P (read_capsules cs)" by (induction cs) (auto intro!: keep_intros capsule)
  show "keeps P (score_candidates rnd lower q ids)" by (induction ids) (auto intro!: keep_intros row assms)
qed

lemma ids_upsert [simp]: "ge_id ` set (upsert_gene_rows g rows) = insert (ge_id g) (ge_id ` set rows)"
proof (cases "\<exists>r \<in> set rows. ge_id r = ge_id g")
  case True
  then have "map ge_id (upsert_gene_rows g rows) = map ge_id rows"
    by (simp add: upsert_gene_rows_def sql_update_def)
  then have "ge_id ` set (upsert_gene_rows g rows) = ge_id ` set rows" by (metis set_map)
  moreover have "ge_id g \<in> ge_id ` set rows" using True by (metis imageI)
  ultimately show ?thesis by (simp add: insert_absorb)
qed (simp add: upsert_gene_rows_def)

lemma distinct_upsert:
  assumes "distinct (map ge_id rows)"
  shows "distinct (map ge_id (upsert_gene_rows g rows))"
proof (cases "\<exists>r \<in> set rows. ge_id r = ge_id g")
  case True
  then have "map ge_id (upsert_gene_rows g rows) = map ge_id rows"
    by (simp add: upsert_gene_rows_def sql_update_def)
  then show ?thesis using assms by simp
next
  case False
  then show ?thesis using assms by (auto simp: upsert_gene_rows_def)
qed

lemma keeps_wf_upsert: "keeps gs_wf (store_upsert_gene g)"
proof -
  let ?Q = "\<lambda>s. gs_wf s \<and> ge_id g \<in> ge_id ` set (gs_genes s)"
  have insert: "?Q (if (ge_id g, t) \<in> set (gs_tags s) then s else s\<lparr>gs_tags := gs_tags s @ [(ge_id g, t)]\<rparr>)"
    if "?Q s" for s t
    using that by (auto intro!: gs_wf_tags dest: gs_wfD)
  have tags: "keeps ?Q (insert_tags (ge_id g) ts)" for ts
  proof (induction ts)
    case (Cons t ts)
    then show ?case unfolding insert_tags.simps by (intro keep_intros insert) simp
  qed (simp add: keep_intros)
  have delete: "?Q (s\<lparr>gs_tags := sql_delete (\<lambda>(i, t). i = ge_id g) (gs_tags s)\<rparr>)" if "?Q s" for s
    using that by (auto intro!: gs_wf_tags simp: sql_delete_def dest: gs_wfD)
  have rest: "keeps ?Q (bindE (exec (modify (\<lambda>s. s\<lparr>gs_tags := sql_delete (\<lambda>(i, t). i = ge_id g) (gs_tags s)\<rparr>)))
      (\<lambda>_. insert_tags (ge_id g) (ge_tags g)))"
    by (intro keep_intros tags delete) simp
  show ?thesis
  proof (rule keepsI)
    fix s r t assume wf: "gs_wf s" and run: "store_upsert_gene g s = (r, t)"
    from run show "gs_wf t"
      unfolding store_upsert_gene_def
    proof (cases rule: bindE_E)
      case (err e)
      then show ?thesis using wf by (auto simp: exec_def modify_def split: if_splits)
    next
      case (step u s')
      have "gs_wf (w\<lparr>gs_genes := upsert_gene_rows g (gs_genes w)\<rparr>)" if "gs_wf w" for w
        using that by (intro gs_wf_genes distinct_upsert gs_wfD(1)) auto
      from this [of "s\<lparr>tick := Suc (tick s)\<rparr>"] have "?Q s'"
        using step(1) wf by (auto simp: exec_def modify_def split: if_splits)
      then show ?thesis using keepsD [OF rest _ step(2)] by blast
    qed
  qed
qed

lemma map_sql_update_same: "(\<And>r. p r \<Longrightarrow> k (f r) = k r) \<Longrightarrow> map k (sql_update p f rows) = map k rows"
  by (simp add: sql_update_def)

lemma keeps_wf_updates:
  assumes "\<And>r. ge_id (f r) = ge_id r" and "\<And>c. gc_id (h c) = gc_id c" "\<And>c. gc_gene_id (h c) = gc_gene_id c"
  shows "keeps gs_wf (exec (modify (\<lambda>s. s\<lparr>gs_genes := sql_update p f (gs_genes s)\<rparr>)))"
    "keeps gs_wf (exec (modify (\<lambda>s. s\<lparr>gs_capsules := sql_update p' h (gs_capsules s)\<rparr>)))"
proof -
  have genes: "map ge_id (sql_update p f rows) = map ge_id rows" for rows
    by (rule map_sql_update_same) (rule assms(1))
  have "gs_wf (s\<lparr>gs_genes := sql_update p f (gs_genes s)\<rparr>)" if "gs_wf s" for s
    using that genes [of "gs_genes s"] by (intro gs_wf_genes) (auto dest: gs_wfD(1) simp flip: set_map)
  then show "keeps gs_wf (exec (modify (\<lambda>s. s\<lparr>gs_genes := sql_update p f (gs_genes s)\<rparr>)))"
    by (intro keep_intros) simp_all
  have "gs_wf (s\<lparr>gs_capsules := sql_update p' h (gs_capsules s)\<rparr>)" if "gs_wf s" for s
  proof (rule gs_wf_capsules [OF that])
    show "distinct (map gc_id (sql_update p' h (gs_capsules s)))"
      using gs_wfD(3) [OF that] map_sql_update_same [of p' gc_id h] assms(2) by simp
  qed (use that assms(3) in \<open>auto dest: gs_wfD(5) simp: sql_update_def\<close>)
  then show "keeps gs_wf (exec (modify (\<lambda>s. s\<lparr>gs_capsules := sql_update p' h (gs_capsules s)\<rparr>)))"
    by (intro keep_intros) simp_all
qed

lemma keeps_wf_upsert_capsule: "keeps gs_wf (upsert_capsule c)"
proof -
  let ?f = "\<lambda>r. c\<lparr>gc_gene_id := gc_gene_id r, gc_created_at := gc_created_at r\<rparr>"
  have "gs_wf (s\<lparr>gs_capsules := sql_update (\<lambda>r. gc_id r = gc_id c) ?f (gs_capsules s)\<rparr>)" if "gs_wf s" for s
  proof (rule gs_wf_capsules [OF that])
    show "distinct (map gc_id (sql_update (\<lambda>r. gc_id r = gc_id c) ?f (gs_capsules s)))"
      using gs_wfD(3) [OF that] map_sql_update_same [of "\<lambda>r. gc_id r = gc_id c" gc_id ?f] by simp
  qed (use that in \<open>auto dest: gs_wfD(5) simp: sql_update_def\<close>)
  moreover have "gs_wf (s\<lparr>gs_capsules := gs_capsules s @ [c]\<rparr>)"
    if "gs_wf s" "\<not> (\<exists>r \<in> set (gs_capsules s). gc_id r = gc_id c)" "\<exists>g \<in> set (gs_genes s). ge_id g = gc_gene_id c" for s
  proof -
    have "gc_gene_id c \<in> ge_id ` set (gs_genes s)" using that(3) by (metis imageI)
    then show ?thesis using that(1,2) by (intro gs_wf_capsules) (auto dest: gs_wfD(3,5))
  qed
  ultimately show ?thesis
    unfolding upsert_capsule_def by (intro keeps_exec) (simp_all add: keeps_def)
qed

lemma keeps_wf_delete: "keeps gs_wf (store_delete_gene i)"
proof -
  have "gs_wf (s\<lparr>gs_genes := sql_delete (\<lambda>r. ge_id r = i) (gs_genes s), gs_tags := sql_delete (\<lambda>(j, t). j = i) (gs_tags s),
      gs_capsules := sql_delete (\<lambda>c. gc_gene_id c = i) (gs_capsules s)\<rparr>)" if "gs_wf s" for s
    using that unfolding gs_wf_def sql_delete_def by (force simp: distinct_map_filter)
  then show ?thesis unfolding store_delete_gene_def by (intro keep_intros) simp_all
qed

text \<open>
  C19 (invariant).  Whatever calls are made, in whatever order and however they fail, ids are
  unique, and no tag and no capsule refers to a gene that is not stored.
\<close>

theorem gene_store_integrity:
  assumes "(gene_step rnd lower)\<^sup>*\<^sup>* s s'" and "gs_wf s"
  shows "gs_wf s'"
  using assms
proof (induction rule: rtranclp_induct)
  case (step t u)
  have wf: "gs_wf t" by (rule step.IH [OF step.prems])
  have reads: "keeps gs_wf (store_get_gene i)" "keeps gs_wf (search_genes rnd lower q)" "keeps gs_wf (stale_genes rnd)"
    "keeps gs_wf (store_get_capsule i)" "keeps gs_wf (capsules_for_gene i)" for i q
    unfolding store_get_gene_def search_genes_def stale_genes_def store_get_capsule_def capsules_for_gene_def
    by ((intro keep_intros; simp?)+)
  have writes: "keeps gs_wf (decay_all rnd)" "keeps gs_wf (record_gene_outcome rnd i success)"
    "keeps gs_wf (record_capsule_outcome rnd i success run)" for i success run
    unfolding decay_all_def record_gene_outcome_def record_capsule_outcome_def
    by ((intro keep_intros keeps_wf_updates; simp?)+)
  from step(2) show ?case
    by (cases rule: gene_step.cases)
       (auto dest: keepsD [OF reads(1) wf] keepsD [OF reads(2) wf] keepsD [OF reads(3) wf] keepsD [OF reads(4) wf]
         keepsD [OF reads(5) wf] keepsD [OF writes(1) wf] keepsD [OF writes(2) wf] keepsD [OF writes(3) wf]
         keepsD [OF keeps_wf_upsert wf] keepsD [OF keeps_wf_upsert_capsule wf] keepsD [OF keeps_wf_delete wf])
qed simp

lemma gene_store_integrity_witness:
  "gs_wf (snd (store_upsert_gene demo_stored_gene gene_world))"
proof (rule gene_store_integrity [OF r_into_rtranclp])
  show "gene_step id id gene_world (snd (store_upsert_gene demo_stored_gene gene_world))"
    by (rule gene_step.intros(1)) (simp add: prod_eq_iff)
qed (simp add: gs_wf_def gene_world_def demo_stored_gene_def)

section \<open>What a search returns\<close>

lemma row_to_gene_InrD:
  assumes "row_to_gene r s = (Inr g, t)"
  shows "ge_id g = ge_id r \<and> ge_confidence g = ge_confidence r \<and> ge_tags g = ge_tags r \<and>
     ge_quality_score g = ge_quality_score r \<and> gs_genes t = gs_genes s \<and> gs_tags t = gs_tags s"
  using assms by (auto simp: row_to_gene_def utc_now_def monad_defs split: option.splits)

text \<open>The stored gene a match stands for.\<close>

definition match_of :: "gene_query \<Rightarrow> gene list \<Rightarrow> uuid list \<Rightarrow> gene_match \<Rightarrow> bool" where
  "match_of q rows ids m \<longleftrightarrow> (\<exists>r \<in> set rows. ge_id r \<in> set ids \<and> ge_id (gm_gene m) = ge_id r \<and>
     ge_confidence (gm_gene m) = ge_confidence r \<and> ge_tags (gm_gene m) = ge_tags r \<and>
     gq_min_confidence q \<le> ge_confidence r)"

lemma score_candidates_InrD:
  assumes "score_candidates rnd lower q ids s = (Inr ms, t)"
  shows "list_all (match_of q (gs_genes s) ids) ms \<and>
     list_all (\<lambda>m. gm_relevance_score m = relevance_score rnd lower (gm_gene m) q) ms \<and> gs_genes t = gs_genes s"
  using assms
proof (induction ids arbitrary: s ms t)
  case (Cons i ids)
  from Cons.prems show ?case
    unfolding score_candidates.simps
  proof (elim bindE_InrE)
    fix row s1 m s2 rest s3
    assume row: "exec (gets (\<lambda>s. find (\<lambda>r. ge_id r = i \<and> gq_min_confidence q \<le> ge_confidence r) (gs_genes s))) s = (Inr row, s1)"
      and m: "(case row of None \<Rightarrow> ret [] | Some r \<Rightarrow> bindE (row_to_gene r)
          (\<lambda>g. ret [\<lparr>gm_gene = g, gm_relevance_score = relevance_score rnd lower g q\<rparr>])) s1 = (Inr m, s2)"
      and rest: "score_candidates rnd lower q ids s2 = (Inr rest, s3)" and ms: "ret (m @ rest) s3 = (Inr ms, t)"
    have s1: "gs_genes s1 = gs_genes s" and found: "row = find (\<lambda>r. ge_id r = i \<and> gq_min_confidence q \<le> ge_confidence r) (gs_genes s)"
      using row by (auto simp: exec_def gets_def split: if_splits)
    have here: "list_all (match_of q (gs_genes s) (i # ids)) m \<and>
        list_all (\<lambda>m. gm_relevance_score m = relevance_score rnd lower (gm_gene m) q) m \<and> gs_genes s2 = gs_genes s"
    proof (cases row)
      case None
      then show ?thesis using m s1 by (simp add: ret_def)
    next
      case (Some r)
      then obtain g s2' where g: "row_to_gene r s1 = (Inr g, s2')" and out: "s2 = s2'"
        "m = [\<lparr>gm_gene = g, gm_relevance_score = relevance_score rnd lower g q\<rparr>]"
        using m by (auto simp: bindE_Inr_iff ret_def)
      have "r \<in> set (gs_genes s)" "ge_id r = i" "gq_min_confidence q \<le> ge_confidence r"
        using find_Some_in_set [OF trans [OF found [symmetric] Some]] by auto
      then show ?thesis using row_to_gene_InrD [OF g] out s1 by (auto simp: match_of_def)
    qed
    moreover have "list_all (match_of q (gs_genes s2) ids) rest \<and>
        list_all (\<lambda>m. gm_relevance_score m = relevance_score rnd lower (gm_gene m) q) rest \<and> gs_genes s3 = gs_genes s2"
      by (rule Cons.IH [OF rest])
    ultimately show ?thesis
      using ms by (auto simp: ret_def list_all_iff match_of_def)
  qed
qed (simp add: ret_def)

lemma search_genes_InrE:
  assumes "search_genes rnd lower q s = (Inr ms, s')"
  obtains all s1 s2 where "score_candidates rnd lower q (candidate_ids q (s\<lparr>tick := Suc (tick s)\<rparr>)) s1 = (Inr all, s2)"
    "gs_genes s1 = gs_genes s" "ms = take (gq_limit q) (sort_by (\<lambda>a b. cmp (gm_relevance_score b) (gm_relevance_score a)) all)"
  using assms unfolding search_genes_def
  by (elim bindE_InrE) (auto simp: exec_def gets_def ret_def split: if_splits)

lemma candidate_ids_tick [simp]: "candidate_ids q (s\<lparr>tick := t\<rparr>) = candidate_ids q s"
  by (simp add: candidate_ids_def)

text \<open>A gene has as many hits as there are required tags only when the required tags differ and it has them all.\<close>

lemma tagged_all:
  assumes "i \<in> set (tagged_ids required tags)"
  shows "distinct required \<and> (\<forall>t \<in> set required. (i, t) \<in> set tags)"
proof -
  let ?hits = "{t \<in> set required. (i, t) \<in> set tags}"
  have "set (map snd (filter (\<lambda>(j, t). j = i \<and> t \<in> set required) tags)) = ?hits" by force
  then have "tag_hits required tags i = card ?hits"
    unfolding tag_hits_def by (metis length_remdups_card_conv)
  then have "length required = card ?hits" using assms by (simp add: tagged_ids_def)
  moreover have "card ?hits \<le> card (set required)" by (rule card_mono) auto
  ultimately have "card ?hits = card (set required)" "card (set required) = length required"
    using card_length [of required] by simp_all
  moreover from this(1) have "?hits = set required" by (intro card_subset_eq) auto
  ultimately show ?thesis using card_distinct by blast
qed

text \<open>
  C34 (safety).  Every match of a search is a stored gene whose confidence reaches the minimum
  and that carries all required tags in the index; there are at most as many as asked for,
  in the order of falling relevance.
\<close>

theorem gene_search_sound:
  assumes "search_genes rnd lower q s = (Inr ms, s')"
  shows "length ms \<le> gq_limit q \<and> sorted_wrt (\<lambda>a b. gm_relevance_score b \<le> gm_relevance_score a) ms \<and>
     (\<forall>m \<in> set ms. gm_relevance_score m = relevance_score rnd lower (gm_gene m) q \<and>
       (\<exists>r \<in> set (gs_genes s). ge_id (gm_gene m) = ge_id r \<and> ge_confidence (gm_gene m) = ge_confidence r \<and>
          ge_tags (gm_gene m) = ge_tags r \<and> gq_min_confidence q \<le> ge_confidence r \<and>
          (\<forall>t \<in> set (gq_required_tags q). (ge_id r, t) \<in> set (gs_tags s))))"
proof -
  let ?c = "\<lambda>a b. cmp (gm_relevance_score b) (gm_relevance_score a)"
  from assms obtain all s1 s2 where run: "score_candidates rnd lower q (candidate_ids q s) s1 = (Inr all, s2)"
    "gs_genes s1 = gs_genes s" and ms: "ms = take (gq_limit q) (sort_by ?c all)"
    by (rule search_genes_InrE) (metis candidate_ids_tick)
  have "sorted_wrt (\<lambda>a b. ?c a b \<noteq> Greater) (sort_by ?c all)"
    by (rule sorted_sort_by [OF ranks_cmp_keys])
  then have sorted: "sorted_wrt (\<lambda>a b. gm_relevance_score b \<le> gm_relevance_score a) ms"
    unfolding ms by (intro sorted_wrt_take) (simp add: not_less)
  have tags: "\<forall>t \<in> set (gq_required_tags q). (i, t) \<in> set (gs_tags s)" if "i \<in> set (candidate_ids q s)" for i
  proof (cases "gq_required_tags q = []")
    case False
    then have "i \<in> set (tagged_ids (gq_required_tags q) (gs_tags s))"
      using that by (auto simp: candidate_ids_def dest: in_set_takeD)
    then show ?thesis using tagged_all by blast
  qed simp
  have "set ms \<subseteq> set all" unfolding ms by (metis set_sort_by set_take_subset)
  moreover have "list_all (match_of q (gs_genes s) (candidate_ids q s)) all"
    "list_all (\<lambda>m. gm_relevance_score m = relevance_score rnd lower (gm_gene m) q) all"
    using score_candidates_InrD [OF run(1)] run(2) by simp_all
  ultimately show ?thesis
    using sorted tags ms by (fastforce simp: list_all_iff match_of_def)
qed

lemma demo_search:
  "\<exists>ms s'. search_genes id id default_gene_query gene_world = (Inr ms, s') \<and> map (ge_id \<circ> gm_gene) ms = [''g'']"
  by (simp add: search_genes_def default_gene_query_def candidate_ids_def by_confidence_def sort_by_def gene_world_def
      demo_stored_gene_def bindE_def exec_def gets_def ret_def row_to_gene_def parse_rfc3339_def secs_def)

lemma gene_search_sound_witness:
  "\<exists>ms s'. search_genes id id default_gene_query gene_world = (Inr ms, s') \<and> map (ge_id \<circ> gm_gene) ms = [''g''] \<and>
     length ms \<le> gq_limit default_gene_query"
proof -
  obtain ms s' where run: "search_genes id id default_gene_query gene_world = (Inr ms, s')"
    "map (ge_id \<circ> gm_gene) ms = [''g'']"
    using demo_search by (elim exE conjE) (rule that)
  then show ?thesis using gene_search_sound [OF run(1)] by (intro exI conjI) auto
qed

text \<open>
  A query that names a tag twice finds nothing, whatever is stored: the count of
  different tags never reaches the length of the list.
\<close>

theorem repeated_tag_finds_nothing:
  assumes "search_genes rnd lower q s = (Inr ms, s')" and "\<not> distinct (gq_required_tags q)"
  shows "ms = []"
proof -
  have "tagged_ids (gq_required_tags q) (gs_tags s) = []"
    using tagged_all assms(2) by (metis list.set_intros(1) neq_Nil_conv)
  then have "candidate_ids q s = []" using assms(2) by (auto simp: candidate_ids_def)
  then obtain all s1 s2 where "score_candidates rnd lower q [] s1 = (Inr all, s2)"
    "ms = take (gq_limit q) (sort_by (\<lambda>a b. cmp (gm_relevance_score b) (gm_relevance_score a)) all)"
    using assms(1) by (metis search_genes_InrE candidate_ids_tick)
  then show ?thesis by (simp add: ret_def sort_by_def)
qed

lemma repeated_tag_finds_nothing_witness:
  "\<exists>s'. search_genes id id (default_gene_query\<lparr>gq_required_tags := [''rust'', ''rust'']\<rparr>) gene_world = (Inr [], s')"
proof -
  have "\<exists>ms s'. search_genes id id (default_gene_query\<lparr>gq_required_tags := [''rust'', ''rust'']\<rparr>) gene_world = (Inr ms, s')"
    by (simp add: search_genes_def default_gene_query_def candidate_ids_def tagged_ids_def tag_hits_def gene_world_def
        bindE_def exec_def gets_def ret_def)
  then show ?thesis using repeated_tag_finds_nothing [of id id "default_gene_query\<lparr>gq_required_tags := [''rust'', ''rust'']\<rparr>"]
    by fastforce
qed

section \<open>How the confidence moves\<close>

definition in_range :: "genestore \<Rightarrow> bool" where
  "in_range s \<longleftrightarrow> (\<forall>r \<in> set (gs_genes s). 0 \<le> ge_confidence r \<and> ge_confidence r \<le> 1) \<and>
     (\<forall>c \<in> set (gs_capsules s). 0 \<le> gc_confidence c \<and> gc_confidence c \<le> 1)"

lemma in_range_tick [simp]: "in_range (s\<lparr>tick := t\<rparr>) = in_range s"
  by (simp add: in_range_def)

lemma unit_interval_steps:
  assumes "mono rnd" and "rnd 0 = 0" and "rnd 1 = 1" and "0 \<le> c" and "c \<le> (1 :: rat)"
  shows "0 \<le> boosted rnd c" "boosted rnd c \<le> 1" "0 \<le> penalised rnd c" "penalised rnd c \<le> 1"
    "0 \<le> max (STALE_THRESHOLD rnd) (rnd (c - DECAY_PER_QUERY rnd))"
    "max (STALE_THRESHOLD rnd) (rnd (c - DECAY_PER_QUERY rnd)) \<le> 1"
proof -
  have small: "0 \<le> rnd x" "rnd x \<le> 1" if "0 \<le> x" "x \<le> 1" for x
    using monoD [OF assms(1) that(1)] monoD [OF assms(1) that(2)] assms(2,3) by simp_all
  have steps0: "0 \<le> BOOST_ON_SUCCESS rnd" "0 \<le> PENALTY_ON_FAILURE rnd" "0 \<le> DECAY_PER_QUERY rnd"
    "0 \<le> STALE_THRESHOLD rnd" "STALE_THRESHOLD rnd \<le> 1"
    using small by (simp_all add: BOOST_ON_SUCCESS_def PENALTY_ON_FAILURE_def DECAY_PER_QUERY_def STALE_THRESHOLD_def)
  have "0 \<le> rnd (c + BOOST_ON_SUCCESS rnd)"
    using monoD [OF assms(1), of 0 "c + BOOST_ON_SUCCESS rnd"] steps0 assms(2,4) by simp
  then show "0 \<le> boosted rnd c" "boosted rnd c \<le> 1" by (simp_all add: boosted_def)
  have below: "rnd (c - d) \<le> 1" if "0 \<le> d" for d
    using monoD [OF assms(1), of "c - d" 1] that assms(3,5) by simp
  show "0 \<le> penalised rnd c" "penalised rnd c \<le> 1"
    "0 \<le> max (STALE_THRESHOLD rnd) (rnd (c - DECAY_PER_QUERY rnd))"
    "max (STALE_THRESHOLD rnd) (rnd (c - DECAY_PER_QUERY rnd)) \<le> 1"
    using steps0 below by (simp_all add: penalised_def le_max_iff_disj)
qed

text \<open>
  Outcomes and decay keep every confidence between 0 and 1, for any rounding of
  the additions that is monotone and exact at 0 and 1.
\<close>

theorem confidence_stays_in_range:
  assumes "mono rnd" and "rnd 0 = 0" and "rnd 1 = 1"
  shows "keeps in_range (decay_all rnd) \<and> keeps in_range (record_gene_outcome rnd i success) \<and>
     keeps in_range (record_capsule_outcome rnd i success run)"
proof -
  note steps = unit_interval_steps [OF assms]
  have genes: "in_range (s\<lparr>gs_genes := sql_update p f (gs_genes s)\<rparr>)"
    if "in_range s" "\<And>r. 0 \<le> ge_confidence r \<Longrightarrow> ge_confidence r \<le> 1 \<Longrightarrow> 0 \<le> ge_confidence (f r) \<and> ge_confidence (f r) \<le> 1" for s p f
    using that by (auto simp: in_range_def sql_update_def)
  have capsules: "in_range (s\<lparr>gs_capsules := sql_update p f (gs_capsules s)\<rparr>)"
    if "in_range s" "\<And>r. 0 \<le> gc_confidence r \<Longrightarrow> gc_confidence r \<le> 1 \<Longrightarrow> 0 \<le> gc_confidence (f r) \<and> gc_confidence (f r) \<le> 1" for s p f
    using that by (auto simp: in_range_def sql_update_def)
  show ?thesis
    unfolding decay_all_def record_gene_outcome_def record_capsule_outcome_def
    by (intro conjI keep_intros genes capsules) (use steps in \<open>simp_all\<close>)
qed

lemma confidence_stays_in_range_witness: "keeps in_range (record_gene_outcome id ''g'' False)"
  using confidence_stays_in_range [of id "''g''" False None] by (simp add: mono_def)

lemma healthy_genestore [simp]:
  "healthy (s\<lparr>gs_genes := x\<rparr>) = healthy s" "healthy (s\<lparr>gs_capsules := y\<rparr>) = healthy s"
  by (simp_all add: healthy_def)

lemma find_key_update:
  "find (\<lambda>r. ge_id r = i) rows = Some g \<Longrightarrow> (\<And>r. ge_id (f r) = ge_id r) \<Longrightarrow>
   find (\<lambda>r. ge_id r = i) (sql_update p f rows) = Some (if p g then f g else g)"
  by (induction rows) (auto simp: sql_update_def split: if_splits)

text \<open>
  Decay raises what has fallen low: a gene below the stale threshold is lifted
  to it by the next decay, as by a reported failure.
\<close>

theorem decay_lifts_stale:
  assumes "mono rnd" and "\<And>x. rnd (rnd x) = rnd x" and "rnd 0 = 0" and "healthy s"
    and "find (\<lambda>r. ge_id r = i) (gs_genes s) = Some g" and "ge_confidence g < STALE_THRESHOLD rnd"
  shows "\<exists>g'. find (\<lambda>r. ge_id r = i) (gs_genes (snd (decay_all rnd s))) = Some g' \<and>
       ge_confidence g' = STALE_THRESHOLD rnd \<and> ge_confidence g < ge_confidence g' \<and>
     (\<exists>g'. find (\<lambda>r. ge_id r = i) (gs_genes (snd (record_gene_outcome rnd i False s))) = Some g' \<and>
       ge_confidence g < ge_confidence g')"
proof -
  have low: "rnd (ge_confidence g - d) \<le> STALE_THRESHOLD rnd" if "0 \<le> d" for d
  proof -
    have "rnd (ge_confidence g - d) \<le> rnd (STALE_THRESHOLD rnd)"
      using that assms(6) by (intro monoD [OF assms(1)]) simp
    then show ?thesis by (simp add: STALE_THRESHOLD_def assms(2))
  qed
  have "0 \<le> DECAY_PER_QUERY rnd" "0 \<le> PENALTY_ON_FAILURE rnd"
    using monoD [OF assms(1), of 0] assms(3) by (simp_all add: DECAY_PER_QUERY_def PENALTY_ON_FAILURE_def)
  note bounds = low [OF this(1)] low [OF this(2)]
  have found: "find (\<lambda>r. ge_id r = i) (sql_update p f (gs_genes s)) = Some (if p g then f g else g)"
    if "\<And>r. ge_id (f r) = ge_id r" for p f
    using assms(5) that by (rule find_key_update)
  show ?thesis
    using assms(4,6) bounds find_Some_in_set [OF assms(5)]
    by (simp add: decay_all_def record_gene_outcome_def bindE_def exec_healthy modify_def utc_now_def found
        penalised_def max_absorb1)
qed

lemma decay_lifts_stale_witness:
  "\<exists>g'. find (\<lambda>r. ge_id r = ''g'') (gs_genes (snd (decay_all id
      (gene_world\<lparr>gs_genes := [demo_stored_gene\<lparr>ge_confidence := 1 / 10\<rparr>]\<rparr>)))) = Some g' \<and> 1 / 10 < ge_confidence g'"
  using decay_lifts_stale [of id "gene_world\<lparr>gs_genes := [demo_stored_gene\<lparr>ge_confidence := 1 / 10\<rparr>]\<rparr>" "''g''"
      "demo_stored_gene\<lparr>ge_confidence := 1 / 10\<rparr>"]
  by (auto simp: mono_def healthy_def gene_world_def demo_stored_gene_def STALE_THRESHOLD_def)

end
