(* ===== verification/Replay.thy ===== *)
theory Replay
  imports GeneStore
begin

text \<open>
  \<open>oris-memory-store/src/replay_hook.rs\<close>: the agent asks for a gene to replay instead of
  planning anew, reports the outcome, and counts hits and misses.  The lemmas show that the
  counters balance, that the signals do not decide whether there is a candidate, and that a
  miss that is handled as documented counts twice.
\<close>

record replay_config =
  rpc_min_confidence :: rat
  rpc_max_candidates :: nat
  rpc_required_tags :: "string list"

definition default_replay_config :: "rounding \<Rightarrow> replay_config" where
  "default_replay_config rnd = \<lparr>rpc_min_confidence = rnd (70 / 100), rpc_max_candidates = 1, rpc_required_tags = []\<rparr>"

record replay_candidate =
  rca_gene :: gene
  rca_relevance_score :: rat

text \<open>The counters of calls stay below \<open>2^64\<close>; the latencies come from the caller, and their sum wraps.\<close>

record replay_metrics =
  rpm_queries_total :: nat
  rpm_replay_hits :: nat
  rpm_replay_misses :: nat
  rpm_feedback_writes :: nat
  rpm_replay_successes :: nat
  rpm_replay_failures :: nat
  rpm_total_latency_saved_ms :: nat

record replay_hook =
  rh_store :: genestore
  rh_config :: replay_config
  rh_metrics :: replay_metrics

type_synonym 'a replay_op = "(replay_hook, db_error, 'a) op"

definition new_hook :: "genestore \<Rightarrow> replay_config \<Rightarrow> replay_hook" where
  "new_hook st c = \<lparr>rh_store = st, rh_config = c, rh_metrics = \<lparr>rpm_queries_total = 0, rpm_replay_hits = 0,
     rpm_replay_misses = 0, rpm_feedback_writes = 0, rpm_replay_successes = 0, rpm_replay_failures = 0,
     rpm_total_latency_saved_ms = 0\<rparr>\<rparr>"

definition in_store :: "'a gene_op \<Rightarrow> 'a replay_op" where
  "in_store m = (\<lambda>h. case m (rh_store h) of (r, st) \<Rightarrow> (r, h\<lparr>rh_store := st\<rparr>))"

definition update_metrics :: "(replay_metrics \<Rightarrow> replay_metrics) \<Rightarrow> unit replay_op" where
  "update_metrics f = modify (\<lambda>h. h\<lparr>rh_metrics := f (rh_metrics h)\<rparr>)"

definition replay_query :: "replay_config \<Rightarrow> string list \<Rightarrow> gene_query" where
  "replay_query c signals = \<lparr>gq_min_confidence = rpc_min_confidence c, gq_limit = rpc_max_candidates c,
     gq_required_tags = rpc_required_tags c, gq_problem_description = join '' '' signals\<rparr>"

definition query_replay_candidate :: "rounding \<Rightarrow> (string \<Rightarrow> string) \<Rightarrow> string list \<Rightarrow> replay_candidate option replay_op" where
  "query_replay_candidate rnd lower signals =
     bindE (gets rh_config) (\<lambda>c.
     bindE (in_store (search_genes rnd lower (replay_query c signals))) (\<lambda>matches.
     bindE (update_metrics (\<lambda>m. m\<lparr>rpm_queries_total := rpm_queries_total m + 1\<rparr>)) (\<lambda>_.
     case matches of
       best # _ \<Rightarrow> bindE (update_metrics (\<lambda>m. m\<lparr>rpm_replay_hits := rpm_replay_hits m + 1\<rparr>)) (\<lambda>_.
         ret (Some \<lparr>rca_gene = gm_gene best, rca_relevance_score = gm_relevance_score best\<rparr>))
     | [] \<Rightarrow> bindE (update_metrics (\<lambda>m. m\<lparr>rpm_replay_misses := rpm_replay_misses m + 1\<rparr>)) (\<lambda>_. ret None))))"

definition record_replay_outcome :: "rounding \<Rightarrow> uuid \<Rightarrow> bool \<Rightarrow> nat option \<Rightarrow> unit replay_op" where
  "record_replay_outcome rnd i success latency_saved_ms =
     bindE (in_store (record_gene_outcome rnd i success)) (\<lambda>_.
     update_metrics (\<lambda>m.
       let m1 = m\<lparr>rpm_feedback_writes := rpm_feedback_writes m + 1\<rparr>;
           m2 = (if success then m1\<lparr>rpm_replay_successes := rpm_replay_successes m1 + 1\<rparr>
                 else m1\<lparr>rpm_replay_failures := rpm_replay_failures m1 + 1\<rparr>)
       in case latency_saved_ms of
            Some saved \<Rightarrow> m2\<lparr>rpm_total_latency_saved_ms := (rpm_total_latency_saved_ms m2 + saved) mod 2 ^ 64\<rparr>
          | None \<Rightarrow> m2))"

definition record_cold_start :: "unit replay_op" where
  "record_cold_start = update_metrics (\<lambda>m. m\<lparr>rpm_replay_misses := rpm_replay_misses m + 1,
     rpm_queries_total := rpm_queries_total m + 1\<rparr>)"

definition hit_rate :: "rounding \<Rightarrow> replay_hook \<Rightarrow> rat" where
  "hit_rate rnd h = (let m = rh_metrics h in
     if rpm_queries_total m = 0 then 0 else rnd (of_nat (rpm_replay_hits m) / of_nat (rpm_queries_total m)))"

section \<open>The counters\<close>

inductive replay_step :: "rounding \<Rightarrow> (string \<Rightarrow> string) \<Rightarrow> replay_hook \<Rightarrow> replay_hook \<Rightarrow> bool" for rnd lower where
  step_query: "query_replay_candidate rnd lower signals h = (r, h') \<Longrightarrow> replay_step rnd lower h h'"
| step_record: "record_replay_outcome rnd i success saved h = (r, h') \<Longrightarrow> replay_step rnd lower h h'"
| step_cold: "record_cold_start h = (r, h') \<Longrightarrow> replay_step rnd lower h h'"

definition balanced :: "replay_hook \<Rightarrow> bool" where
  "balanced h \<longleftrightarrow> (let m = rh_metrics h in
     rpm_replay_hits m + rpm_replay_misses m = rpm_queries_total m \<and>
     rpm_replay_successes m + rpm_replay_failures m = rpm_feedback_writes m)"

lemma in_store_E:
  assumes "in_store m h = (r, h')"
  shows "rh_metrics h' = rh_metrics h" "rh_config h' = rh_config h" "m (rh_store h) = (r, rh_store h')"
  using assms by (auto simp: in_store_def split: prod.splits)

lemma query_cases:
  assumes "query_replay_candidate rnd lower signals h = (r, h')"
  shows "(\<exists>e. r = Inl e \<and> rh_metrics h' = rh_metrics h) \<or>
     (\<exists>c. r = Inr (Some c) \<and> rh_metrics h' = (rh_metrics h)\<lparr>rpm_queries_total := rpm_queries_total (rh_metrics h) + 1,
        rpm_replay_hits := rpm_replay_hits (rh_metrics h) + 1\<rparr>) \<or>
     r = Inr None \<and> rh_metrics h' = (rh_metrics h)\<lparr>rpm_queries_total := rpm_queries_total (rh_metrics h) + 1,
        rpm_replay_misses := rpm_replay_misses (rh_metrics h) + 1\<rparr>"
proof -
  obtain res h1 where run: "in_store (search_genes rnd lower (replay_query (rh_config h) signals)) h = (res, h1)"
    by fastforce
  note same = in_store_E(1) [OF run]
  show ?thesis
  proof (cases res)
    case (Inl e)
    then show ?thesis using assms run same by (auto simp: query_replay_candidate_def bindE_def gets_def)
  next
    case (Inr ms)
    then show ?thesis using assms run same
      by (cases ms) (auto simp: query_replay_candidate_def bindE_def gets_def update_metrics_def modify_def ret_def)
  qed
qed

text \<open>
  After any calls, however the store fails, every query is counted as a hit or
  a miss and every reported outcome as a success or a failure, once.
\<close>

theorem replay_counters_balance:
  assumes "(replay_step rnd lower)\<^sup>*\<^sup>* (new_hook st c) h"
  shows "balanced h"
  using assms
proof (induction rule: rtranclp_induct)
  case base
  then show ?case by (simp add: balanced_def new_hook_def)
next
  case (step t u)
  from step(2) show ?case
  proof cases
    case (step_query signals r)
    then show ?thesis using query_cases [OF step_query] step.IH by (auto simp: balanced_def Let_def)
  next
    case (step_record i success saved r)
    obtain res h1 where run: "in_store (record_gene_outcome rnd i success) t = (res, h1)" by fastforce
    then show ?thesis
      using step_record step.IH in_store_E(1) [OF run]
      by (cases res) (auto simp: record_replay_outcome_def bindE_def update_metrics_def modify_def balanced_def Let_def
          split: option.splits if_splits)
  next
    case (step_cold r)
    then show ?thesis using step.IH by (auto simp: record_cold_start_def update_metrics_def modify_def balanced_def Let_def)
  qed
qed

lemma replay_counters_balance_witness:
  "balanced (snd (record_cold_start (new_hook gene_world (default_replay_config id))))"
  by (rule replay_counters_balance [of id id gene_world "default_replay_config id"], rule r_into_rtranclp, rule step_cold)
     (simp add: prod_eq_iff)

text \<open>
  An agent that does what the documentation asks after a miss, plan anew and
  record the cold start, makes one miss count as two queries and two misses.
\<close>

theorem miss_counted_twice:
  assumes "query_replay_candidate rnd lower signals h = (Inr None, h1)" and "record_cold_start h1 = (r, h2)"
  shows "rpm_queries_total (rh_metrics h2) = rpm_queries_total (rh_metrics h) + 2 \<and>
     rpm_replay_misses (rh_metrics h2) = rpm_replay_misses (rh_metrics h) + 2 \<and>
     rpm_replay_hits (rh_metrics h2) = rpm_replay_hits (rh_metrics h)"
  using query_cases [OF assms(1)] assms(2) by (auto simp: record_cold_start_def update_metrics_def modify_def)

section \<open>Candidates\<close>

lemma row_to_gene_total: "healthy s \<Longrightarrow> \<exists>g t. row_to_gene r s = (Inr g, t) \<and> healthy t \<and> gs_genes t = gs_genes s"
  by (simp add: row_to_gene_def utc_now_def monad_defs split: option.split)

lemma score_candidates_total:
  assumes "healthy s" and "\<forall>i \<in> set ids. \<exists>r \<in> set (gs_genes s). ge_id r = i \<and> gq_min_confidence q \<le> ge_confidence r"
  shows "\<exists>ms t. score_candidates rnd lower q ids s = (Inr ms, t) \<and> length ms = length ids"
  using assms
proof (induction ids arbitrary: s)
  case (Cons i ids)
  let ?s1 = "s\<lparr>tick := Suc (tick s)\<rparr>"
  obtain r where r: "find (\<lambda>r. ge_id r = i \<and> gq_min_confidence q \<le> ge_confidence r) (gs_genes s) = Some r"
    using Cons.prems(2) by (force simp: find_None_iff elim!: contrapos_np [where Q = False])
  obtain g t where g: "row_to_gene r ?s1 = (Inr g, t)" "healthy t" "gs_genes t = gs_genes s"
    using row_to_gene_total [of ?s1 r] Cons.prems(1) by auto
  obtain ms u where "score_candidates rnd lower q ids t = (Inr ms, u)" "length ms = length ids"
    using Cons.IH [OF g(2)] Cons.prems(2) g(3) by auto
  then show ?case
    using r g Cons.prems(1) by (simp add: bindE_def exec_healthy gets_def ret_def)
qed (simp add: ret_def)

text \<open>
  The signals of a problem do not decide whether a gene is replayed: with no
  required tags, as by default, any stored gene of sufficient confidence makes every query
  a hit, whatever the problem.
\<close>

theorem replay_ignores_signals:
  assumes "healthy (rh_store h)" and "rpc_required_tags (rh_config h) = []" and "1 \<le> rpc_max_candidates (rh_config h)"
    and "g \<in> set (gs_genes (rh_store h))" and "rpc_min_confidence (rh_config h) \<le> ge_confidence g"
  shows "\<exists>c h'. query_replay_candidate rnd lower signals h = (Inr (Some c), h')"
proof -
  let ?q = "replay_query (rh_config h) signals" and ?s = "rh_store h"
  let ?rows = "by_confidence (filter (\<lambda>r. gq_min_confidence ?q \<le> ge_confidence r) (gs_genes ?s))"
  have ids: "candidate_ids ?q ?s = take (rpc_max_candidates (rh_config h) * 3) (map ge_id ?rows)"
    using assms(2) by (simp add: candidate_ids_def replay_query_def)
  have "g \<in> set ?rows" using assms(4,5) by (simp add: by_confidence_def replay_query_def)
  then have "?rows \<noteq> []" by auto
  then have some: "candidate_ids ?q ?s \<noteq> []" using assms(3) unfolding ids by simp
  have "\<forall>i \<in> set (candidate_ids ?q ?s). \<exists>r \<in> set (gs_genes ?s). ge_id r = i \<and> gq_min_confidence ?q \<le> ge_confidence r"
    unfolding ids by (auto dest!: in_set_takeD simp: by_confidence_def)
  then have "\<exists>ms t. score_candidates rnd lower ?q (candidate_ids ?q ?s) (?s\<lparr>tick := Suc (tick ?s)\<rparr>) = (Inr ms, t) \<and>
      length ms = length (candidate_ids ?q ?s)"
    using assms(1) by (intro score_candidates_total) simp_all
  then obtain ms t where run: "score_candidates rnd lower ?q (candidate_ids ?q ?s) (?s\<lparr>tick := Suc (tick ?s)\<rparr>) = (Inr ms, t)"
    "length ms = length (candidate_ids ?q ?s)"
    by blast
  let ?out = "take (gq_limit ?q) (sort_by (\<lambda>a b. cmp (gm_relevance_score b) (gm_relevance_score a)) ms)"
  have "search_genes rnd lower ?q ?s = (Inr ?out, t)"
    using run(1) assms(1) by (simp add: search_genes_def bindE_def exec_healthy gets_def ret_def)
  moreover obtain best rest where "?out = best # rest"
    using run(2) some assms(3) by (cases ?out) (auto simp: replay_query_def)
  ultimately show ?thesis
    by (auto simp: query_replay_candidate_def bindE_def gets_def in_store_def update_metrics_def modify_def ret_def)
qed

lemma replay_ignores_signals_witness:
  "\<exists>c h'. query_replay_candidate id id [''unrelated''] (new_hook gene_world (default_replay_config id)) = (Inr (Some c), h')"
  by (rule replay_ignores_signals [where g = demo_stored_gene])
     (simp_all add: new_hook_def default_replay_config_def healthy_def gene_world_def demo_stored_gene_def)

lemma miss_counted_twice_witness:
  "\<exists>h1. query_replay_candidate id id [''x''] (new_hook (gene_world\<lparr>gs_genes := []\<rparr>) (default_replay_config id)) = (Inr None, h1) \<and>
     rpm_replay_misses (rh_metrics (snd (record_cold_start h1))) = 2"
proof -
  let ?h = "new_hook (gene_world\<lparr>gs_genes := []\<rparr>) (default_replay_config id)"
  obtain h1 where run: "query_replay_candidate id id [''x''] ?h = (Inr None, h1)"
    by (simp add: query_replay_candidate_def bindE_def gets_def in_store_def search_genes_def exec_def ret_def
        candidate_ids_def by_confidence_def sort_by_def replay_query_def new_hook_def default_replay_config_def gene_world_def
        update_metrics_def modify_def)
  show ?thesis using miss_counted_twice [OF run, of _ "snd (record_cold_start h1)"] run
    by (auto simp: prod_eq_iff new_hook_def)
qed

end
