(* ===== verification/Decision.thy ===== *)
theory Decision
  imports Schema Json
begin

text \<open>
  \<open>decision.rs\<close>: the life of a decision from its options to its outcome.  The state is not
  stored but read off the columns that are set.  The lemmas show that the statements refine
  the state machine of the documentation, that a withdrawal is final while calls do not
  overlap, and that an overlapping call undoes it.
\<close>

section \<open>Types\<close>

datatype decision_error = DecDatabase db_error | DecNotFound uuid | DecInvalidTransition string | DecSerialization

datatype risk_level = RiskLow | RiskMedium | RiskHigh | RiskCritical

record decision_option =
  do_id :: string
  do_description :: string
  do_pros :: "string list"
  do_cons :: "string list"
  do_risk_level :: risk_level
  do_estimated_impact :: "string option"

text \<open>A row holds the columns of the struct; the two JSON columns are the lists they encode.\<close>

record decision_record =
  dr_decision_id :: uuid
  dr_task_id :: "uuid option"
  dr_situation :: string
  dr_options :: "decision_option list"
  dr_recommendation :: "string option"
  dr_human_decision :: "string option"
  dr_reason :: "string option"
  dr_action :: "string option"
  dr_outcome :: "string option"
  dr_evidence_refs :: "json list"
  dr_decided_at :: "time option"
  dr_outcome_at :: "time option"
  dr_created_at :: time

datatype decision_state = DsProposed | DsRecommended | DsDecided | DsExecuted | DsResolved | DsWithdrawn

record create_decision_request =
  cdr_task_id :: "uuid option"
  cdr_situation :: string
  cdr_options :: "decision_option list"
  cdr_evidence_refs :: "json list"

record decstore = world +
  decision_rows :: "decision_record list"

type_synonym 'a dec_op = "(decstore, decision_error, 'a) op"

definition WITHDRAWN_MARKER :: string where
  "WITHDRAWN_MARKER = ''withdrawn''"

section \<open>The state machine\<close>

fun is_valid_transition :: "decision_state \<Rightarrow> decision_state \<Rightarrow> bool" where
  "is_valid_transition DsProposed DsRecommended = True"
| "is_valid_transition DsRecommended DsDecided = True"
| "is_valid_transition DsDecided DsExecuted = True"
| "is_valid_transition DsExecuted DsResolved = True"
| "is_valid_transition old DsWithdrawn = (old \<noteq> DsWithdrawn)"
| "is_valid_transition _ _ = False"

definition get_state :: "decision_record \<Rightarrow> decision_state" where
  "get_state r =
     (if dr_human_decision r = Some WITHDRAWN_MARKER then DsWithdrawn
      else if dr_outcome r \<noteq> None then DsResolved
      else if dr_action r \<noteq> None then DsExecuted
      else if dr_human_decision r \<noteq> None then DsDecided
      else if dr_recommendation r \<noteq> None then DsRecommended
      else DsProposed)"

fun show_state :: "decision_state \<Rightarrow> string" where
  "show_state DsProposed = ''Proposed''"
| "show_state DsRecommended = ''Recommended''"
| "show_state DsDecided = ''Decided''"
| "show_state DsExecuted = ''Executed''"
| "show_state DsResolved = ''Resolved''"
| "show_state DsWithdrawn = ''Withdrawn''"

section \<open>The manager\<close>

definition create_decision :: "create_decision_request \<Rightarrow> uuid dec_op" where
  "create_decision req = map_err DecDatabase (exec (\<lambda>w.
     let i = uuids w (tick w) in
     if i \<in> dr_decision_id ` set (decision_rows w) \<or>
        (case cdr_task_id req of None \<Rightarrow> False | Some t \<Rightarrow> t \<notin> t_task_id ` set (task_contexts w))
     then (Inl DbError, w)
     else (Inr i, w\<lparr>decision_rows := decision_rows w @ [\<lparr>dr_decision_id = i, dr_task_id = cdr_task_id req,
        dr_situation = cdr_situation req, dr_options = cdr_options req, dr_recommendation = None,
        dr_human_decision = None, dr_reason = None, dr_action = None, dr_outcome = None,
        dr_evidence_refs = cdr_evidence_refs req, dr_decided_at = None, dr_outcome_at = None,
        dr_created_at = sql_now w\<rparr>]\<rparr>)))"

definition get_decision :: "uuid \<Rightarrow> decision_record option dec_op" where
  "get_decision i = map_err DecDatabase (exec (gets (\<lambda>w. find (\<lambda>r. dr_decision_id r = i) (decision_rows w))))"

definition list_by_task :: "uuid \<Rightarrow> decision_record list dec_op" where
  "list_by_task t = map_err DecDatabase (exec (gets (\<lambda>w.
     order_desc dr_created_at (filter (\<lambda>r. dr_task_id r = Some t) (decision_rows w)))))"

text \<open>Each change reads the record, checks the transition, and then writes in a statement of its own.\<close>

definition check_transition :: "string \<Rightarrow> uuid \<Rightarrow> decision_state \<Rightarrow> unit dec_op" where
  "check_transition what i target =
     bindE (get_decision i) (\<lambda>found.
     bindE (ok_or found (DecNotFound i)) (\<lambda>r.
     if \<not> is_valid_transition (get_state r) target
     then throw (DecInvalidTransition (''cannot '' @ what @ '' from '' @ show_state (get_state r) @ '' state''))
     else ret ()))"

definition update_decision :: "uuid \<Rightarrow> (time \<Rightarrow> decision_record \<Rightarrow> decision_record) \<Rightarrow> unit dec_op" where
  "update_decision i f = map_err DecDatabase (exec (modify (\<lambda>w.
     w\<lparr>decision_rows := sql_update (\<lambda>r. dr_decision_id r = i) (f (sql_now w)) (decision_rows w)\<rparr>)))"

definition write_human_decision :: "uuid \<Rightarrow> string \<Rightarrow> string \<Rightarrow> unit dec_op" where
  "write_human_decision i decision reason = update_decision i (\<lambda>now r.
     r\<lparr>dr_human_decision := Some decision, dr_reason := Some reason, dr_decided_at := Some now\<rparr>)"

definition set_recommendation :: "uuid \<Rightarrow> string \<Rightarrow> string \<Rightarrow> unit dec_op" where
  "set_recommendation i recommendation reason =
     bindE (check_transition ''set recommendation'' i DsRecommended) (\<lambda>_.
     update_decision i (\<lambda>now r. r\<lparr>dr_recommendation := Some recommendation, dr_reason := Some reason\<rparr>))"

definition record_human_decision :: "uuid \<Rightarrow> string \<Rightarrow> string \<Rightarrow> unit dec_op" where
  "record_human_decision i decision reason =
     bindE (check_transition ''record human decision'' i DsDecided) (\<lambda>_. write_human_decision i decision reason)"

definition record_action :: "uuid \<Rightarrow> string \<Rightarrow> unit dec_op" where
  "record_action i action =
     bindE (check_transition ''record action'' i DsExecuted) (\<lambda>_.
     update_decision i (\<lambda>now r. r\<lparr>dr_action := Some action\<rparr>))"

definition record_decision_outcome :: "uuid \<Rightarrow> string \<Rightarrow> json list \<Rightarrow> unit dec_op" where
  "record_decision_outcome i outcome evidence =
     bindE (check_transition ''record outcome'' i DsResolved) (\<lambda>_.
     update_decision i (\<lambda>now r. r\<lparr>dr_outcome := Some outcome, dr_evidence_refs := evidence, dr_outcome_at := Some now\<rparr>))"

definition withdraw :: "uuid \<Rightarrow> string \<Rightarrow> unit dec_op" where
  "withdraw i reason =
     bindE (check_transition ''withdraw'' i DsWithdrawn) (\<lambda>_.
     update_decision i (\<lambda>now r.
       r\<lparr>dr_human_decision := Some ''withdrawn'', dr_reason := Some reason, dr_decided_at := Some now\<rparr>))"

section \<open>Refinement of the state machine\<close>

text \<open>The abstract machine: a map from ids to states.\<close>

definition states :: "decstore \<Rightarrow> uuid \<rightharpoonup> decision_state" where
  "states s i = map_option get_state (find (\<lambda>r. dr_decision_id r = i) (decision_rows s))"

text \<open>The calls of the manager that write.\<close>

datatype decision_call =
    CallCreate create_decision_request
  | CallRecommend uuid string string
  | CallDecide uuid string string
  | CallAct uuid string
  | CallOutcome uuid string "json list"
  | CallWithdraw uuid string

fun run_call :: "decision_call \<Rightarrow> unit dec_op" where
  "run_call (CallCreate req) = bindE (create_decision req) (\<lambda>_. ret ())"
| "run_call (CallRecommend i x y) = set_recommendation i x y"
| "run_call (CallDecide i x y) = record_human_decision i x y"
| "run_call (CallAct i x) = record_action i x"
| "run_call (CallOutcome i x ev) = record_decision_outcome i x ev"
| "run_call (CallWithdraw i y) = withdraw i y"

text \<open>
  The documented machine, call by call, written out beside the code: the one source state
  each call moves from and the state it moves to.  A human decision whose text is the
  withdrawal marker withdraws.
\<close>

inductive documented :: "decision_call \<Rightarrow> (uuid \<rightharpoonup> decision_state) \<Rightarrow> (uuid \<rightharpoonup> decision_state) \<Rightarrow> bool" where
  doc_create: "m i = None \<Longrightarrow> documented (CallCreate req) m (m(i \<mapsto> DsProposed))"
| doc_recommend: "m i = Some DsProposed \<Longrightarrow> documented (CallRecommend i x y) m (m(i \<mapsto> DsRecommended))"
| doc_decide: "m i = Some DsRecommended \<Longrightarrow> x \<noteq> ''withdrawn'' \<Longrightarrow> documented (CallDecide i x y) m (m(i \<mapsto> DsDecided))"
| doc_decide_withdrawn: "m i = Some DsRecommended \<Longrightarrow> documented (CallDecide i ''withdrawn'' y) m (m(i \<mapsto> DsWithdrawn))"
| doc_act: "m i = Some DsDecided \<Longrightarrow> documented (CallAct i x) m (m(i \<mapsto> DsExecuted))"
| doc_outcome: "m i = Some DsExecuted \<Longrightarrow> documented (CallOutcome i x ev) m (m(i \<mapsto> DsResolved))"
| doc_withdraw: "m i = Some a \<Longrightarrow> a \<noteq> DsWithdrawn \<Longrightarrow> documented (CallWithdraw i y) m (m(i \<mapsto> DsWithdrawn))"

lemma check_transition_E:
  assumes "check_transition what i target s = (r, s')"
  obtains (refused) e where "r = Inl e" and "decision_rows s' = decision_rows s"
  | (passed) d where "r = Inr ()" and "decision_rows s' = decision_rows s"
      and "find (\<lambda>r. dr_decision_id r = i) (decision_rows s) = Some d" and "is_valid_transition (get_state d) target"
  using assms
  by (auto simp: check_transition_def get_decision_def monad_defs exec_def split: if_splits option.splits)

lemma update_decision_E:
  assumes "update_decision i f s = (r, s')"
  obtains (failed) e where "r = Inl e" and "decision_rows s' = decision_rows s"
  | (written) now where "r = Inr ()" and "decision_rows s' = sql_update (\<lambda>r. dr_decision_id r = i) (f now) (decision_rows s)"
  using assms by (auto simp: update_decision_def monad_defs exec_def split: if_splits)

text \<open>A guarded write either fails and leaves every state, or moves the record its check has read.\<close>

lemma guarded_write_cases:
  assumes run: "bindE (check_transition what i target) (\<lambda>_. update_decision i f) s = (r, s')"
    and key: "\<And>now d. dr_decision_id (f now d) = dr_decision_id d"
  obtains (failed) e where "r = Inl e" and "states s' = states s"
  | (moved) d now where "r = Inr ()" and "states s i = Some (get_state d)"
      and "is_valid_transition (get_state d) target" and "states s' = (states s)(i \<mapsto> get_state (f now d))"
  using run
proof (cases rule: bindE_E)
  case (err e)
  then have "states s' = states s"
    by (auto simp: states_def fun_eq_iff elim: check_transition_E)
  then show ?thesis using err by (rule_tac failed)
next
  case (step x s1)
  obtain d where rows1: "decision_rows s1 = decision_rows s"
    and d: "find (\<lambda>r. dr_decision_id r = i) (decision_rows s) = Some d" "is_valid_transition (get_state d) target"
    using step(1) by (cases rule: check_transition_E) auto
  from step(2) show ?thesis
  proof (cases rule: update_decision_E)
    case (failed e)
    then have "states s' = states s" using rows1 by (simp add: states_def fun_eq_iff)
    then show ?thesis using failed(1) by (rule_tac that(1))
  next
    case (written now)
    have "states s' j = (if j = i then Some (get_state (f now d)) else states s j)" for j
      using find_sql_update_same [of dr_decision_id "f now" i "decision_rows s"]
        find_sql_update_other [of dr_decision_id "f now" "\<lambda>r. dr_decision_id r = i" j "decision_rows s"] d key
      by (simp add: states_def written(2) rows1)
    then have "states s' = (states s)(i \<mapsto> get_state (f now d))" by (simp add: fun_eq_iff)
    moreover have "states s i = Some (get_state d)" using d by (simp add: states_def)
    ultimately show ?thesis using that(2) written(1) d(2) by blast
  qed
qed

lemma transition_to:
  "is_valid_transition a DsRecommended \<longleftrightarrow> a = DsProposed"
  "is_valid_transition a DsDecided \<longleftrightarrow> a = DsRecommended"
  "is_valid_transition a DsExecuted \<longleftrightarrow> a = DsDecided"
  "is_valid_transition a DsResolved \<longleftrightarrow> a = DsExecuted"
  "is_valid_transition a DsWithdrawn \<longleftrightarrow> a \<noteq> DsWithdrawn"
  "\<not> is_valid_transition a DsProposed"
  by (cases a; simp)+

text \<open>What the columns a call writes make of the state its check has found.\<close>

lemma state_after_write:
  "get_state d = DsProposed \<Longrightarrow> get_state (d\<lparr>dr_recommendation := Some x, dr_reason := y\<rparr>) = DsRecommended"
  "get_state d = DsRecommended \<Longrightarrow> get_state (d\<lparr>dr_human_decision := Some x, dr_reason := y, dr_decided_at := t\<rparr>) =
     (if x = ''withdrawn'' then DsWithdrawn else DsDecided)"
  "get_state d = DsDecided \<Longrightarrow> get_state (d\<lparr>dr_action := Some x\<rparr>) = DsExecuted"
  "get_state d = DsExecuted \<Longrightarrow> get_state (d\<lparr>dr_outcome := Some x, dr_evidence_refs := ev, dr_outcome_at := t\<rparr>) = DsResolved"
  "get_state (d\<lparr>dr_human_decision := Some ''withdrawn'', dr_reason := y, dr_decided_at := t\<rparr>) = DsWithdrawn"
  by (auto simp: get_state_def WITHDRAWN_MARKER_def split: if_splits)

text \<open>A call that succeeds makes a step of its kind; one that fails makes none.\<close>

definition steps_as_documented :: "decision_call \<Rightarrow> decstore \<Rightarrow> decision_error + unit \<Rightarrow> decstore \<Rightarrow> bool" where
  "steps_as_documented c s r s' \<longleftrightarrow>
     (case r of Inr _ \<Rightarrow> documented c (states s) (states s') | Inl _ \<Rightarrow> states s' = states s)"

lemma create_steps:
  assumes "run_call (CallCreate req) s = (r, s')"
  shows "steps_as_documented (CallCreate req) s r s'"
proof (cases r)
  case (Inl e)
  then have "decision_rows s' = decision_rows s"
    using assms by (auto simp: create_decision_def monad_defs exec_def Let_def split: if_splits)
  then show ?thesis using Inl by (simp add: steps_as_documented_def states_def fun_eq_iff)
next
  case (Inr u)
  then obtain d where rows: "decision_rows s' = decision_rows s @ [d]"
    and fresh: "dr_decision_id d \<notin> dr_decision_id ` set (decision_rows s)" and new: "get_state d = DsProposed"
    using assms by (auto simp: create_decision_def monad_defs exec_def Let_def get_state_def split: if_splits)
  have none: "find (\<lambda>r. dr_decision_id r = dr_decision_id d) (decision_rows s) = None"
    using fresh by (rule find_key_None)
  then have "states s' = (states s)(dr_decision_id d \<mapsto> DsProposed)"
    by (auto simp: states_def fun_eq_iff rows find_append new split: option.split)
  moreover have "states s (dr_decision_id d) = None" using none by (simp add: states_def)
  ultimately show ?thesis using Inr by (simp add: steps_as_documented_def doc_create)
qed

lemma guarded_call_steps:
  assumes "bindE (check_transition what i target) (\<lambda>_. update_decision i f) s = (r, s')"
    and "\<And>now d. dr_decision_id (f now d) = dr_decision_id d"
    and "\<And>now d. states s i = Some (get_state d) \<Longrightarrow> is_valid_transition (get_state d) target \<Longrightarrow>
           documented c (states s) ((states s)(i \<mapsto> get_state (f now d)))"
  shows "steps_as_documented c s r s'"
  using assms(1,2)
  by (cases rule: guarded_write_cases) (simp_all add: steps_as_documented_def assms(3))

lemma call_steps: "run_call c s = (r, s') \<Longrightarrow> steps_as_documented c s r s'"
proof (cases c)
  case (CallCreate req)
  then show "run_call c s = (r, s') \<Longrightarrow> steps_as_documented c s r s'" using create_steps by simp
next
  case (CallRecommend i x y)
  then show "run_call c s = (r, s') \<Longrightarrow> steps_as_documented c s r s'"
    by (simp add: set_recommendation_def)
      (erule guarded_call_steps; auto simp: transition_to state_after_write intro: documented.intros)
next
  case (CallDecide i x y)
  then show "run_call c s = (r, s') \<Longrightarrow> steps_as_documented c s r s'"
    by (simp add: record_human_decision_def write_human_decision_def)
      (erule guarded_call_steps; auto simp: transition_to state_after_write intro: documented.intros)
next
  case (CallAct i x)
  then show "run_call c s = (r, s') \<Longrightarrow> steps_as_documented c s r s'"
    by (simp add: record_action_def)
      (erule guarded_call_steps; auto simp: transition_to state_after_write intro: documented.intros)
next
  case (CallOutcome i x ev)
  then show "run_call c s = (r, s') \<Longrightarrow> steps_as_documented c s r s'"
    by (simp add: record_decision_outcome_def)
      (erule guarded_call_steps; auto simp: transition_to state_after_write intro: documented.intros)
next
  case (CallWithdraw i y)
  then show "run_call c s = (r, s') \<Longrightarrow> steps_as_documented c s r s'"
    by (simp add: withdraw_def)
      (erule guarded_call_steps; auto simp: transition_to state_after_write intro: documented.intros)
qed

text \<open>
  C5 (refinement).  Every call of the manager, whatever it asks for and however its statements
  fail, refines the documented state machine: when it reports success it has made exactly the
  one step of its own kind, on its own decision, from the one state that step leaves, and
  when it reports an error no decision has changed state.
\<close>

theorem decisions_refine_machine:
  assumes "run_call c s = (r, s')"
  shows "case r of Inr _ \<Rightarrow> documented c (states s) (states s') | Inl _ \<Rightarrow> states s' = states s"
  using call_steps [OF assms] by (simp add: steps_as_documented_def)

inductive dec_step :: "decstore \<Rightarrow> decstore \<Rightarrow> bool" where
  "run_call c s = (r, s') \<Longrightarrow> dec_step s s'"

lemma documented_withdrawn: "documented c m m' \<Longrightarrow> m i = Some DsWithdrawn \<Longrightarrow> m' i = Some DsWithdrawn"
  by (erule documented.cases) auto

lemma dec_step_withdrawn: "dec_step s s' \<Longrightarrow> states s i = Some DsWithdrawn \<Longrightarrow> states s' i = Some DsWithdrawn"
  by (erule dec_step.cases, drule call_steps)
    (auto simp: steps_as_documented_def dest: documented_withdrawn split: sum.splits)

text \<open>
  As long as calls do not overlap, a withdrawal is final: no later call, whatever
  it is, takes the decision out of that state.
\<close>

theorem withdrawal_is_final:
  assumes "dec_step\<^sup>*\<^sup>* s s'" and "states s i = Some DsWithdrawn"
  shows "states s' i = Some DsWithdrawn"
  using assms by (induction rule: rtranclp_induct) (auto dest: dec_step_withdrawn)

section \<open>Overlapping calls\<close>

text \<open>
  The check and the write are separate statements: a withdrawal that completes
  between the check and the write of a human decision is overwritten, and the withdrawn
  decision is open for execution again.
\<close>

theorem overlapping_call_undoes_withdrawal:
  assumes "check_transition what i DsDecided s = (Inr (), s1)" and "withdraw i reason s1 = (Inr (), s2)"
    and "write_human_decision i decision reason' s2 = (Inr (), s3)" and "decision \<noteq> WITHDRAWN_MARKER"
  shows "states s2 i = Some DsWithdrawn \<and> states s3 i = Some DsDecided"
proof -
  obtain d where rows1: "decision_rows s1 = decision_rows s"
    and d: "find (\<lambda>r. dr_decision_id r = i) (decision_rows s) = Some d" "get_state d = DsRecommended"
    using assms(1) by (cases rule: check_transition_E) (auto simp: transition_to)
  from assms(2) obtain u where chk: "check_transition ''withdraw'' i DsWithdrawn s1 = (Inr (), u)"
    and wr: "update_decision i (\<lambda>now r.
       r\<lparr>dr_human_decision := Some ''withdrawn'', dr_reason := Some reason, dr_decided_at := Some now\<rparr>) u = (Inr (), s2)"
    unfolding withdraw_def by (auto elim: bindE_InrE)
  from chk have rows_u: "decision_rows u = decision_rows s1" by (cases rule: check_transition_E) auto
  from wr obtain now where rows2: "decision_rows s2 = sql_update (\<lambda>r. dr_decision_id r = i) (\<lambda>r.
       r\<lparr>dr_human_decision := Some ''withdrawn'', dr_reason := Some reason, dr_decided_at := Some now\<rparr>) (decision_rows u)"
    by (auto simp: update_decision_def monad_defs exec_def split: if_splits)
  from assms(3) obtain now' where rows3: "decision_rows s3 = sql_update (\<lambda>r. dr_decision_id r = i) (\<lambda>r.
       r\<lparr>dr_human_decision := Some decision, dr_reason := Some reason', dr_decided_at := Some now'\<rparr>) (decision_rows s2)"
    by (auto simp: write_human_decision_def update_decision_def monad_defs exec_def split: if_splits)
  have "dr_outcome d = None" "dr_action d = None"
    using d(2) by (auto simp: get_state_def split: if_splits)
  then show ?thesis
    using d(1) assms(4)
    by (simp add: states_def rows3 rows2 rows_u rows1 find_sql_update_same get_state_def WITHDRAWN_MARKER_def)
qed

section \<open>A decision\<close>

definition demo_decision :: decision_record where
  "demo_decision = \<lparr>dr_decision_id = ''d'', dr_task_id = None, dr_situation = ''s'', dr_options = [],
     dr_recommendation = Some ''wait'', dr_human_decision = None, dr_reason = None, dr_action = None, dr_outcome = None,
     dr_evidence_refs = [], dr_decided_at = None, dr_outcome_at = None, dr_created_at = 0\<rparr>"

definition dec_world :: "decision_record list \<Rightarrow> decstore" where
  "dec_world rows = \<lparr>tick = 0, clock = int, uuids = (\<lambda>n. replicate (Suc n) CHR ''a''), fails = (\<lambda>_. False),
     memory_items = [], memory_versions = [], outbox_events = [], access_audit = [], legal_holds = [],
     approval_requests = [], task_contexts = [], user_profiles = [], entities = [], entity_relations = [],
     redis_keys = (\<lambda>_. None), decision_rows = rows\<rparr>"

lemma decisions_refine_machine_witness:
  "\<exists>s'. run_call (CallDecide ''d'' ''go'' ''r'') (dec_world [demo_decision]) = (Inr (), s') \<and>
     documented (CallDecide ''d'' ''go'' ''r'') (states (dec_world [demo_decision])) (states s')"
proof -
  obtain s' where run: "run_call (CallDecide ''d'' ''go'' ''r'') (dec_world [demo_decision]) = (Inr (), s')"
    by (simp add: record_human_decision_def check_transition_def write_human_decision_def get_decision_def
        update_decision_def monad_defs exec_def dec_world_def demo_decision_def get_state_def WITHDRAWN_MARKER_def)
  then show ?thesis using decisions_refine_machine [OF run] by auto
qed

lemma withdrawal_is_final_witness:
  "states (snd (run_call (CallDecide ''d'' ''go'' ''r'')
     (dec_world [demo_decision\<lparr>dr_human_decision := Some ''withdrawn''\<rparr>]))) ''d'' = Some DsWithdrawn"
proof (rule withdrawal_is_final)
  show "states (dec_world [demo_decision\<lparr>dr_human_decision := Some ''withdrawn''\<rparr>]) ''d'' = Some DsWithdrawn"
    by (simp add: states_def dec_world_def demo_decision_def get_state_def WITHDRAWN_MARKER_def)
qed (rule r_into_rtranclp, rule dec_step.intros, rule prod.collapse [symmetric])

lemma overlapping_call_undoes_withdrawal_witness:
  "\<exists>s3. states s3 ''d'' = Some DsDecided"
proof -
  let ?s = "dec_world [demo_decision]"
  let ?s1 = "snd (check_transition ''record human decision'' ''d'' DsDecided ?s)"
  let ?s2 = "snd (withdraw ''d'' ''r'' ?s1)"
  have "check_transition ''record human decision'' ''d'' DsDecided ?s = (Inr (), ?s1)"
    and "withdraw ''d'' ''r'' ?s1 = (Inr (), ?s2)"
    and "write_human_decision ''d'' ''go'' ''r'' ?s2 = (Inr (), snd (write_human_decision ''d'' ''go'' ''r'' ?s2))"
    by (simp_all add: prod_eq_iff check_transition_def withdraw_def write_human_decision_def get_decision_def
        update_decision_def monad_defs exec_def dec_world_def demo_decision_def get_state_def WITHDRAWN_MARKER_def sql_update_def)
  from overlapping_call_undoes_withdrawal [OF this] show ?thesis
    by (auto simp: WITHDRAWN_MARKER_def)
qed

end
