(* ===== verification/MemoryControl.thy ===== *)
theory MemoryControl
  imports ExperienceStore Search Outbox
begin

text \<open>
  \<open>memory_control_plane.rs\<close>: experience genes kept as rows of \<open>memory_item\<close>, with their life
  cycle as the row's status and an outbox event for every change.  The lemmas show that a
  proposed gene is read back, that only a candidate is ever activated, and that no event the
  control plane queues can be delivered.
\<close>

section \<open>Types\<close>

datatype memory_control_error =
    McNotFound string
  | McContract contract_error
  | McInvalidTransition string
  | McStorage memory_repo_error
  | McSearch search_error
  | McOutbox outbox_error
  | McSerialization
  | McSqlx db_error

type_synonym 'a mcp_op = "(world, memory_control_error, 'a) op"

record memory_search_query =
  msq_tenant_id :: string
  msq_text :: string
  msq_limit :: int
  msq_offset :: int
  msq_embedding :: "f32 list option"
  msq_scopes :: "scope list"

definition mcp_default_limit :: int where
  "mcp_default_limit = 20"

definition default_memory_query :: memory_search_query where
  "default_memory_query = \<lparr>msq_tenant_id = ''default'', msq_text = [], msq_limit = mcp_default_limit, msq_offset = 0,
     msq_embedding = None, msq_scopes = []\<rparr>"

record memory_search_result =
  msr_memory_id :: uuid
  msr_score :: rat
  msr_match_type :: string
  msr_content :: "string option"
  msr_structured_payload :: "json option"
  msr_status :: string
  msr_scope :: string
  msr_confidence :: f32

text \<open>serde's encoding of a gene as a JSON value and its decoding.\<close>

record gene_codec =
  gc_to_value :: "gene_v1 \<Rightarrow> json"
  gc_from_value :: "json \<Rightarrow> gene_v1 option"

section \<open>Mappers\<close>

fun lifecycle_to_status :: "lifecycle_state \<Rightarrow> memory_status" where
  "lifecycle_to_status LcCandidate = Candidate"
| "lifecycle_to_status LcStable = Active"
| "lifecycle_to_status LcDeprecated = Archived"
| "lifecycle_to_status LcQuarantined = Quarantined"
| "lifecycle_to_status LcRevoked = Revoked"

fun status_to_lifecycle :: "memory_status \<Rightarrow> lifecycle_state" where
  "status_to_lifecycle Candidate = LcCandidate"
| "status_to_lifecycle Active = LcStable"
| "status_to_lifecycle Archived = LcDeprecated"
| "status_to_lifecycle Quarantined = LcQuarantined"
| "status_to_lifecycle Revoked = LcRevoked"

fun experience_scope_to_scope :: "experience_scope \<Rightarrow> scope" where
  "experience_scope_to_scope EsLocal = Personal"
| "experience_scope_to_scope EsProject = Task"
| "experience_scope_to_scope EsTenant = Factory"
| "experience_scope_to_scope EsTeam = Team"
| "experience_scope_to_scope EsNetwork = Enterprise"

fun scope_to_experience_scope :: "scope \<Rightarrow> experience_scope" where
  "scope_to_experience_scope Personal = EsLocal"
| "scope_to_experience_scope Agent = EsLocal"
| "scope_to_experience_scope Task = EsProject"
| "scope_to_experience_scope Team = EsTeam"
| "scope_to_experience_scope Process = EsProject"
| "scope_to_experience_scope Factory = EsTenant"
| "scope_to_experience_scope Enterprise = EsNetwork"

definition gene_to_candidate :: "gene_codec \<Rightarrow> gene_v1 \<Rightarrow> string \<Rightarrow> memory_candidate" where
  "gene_to_candidate cd g tenant = \<lparr>
     mc_tenant_id = tenant, mc_memory_type = Experience, mc_scope = experience_scope_to_scope (g_scope g),
     mc_subject_type = Some ''gene'', mc_subject_id = Some (g_id g @ '':v'' @ show_nat (g_version g)),
     mc_content = Some (g_name g), mc_structured_payload = Some (gc_to_value cd g), mc_source_type = AgentInferred,
     mc_source_reference = Some (pv_source_agent (g_provenance g)), mc_confidence = f32_0_8,
     mc_authority_level = L2Verified, mc_privacy_class = Internal, mc_created_by_user = None,
     mc_created_by_agent = Some (pv_source_agent (g_provenance g))\<rparr>"

definition item_to_gene :: "gene_codec \<Rightarrow> memory_item \<Rightarrow> gene_v1 mcp_op" where
  "item_to_gene cd item =
     bindE (ok_or (mi_structured_payload item) McSerialization) (\<lambda>payload.
     bindE (ok_or (gc_from_value cd payload) McSerialization) (\<lambda>g.
     ret (g\<lparr>g_lifecycle := status_to_lifecycle (mi_status item), g_scope := scope_to_experience_scope (mi_scope item)\<rparr>)))"

fun show_match_type :: "match_type \<Rightarrow> string" where
  "show_match_type Structured = ''Structured''"
| "show_match_type Keyword = ''Keyword''"
| "show_match_type Vector = ''Vector''"
| "show_match_type Hybrid = ''Hybrid''"

definition item_to_search_result :: "memory_item \<Rightarrow> rat \<Rightarrow> string \<Rightarrow> memory_search_result" where
  "item_to_search_result item score match_type = \<lparr>
     msr_memory_id = mi_memory_id item, msr_score = score, msr_match_type = match_type, msr_content = mi_content item,
     msr_structured_payload = mi_structured_payload item, msr_status = memory_status_as_str (mi_status item),
     msr_scope = scope_as_str (mi_scope item), msr_confidence = mi_confidence item\<rparr>"

section \<open>The control plane\<close>

definition in_repo :: "(world, memory_repo_error, 'a) op \<Rightarrow> 'a mcp_op" where
  "in_repo m = map_err McStorage m"

definition mcp_enqueue :: "event_type \<Rightarrow> uuid \<Rightarrow> (string \<times> json) list \<Rightarrow> unit mcp_op" where
  "mcp_enqueue ty i entries = bindE (map_err McOutbox (outbox_enqueue ty i (JObject entries))) (\<lambda>_. ret ())"

definition proposed_gene :: "gene_v1 \<Rightarrow> gene_v1" where
  "proposed_gene g = g\<lparr>g_lifecycle := LcCandidate,
     g_scope := (if g_scope g = EsTeam \<or> g_scope g = EsNetwork then EsLocal else g_scope g)\<rparr>"

definition mcp_propose :: "gene_codec \<Rightarrow> experience_bundle_v1 \<Rightarrow> string \<Rightarrow> uuid mcp_op" where
  "mcp_propose cd b tenant =
     (case bundle_validate b of
        Inl e \<Rightarrow> throw (McContract e)
      | Inr _ \<Rightarrow>
          let g = proposed_gene (eb_gene b) in
          bindE (in_repo (repo_insert (gene_to_candidate cd g tenant))) (\<lambda>i.
          bindE (mcp_enqueue MemoryProposed i
             [(''action'', JString ''proposed''), (''gene_id'', JString (g_id g)),
              (''gene_version'', JInt (int (g_version g))), (''memory_id'', JString i),
              (''memory_type'', JString ''experience'')]) (\<lambda>_.
          ret i)))"

definition mcp_get :: "uuid \<Rightarrow> memory_item option mcp_op" where
  "mcp_get i = in_repo (repo_get_by_id i)"

definition mcp_get_gene :: "gene_codec \<Rightarrow> uuid \<Rightarrow> gene_v1 option mcp_op" where
  "mcp_get_gene cd i =
     bindE (in_repo (repo_get_by_id i)) (\<lambda>found.
     case found of None \<Rightarrow> ret None | Some item \<Rightarrow> bindE (item_to_gene cd item) (\<lambda>g. ret (Some g)))"

definition mcp_search :: "f32_text \<Rightarrow> search_engine \<Rightarrow> memory_search_query \<Rightarrow> memory_search_result list mcp_op" where
  "mcp_search to_string eng q =
     (let p = (search_params_new (msq_tenant_id q))\<lparr>
            sp_query_text := (if msq_text q = [] then None else Some (msq_text q)),
            sp_memory_types := [Experience], sp_limit := msq_limit q, sp_offset := msq_offset q,
            sp_embedding := msq_embedding q\<rparr>;
          p' = (if msq_scopes q \<noteq> [] then p\<lparr>sp_scopes := msq_scopes q\<rparr> else p)
      in bindE (map_err McSearch (hybrid_search to_string eng p')) (\<lambda>results.
         ret (map (\<lambda>r. item_to_search_result (hit_item r) (hit_score r) (show_match_type (hit_matched_by r))) results)))"

fun show_status :: "memory_status \<Rightarrow> string" where
  "show_status Candidate = ''Candidate''"
| "show_status Active = ''Active''"
| "show_status Archived = ''Archived''"
| "show_status Quarantined = ''Quarantined''"
| "show_status Revoked = ''Revoked''"

definition mcp_item :: "uuid \<Rightarrow> memory_item mcp_op" where
  "mcp_item i = bindE (in_repo (repo_get_by_id i)) (\<lambda>found. ok_or found (McNotFound i))"

definition mcp_promote :: "uuid \<Rightarrow> unit mcp_op" where
  "mcp_promote i =
     bindE (mcp_item i) (\<lambda>item.
     if mi_status item \<noteq> Candidate
     then throw (McInvalidTransition (''cannot promote from '' @ show_status (mi_status item)))
     else
     bindE (in_repo (repo_promote i)) (\<lambda>_.
     mcp_enqueue MemoryPromoted i
       [(''action'', JString ''promoted''), (''from'', JString ''candidate''), (''memory_id'', JString i),
        (''to'', JString ''active'')]))"

definition mcp_revoke :: "uuid \<Rightarrow> unit mcp_op" where
  "mcp_revoke i =
     bindE (mcp_item i) (\<lambda>item.
     if mi_status item = Revoked then throw (McInvalidTransition ''already revoked'')
     else
     bindE (in_repo (repo_revoke i)) (\<lambda>_.
     mcp_enqueue MemoryRevoked i
       [(''action'', JString ''revoked''), (''memory_id'', JString i),
        (''previous_status'', JString (memory_status_as_str (mi_status item)))]))"

definition mcp_quarantine :: "uuid \<Rightarrow> unit mcp_op" where
  "mcp_quarantine i =
     bindE (in_repo (repo_quarantine i)) (\<lambda>_.
     mcp_enqueue MemoryQuarantined i [(''action'', JString ''quarantined''), (''memory_id'', JString i)])"

definition mcp_archive :: "uuid \<Rightarrow> unit mcp_op" where
  "mcp_archive i =
     bindE (in_repo (repo_archive i)) (\<lambda>_.
     mcp_enqueue MemoryExpired i [(''action'', JString ''archived''), (''memory_id'', JString i)])"

definition count_outcome :: "bool \<Rightarrow> time \<Rightarrow> gene_v1 \<Rightarrow> gene_v1" where
  "count_outcome success now g =
     (let p = g_provenance g;
          p' = (if success then p\<lparr>pv_verified_successes := pv_verified_successes p + 1\<rparr>
                else p\<lparr>pv_verified_failures := pv_verified_failures p + 1\<rparr>)
      in g\<lparr>g_provenance := p', g_updated_at := now\<rparr>)"

definition mcp_record_outcome :: "gene_codec \<Rightarrow> uuid \<Rightarrow> bool \<Rightarrow> string \<Rightarrow> unit mcp_op" where
  "mcp_record_outcome cd i success run_id =
     bindE (mcp_item i) (\<lambda>item.
     bindE (item_to_gene cd item) (\<lambda>g.
     bindE utc_now (\<lambda>now.
     bindE (in_repo (repo_bump_version i)) (\<lambda>new_version.
     bindE (map_err McSqlx (update_memory_row i (\<lambda>t r.
        r\<lparr>c_structured_payload := Some (gc_to_value cd (count_outcome success now g)), c_updated_at := t\<rparr>))) (\<lambda>_.
     mcp_enqueue ExperienceOutcomeRecorded i
       [(''action'', JString ''outcome_recorded''), (''memory_id'', JString i), (''new_version'', JInt new_version),
        (''outcome'', JString (if success then ''success'' else ''failure'')), (''run_id'', JString run_id)])))))"

definition mcp_set_embedding :: "uuid \<Rightarrow> f32 list \<Rightarrow> unit mcp_op" where
  "mcp_set_embedding i embedding = in_repo (repo_set_embedding i embedding)"

definition mcp_list :: "string \<Rightarrow> int \<Rightarrow> int \<Rightarrow> memory_item list mcp_op" where
  "mcp_list tenant limit offset = in_repo (repo_list_by_tenant tenant None limit offset)"

inductive mcp_step :: "gene_codec \<Rightarrow> world \<Rightarrow> world \<Rightarrow> bool" for cd where
  mcp_step_propose: "mcp_propose cd b tenant w = (r1, w') \<Longrightarrow> mcp_step cd w w'"
| mcp_step_promote: "mcp_promote i w = (r2, w') \<Longrightarrow> mcp_step cd w w'"
| mcp_step_revoke: "mcp_revoke i w = (r2, w') \<Longrightarrow> mcp_step cd w w'"
| mcp_step_quarantine: "mcp_quarantine i w = (r2, w') \<Longrightarrow> mcp_step cd w w'"
| mcp_step_archive: "mcp_archive i w = (r2, w') \<Longrightarrow> mcp_step cd w w'"
| mcp_step_outcome: "mcp_record_outcome cd i success run_id w = (r2, w') \<Longrightarrow> mcp_step cd w w'"
| mcp_step_embedding: "mcp_set_embedding i v w = (r2, w') \<Longrightarrow> mcp_step cd w w'"

section \<open>Only candidates are activated\<close>

definition item_status :: "world \<Rightarrow> uuid \<Rightarrow> memory_status option" where
  "item_status w i = map_option (\<lambda>r. parse_memory_status (c_status r)) (find (\<lambda>r. c_memory_id r = i) (memory_items w))"

definition retired :: "uuid \<Rightarrow> world \<Rightarrow> bool" where
  "retired i w \<longleftrightarrow> (\<exists>st. item_status w i = Some st \<and> st \<noteq> Candidate \<and> st \<noteq> Active)"

lemma retired_frame [simp]:
  "retired i (w\<lparr>tick := t\<rparr>) = retired i w" "retired i (w\<lparr>outbox_events := es\<rparr>) = retired i w"
  by (simp_all add: retired_def item_status_def)

lemma retired_update:
  assumes "retired i w" and "\<And>r. c_memory_id (f r) = c_memory_id r"
    and "\<And>r. j = i \<Longrightarrow> c_status (f r) = c_status r \<or> parse_memory_status (c_status (f r)) \<notin> {Candidate, Active}"
  shows "retired i (w\<lparr>memory_items := sql_update (\<lambda>r. c_memory_id r = j) f (memory_items w)\<rparr>)"
proof (cases "j = i")
  case True
  from assms(1) obtain r where r: "find (\<lambda>r. c_memory_id r = i) (memory_items w) = Some r"
    "parse_memory_status (c_status r) \<notin> {Candidate, Active}"
    by (auto simp: retired_def item_status_def)
  then have "parse_memory_status (c_status (f r)) \<notin> {Candidate, Active}" using assms(3) [OF True, of r] by auto
  then show ?thesis
    using r True assms(2) by (simp add: retired_def item_status_def find_sql_update_same)
next
  case False
  then show ?thesis
    using assms(1,2) by (simp add: retired_def item_status_def find_sql_update_other)
qed

lemma keeps_retired_row:
  assumes "\<And>t r. c_memory_id (f t r) = c_memory_id r"
    and "\<And>t r. j = i \<Longrightarrow> c_status (f t r) = c_status r \<or> parse_memory_status (c_status (f t r)) \<notin> {Candidate, Active}"
  shows "keeps (retired i) (update_memory_row j f)"
proof (rule keeps_memory_frame)
  fix w t assume "retired i w"
  then show "retired i (w\<lparr>memory_items := sql_update (\<lambda>r. c_memory_id r = j) (f t) (memory_items w)\<rparr>)"
    by (rule retired_update) (use assms in blast)+
qed simp

lemma keeps_retired_status:
  "j = i \<Longrightarrow> st \<noteq> Candidate \<and> st \<noteq> Active \<Longrightarrow> keeps (retired i) (repo_update_status j st)"
  "j \<noteq> i \<Longrightarrow> keeps (retired i) (repo_update_status j st)"
  unfolding repo_update_status_def by (intro keep_intros keeps_retired_row; simp)+

lemma keeps_retired_enqueue: "keeps (retired i) (mcp_enqueue ty j entries)"
  unfolding mcp_enqueue_def outbox_enqueue_def
  by (intro keep_intros) (auto intro!: keepsI split: if_splits)

lemma keeps_retired_insert: "keeps (retired i) (repo_insert c)"
proof -
  have "keeps (retired i) (\<lambda>w. if j \<in> c_memory_id ` set (memory_items w) then (Inl DbError, w)
        else (Inr (), w\<lparr>memory_items := memory_items w @ [row_of_candidate j c (sql_now w)]\<rparr>))" for j
    by (rule keepsI) (auto simp: retired_def item_status_def find_append split: if_splits option.splits)
  then show ?thesis unfolding repo_insert_def by (intro keep_intros) simp_all
qed

lemma keeps_retired_bump: "keeps (retired i) (repo_bump_version j)"
proof -
  have "keeps (retired i) (\<lambda>w. case find (\<lambda>r. c_memory_id r = j) (memory_items w) of
          None \<Rightarrow> (Inl DbError, w)
        | Some r \<Rightarrow> if c_version r \<ge> int4_max then (Inl DbError, w)
            else (Inr (c_version r + 1), w\<lparr>memory_items := sql_update (\<lambda>r. c_memory_id r = j)
                      (\<lambda>r. r\<lparr>c_version := c_version r + 1, c_updated_at := sql_now w\<rparr>) (memory_items w)\<rparr>))"
    by (rule keepsI) (auto intro!: retired_update split: if_splits option.splits)
  then show ?thesis unfolding repo_bump_version_def by (intro keep_intros) simp_all
qed

lemma keeps_retired_embedding: "keeps (retired i) (repo_set_embedding j v)"
proof -
  have "keeps (retired i) (\<lambda>w. if \<not> pgvector_ok v then (Inl DbError, w)
        else (Inr (rows_matching (\<lambda>r. c_memory_id r = j) (memory_items w)), w\<lparr>memory_items := sql_update (\<lambda>r. c_memory_id r = j)
               (\<lambda>r. r\<lparr>c_embedding := Some v, c_updated_at := sql_now w\<rparr>) (memory_items w)\<rparr>))"
    by (rule keepsI) (auto intro!: retired_update split: if_splits)
  then show ?thesis unfolding repo_set_embedding_def by (intro keep_intros) simp_all
qed

lemma keeps_retired_read: "keeps (retired i) (repo_get_by_id j)" "keeps (retired i) (mcp_item j)"
  "keeps (retired i) (item_to_gene cd item)"
  unfolding mcp_item_def in_repo_def repo_get_by_id_def item_to_gene_def by (intro keep_intros; simp)+

lemma mcp_item_InrD:
  assumes "mcp_item i w = (Inr item, w')"
  shows "\<exists>r. find (\<lambda>r. c_memory_id r = i) (memory_items w) = Some r \<and> item = map_row_to_memory_item r \<and>
     w' = w\<lparr>tick := Suc (tick w)\<rparr>"
  using assms
  by (auto simp: mcp_item_def in_repo_def repo_get_by_id_def monad_defs exec_def split: if_splits option.splits)

lemma keeps_retired_promote: "keeps (retired i) (mcp_promote j)"
proof (cases "j = i")
  case False
  then show ?thesis
    unfolding mcp_promote_def in_repo_def repo_promote_def
    by (intro keep_intros keeps_retired_read keeps_retired_status(2) keeps_retired_enqueue) simp_all
next
  case True
  show ?thesis
  proof (rule keepsI)
    fix w r w' assume old: "retired i w" and run: "mcp_promote j w = (r, w')"
    from run [unfolded mcp_promote_def] show "retired i w'"
    proof (cases rule: bindE_E)
      case (err e)
      then show ?thesis using keepsD [OF keeps_retired_read(2) old] by blast
    next
      case (step item w1)
      from mcp_item_InrD [OF step(1)] have "mi_status item \<noteq> Candidate" and "retired i w1"
        using old True by (auto simp: retired_def item_status_def map_row_to_memory_item_def)
      with step(2) show ?thesis by (simp add: throw_def)
    qed
  qed
qed

lemma mcp_step_retired:
  assumes "mcp_step cd w w'" and "retired i w"
  shows "retired i w'"
proof -
  have ops: "keeps (retired i) (mcp_propose cd b tenant)" "keeps (retired i) (mcp_revoke j)" "keeps (retired i) (mcp_quarantine j)"
    "keeps (retired i) (mcp_archive j)" "keeps (retired i) (mcp_record_outcome cd j success run)"
    "keeps (retired i) (mcp_set_embedding j v)" for b tenant j success run v
  proof -
    have st: "keeps (retired i) (repo_update_status j st)" if "st \<noteq> Candidate" "st \<noteq> Active" for j st
      using keeps_retired_status that by (cases "j = i") auto
    note rules = keep_intros keeps_retired_read keeps_retired_enqueue keeps_retired_insert keeps_retired_bump
      keeps_retired_embedding keeps_retired_row st
    show "keeps (retired i) (mcp_propose cd b tenant)"
      unfolding mcp_propose_def Let_def in_repo_def by (intro rules)
    show "keeps (retired i) (mcp_revoke j)"
      unfolding mcp_revoke_def in_repo_def repo_revoke_def by (intro rules) simp_all
    show "keeps (retired i) (mcp_quarantine j)"
      unfolding mcp_quarantine_def in_repo_def repo_quarantine_def by (intro rules) simp_all
    show "keeps (retired i) (mcp_archive j)"
      unfolding mcp_archive_def in_repo_def repo_archive_def by (intro rules) simp_all
    show "keeps (retired i) (mcp_record_outcome cd j success run)"
      unfolding mcp_record_outcome_def in_repo_def by (intro rules) simp_all
    show "keeps (retired i) (mcp_set_embedding j v)"
      unfolding mcp_set_embedding_def in_repo_def by (intro rules)
  qed
  from assms(1) show ?thesis
    by cases (auto dest: keepsD [OF ops(1) assms(2)] keepsD [OF ops(2) assms(2)] keepsD [OF ops(3) assms(2)]
      keepsD [OF ops(4) assms(2)] keepsD [OF ops(5) assms(2)] keepsD [OF ops(6) assms(2)]
      keepsD [OF keeps_retired_promote assms(2)])
qed

text \<open>
  C21 (safety).  An item that has been archived, quarantined or revoked never becomes active or
  a candidate again, whatever calls follow and however they fail.
\<close>

theorem retired_items_stay_inactive:
  assumes "(mcp_step cd)\<^sup>*\<^sup>* w w'" and "item_status w i = Some st" and "st \<notin> {Candidate, Active}"
  shows "\<exists>st'. item_status w' i = Some st' \<and> st' \<notin> {Candidate, Active}"
proof -
  have "retired i w" using assms(2,3) by (simp add: retired_def)
  with assms(1) have "retired i w'"
    by (induction rule: rtranclp_induct) (simp_all add: mcp_step_retired)
  then show ?thesis by (auto simp: retired_def)
qed

section \<open>Events\<close>

definition undeliverable :: "outbox_row \<Rightarrow> bool" where
  "undeliverable r \<longleftrightarrow> (\<exists>e. compute_invalidation_actions (map_row_to_outbox_event r) = Inl e)"

definition all_undeliverable :: "world \<Rightarrow> bool" where
  "all_undeliverable w \<longleftrightarrow> (\<forall>r \<in> set (outbox_events w). undeliverable r)"

lemma all_undeliverable_frame [simp]:
  "all_undeliverable (w\<lparr>tick := t\<rparr>) = all_undeliverable w" "all_undeliverable (w\<lparr>memory_items := m\<rparr>) = all_undeliverable w"
  by (simp_all add: all_undeliverable_def)

lemma keeps_undeliverable_enqueue:
  assumes "\<And>e t. undeliverable (new_outbox_row e ty i (JObject entries) t)"
  shows "keeps all_undeliverable (mcp_enqueue ty i entries)"
proof -
  have "keeps all_undeliverable (\<lambda>w. if e \<in> o_event_id ` set (outbox_events w) then (Inl DbError, w)
        else (Inr (), w\<lparr>outbox_events := outbox_events w @ [new_outbox_row e ty i (JObject entries) (sql_now w)]\<rparr>))" for e
    by (rule keepsI) (auto simp: all_undeliverable_def assms split: if_splits)
  then show ?thesis unfolding mcp_enqueue_def outbox_enqueue_def by (intro keep_intros) simp_all
qed

text \<open>No payload names a tenant and a user, and three types are read back as a change of a user's context.\<close>

lemma undeliverable_row:
  assumes "ty \<in> {MemoryPromoted, MemoryRevoked, MemoryExpired, MemoryProposed, MemoryQuarantined, ExperienceOutcomeRecorded}"
    and "\<And>v. (''tenant_id'', v) \<notin> set entries"
  shows "undeliverable (new_outbox_row e ty i (JObject entries) t)"
proof -
  have "map_of entries ''tenant_id'' = None"
    using assms(2) by (simp add: map_of_eq_None_iff image_iff) force
  then show ?thesis
    using assms(1)
    by (auto simp: undeliverable_def compute_invalidation_actions_def map_row_to_outbox_event_def new_outbox_row_def
        parse_event_type_def payload_str_def Let_def)
qed

lemma keeps_undeliverable_repo:
  "keeps all_undeliverable (repo_insert c)" "keeps all_undeliverable (repo_update_status i st)"
  "keeps all_undeliverable (repo_bump_version i)" "keeps all_undeliverable (repo_set_embedding i v)"
  "keeps all_undeliverable (update_memory_row i f)" "keeps all_undeliverable (mcp_item i)"
  "keeps all_undeliverable (item_to_gene cd item)"
  unfolding repo_insert_def repo_update_status_def repo_bump_version_def repo_set_embedding_def update_memory_row_def
    mcp_item_def in_repo_def repo_get_by_id_def item_to_gene_def
  by (intro keep_intros; (auto intro!: keepsI split: if_splits option.splits)[])+

text \<open>
  C39 (error).  No event of this control plane reaches a cache: of every event it queues, whatever
  calls are made, the worker cannot compute what to invalidate.
\<close>

theorem control_plane_events_undeliverable:
  assumes "(mcp_step cd)\<^sup>*\<^sup>* w w'" and "outbox_events w = []" and "r \<in> set (outbox_events w')"
  shows "\<exists>e. compute_invalidation_actions (map_row_to_outbox_event r) = Inl e"
proof -
  note rules = keep_intros keeps_undeliverable_repo keeps_undeliverable_enqueue undeliverable_row
  have ops: "keeps all_undeliverable (mcp_propose cd b tenant)" "keeps all_undeliverable (mcp_promote i)"
    "keeps all_undeliverable (mcp_revoke i)" "keeps all_undeliverable (mcp_quarantine i)"
    "keeps all_undeliverable (mcp_archive i)" "keeps all_undeliverable (mcp_record_outcome cd i success run)"
    "keeps all_undeliverable (mcp_set_embedding i v)" for b tenant i success run v
    unfolding mcp_propose_def mcp_promote_def mcp_revoke_def mcp_quarantine_def mcp_archive_def mcp_record_outcome_def
      mcp_set_embedding_def in_repo_def repo_promote_def repo_revoke_def repo_quarantine_def repo_archive_def Let_def
    by (intro rules; simp)+
  have "all_undeliverable w' " using assms(1)
  proof (induction rule: rtranclp_induct)
    case base
    then show ?case by (simp add: all_undeliverable_def assms(2))
  next
    case (step y z)
    from step.hyps(2) show ?case
      by cases (auto dest: keepsD [OF ops(1) step.IH] keepsD [OF ops(2) step.IH] keepsD [OF ops(3) step.IH]
        keepsD [OF ops(4) step.IH] keepsD [OF ops(5) step.IH] keepsD [OF ops(6) step.IH] keepsD [OF ops(7) step.IH])
  qed
  with assms(3) show ?thesis by (simp add: all_undeliverable_def undeliverable_def)
qed

section \<open>What is read back\<close>

lemma scope_roundtrip [simp]: "scope_to_experience_scope (experience_scope_to_scope sc) = sc"
  by (cases sc) simp_all

lemma lifecycle_roundtrip [simp]:
  "status_to_lifecycle (lifecycle_to_status l) = l" "lifecycle_to_status (status_to_lifecycle st) = st"
  by (cases l; simp) (cases st; simp)

lemma mcp_enqueue_frame:
  assumes "mcp_enqueue ty i entries w = (r, w')"
  shows "memory_items w' = memory_items w" "fails w' = fails w" "clock w' = clock w"
  using assms by (auto simp: mcp_enqueue_def outbox_enqueue_def new_v4_def monad_defs exec_def split: if_splits)

lemma mcp_get_gene_run:
  assumes "find (\<lambda>r. c_memory_id r = i) (memory_items w) = Some r" and "\<not> fails w (tick w)"
    and "c_structured_payload r = Some payload" and "gc_from_value cd payload = Some g"
  shows "fst (mcp_get_gene cd i w) = Inr (Some (g\<lparr>g_lifecycle := status_to_lifecycle (parse_memory_status (c_status r)),
     g_scope := scope_to_experience_scope (parse_scope (c_scope r))\<rparr>))"
  using assms
  by (simp add: mcp_get_gene_def in_repo_def repo_get_by_id_def monad_defs exec_def item_to_gene_def
      map_row_to_memory_item_def)

text \<open>
  The id of a proposal leads back to the proposed gene, as a candidate and
  with its scope narrowed, when serde reads back what it wrote of it.
\<close>

theorem proposal_reads_back:
  assumes "mcp_propose cd b tenant w = (Inr i, w')" and "\<not> fails w' (tick w')"
    and "gc_from_value cd (gc_to_value cd (proposed_gene (eb_gene b))) = Some (proposed_gene (eb_gene b))"
  shows "fst (mcp_get_gene cd i w') = Inr (Some (proposed_gene (eb_gene b)))"
proof -
  let ?g = "proposed_gene (eb_gene b)"
  from assms(1) obtain w1 where ins: "in_repo (repo_insert (gene_to_candidate cd ?g tenant)) w = (Inr i, w1)"
    and items: "memory_items w' = memory_items w1"
    by (auto simp: mcp_propose_def Let_def throw_def ret_def split: sum.splits elim!: bindE_InrE dest: mcp_enqueue_frame(1))
  from ins obtain t where "memory_items w1 = memory_items w @ [row_of_candidate i (gene_to_candidate cd ?g tenant) t]"
    and "i \<notin> c_memory_id ` set (memory_items w)"
    by (auto simp: in_repo_def repo_insert_def new_v4_def monad_defs exec_def split: if_splits)
  then have "find (\<lambda>r. c_memory_id r = i) (memory_items w') = Some (row_of_candidate i (gene_to_candidate cd ?g tenant) t)"
    by (simp add: items find_append find_key_None)
  from mcp_get_gene_run [OF this assms(2) _ assms(3)] show ?thesis
    by (simp add: row_of_candidate_def gene_to_candidate_def proposed_gene_def parse_memory_status_def)
qed

text \<open>
  An outcome that is recorded adds one to the successes or the failures of the
  gene the id leads to, and to nothing else of it but its time of update.
\<close>

theorem outcome_counted:
  assumes "mcp_record_outcome cd i success run_id w = (Inr (), w')" and "fst (mcp_get_gene cd i w) = Inr (Some g)"
    and "\<not> fails w' (tick w')"
    and "\<And>now. gc_from_value cd (gc_to_value cd (count_outcome success now g)) = Some (count_outcome success now g)"
  shows "\<exists>now. fst (mcp_get_gene cd i w') = Inr (Some (count_outcome success now g))"
proof -
  from assms(1) obtain item g0 now w1 w2 w3 w4 v n where item: "mcp_item i w = (Inr item, w1)"
    and g0: "item_to_gene cd item w1 = (Inr g0, w2)" and clk: "(utc_now :: time mcp_op) w2 = (Inr now, w3)"
    and bump: "in_repo (repo_bump_version i) w3 = (Inr v, w4)"
    and upd: "memory_items w' = sql_update (\<lambda>r. c_memory_id r = i) (\<lambda>r. r\<lparr>c_structured_payload :=
         Some (gc_to_value cd (count_outcome success now g0)), c_updated_at := n\<rparr>) (memory_items w4)"
    by (auto simp: mcp_record_outcome_def update_memory_row_def elim!: bindE_InrE exec_InrE dest!: mcp_enqueue_frame(1))
  from mcp_item_InrD [OF item] obtain r where r: "find (\<lambda>r. c_memory_id r = i) (memory_items w) = Some r"
    "item = map_row_to_memory_item r" and w1: "memory_items w1 = memory_items w" by auto
  from g0 w1 have w2: "memory_items w2 = memory_items w"
    by (auto simp: item_to_gene_def monad_defs split: option.splits)
  from clk w2 have w3: "memory_items w3 = memory_items w" by (auto simp: utc_now_def)
  from bump obtain n' where w4: "memory_items w4 = sql_update (\<lambda>r. c_memory_id r = i)
       (\<lambda>r. r\<lparr>c_version := c_version r + 1, c_updated_at := n'\<rparr>) (memory_items w)"
    by (auto simp: in_repo_def repo_bump_version_def monad_defs exec_def w3 split: if_splits option.splits)
  have "g0 = g"
    using assms(2) g0 r
    by (auto simp: mcp_get_gene_def in_repo_def repo_get_by_id_def item_to_gene_def monad_defs exec_def split: if_splits option.splits)
  have same: "g_lifecycle g = status_to_lifecycle (parse_memory_status (c_status r))"
    "g_scope g = scope_to_experience_scope (parse_scope (c_scope r))"
    using g0 r(2) \<open>g0 = g\<close>
    by (auto simp: item_to_gene_def monad_defs map_row_to_memory_item_def split: option.splits)
  have "find (\<lambda>r. c_memory_id r = i) (memory_items w') = Some (r\<lparr>c_version := c_version r + 1, c_updated_at := n,
       c_structured_payload := Some (gc_to_value cd (count_outcome success now g))\<rparr>)"
    using r(1) by (simp add: upd w4 find_sql_update_same \<open>g0 = g\<close>)
  from mcp_get_gene_run [OF this assms(3) _ assms(4)]
  have "fst (mcp_get_gene cd i w') = Inr (Some (count_outcome success now g))"
    by (simp flip: same add: count_outcome_def Let_def)
  then show ?thesis by blast
qed

section \<open>A world with one proposal\<close>

text \<open>serde's codec, on the genes the witnesses use.\<close>

definition demo_codec :: gene_codec where
  "demo_codec = \<lparr>gc_to_value = (\<lambda>g. JArray [JInt (int (pv_verified_successes (g_provenance g))), JInt (g_updated_at g)]),
     gc_from_value = (\<lambda>v. case v of
        JArray [JInt n, JInt t] \<Rightarrow> Some ((proposed_gene (demo_gene LcCandidate))\<lparr>g_updated_at := t,
          g_provenance := (g_provenance (demo_gene LcCandidate))\<lparr>pv_verified_successes := nat n\<rparr>\<rparr>)
      | _ \<Rightarrow> None)\<rparr>"

definition proposed_world :: world where
  "proposed_world = empty_world\<lparr>tick := 4,
     memory_items := [row_of_candidate ''a'' (gene_to_candidate demo_codec (proposed_gene (demo_gene LcCandidate)) ''t'') 2],
     outbox_events := [new_outbox_row ''aaa'' MemoryProposed ''a'' (JObject
       [(''action'', JString ''proposed''), (''gene_id'', JString ''g1''), (''gene_version'', JInt 1),
        (''memory_id'', JString ''a''), (''memory_type'', JString ''experience'')]) 4]\<rparr>"

lemma demo_proposal:
  "eb_gene (demo_bundle []) = demo_gene LcCandidate" "g_id (proposed_gene (demo_gene LcCandidate)) = ''g1''"
  "g_version (proposed_gene (demo_gene LcCandidate)) = 1"
  by (simp_all add: demo_bundle_def demo_gene_def proposed_gene_def)

lemma proposal_run:
  "mcp_propose demo_codec (demo_bundle []) ''t'' empty_world = (Inr ''a'', proposed_world)"
  unfolding proposed_world_def
  by (simp add: mcp_propose_def demo_bundle_valid in_repo_def repo_insert_def mcp_enqueue_def outbox_enqueue_def new_v4_def
      monad_defs exec_def empty_world_def Let_def demo_proposal sql_now_def eval_nat_numeral)

lemma demo_codec_reads_back:
  "gc_from_value demo_codec (gc_to_value demo_codec (proposed_gene (eb_gene (demo_bundle [])))) =
     Some (proposed_gene (eb_gene (demo_bundle [])))"
  "gc_from_value demo_codec (gc_to_value demo_codec (count_outcome True now (proposed_gene (eb_gene (demo_bundle []))))) =
     Some (count_outcome True now (proposed_gene (eb_gene (demo_bundle []))))"
  by (simp_all add: demo_codec_def demo_bundle_def demo_gene_def proposed_gene_def count_outcome_def Let_def)

lemma proposed_world_healthy: "fails proposed_world = (\<lambda>_. False)"
  by (simp add: proposed_world_def empty_world_def)

lemma proposal_reads_back_witness:
  "fst (mcp_get_gene demo_codec ''a'' proposed_world) = Inr (Some (proposed_gene (demo_gene LcCandidate)))"
  using proposal_reads_back [OF proposal_run _ demo_codec_reads_back(1)]
  by (simp add: proposed_world_healthy demo_bundle_def)

lemma control_plane_events_undeliverable_witness:
  "\<exists>r \<in> set (outbox_events proposed_world). \<exists>e. compute_invalidation_actions (map_row_to_outbox_event r) = Inl e"
proof -
  have step: "(mcp_step demo_codec)\<^sup>*\<^sup>* empty_world proposed_world"
    by (rule r_into_rtranclp, rule mcp_step_propose [OF proposal_run])
  have "outbox_events proposed_world \<noteq> []"
    by (simp add: proposed_world_def)
  then obtain r where r: "r \<in> set (outbox_events proposed_world)" by (meson last_in_set)
  have "\<exists>e. compute_invalidation_actions (map_row_to_outbox_event r) = Inl e"
    by (rule control_plane_events_undeliverable [OF step _ r]) (simp add: empty_world_def)
  with r show ?thesis by blast
qed

definition revoked_world :: world where
  "revoked_world = empty_world\<lparr>memory_items := [(row_of_id ''m'')\<lparr>c_status := ''revoked''\<rparr>]\<rparr>"

lemma retired_items_stay_inactive_witness:
  "\<exists>st. item_status (snd (mcp_promote ''m'' revoked_world)) ''m'' = Some st \<and> st \<notin> {Candidate, Active}"
proof (rule retired_items_stay_inactive)
  show "(mcp_step demo_codec)\<^sup>*\<^sup>* revoked_world (snd (mcp_promote ''m'' revoked_world))"
    by (rule r_into_rtranclp, rule mcp_step_promote) (rule prod.collapse [symmetric])
  show "item_status revoked_world ''m'' = Some Revoked"
    by (simp add: item_status_def revoked_world_def row_of_id_def parse_memory_status_def)
qed simp

lemma outcome_counted_witness:
  "\<exists>now w'. mcp_record_outcome demo_codec ''a'' True ''r'' proposed_world = (Inr (), w') \<and>
     fst (mcp_get_gene demo_codec ''a'' w') = Inr (Some (count_outcome True now (proposed_gene (demo_gene LcCandidate))))"
proof -
  let ?run = "mcp_record_outcome demo_codec ''a'' True ''r'' proposed_world"
  have "fst ?run = Inr () \<and> \<not> fails (snd ?run) (tick (snd ?run))"
    by (simp add: mcp_record_outcome_def mcp_item_def item_to_gene_def proposed_world_def in_repo_def repo_get_by_id_def
        repo_bump_version_def update_memory_row_def mcp_enqueue_def outbox_enqueue_def new_v4_def utc_now_def monad_defs
        exec_def empty_world_def row_of_candidate_def gene_to_candidate_def map_row_to_memory_item_def demo_codec_def
        int4_max_def new_outbox_row_def sql_update_def rows_matching_def eval_nat_numeral)
  then have run: "?run = (Inr (), snd ?run)" and ok: "\<not> fails (snd ?run) (tick (snd ?run))"
    by (simp_all add: prod_eq_iff)
  have "fst (mcp_get_gene demo_codec ''a'' proposed_world) = Inr (Some (proposed_gene (eb_gene (demo_bundle []))))"
  proof -
    have row: "find (\<lambda>r. c_memory_id r = ''a'') (memory_items proposed_world) =
        Some (row_of_candidate ''a'' (gene_to_candidate demo_codec (proposed_gene (demo_gene LcCandidate)) ''t'') 2)"
      by (simp add: proposed_world_def)
    have payload: "c_structured_payload (row_of_candidate ''a'' (gene_to_candidate demo_codec
          (proposed_gene (demo_gene LcCandidate)) ''t'') 2) =
        Some (gc_to_value demo_codec (proposed_gene (eb_gene (demo_bundle []))))"
      by (simp add: row_of_candidate_def gene_to_candidate_def demo_proposal)
    have "g_lifecycle (proposed_gene (eb_gene (demo_bundle []))) = LcCandidate"
      by (simp add: proposed_gene_def)
    then show ?thesis
      using mcp_get_gene_run [OF row _ payload demo_codec_reads_back(1)]
      by (simp add: proposed_world_healthy row_of_candidate_def gene_to_candidate_def parse_memory_status_def demo_proposal)
  qed
  from outcome_counted [OF run this ok demo_codec_reads_back(2)] show ?thesis
    using run by (auto simp: demo_bundle_def)
qed

end
