(* ===== verification/ContextPackage.thy ===== *)
theory ContextPackage
  imports Assembler Poison
begin

text \<open>
  \<open>context_package.rs\<close>: what one agent hands to another.  A package is built from an assembled
  context, shrunk to a token budget by dropping whole sections, scanned before it is shared and
  checked against the sharing policy.  The lemmas bound the size of what is left, show which
  sections are kept, characterise the policy and follow the text through the marking of
  unverified items.
\<close>

section \<open>Types\<close>

text \<open>\<open>PackagePanic\<close> is the panic of a date beyond chrono's range.\<close>

datatype package_error =
    PoisonBlocked string
  | EmptyContext
  | PolicyDenied string
  | PackagePanic

record evidence_ref =
  er_source :: context_source
  er_memory_id :: uuid
  er_confidence :: rat
  er_authority :: authority_level

record authority_summary =
  as_highest :: authority_level
  as_conflicting_fields :: "string list"
  as_deprecated_count :: nat

text \<open>\<open>max_by_key\<close> keeps the last of equal keys; levels of one rank are equal.\<close>

definition highest_authority :: "evidence_ref list \<Rightarrow> authority_level" where
  "highest_authority evidence =
     foldl (\<lambda>best e. if authority_rank best \<le> authority_rank (er_authority e) then er_authority e else best)
       L3Inferred evidence"

definition from_evidence :: "evidence_ref list \<Rightarrow> assembler_conflict_flag list \<Rightarrow> authority_summary" where
  "from_evidence evidence conflicts = \<lparr>
     as_highest = highest_authority evidence,
     as_conflicting_fields = map cf_field conflicts,
     as_deprecated_count = sum_list (map (\<lambda>c. length (cf_conflicting_values c)) conflicts)\<rparr>"

record context_package =
  cp_context_id :: uuid
  cp_requester_user :: string
  cp_requester_agent :: string
  cp_purpose :: string
  cp_task_id :: "uuid option"
  cp_memory_refs :: "uuid list"
  cp_compressed_context :: string
  cp_evidence_refs :: "evidence_ref list"
  cp_authority_summary :: authority_summary
  cp_conflict_flags :: "assembler_conflict_flag list"
  cp_valid_until :: time
  cp_policy_decision_id :: "uuid option"

section \<open>Sections of a text\<close>

text \<open>\<open>chars().count()\<close> counts the bytes of the UTF-8 text that start a character.\<close>

definition starts_char :: "char \<Rightarrow> bool" where
  "starts_char c \<longleftrightarrow> \<not> (128 \<le> (of_char c :: nat) \<and> (of_char c :: nat) < 192)"

definition char_count :: "string \<Rightarrow> nat" where
  "char_count s = length (filter starts_char s)"

definition package_tokens :: "string \<Rightarrow> nat" where
  "package_tokens s = char_count s div 4"

definition segment_priority :: "lowercase \<Rightarrow> string \<Rightarrow> nat" where
  "segment_priority lower header =
     (let h = lower header in
      if str_contains h ''identity'' then 100
      else if str_contains h ''canonical user'' \<or> str_contains h ''user profile'' then 90
      else if str_contains h ''shared task'' \<or> str_contains h ''task'' then 85
      else if str_contains h ''enterprise'' then 80
      else if str_contains h ''business'' then 70
      else if str_contains h ''agent'' then 60
      else if str_contains h ''hot context'' then 20
      else 40)"

record package_segment =
  ps_header :: string
  ps_body :: string
  ps_priority :: nat

definition trim_end :: "string \<Rightarrow> string" where
  "trim_end s = rev (strip_prefixes (map rev whitespace) (rev s))"

definition segment_new :: "lowercase \<Rightarrow> string \<times> string \<Rightarrow> package_segment" where
  "segment_new lower = (\<lambda>(header, body). \<lparr>
     ps_header = header, ps_body = trim_end body,
     ps_priority = (if header = [] then 50 else segment_priority lower header)\<rparr>)"

definition full_text :: "package_segment \<Rightarrow> string" where
  "full_text g = (if ps_header g = [] then ps_body g else ''## '' @ ps_header g @ [CHR 0x0A] @ ps_body g)"

definition segment_tokens :: "package_segment \<Rightarrow> nat" where
  "segment_tokens g = package_tokens (full_text g)"

text \<open>The loop over the lines, with the finished sections and the current one.\<close>

definition split_line ::
  "(string \<times> string) list \<times> (string \<times> string) option \<Rightarrow> string \<Rightarrow>
   (string \<times> string) list \<times> (string \<times> string) option" where
  "split_line acc line =
     (let (finished, current) = acc in
      if str_starts_with line ''## ''
      then ((case current of Some c \<Rightarrow> finished @ [c] | None \<Rightarrow> finished), Some (drop 3 line, []))
      else (finished, Some (case current of
              Some (header, body) \<Rightarrow> (header, body @ line @ [CHR 0x0A])
            | None \<Rightarrow> ([], line @ [CHR 0x0A]))))"

definition split_segments :: "lowercase \<Rightarrow> string \<Rightarrow> package_segment list" where
  "split_segments lower text =
     (let (finished, current) = foldl split_line ([], None) (text_lines text);
          segments = map (segment_new lower) (case current of Some c \<Rightarrow> finished @ [c] | None \<Rightarrow> finished)
      in if segments = [] \<and> text \<noteq> [] then [segment_new lower ([], text)] else segments)"

section \<open>Shrinking\<close>

definition package_order :: "package_segment list \<Rightarrow> nat list" where
  "package_order segments =
     sort_by (\<lambda>a b. ord_then (cmp (ps_priority (segments ! b)) (ps_priority (segments ! a)))
                             (cmp (segment_tokens (segments ! a)) (segment_tokens (segments ! b))))
       [0..<length segments]"

definition keep_step :: "package_segment list \<Rightarrow> nat \<Rightarrow> nat list \<times> nat \<Rightarrow> nat \<Rightarrow> nat list \<times> nat" where
  "keep_step segments budget acc idx =
     (let (kept, total) = acc; t = segment_tokens (segments ! idx) in
      if 100 \<le> ps_priority (segments ! idx) \<or> total + t \<le> budget then (kept @ [idx], total + t) else acc)"

definition kept_within :: "package_segment list \<Rightarrow> nat \<Rightarrow> nat list \<times> nat" where
  "kept_within segments budget = foldl (keep_step segments budget) ([], 0) (package_order segments)"

definition shrink_text :: "lowercase \<Rightarrow> string \<Rightarrow> nat \<Rightarrow> string \<times> nat" where
  "shrink_text lower text budget =
     (let segments = split_segments lower text in
      if segments = [] then (text, 0)
      else let kept = sort (fst (kept_within segments budget)) in
        (join [CHR 0x0A, CHR 0x0A] (map (\<lambda>i. full_text (segments ! i)) kept), length segments - length kept))"

definition shrink_to_budget :: "lowercase \<Rightarrow> context_package \<Rightarrow> nat \<Rightarrow> context_package \<times> nat" where
  "shrink_to_budget lower p budget =
     (if package_tokens (cp_compressed_context p) \<le> budget then (p, 0)
      else let (text, dropped) = shrink_text lower (cp_compressed_context p) budget in
        (p\<lparr>cp_compressed_context := text\<rparr>, dropped))"

section \<open>Building\<close>

type_synonym 'a package_op = "(world, package_error, 'a) op"

record package_builder =
  pb_requester_user :: string
  pb_requester_agent :: string
  pb_purpose :: string
  pb_task_id :: "uuid option"
  pb_memory_refs :: "uuid list"
  pb_evidence_refs :: "evidence_ref list"
  pb_token_budget :: nat
  pb_ttl :: int
  pb_policy_decision_id :: "uuid option"

definition package_builder_new :: "string \<Rightarrow> string \<Rightarrow> string \<Rightarrow> package_builder" where
  "package_builder_new user agent purpose = \<lparr>
     pb_requester_user = user, pb_requester_agent = agent, pb_purpose = purpose, pb_task_id = None,
     pb_memory_refs = [], pb_evidence_refs = [], pb_token_budget = 8192, pb_ttl = secs 300,
     pb_policy_decision_id = None\<rparr>"

definition checked_ttl :: "time \<Rightarrow> int \<Rightarrow> time option" where
  "checked_ttl now ttl = (if now + ttl \<le> secs 8210266876799 + 999999999 then Some (now + ttl) else None)"

definition build_package :: "lowercase \<Rightarrow> package_builder \<Rightarrow> assembled_context \<Rightarrow> context_package package_op" where
  "build_package lower b ctx =
     (if trim (ac_context_text ctx) = [] then throw EmptyContext
      else
      let conflicts = ac_conflict_flags ctx;
          text = ac_context_text ctx;
          compressed = (if package_tokens text > pb_token_budget b
                        then fst (shrink_text lower text (pb_token_budget b)) else text) in
      bindE utc_now (\<lambda>now.
      bindE (case checked_ttl now (pb_ttl b) of None \<Rightarrow> throw PackagePanic | Some t \<Rightarrow> ret t) (\<lambda>valid_until.
      bindE new_v4 (\<lambda>i.
      ret \<lparr>cp_context_id = i, cp_requester_user = pb_requester_user b, cp_requester_agent = pb_requester_agent b,
           cp_purpose = pb_purpose b, cp_task_id = pb_task_id b, cp_memory_refs = pb_memory_refs b,
           cp_compressed_context = compressed, cp_evidence_refs = pb_evidence_refs b,
           cp_authority_summary = from_evidence (pb_evidence_refs b) conflicts,
           cp_conflict_flags = conflicts, cp_valid_until = valid_until,
           cp_policy_decision_id = pb_policy_decision_id b\<rparr>))))"

definition package_is_expired :: "context_package \<Rightarrow> bool package_op" where
  "package_is_expired p = bindE utc_now (\<lambda>now. ret (cp_valid_until p < now))"

section \<open>Validation\<close>

record validation_report =
  vr_poison_findings :: "string list"
  vr_low_confidence_marked :: nat
  vr_l3_evidence_count :: nat

text \<open>\<open>replacen(item, marked, 1)\<close>, where the marked item is the item after the marker.\<close>

fun mark_first :: "string \<Rightarrow> string \<Rightarrow> string \<Rightarrow> string" where
  "mark_first marker item h =
     (if prefix item h then marker @ h
      else case h of [] \<Rightarrow> [] | x # xs \<Rightarrow> x # mark_first marker item xs)"

declare mark_first.simps [simp del]

definition mark_item :: "string \<Rightarrow> string \<times> nat \<Rightarrow> string \<Rightarrow> string \<times> nat" where
  "mark_item marker acc item =
     (let (text, marked) = acc in
      if item \<noteq> [] \<and> str_contains text item then (mark_first marker item text, marked + 1) else acc)"

text \<open>The markers for speculation and for verification, in UTF-8.\<close>

definition speculative_marker :: string where
  "speculative_marker = ''['' @ [CHR 0xE6, CHR 0x8E, CHR 0xA8, CHR 0xE6, CHR 0xB5, CHR 0x8B] @ ''] ''"

definition marker_for :: "context_package \<Rightarrow> string" where
  "marker_for p =
     (if as_highest (cp_authority_summary p) = L3Inferred then speculative_marker else unverified_prefix)"

definition validate_for_sharing ::
  "lowercase \<Rightarrow> string list \<Rightarrow> poison_guard \<Rightarrow> context_package \<Rightarrow>
   (package_error + validation_report) \<times> context_package" where
  "validate_for_sharing lower items guard p =
     (let passed = (\<lambda>findings.
        let (text, marked) = foldl (mark_item (marker_for p)) (cp_compressed_context p, 0) items in
        (Inr \<lparr>vr_poison_findings = findings, vr_low_confidence_marked = marked,
              vr_l3_evidence_count = length (filter (\<lambda>e. er_authority e = L3Inferred) (cp_evidence_refs p))\<rparr>,
         p\<lparr>cp_compressed_context := text\<rparr>)) in
      case scan lower guard (cp_compressed_context p) PExternalDocument of
        Safe \<Rightarrow> passed []
      | Suspicious report \<Rightarrow> passed (map f_detail (sr_findings report))
      | Blocked report \<Rightarrow> (Inl (PoisonBlocked (join ''; '' (map f_detail (sr_findings report)))), p))"

section \<open>The sharing policy\<close>

record policy_context =
  pc_origin_tenant_id :: string
  pc_requester_tenant_id :: string

datatype policy_violation_kind = TenantScopeMismatch | InsufficientAuthority | UnresolvedConflict

record policy_violation =
  pv_kind :: policy_violation_kind
  pv_detail :: string

record policy_check_result =
  pr_allowed :: bool
  pr_violations :: "policy_violation list"

record policy_checker =
  po_min_authority :: authority_level
  po_require_resolved_conflicts :: bool

definition policy_checker_new :: "authority_level \<Rightarrow> policy_checker" where
  "policy_checker_new l = \<lparr>po_min_authority = l, po_require_resolved_conflicts = True\<rparr>"

definition policy_checker_default :: policy_checker where
  "policy_checker_default = policy_checker_new L2Verified"

fun debug_authority :: "authority_level \<Rightarrow> string" where
  "debug_authority L0SourceOfTruth = ''L0SourceOfTruth''"
| "debug_authority L1Authoritative = ''L1Authoritative''"
| "debug_authority L2Verified = ''L2Verified''"
| "debug_authority L3Inferred = ''L3Inferred''"

definition policy_check :: "policy_checker \<Rightarrow> context_package \<Rightarrow> policy_context \<Rightarrow> policy_check_result" where
  "policy_check c p pctx =
     (let highest = as_highest (cp_authority_summary p);
          tenant = (if pc_origin_tenant_id pctx \<noteq> pc_requester_tenant_id pctx
            then [\<lparr>pv_kind = TenantScopeMismatch, pv_detail = ''origin tenant `'' @ pc_origin_tenant_id pctx @
                   ''` != requester tenant `'' @ pc_requester_tenant_id pctx @ ''`''\<rparr>] else []);
          authority = (if authority_rank highest < authority_rank (po_min_authority c)
            then [\<lparr>pv_kind = InsufficientAuthority, pv_detail = ''highest authority '' @ debug_authority highest @
                   '' below required '' @ debug_authority (po_min_authority c)\<rparr>] else []);
          conflicts = (if po_require_resolved_conflicts c
            then map (\<lambda>cf. \<lparr>pv_kind = UnresolvedConflict,
                   pv_detail = ''conflict on field `'' @ cf_field cf @ ''` has no resolution''\<rparr>)
                 (filter (\<lambda>cf. trim (cf_description cf) = []) (cp_conflict_flags p)) else []);
          violations = tenant @ authority @ conflicts
      in \<lparr>pr_allowed = (violations = []), pr_violations = violations\<rparr>)"

section \<open>What is kept\<close>

lemma set_subseq: "subseq xs ys \<Longrightarrow> set xs \<subseteq> set ys"
  by (auto dest: list_emb_set)

lemma sum_list_mset_cong: "mset xs = mset ys \<Longrightarrow> sum_list (map f xs) = (sum_list (map f ys) :: nat)"
  by (simp only: sum_mset_sum_list [symmetric] mset_map)

lemma package_order_set [simp]: "set (package_order segments) = {..<length segments}"
  by (auto simp: package_order_def)

lemma package_order_distinct [simp]: "distinct (package_order segments)"
  by (simp add: package_order_def)

lemma package_order_sorted:
  "sorted_wrt (\<lambda>a b. ps_priority (segments ! b) \<le> ps_priority (segments ! a)) (package_order segments)"
  unfolding package_order_def
  by (rule sorted_sort_by_key) (auto simp: cmp_def split: if_splits)

definition tokens_of :: "package_segment list \<Rightarrow> nat list \<Rightarrow> nat" where
  "tokens_of segments is = sum_list (map (\<lambda>i. segment_tokens (segments ! i)) is)"

definition always_kept :: "package_segment list \<Rightarrow> nat \<Rightarrow> bool" where
  "always_kept segments i \<longleftrightarrow> 100 \<le> ps_priority (segments ! i)"

lemma tokens_of_simps [simp]:
  "tokens_of segments [] = 0"
  "tokens_of segments (i # is) = segment_tokens (segments ! i) + tokens_of segments is"
  "tokens_of segments (is @ js) = tokens_of segments is + tokens_of segments js"
  by (simp_all add: tokens_of_def)

lemma keep_step_simp:
  "keep_step segments b (k, t) i =
     (if always_kept segments i \<or> t + segment_tokens (segments ! i) \<le> b
      then (k @ [i], t + segment_tokens (segments ! i)) else (k, t))"
  by (simp add: keep_step_def always_kept_def Let_def)

text \<open>The loop appends a part of the order, which it counts; what it leaves out did not fit.\<close>

lemma keep_loop:
  assumes "foldl (keep_step segments b) (k, t) order = (k', t')"
  shows "\<exists>ys. k' = k @ ys \<and> subseq ys order \<and> t' = t + tokens_of segments ys \<and>
    (\<forall>i \<in> set order - set ys. \<not> always_kept segments i \<and> b < t' + segment_tokens (segments ! i))"
  using assms
proof (induction order arbitrary: k t)
  case (Cons i order)
  show ?case
  proof (cases "always_kept segments i \<or> t + segment_tokens (segments ! i) \<le> b")
    case True
    then have "foldl (keep_step segments b) (k @ [i], t + segment_tokens (segments ! i)) order = (k', t')"
      using Cons.prems by (simp add: keep_step_simp)
    from Cons.IH [OF this] obtain ys where
      "k' = (k @ [i]) @ ys" "subseq ys order" "t' = t + segment_tokens (segments ! i) + tokens_of segments ys"
      "\<forall>j \<in> set order - set ys. \<not> always_kept segments j \<and> b < t' + segment_tokens (segments ! j)"
      by blast
    then show ?thesis by (intro exI [of _ "i # ys"]) auto
  next
    case False
    then have "foldl (keep_step segments b) (k, t) order = (k', t')"
      using Cons.prems by (simp add: keep_step_simp)
    from Cons.IH [OF this] obtain ys where
      "k' = k @ ys" "subseq ys order" "t' = t + tokens_of segments ys"
      "\<forall>j \<in> set order - set ys. \<not> always_kept segments j \<and> b < t' + segment_tokens (segments ! j)"
      by blast
    then show ?thesis using False by (intro exI [of _ ys]) auto
  qed
qed simp

lemma kept_within_E:
  obtains kept where "kept_within segments b = (kept, tokens_of segments kept)"
    and "subseq kept (package_order segments)"
    and "\<And>i. i < length segments \<Longrightarrow> i \<notin> set kept \<Longrightarrow>
      \<not> always_kept segments i \<and> b < tokens_of segments kept + segment_tokens (segments ! i)"
proof -
  obtain k t where run: "kept_within segments b = (k, t)" by force
  from keep_loop [OF run [unfolded kept_within_def]] show ?thesis
    using run by (intro that [of k]) auto
qed

text \<open>The identity comes first, so what is kept beyond it stays within the budget.\<close>

lemma keep_loop_bounded:
  assumes "foldl (keep_step segments b) (k, t) order = (k', t')"
    and "sorted_wrt (\<lambda>i j. ps_priority (segments ! j) \<le> ps_priority (segments ! i)) order"
  shows "t' \<le> max b (t + tokens_of segments (filter (always_kept segments) order))"
  using assms
proof (induction order arbitrary: k t)
  case (Cons i order)
  show ?case
  proof (cases "always_kept segments i")
    case True
    then have "foldl (keep_step segments b) (k @ [i], t + segment_tokens (segments ! i)) order = (k', t')"
      using Cons.prems(1) by (simp add: keep_step_simp)
    from Cons.IH [OF this] Cons.prems(2) True show ?thesis by (simp add: add.assoc)
  next
    case False
    then have none: "filter (always_kept segments) order = []"
      using Cons.prems(2) by (auto simp: always_kept_def filter_empty_conv)
    show ?thesis
    proof (cases "t + segment_tokens (segments ! i) \<le> b")
      case True
      then have "foldl (keep_step segments b) (k @ [i], t + segment_tokens (segments ! i)) order = (k', t')"
        using Cons.prems(1) by (simp add: keep_step_simp)
      from Cons.IH [OF this] Cons.prems(2) True show ?thesis by (simp add: none)
    next
      case nofit: False
      then have "foldl (keep_step segments b) (k, t) order = (k', t')"
        using Cons.prems(1) False by (simp add: keep_step_simp)
      from Cons.IH [OF this] Cons.prems(2) show ?thesis by (simp add: none False)
    qed
  qed
qed simp

definition identity_tokens :: "package_segment list \<Rightarrow> nat" where
  "identity_tokens segments = sum_list (map segment_tokens (filter (\<lambda>g. 100 \<le> ps_priority g) segments))"

lemma identity_tokens_order:
  "tokens_of segments (filter (always_kept segments) (package_order segments)) = identity_tokens segments"
proof -
  have "mset (package_order segments) = mset [0..<length segments]" by (simp add: package_order_def)
  then have "mset (map (\<lambda>i. segments ! i) (package_order segments)) = mset segments"
    by (metis map_nth mset_map)
  then have "mset (filter (\<lambda>g. 100 \<le> ps_priority g) (map (\<lambda>i. segments ! i) (package_order segments))) =
      mset (filter (\<lambda>g. 100 \<le> ps_priority g) segments)" by (simp only: mset_filter)
  then have "sum_list (map segment_tokens (filter (\<lambda>g. 100 \<le> ps_priority g) (map (\<lambda>i. segments ! i) (package_order segments)))) =
      identity_tokens segments"
    unfolding identity_tokens_def by (rule sum_list_mset_cong)
  then show ?thesis
    by (simp add: tokens_of_def filter_map comp_def always_kept_def [abs_def])
qed

lemma kept_tokens_bound:
  "snd (kept_within segments b) \<le> max b (identity_tokens segments)"
proof -
  obtain k t where run: "kept_within segments b = (k, t)" by force
  from keep_loop_bounded [OF run [unfolded kept_within_def] package_order_sorted]
  show ?thesis by (simp add: run identity_tokens_order)
qed

section \<open>The size of the result\<close>

lemma char_count_simps [simp]:
  "char_count [] = 0" "char_count (a @ b) = char_count a + char_count b"
  by (simp_all add: char_count_def)

lemma char_count_tokens: "char_count s \<le> 4 * package_tokens s + 3"
  unfolding package_tokens_def by linarith

lemma char_count_newline [simp]: "char_count (CHR 0x0A # s) = Suc (char_count s)"
  by (simp add: char_count_def starts_char_def)

lemma char_count_join:
  "char_count (join [CHR 0x0A, CHR 0x0A] (map (\<lambda>i. full_text (segments ! i)) is)) \<le>
     4 * tokens_of segments is + (5 * length is - 2)"
proof (induction "is" rule: induct_list012)
  case (3 i j "is")
  then show ?case
    using char_count_tokens [of "full_text (segments ! i)"]
    by (simp add: segment_tokens_def)
qed (use char_count_tokens in \<open>auto simp: segment_tokens_def\<close>)

lemma tokens_of_sort [simp]: "tokens_of segments (sort is) = tokens_of segments is"
  unfolding tokens_of_def by (rule sum_list_mset_cong) simp

text \<open>
  C31 (bounds).  Shrinking keeps the sum of the sections' own tokens within the budget, or within
  the tokens of the identity sections if those alone exceed it; the rounding of each section
  and the blank lines between the sections come on top, at most five characters for each
  section that is kept.
\<close>

theorem shrunk_package_bounded:
  "package_tokens (fst (shrink_text lower text b)) \<le>
     max b (identity_tokens (split_segments lower text)) +
     5 * (length (split_segments lower text) - snd (shrink_text lower text b)) div 4"
proof (cases "split_segments lower text = []")
  case True
  then have "text = []"
    by (auto simp: split_segments_def Let_def split: prod.splits if_splits)
  then show ?thesis using True by (simp add: shrink_text_def package_tokens_def)
next
  case False
  define segments where "segments = split_segments lower text"
  obtain kept where run: "kept_within segments b = (kept, tokens_of segments kept)"
    and sub: "subseq kept (package_order segments)"
    by (rule kept_within_E)
  have "set kept \<subseteq> {..<length segments}"
    using set_subseq [OF sub] by simp
  moreover have "distinct kept"
    using sub by (rule distinct_subseq) simp
  ultimately have "length kept \<le> length segments"
    by (metis card_lessThan card_mono distinct_card finite_lessThan)
  moreover have "char_count (fst (shrink_text lower text b)) \<le> 4 * tokens_of segments kept + 5 * length kept"
    using char_count_join [of segments "sort kept"] False run
    by (simp add: shrink_text_def Let_def segments_def)
  moreover have "tokens_of segments kept \<le> max b (identity_tokens segments)"
    using kept_tokens_bound [of segments b] by (simp add: run)
  ultimately show ?thesis
    using False run by (simp add: shrink_text_def Let_def segments_def package_tokens_def)
qed

text \<open>
  Shrinking never drops a section whose header names the identity, and whatever
  other section it drops would have exceeded the budget beside those it keeps; the sections that
  are kept stand in the order of the text.
\<close>

theorem shrinking_drops_only_what_exceeds:
  assumes "split_segments lower text \<noteq> []"
  shows "\<exists>kept. sorted_wrt (<) kept \<and> set kept \<subseteq> {..<length (split_segments lower text)} \<and>
    shrink_text lower text b =
      (join [CHR 0x0A, CHR 0x0A] (map (\<lambda>i. full_text (split_segments lower text ! i)) kept),
       length (split_segments lower text) - length kept) \<and>
    (\<forall>i. i < length (split_segments lower text) \<longrightarrow> i \<notin> set kept \<longrightarrow>
       ps_priority (split_segments lower text ! i) < 100 \<and>
       b < tokens_of (split_segments lower text) kept + segment_tokens (split_segments lower text ! i))"
proof -
  define segments where "segments = split_segments lower text"
  obtain kept where run: "kept_within segments b = (kept, tokens_of segments kept)"
    and sub: "subseq kept (package_order segments)"
    and dropped: "\<And>i. i < length segments \<Longrightarrow> i \<notin> set kept \<Longrightarrow>
      \<not> always_kept segments i \<and> b < tokens_of segments kept + segment_tokens (segments ! i)"
    using kept_within_E by metis
  have "sorted_wrt (<) (sort kept)"
    using distinct_subseq [OF sub] by (simp add: strict_sorted_iff)
  moreover have "set (sort kept) \<subseteq> {..<length segments}"
    using set_subseq [OF sub] by simp
  moreover have "shrink_text lower text b =
      (join [CHR 0x0A, CHR 0x0A] (map (\<lambda>i. full_text (segments ! i)) (sort kept)),
       length segments - length (sort kept))"
    using assms by (simp add: shrink_text_def Let_def run flip: segments_def)
  moreover have "ps_priority (segments ! i) < 100 \<and>
      b < tokens_of segments (sort kept) + segment_tokens (segments ! i)"
    if "i < length segments" "i \<notin> set (sort kept)" for i
    using dropped [of i] that by (simp add: always_kept_def)
  ultimately show ?thesis unfolding segments_def by blast
qed

section \<open>What is shared\<close>

lemma mark_first_marks:
  "str_contains h n \<Longrightarrow> subseq h (mark_first m n h) \<and> length (mark_first m n h) = length h + length m"
proof (induction h)
  case Nil
  then show ?case by (subst (1 2) mark_first.simps) (simp add: str_contains_def)
next
  case (Cons x h)
  then show ?case
    by (subst (1 2) mark_first.simps)
      (auto simp: str_contains_def sublist_Cons_right intro: list_emb_append2)
qed

lemma mark_items:
  "subseq (fst acc) (fst (foldl (mark_item m) acc items)) \<and>
   length (fst (foldl (mark_item m) acc items)) + snd acc * length m =
     length (fst acc) + snd (foldl (mark_item m) acc items) * length m"
proof (induction items arbitrary: acc)
  case (Cons n items)
  show ?case
  proof (cases "n \<noteq> [] \<and> str_contains (fst acc) n")
    case True
    then have step: "mark_item m acc n = (mark_first m n (fst acc), snd acc + 1)"
      by (simp add: mark_item_def case_prod_unfold Let_def)
    show ?thesis
      using Cons.IH [of "mark_item m acc n"] mark_first_marks [of "fst acc" n m] True
      by (auto simp: step intro: subseq_order.trans)
  next
    case False
    then have "mark_item m acc n = acc" by (auto simp: mark_item_def case_prod_unfold Let_def)
    then show ?thesis using Cons.IH by simp
  qed
qed simp

text \<open>
  A package that passes the validation held no severe finding, and under a
  strict guard none at all; its text is the scanned text with one marker inserted for each item
  that is reported as marked, and nothing else of the package changes.  A package that fails
  stays as it was.
\<close>

theorem shared_text_was_scanned:
  assumes "validate_for_sharing lower items guard p = (r, p')"
  shows "case r of
      Inl e \<Rightarrow> p' = p \<and> scan_findings lower (cp_compressed_context p) \<noteq> []
    | Inr rep \<Rightarrow>
        (if strict_untrusted guard then scan_findings lower (cp_compressed_context p) = []
         else list_all (\<lambda>f. f_severity f \<noteq> High) (scan_findings lower (cp_compressed_context p))) \<and>
        vr_poison_findings rep = map f_detail (scan_findings lower (cp_compressed_context p)) \<and>
        subseq (cp_compressed_context p) (cp_compressed_context p') \<and>
        length (cp_compressed_context p') =
          length (cp_compressed_context p) + vr_low_confidence_marked rep * length (marker_for p) \<and>
        p' = p\<lparr>cp_compressed_context := cp_compressed_context p'\<rparr>"
proof -
  obtain t n where marks: "foldl (mark_item (marker_for p)) (cp_compressed_context p, 0) items = (t, n)" by force
  have grown: "subseq (cp_compressed_context p) t" "length t = length (cp_compressed_context p) + n * length (marker_for p)"
    using mark_items [of "(cp_compressed_context p, 0)" "marker_for p" items] by (simp_all add: marks)
  show ?thesis
    using assms grown
    by (auto simp: validate_for_sharing_def marks scan_def Let_def list_all_iff list_ex_iff split: if_splits)
qed

section \<open>The policy\<close>

text \<open>\<open>trim\<close> removes white space only.\<close>

lemma strip_prefixes_bytes: "set s \<subseteq> set (strip_prefixes wss s) \<union> (\<Union>ws \<in> set wss. set ws)"
proof (induction wss s rule: strip_prefixes.induct)
  case (1 wss s)
  show ?case
  proof (cases "find (\<lambda>ws. ws \<noteq> [] \<and> prefix ws s) wss")
    case None
    then show ?thesis by (subst strip_prefixes.simps) simp
  next
    case (Some ws)
    then have "ws \<in> set wss" "prefix ws s" by (auto simp: find_Some_iff)
    then have "set s = set ws \<union> set (drop (length ws) s)" by (auto simp: prefix_def)
    moreover have "strip_prefixes wss s = strip_prefixes wss (drop (length ws) s)"
      by (subst strip_prefixes.simps) (simp add: Some)
    ultimately show ?thesis using 1 [OF Some] \<open>ws \<in> set wss\<close> by auto
  qed
qed

lemma trim_keeps_letter:
  assumes "c \<in> set s" and "\<And>ws. ws \<in> set whitespace \<Longrightarrow> c \<notin> set ws"
  shows "trim s \<noteq> []"
proof -
  have "c \<in> set (strip_prefixes whitespace s)"
    using strip_prefixes_bytes [of s whitespace] assms by auto
  then have "c \<in> set (rev (strip_prefixes whitespace s))" by simp
  then have "c \<in> set (strip_prefixes (map rev whitespace) (rev (strip_prefixes whitespace s)))"
    using strip_prefixes_bytes [of "rev (strip_prefixes whitespace s)" "map rev whitespace"] assms(2) by auto
  then show ?thesis by (auto simp: trim_def)
qed

lemma letter_y: "ws \<in> set whitespace \<Longrightarrow> CHR ''y'' \<notin> set ws"
  by (auto simp: whitespace_def)

lemma flags_described:
  assumes "cf \<in> set (detect_conflicts ord segments)"
  shows "trim (cf_description cf) \<noteq> []"
proof -
  from assms obtain field members where "group_flag field members = Some cf"
    by (auto simp: detect_conflicts_def map_filter_def)
  then have "CHR ''y'' \<in> set (cf_description cf)"
    by (auto simp: group_flag_def Let_def split: if_splits list.splits)
  then show ?thesis by (rule trim_keeps_letter) (rule letter_y)
qed

lemma highest_authority_rank:
  "n \<le> authority_rank (highest_authority evidence) \<longleftrightarrow> n = 0 \<or> (\<exists>e \<in> set evidence. n \<le> authority_rank (er_authority e))"
proof -
  have "n \<le> authority_rank (foldl (\<lambda>best e. if authority_rank best \<le> authority_rank (er_authority e) then er_authority e else best) l evidence)
      \<longleftrightarrow> n \<le> authority_rank l \<or> (\<exists>e \<in> set evidence. n \<le> authority_rank (er_authority e))" for l
    by (induction evidence arbitrary: l) auto
  then show ?thesis by (simp add: highest_authority_def)
qed

lemma build_package_E:
  assumes "build_package lower b ctx w = (Inr p, w')"
  shows "cp_authority_summary p = from_evidence (pb_evidence_refs b) (ac_conflict_flags ctx)"
    and "cp_conflict_flags p = ac_conflict_flags ctx"
  using assms
  by (auto simp: build_package_def Let_def monad_defs utc_now_def new_v4_def split: if_splits option.splits)

lemma assembled_flags:
  "assemble to_string lib a plan identity query task = Inr ctx \<Longrightarrow>
   \<exists>segments. ac_conflict_flags ctx = detect_conflicts (sl_hash_order lib) segments"
  using assemble_parts(2) by blast

text \<open>
  C27 (equivalence).  A package of an assembled context is allowed exactly when requester and origin
  are of one tenant and either the checker asks for no more than the lowest authority, for which
  no evidence at all is needed, or some piece of the evidence the builder was given reaches the
  authority asked for.  The check for unresolved conflicts decides nothing: the assembler
  describes every conflict it reports, whether it was resolved or not.
\<close>

theorem assembled_package_allowed_iff:
  assumes "assemble to_string lib a plan identity query task = Inr ctx"
    and "build_package lower b ctx w = (Inr p, w')"
  shows "pr_allowed (policy_check c p pctx) \<longleftrightarrow>
    pc_origin_tenant_id pctx = pc_requester_tenant_id pctx \<and>
    (po_min_authority c = L3Inferred \<or>
     (\<exists>e \<in> set (pb_evidence_refs b). authority_rank (po_min_authority c) \<le> authority_rank (er_authority e)))"
proof -
  obtain segments where "ac_conflict_flags ctx = detect_conflicts (sl_hash_order lib) segments"
    using assembled_flags [OF assms(1)] by blast
  then have described: "filter (\<lambda>cf. trim (cf_description cf) = []) (cp_conflict_flags p) = []"
    using flags_described build_package_E(2) [OF assms(2)] by (auto simp: filter_empty_conv)
  have "authority_rank (po_min_authority c) = 0 \<longleftrightarrow> po_min_authority c = L3Inferred"
    by (cases "po_min_authority c") auto
  then have "\<not> authority_rank (as_highest (cp_authority_summary p)) < authority_rank (po_min_authority c) \<longleftrightarrow>
      po_min_authority c = L3Inferred \<or>
      (\<exists>e \<in> set (pb_evidence_refs b). authority_rank (po_min_authority c) \<le> authority_rank (er_authority e))"
    by (simp add: build_package_E(1) [OF assms(2)] from_evidence_def not_less highest_authority_rank)
  then show ?thesis
    by (auto simp: policy_check_def Let_def described)
qed

text \<open>Items of an assembly carry the marker of the assembler already; the validation puts another before it.\<close>

lemma assembled_items_marked:
  "assemble to_string lib a plan identity query task = Inr ctx \<Longrightarrow> item \<in> set (ac_low_confidence_items ctx) \<Longrightarrow>
   prefix unverified_prefix item"
  by (drule assemble_parts(3)) (auto simp: mark_segment_def split: if_splits)

section \<open>Witnesses\<close>

definition demo_builder :: package_builder where
  "demo_builder = (package_builder_new ''u1'' ''agent-b'' ''handoff'')\<lparr>pb_evidence_refs :=
     [\<lparr>er_source = FromEnterpriseMemory, er_memory_id = ''m1'', er_confidence = 1, er_authority = L2Verified\<rparr>]\<rparr>"

definition demo_text :: string where
  "demo_text = ''## Identity'' @ [CHR 0x0A] @ ''u1'' @ [CHR 0x0A] @ ''## Hot Context'' @ [CHR 0x0A] @ ''hello'' @ [CHR 0x0A]"

lemma demo_segments:
  "split_segments ascii_lowercase demo_text =
     [\<lparr>ps_header = ''Identity'', ps_body = ''u1'', ps_priority = 100\<rparr>,
      \<lparr>ps_header = ''Hot Context'', ps_body = ''hello'', ps_priority = 20\<rparr>]"
  by code_simp

lemma shrinking_drops_only_what_exceeds_witness:
  "\<exists>kept. shrink_text ascii_lowercase demo_text 3 =
     (join [CHR 0x0A, CHR 0x0A] (map (\<lambda>i. full_text (split_segments ascii_lowercase demo_text ! i)) kept), 2 - length kept) \<and>
     0 \<in> set kept"
proof -
  have "split_segments ascii_lowercase demo_text \<noteq> []" by (simp add: demo_segments)
  from shrinking_drops_only_what_exceeds [OF this, of 3] obtain kept where
    shrunk: "shrink_text ascii_lowercase demo_text 3 =
      (join [CHR 0x0A, CHR 0x0A] (map (\<lambda>i. full_text (split_segments ascii_lowercase demo_text ! i)) kept),
       length (split_segments ascii_lowercase demo_text) - length kept)"
    and dropped: "\<forall>i. i < length (split_segments ascii_lowercase demo_text) \<longrightarrow> i \<notin> set kept \<longrightarrow>
      ps_priority (split_segments ascii_lowercase demo_text ! i) < 100 \<and>
      3 < tokens_of (split_segments ascii_lowercase demo_text) kept +
        segment_tokens (split_segments ascii_lowercase demo_text ! i)"
    by blast
  from dropped [rule_format, of 0] have "0 \<in> set kept" by (auto simp: demo_segments)
  with shrunk show ?thesis by (intro exI [of _ kept]) (simp add: demo_segments)
qed

text \<open>
  Four short sections under a budget of four tokens: none is dropped, and the blank lines that are
  put between them make the text longer than it was and more than the budget.
\<close>

definition demo_sections :: string where
  "demo_sections = concat (map (\<lambda>h. ''## '' @ [h] @ [CHR 0x0A] @ ''x'' @ [CHR 0x0A]) ''abcd'')"

lemma shrinking_can_grow:
  "package_tokens demo_sections = 7 \<and> snd (shrink_text ascii_lowercase demo_sections 4) = 0 \<and>
   package_tokens (fst (shrink_text ascii_lowercase demo_sections 4)) = 7 \<and>
   length demo_sections < length (fst (shrink_text ascii_lowercase demo_sections 4))"
  by code_simp

definition demo_package :: context_package where
  "demo_package = \<lparr>cp_context_id = ''c1'', cp_requester_user = ''u1'', cp_requester_agent = ''agent-b'',
     cp_purpose = ''handoff'', cp_task_id = None, cp_memory_refs = [], cp_compressed_context = ''refund due'',
     cp_evidence_refs = [], cp_authority_summary = from_evidence [] [], cp_conflict_flags = [],
     cp_valid_until = 0, cp_policy_decision_id = None\<rparr>"

lemma shared_text_was_scanned_witness:
  "\<exists>rep p'. validate_for_sharing ascii_lowercase [''due''] poison_guard_new demo_package = (Inr rep, p') \<and>
     length (cp_compressed_context p') = 10 + vr_low_confidence_marked rep * 9"
proof -
  have safe: "scan ascii_lowercase poison_guard_new (cp_compressed_context demo_package) PExternalDocument = Safe"
    by code_simp
  obtain r p' where run: "validate_for_sharing ascii_lowercase [''due''] poison_guard_new demo_package = (r, p')"
    by force
  then obtain rep where "r = Inr rep"
    by (auto simp: validate_for_sharing_def Let_def safe split: prod.splits)
  moreover have "length (marker_for demo_package) = 9" "length (cp_compressed_context demo_package) = 10"
    by code_simp+
  ultimately show ?thesis
    using shared_text_was_scanned [OF run] run by auto
qed

lemma assembled_package_allowed_iff_witness:
  "\<exists>ctx p w'. assemble (\<lambda>_. ''1'') demo_library context_assembler_default demo_plan demo_identity ''refund'' None = Inr ctx \<and>
     build_package ascii_lowercase demo_builder ctx empty_world = (Inr p, w') \<and>
     pr_allowed (policy_check policy_checker_default p \<lparr>pc_origin_tenant_id = ''t'', pc_requester_tenant_id = ''t''\<rparr>) \<and>
     \<not> pr_allowed (policy_check (policy_checker_new L1Authoritative) p \<lparr>pc_origin_tenant_id = ''t'', pc_requester_tenant_id = ''t''\<rparr>)"
proof -
  obtain ctx where ctx: "assemble (\<lambda>_. ''1'') demo_library context_assembler_default demo_plan demo_identity ''refund'' None = Inr ctx"
    using demo_assembled by blast
  note packed = assemble_parts(1) [OF ctx, unfolded demo_collected demo_marked]
  have "full_chars [identity_segment ''User: u1, Tenant: t, Roles: lead'' ''identity'']
      \<le> char_budget_of (effective_budget context_assembler_default demo_plan)"
    by (simp add: full_chars_def body_chars_def header_chars_def identity_segment_def char_budget_of_def
        CHARS_PER_TOKEN_def effective_budget_def resolve_budget_def demo_plan_def plan_for_intent_def)
  then have "ac_context_text ctx = render_segments [identity_segment ''User: u1, Tenant: t, Roles: lead'' ''identity'']"
    using assemble_compressed_iff [OF demo_library_permutes packed] by simp
  then have "CHR ''y'' \<in> set (ac_context_text ctx)"
    by (simp add: render_segments_def render_step_def identity_segment_def)
  then have "trim (ac_context_text ctx) \<noteq> []" by (rule trim_keeps_letter) (rule letter_y)
  moreover have "checked_ttl (clock empty_world (tick empty_world)) (pb_ttl demo_builder) \<noteq> None"
    by (simp add: checked_ttl_def secs_def empty_world_def demo_builder_def package_builder_new_def)
  ultimately obtain p w' where p: "build_package ascii_lowercase demo_builder ctx empty_world = (Inr p, w')"
    by (auto simp: build_package_def Let_def bindE_def utc_now_def new_v4_def ret_def)
  show ?thesis
    using ctx p assembled_package_allowed_iff [OF ctx p]
    by (auto simp: demo_builder_def policy_checker_default_def policy_checker_new_def)
qed

end
