(* ===== verification/Migrate.thy ===== *)
theory Migrate
  imports MemoryControl
begin

text \<open>
  \<open>oris-memory-store/migrate.rs\<close>: the move of genes, capsules and usage receipts from a SQLite
  file to PostgreSQL.  The lemmas show what a migration stores and what its report says: which
  versions survive, that a second run adds nothing, that the receipts are lost without a trace
  in the report and that the control plane cannot read what was migrated.
\<close>

section \<open>The source\<close>

text \<open>
  A table of the file has the column \<open>data\<close> or not; a value that is not text is \<open>None\<close>.  The
  tenant is the text under its key in the table \<open>meta\<close>, if both are there.
\<close>

record legacy_table =
  lt_data_column :: bool
  lt_rows :: "string option list"

record sqlite_file =
  sf_opens :: bool
  sf_tenant :: "string option"
  sf_genes :: "legacy_table option"
  sf_capsules :: "legacy_table option"
  sf_receipts :: "legacy_table option"

datatype sqlite_failure = FileNotOpened | NotPrepared | RowNotRead | NotDecoded

text \<open>serde's decoding of the rows and encoding of the values, the parsing of UUIDs, the rounding of doubles.\<close>

record legacy_params = gene_codec +
  lp_gene_text :: "string \<Rightarrow> gene_v1 option"
  lp_capsule_text :: "string \<Rightarrow> capsule_v1 option"
  lp_receipt_text :: "string \<Rightarrow> usage_receipt_v1 option"
  lp_capsule :: "capsule_v1 \<Rightarrow> json"
  lp_provenance :: "provenance \<Rightarrow> json"
  lp_safety :: "safety_constraints \<Rightarrow> json"
  lp_cost :: "cost_metrics option \<Rightarrow> json"
  lp_parse_uuid :: "string \<Rightarrow> uuid option"
  lp_rounding :: "rat \<Rightarrow> rat"

definition legacy_tenant :: "sqlite_file \<Rightarrow> string" where
  "legacy_tenant f =
     (if \<not> sf_opens f then ''default'' else case sf_tenant f of Some t \<Rightarrow> t | None \<Rightarrow> ''default'')"

fun read_rows :: "(string \<Rightarrow> 'a option) \<Rightarrow> string option list \<Rightarrow> sqlite_failure + 'a list" where
  "read_rows decode [] = Inr []"
| "read_rows decode (None # rows) = Inl RowNotRead"
| "read_rows decode (Some t # rows) =
     (case decode t of
        None \<Rightarrow> Inl NotDecoded
      | Some x \<Rightarrow> (case read_rows decode rows of Inl e \<Rightarrow> Inl e | Inr xs \<Rightarrow> Inr (x # xs)))"

definition read_table :: "sqlite_file \<Rightarrow> legacy_table option \<Rightarrow> (string \<Rightarrow> 'a option) \<Rightarrow> sqlite_failure + 'a list" where
  "read_table f table decode =
     (if \<not> sf_opens f then Inl FileNotOpened
      else case table of
             None \<Rightarrow> Inr []
           | Some t \<Rightarrow> (if lt_data_column t then read_rows decode (lt_rows t) else Inl NotPrepared))"

definition read_legacy_genes :: "legacy_params \<Rightarrow> sqlite_file \<Rightarrow> sqlite_failure + gene_v1 list" where
  "read_legacy_genes L f = read_table f (sf_genes f) (lp_gene_text L)"

definition read_legacy_capsules :: "legacy_params \<Rightarrow> sqlite_file \<Rightarrow> sqlite_failure + capsule_v1 list" where
  "read_legacy_capsules L f = read_table f (sf_capsules f) (lp_capsule_text L)"

definition read_legacy_receipts :: "legacy_params \<Rightarrow> sqlite_file \<Rightarrow> sqlite_failure + usage_receipt_v1 list" where
  "read_legacy_receipts L f = read_table f (sf_receipts f) (lp_receipt_text L)"

definition count_table :: "sqlite_file \<Rightarrow> legacy_table option \<Rightarrow> sqlite_failure + nat" where
  "count_table f table =
     (if \<not> sf_opens f then Inl FileNotOpened
      else case table of None \<Rightarrow> Inr 0 | Some t \<Rightarrow> Inr (length (lt_rows t)))"

section \<open>Mapping\<close>

fun map_lifecycle_to_status :: "lifecycle_state \<Rightarrow> memory_status" where
  "map_lifecycle_to_status LcCandidate = Candidate"
| "map_lifecycle_to_status LcStable = Active"
| "map_lifecycle_to_status LcDeprecated = Archived"
| "map_lifecycle_to_status LcQuarantined = Quarantined"
| "map_lifecycle_to_status LcRevoked = Revoked"

fun map_scope :: "experience_scope \<Rightarrow> scope" where
  "map_scope EsLocal = Personal"
| "map_scope EsProject = Task"
| "map_scope EsTenant = Factory"
| "map_scope EsTeam = Team"
| "map_scope EsNetwork = Enterprise"

text \<open>The sum of the counters wraps at 64 bits in a release build.\<close>

definition derive_confidence :: "(rat \<Rightarrow> rat) \<Rightarrow> provenance \<Rightarrow> f32" where
  "derive_confidence rnd p =
     (let total = (pv_verified_successes p + pv_verified_failures p) mod 2 ^ 64 in
      if total = 0 then f32_half
      else f32_round (rnd (rnd (of_nat (pv_verified_successes p)) / rnd (of_nat total))))"

definition build_gene_payload :: "legacy_params \<Rightarrow> gene_v1 \<Rightarrow> json" where
  "build_gene_payload L g = JObject
     [(''capsule_refs'', JArray []), (''provenance'', lp_provenance L (g_provenance g)),
      (''safety_constraints'', lp_safety L (g_safety g)), (''source'', gc_to_value L g),
      (''tags'', case map_of (g_metadata g) ''tags'' of Some v \<Rightarrow> v | None \<Rightarrow> JArray [])]"

definition build_capsule_payload :: "legacy_params \<Rightarrow> capsule_v1 \<Rightarrow> json" where
  "build_capsule_payload L c = JObject
     [(''gene_refs'', JArray [JString (cp_gene_id c @ '':v'' @ show_nat (cp_gene_version c))]),
      (''source'', lp_capsule L c)]"

text \<open>\<open>as i32\<close> of a \<open>u32\<close>.\<close>

definition as_i32 :: "nat \<Rightarrow> int" where
  "as_i32 n = (if n < 2 ^ 31 then int n else int n - 2 ^ 32)"

definition legacy_id :: "legacy_params \<Rightarrow> string \<Rightarrow> ('z env_scheme, 'e, uuid) op" where
  "legacy_id L i = (case lp_parse_uuid L i of Some u \<Rightarrow> ret u | None \<Rightarrow> new_v4)"

definition gene_to_memory_item :: "legacy_params \<Rightarrow> gene_v1 \<Rightarrow> string \<Rightarrow> ('z env_scheme, 'e, memory_item) op" where
  "gene_to_memory_item L g tenant =
     bindE (legacy_id L (g_id g)) (\<lambda>i.
     let confidence = derive_confidence (lp_rounding L) (g_provenance g) in
     ret \<lparr>mi_memory_id = i, mi_tenant_id = tenant, mi_memory_type = Experience, mi_scope = map_scope (g_scope g),
       mi_subject_type = Some ''gene'', mi_subject_id = Some (g_id g @ '':v'' @ show_nat (g_version g)),
       mi_entity_refs = [], mi_content = Some (g_name g @ [CHR 0x0A] @ g_description g),
       mi_structured_payload = Some (build_gene_payload L g), mi_embedding = None, mi_source_type = AgentInferred,
       mi_source_reference = Some (pv_source_run_id (g_provenance g)), mi_evidence_refs = [],
       mi_confidence = confidence, mi_authority_level = L2Verified, mi_importance = confidence,
       mi_observed_at = Some (g_created_at g), mi_valid_from = Some (g_created_at g), mi_valid_to = None,
       mi_privacy_class = Internal, mi_acl = JObject [], mi_retention_policy = None,
       mi_status = map_lifecycle_to_status (g_lifecycle g), mi_version = as_i32 (g_version g),
       mi_derived_from = [], mi_created_by_user = None, mi_created_by_agent = Some (pv_source_agent (g_provenance g)),
       mi_last_verified_at = Some (g_updated_at g), mi_created_at = g_created_at g, mi_updated_at = g_updated_at g\<rparr>)"

definition capsule_to_memory_item :: "legacy_params \<Rightarrow> capsule_v1 \<Rightarrow> string \<Rightarrow> ('z env_scheme, 'e, memory_item) op" where
  "capsule_to_memory_item L c tenant =
     bindE (legacy_id L (cp_id c)) (\<lambda>i.
     ret \<lparr>mi_memory_id = i, mi_tenant_id = tenant, mi_memory_type = Experience, mi_scope = Personal,
       mi_subject_type = Some ''capsule'', mi_subject_id = Some (cp_id c), mi_entity_refs = [],
       mi_content = Some (''Capsule '' @ cp_id c @ '' for gene '' @ cp_gene_id c @ '':'' @ show_nat (cp_gene_version c)),
       mi_structured_payload = Some (build_capsule_payload L c), mi_embedding = None, mi_source_type = AgentInferred,
       mi_source_reference = None, mi_evidence_refs = [], mi_confidence = f32_0_8, mi_authority_level = L2Verified,
       mi_importance = f32_0_8, mi_observed_at = Some (cp_created_at c), mi_valid_from = Some (cp_created_at c),
       mi_valid_to = None, mi_privacy_class = Internal, mi_acl = JObject [], mi_retention_policy = None,
       mi_status = Active, mi_version = 1, mi_derived_from = [], mi_created_by_user = None,
       mi_created_by_agent = None, mi_last_verified_at = Some (cp_created_at c),
       mi_created_at = cp_created_at c, mi_updated_at = cp_created_at c\<rparr>)"

record memory_access_audit =
  maa_id :: string
  maa_memory_id :: string
  maa_accessor_id :: string
  maa_tenant_id :: string
  maa_accessed_at :: time
  maa_access_result :: string
  maa_context_snapshot :: json

fun outcome_to_string :: "outcome_status \<Rightarrow> string" where
  "outcome_to_string OcSucceeded = ''succeeded''"
| "outcome_to_string OcFailed = ''failed''"
| "outcome_to_string OcSafetyFailed = ''safety_failed''"
| "outcome_to_string OcInconclusive = ''inconclusive''"

fun adoption_to_string :: "adoption_status \<Rightarrow> string" where
  "adoption_to_string AdAdopted = ''adopted''"
| "adoption_to_string AdPartiallyAdopted = ''partially_adopted''"
| "adoption_to_string AdRejected = ''rejected''"
| "adoption_to_string AdNotApplicable = ''not_applicable''"

definition usage_receipt_to_audit :: "legacy_params \<Rightarrow> usage_receipt_v1 \<Rightarrow> string \<Rightarrow> memory_access_audit" where
  "usage_receipt_to_audit L r tenant = \<lparr>
     maa_id = ur_id r, maa_memory_id = ur_gene_id r, maa_accessor_id = ur_agent_id r, maa_tenant_id = tenant,
     maa_accessed_at = ur_created_at r, maa_access_result = outcome_to_string (ur_outcome r),
     maa_context_snapshot = JObject
       [(''adoption'', JString (adoption_to_string (ur_adoption r))),
        (''applied_step_ids'', JArray (map JString (ur_applied_step_ids r))),
        (''cost'', lp_cost L (ur_cost r)),
        (''failure_reason'', case ur_failure_reason r of Some t \<Rightarrow> JString t | None \<Rightarrow> JNull),
        (''gene_version'', JInt (int (ur_gene_version r))),
        (''run_id'', JString (ur_run_id r)),
        (''task_context_hash'', JString (ur_task_context_hash r)),
        (''test_evidence_refs'', JArray (map JString (ur_test_evidence_refs r)))]\<rparr>"

section \<open>Inserts\<close>

datatype migration_error =
    MgSqlite sqlite_failure
  | MgPostgres db_error
  | MgRecordFailed string string
  | MgValidation string

type_synonym 'a migrate_op = "(world, migration_error, 'a) op"

definition migrated_row :: "memory_item \<Rightarrow> memory_row" where
  "migrated_row item = \<lparr>
     c_memory_id = mi_memory_id item, c_tenant_id = mi_tenant_id item,
     c_memory_type = memory_type_as_str (mi_memory_type item), c_scope = scope_as_str (mi_scope item),
     c_subject_type = mi_subject_type item, c_subject_id = mi_subject_id item, c_entity_refs = JArray [],
     c_content = mi_content item, c_structured_payload = mi_structured_payload item, c_embedding = None,
     c_source_type = source_type_as_str (mi_source_type item), c_source_reference = mi_source_reference item,
     c_evidence_refs = JArray [], c_confidence = mi_confidence item,
     c_authority_level = authority_level_as_str (mi_authority_level item), c_importance = mi_importance item,
     c_observed_at = mi_observed_at item, c_valid_from = mi_valid_from item, c_valid_to = mi_valid_to item,
     c_privacy_class = privacy_class_as_str (mi_privacy_class item), c_acl = mi_acl item,
     c_retention_policy = mi_retention_policy item, c_status = memory_status_as_str (mi_status item),
     c_version = mi_version item, c_derived_from = JArray (mi_derived_from item),
     c_created_by_user = mi_created_by_user item, c_created_by_agent = mi_created_by_agent item,
     c_last_verified_at = mi_last_verified_at item, c_created_at = mi_created_at item,
     c_updated_at = mi_updated_at item\<rparr>"

definition insert_memory_item :: "memory_item \<Rightarrow> unit migrate_op" where
  "insert_memory_item item = map_err MgPostgres (exec (\<lambda>w.
     if mi_memory_id item \<in> c_memory_id ` set (memory_items w) then (Inl DbError, w)
     else (Inr (), w\<lparr>memory_items := memory_items w @ [migrated_row item]\<rparr>)))"

text \<open>
  The statement names columns, and PostgreSQL rejects it if the table lacks one of them.  The
  table that \<open>postgres/schema.rs\<close> creates is the one of \<open>audit_row\<close>; the branch in
  which all columns exist cannot be reached on it.
\<close>

definition audit_table_columns :: "string list" where
  "audit_table_columns = [''audit_id'', ''memory_id'', ''accessor_user'', ''accessor_agent'', ''action'', ''purpose'',
     ''task_id'', ''trace_id'', ''policy_decision_id'', ''created_at'']"

definition migrated_audit_columns :: "string list" where
  "migrated_audit_columns = [''id'', ''memory_id'', ''accessor_id'', ''tenant_id'', ''accessed_at'', ''access_result'',
     ''context_snapshot'']"

definition insert_audit_entry :: "memory_access_audit \<Rightarrow> unit migrate_op" where
  "insert_audit_entry a = map_err MgPostgres (exec
     (if list_all (\<lambda>c. c \<in> set audit_table_columns) migrated_audit_columns then ret () else throw DbError))"

section \<open>The migrator\<close>

text \<open>The loop of each phase: a record that fails is logged and skipped.\<close>

fun migrate_each :: "('a \<Rightarrow> unit migrate_op) \<Rightarrow> 'a list \<Rightarrow> nat \<Rightarrow> nat migrate_op" where
  "migrate_each put [] k = ret k"
| "migrate_each put (x # xs) k =
     tryE (put x) (\<lambda>r. migrate_each put xs (case r of Inl _ \<Rightarrow> k | Inr _ \<Rightarrow> k + 1))"

definition migrate_genes :: "legacy_params \<Rightarrow> sqlite_file \<Rightarrow> nat migrate_op" where
  "migrate_genes L f =
     (case read_legacy_genes L f of
        Inl e \<Rightarrow> throw (MgSqlite e)
      | Inr genes \<Rightarrow> migrate_each (\<lambda>g. bindE (gene_to_memory_item L g (legacy_tenant f)) insert_memory_item) genes 0)"

definition migrate_capsules :: "legacy_params \<Rightarrow> sqlite_file \<Rightarrow> nat migrate_op" where
  "migrate_capsules L f =
     (case read_legacy_capsules L f of
        Inl e \<Rightarrow> throw (MgSqlite e)
      | Inr capsules \<Rightarrow>
          migrate_each (\<lambda>c. bindE (capsule_to_memory_item L c (legacy_tenant f)) insert_memory_item) capsules 0)"

definition migrate_receipts :: "legacy_params \<Rightarrow> sqlite_file \<Rightarrow> nat migrate_op" where
  "migrate_receipts L f =
     (case read_legacy_receipts L f of
        Inl e \<Rightarrow> throw (MgSqlite e)
      | Inr receipts \<Rightarrow>
          migrate_each (\<lambda>r. insert_audit_entry (usage_receipt_to_audit L r (legacy_tenant f))) receipts 0)"

text \<open>The report: what the text of an entry says is kept as the error or the counts it is made of.\<close>

datatype record_type = RtGene | RtCapsule | RtUsageReceipt

datatype entry_cause = PhaseFailed migration_error | CountMismatch nat int

record report_entry =
  re_record_id :: string
  re_cause :: entry_cause
  re_record_type :: record_type

record migration_report =
  mg_genes_migrated :: nat
  mg_capsules_migrated :: nat
  mg_receipts_migrated :: nat
  mg_errors :: "report_entry list"
  mg_started_at :: time
  mg_completed_at :: "time option"

definition report_is_clean :: "migration_report \<Rightarrow> bool" where
  "report_is_clean rep \<longleftrightarrow> mg_errors rep = []"

definition phase_count :: "migration_error + nat \<Rightarrow> nat" where
  "phase_count r = (case r of Inl _ \<Rightarrow> 0 | Inr n \<Rightarrow> n)"

definition phase_entry :: "string \<Rightarrow> record_type \<Rightarrow> migration_error + nat \<Rightarrow> report_entry list" where
  "phase_entry name ty r =
     (case r of Inl e \<Rightarrow> [\<lparr>re_record_id = name, re_cause = PhaseFailed e, re_record_type = ty\<rparr>] | Inr _ \<Rightarrow> [])"

definition migrate_all :: "legacy_params \<Rightarrow> sqlite_file \<Rightarrow> migration_report migrate_op" where
  "migrate_all L f =
     bindE utc_now (\<lambda>started.
     tryE (migrate_genes L f) (\<lambda>genes.
     tryE (migrate_capsules L f) (\<lambda>capsules.
     tryE (migrate_receipts L f) (\<lambda>receipts.
     bindE utc_now (\<lambda>completed.
     ret \<lparr>mg_genes_migrated = phase_count genes, mg_capsules_migrated = phase_count capsules,
          mg_receipts_migrated = phase_count receipts,
          mg_errors = phase_entry ''genes'' RtGene genes @ phase_entry ''capsules'' RtCapsule capsules @
            phase_entry ''receipts'' RtUsageReceipt receipts,
          mg_started_at = started, mg_completed_at = Some completed\<rparr>)))))"

definition source_count :: "sqlite_failure + nat \<Rightarrow> nat migrate_op" where
  "source_count r = (case r of Inl e \<Rightarrow> throw (MgSqlite e) | Inr n \<Rightarrow> ret n)"

definition count_entry :: "string \<Rightarrow> record_type \<Rightarrow> nat \<Rightarrow> nat \<Rightarrow> report_entry list" where
  "count_entry name ty src pg =
     (if pg \<noteq> src then [\<lparr>re_record_id = name, re_cause = CountMismatch src (int pg), re_record_type = ty\<rparr>] else [])"

definition count_rows :: "(world \<Rightarrow> nat) \<Rightarrow> nat migrate_op" where
  "count_rows f = map_err MgPostgres (exec (gets f))"

definition of_subject :: "string \<Rightarrow> world \<Rightarrow> nat" where
  "of_subject ty w = rows_matching (\<lambda>r. c_subject_type r = Some ty) (memory_items w)"

definition validate_migration :: "sqlite_file \<Rightarrow> migration_report migrate_op" where
  "validate_migration f =
     bindE utc_now (\<lambda>started.
     bindE (source_count (count_table f (sf_genes f))) (\<lambda>src_genes.
     bindE (source_count (count_table f (sf_capsules f))) (\<lambda>src_capsules.
     bindE (source_count (count_table f (sf_receipts f))) (\<lambda>src_receipts.
     bindE (count_rows (of_subject ''gene'')) (\<lambda>pg_genes.
     bindE (count_rows (of_subject ''capsule'')) (\<lambda>pg_capsules.
     bindE (count_rows (\<lambda>w. length (access_audit w))) (\<lambda>pg_receipts.
     bindE utc_now (\<lambda>completed.
     ret \<lparr>mg_genes_migrated = pg_genes, mg_capsules_migrated = pg_capsules, mg_receipts_migrated = pg_receipts,
          mg_errors = count_entry ''genes'' RtGene src_genes pg_genes @
            count_entry ''capsules'' RtCapsule src_capsules pg_capsules @
            count_entry ''receipts'' RtUsageReceipt src_receipts pg_receipts,
          mg_started_at = started, mg_completed_at = Some completed\<rparr>))))))))"

definition dry_run :: "sqlite_file \<Rightarrow> migration_report migrate_op" where
  "dry_run f =
     bindE utc_now (\<lambda>started.
     bindE (source_count (count_table f (sf_genes f))) (\<lambda>genes.
     bindE (source_count (count_table f (sf_capsules f))) (\<lambda>capsules.
     bindE (source_count (count_table f (sf_receipts f))) (\<lambda>receipts.
     bindE utc_now (\<lambda>completed.
     ret \<lparr>mg_genes_migrated = genes, mg_capsules_migrated = capsules, mg_receipts_migrated = receipts,
          mg_errors = [], mg_started_at = started, mg_completed_at = Some completed\<rparr>)))))"

section \<open>What the report says\<close>

lemma audit_insert_fails: "\<exists>w'. insert_audit_entry a w = (Inl (MgPostgres DbError), w') \<and> access_audit w' = access_audit w"
  by (simp add: insert_audit_entry_def audit_table_columns_def migrated_audit_columns_def map_err_def exec_def throw_def)

lemma migrate_each_returns: "\<exists>n w'. migrate_each put xs k w = (Inr n, w')"
proof (induction xs arbitrary: k w)
  case (Cons x xs)
  show ?case by (cases "put x w") (simp add: tryE_def Cons)
qed (simp add: ret_def)

lemma migrate_each_no_error [simp]: "fst (migrate_each put xs k w) \<noteq> Inl e"
  using migrate_each_returns [of put xs k w] by auto

lemma migrate_each_audit:
  "\<exists>w'. migrate_each (\<lambda>r. insert_audit_entry (a r)) xs k w = (Inr k, w') \<and> access_audit w' = access_audit w"
proof (induction xs arbitrary: w)
  case (Cons x xs)
  from audit_insert_fails [of "a x" w] obtain w1 where
    "insert_audit_entry (a x) w = (Inl (MgPostgres DbError), w1)" "access_audit w1 = access_audit w" by blast
  then show ?case using Cons [of w1] by (auto simp: tryE_def)
qed (simp add: ret_def)

lemma keeps_migrate_each [keep_intros]:
  "(\<And>x. keeps P (put x)) \<Longrightarrow> keeps P (migrate_each put xs k)"
  by (induction xs arbitrary: k) (auto intro!: keep_intros)

lemma keeps_audit_insert:
  assumes "\<And>w t. P w \<Longrightarrow> P (w\<lparr>tick := t\<rparr>)" and "\<And>w rows. P w \<Longrightarrow> P (w\<lparr>memory_items := rows\<rparr>)"
  shows "keeps P (insert_memory_item item)"
  unfolding insert_memory_item_def by (intro keep_intros assms(1)) (auto intro!: keepsI assms split: if_splits)

lemma keeps_legacy_id [keep_intros]:
  "(\<And>w t. P w \<Longrightarrow> P (w\<lparr>tick := t\<rparr>)) \<Longrightarrow> keeps P (legacy_id L i)"
  unfolding legacy_id_def by (intro keep_intros)

lemma phases_keep_audit:
  "keeps (\<lambda>w. access_audit w = old) (migrate_genes L f)"
  "keeps (\<lambda>w. access_audit w = old) (migrate_capsules L f)"
  unfolding migrate_genes_def migrate_capsules_def gene_to_memory_item_def capsule_to_memory_item_def Let_def
  by (intro keep_intros keeps_audit_insert; simp)+

lemma phase_result:
  "(\<exists>e. fst (migrate_genes L f w) = Inl e) \<longleftrightarrow> (\<exists>e. read_legacy_genes L f = Inl e)"
  "(\<exists>e. fst (migrate_capsules L f w) = Inl e) \<longleftrightarrow> (\<exists>e. read_legacy_capsules L f = Inl e)"
  "(\<exists>e. fst (migrate_receipts L f w) = Inl e) \<longleftrightarrow> (\<exists>e. read_legacy_receipts L f = Inl e)"
  by (cases "read_legacy_genes L f", simp_all add: migrate_genes_def throw_def)
    (cases "read_legacy_capsules L f", simp_all add: migrate_capsules_def throw_def,
     cases "read_legacy_receipts L f", simp_all add: migrate_receipts_def throw_def)

lemma receipts_phase:
  "access_audit (snd (migrate_receipts L f w)) = access_audit w \<and> phase_count (fst (migrate_receipts L f w)) = 0"
proof (cases "read_legacy_receipts L f")
  case (Inr receipts)
  then show ?thesis
    using migrate_each_audit [of "\<lambda>r. usage_receipt_to_audit L r (legacy_tenant f)" receipts 0 w]
    by (auto simp: migrate_receipts_def phase_count_def)
qed (simp add: migrate_receipts_def phase_count_def throw_def)

lemma phase_entry_Nil: "phase_entry name ty r = [] \<longleftrightarrow> (\<nexists>e. r = Inl e)"
  by (auto simp: phase_entry_def split: sum.splits)

text \<open>
  C20 (error).  A migration always returns a report, and the report is clean exactly when the three
  tables of the file could be read and decoded, whatever became of their records afterwards.  No
  usage receipt is ever migrated: the insert names columns the audit table does not have, each
  failure is only logged, and the audit log stays as it was.
\<close>

theorem report_hides_lost_records:
  "\<exists>rep w'. migrate_all L f w = (Inr rep, w') \<and>
     (report_is_clean rep \<longleftrightarrow>
        (\<exists>genes capsules receipts. read_legacy_genes L f = Inr genes \<and> read_legacy_capsules L f = Inr capsules \<and>
           read_legacy_receipts L f = Inr receipts)) \<and>
     mg_receipts_migrated rep = 0 \<and> access_audit w' = access_audit w"
proof -
  define w0 where "w0 = w\<lparr>tick := Suc (tick w)\<rparr>"
  obtain g w1 where g: "migrate_genes L f w0 = (g, w1)" by force
  obtain c w2 where c: "migrate_capsules L f w1 = (c, w2)" by force
  obtain r w3 where r: "migrate_receipts L f w2 = (r, w3)" by force
  have audits: "access_audit w1 = access_audit w" "access_audit w2 = access_audit w" "access_audit w3 = access_audit w"
    using keepsD [OF phases_keep_audit(1) refl g] keepsD [OF phases_keep_audit(2) refl c] receipts_phase [of L f w2]
    by (simp_all add: r w0_def)
  have clean: "(\<nexists>e. g = Inl e) \<longleftrightarrow> (\<exists>x. read_legacy_genes L f = Inr x)"
    "(\<nexists>e. c = Inl e) \<longleftrightarrow> (\<exists>x. read_legacy_capsules L f = Inr x)"
    "(\<nexists>e. r = Inl e) \<longleftrightarrow> (\<exists>x. read_legacy_receipts L f = Inr x)"
    using phase_result(1) [of L f w0] phase_result(2) [of L f w1] phase_result(3) [of L f w2]
    by (cases "read_legacy_genes L f"; cases "read_legacy_capsules L f"; cases "read_legacy_receipts L f";
        simp add: g c r)+
  have "phase_count r = 0" using receipts_phase [of L f w2] by (simp add: r)
  then show ?thesis
    using clean audits
    by (simp add: migrate_all_def bindE_def utc_now_def tryE_def ret_def g c r report_is_clean_def phase_entry_Nil
        flip: w0_def)
qed

section \<open>What is stored\<close>

definition no_faults :: "world \<Rightarrow> bool" where
  "no_faults w \<longleftrightarrow> (\<forall>n. \<not> fails w n)"

definition stored_ids :: "world \<Rightarrow> uuid set" where
  "stored_ids w = c_memory_id ` set (memory_items w)"

definition gene_uuids :: "legacy_params \<Rightarrow> gene_v1 list \<Rightarrow> uuid set" where
  "gene_uuids L genes = {u. \<exists>g \<in> set genes. lp_parse_uuid L (g_id g) = Some u}"

definition store_gene :: "legacy_params \<Rightarrow> string \<Rightarrow> gene_v1 \<Rightarrow> unit migrate_op" where
  "store_gene L tenant g = bindE (gene_to_memory_item L g tenant) insert_memory_item"

lemma store_gene_E:
  assumes "lp_parse_uuid L (g_id g) = Some u" and "no_faults w"
  obtains (duplicate) e w' where "store_gene L tenant g w = (Inl e, w')" and "u \<in> stored_ids w"
      and "memory_items w' = memory_items w" and "no_faults w'"
  | (stored) row w' where "store_gene L tenant g w = (Inr (), w')" and "u \<notin> stored_ids w"
      and "c_memory_id row = u" and "memory_items w' = memory_items w @ [row]" and "no_faults w'"
proof -
  obtain item where item: "(gene_to_memory_item L g tenant w :: (migration_error + memory_item) \<times> world) = (Inr item, w)"
    and id: "mi_memory_id item = u"
    by (simp add: gene_to_memory_item_def legacy_id_def assms(1) Let_def) (simp add: ret_def)
  show ?thesis
  proof (cases "u \<in> stored_ids w")
    case True
    then show ?thesis
      using assms(2) item id
      by (intro duplicate [OF _ True, of "MgPostgres DbError" "w\<lparr>tick := Suc (tick w)\<rparr>"])
        (auto simp: store_gene_def bindE_def insert_memory_item_def map_err_def exec_def no_faults_def stored_ids_def)
  next
    case False
    then show ?thesis
      using assms(2) item id
      by (intro stored [OF _ False, of "w\<lparr>tick := Suc (tick w), memory_items := memory_items w @ [migrated_row item]\<rparr>"
            "migrated_row item"])
        (auto simp: store_gene_def bindE_def insert_memory_item_def map_err_def exec_def no_faults_def stored_ids_def
          migrated_row_def)
  qed
qed

lemma migrate_genes_loop:
  assumes "no_faults w" and "\<forall>g \<in> set genes. lp_parse_uuid L (g_id g) \<noteq> None"
  shows "\<exists>rows w'. migrate_each (store_gene L tenant) genes k w = (Inr (k + length rows), w') \<and>
    memory_items w' = memory_items w @ rows \<and> distinct (map c_memory_id rows) \<and>
    set (map c_memory_id rows) = gene_uuids L genes - stored_ids w \<and> no_faults w'"
  using assms
proof (induction genes arbitrary: w k)
  case Nil
  then show ?case by (auto simp: ret_def gene_uuids_def)
next
  case (Cons g genes)
  from Cons.prems(2) obtain u where u: "lp_parse_uuid L (g_id g) = Some u" by auto
  have ids: "gene_uuids L (g # genes) = insert u (gene_uuids L genes)"
    by (auto simp: gene_uuids_def u)
  from u Cons.prems(1) show ?case
  proof (cases rule: store_gene_E [where tenant = tenant])
    case (duplicate e w1)
    have "\<forall>g \<in> set genes. lp_parse_uuid L (g_id g) \<noteq> None" using Cons.prems(2) by simp
    from Cons.IH [OF duplicate(4) this, of k] obtain rows w' where
      "migrate_each (store_gene L tenant) genes k w1 = (Inr (k + length rows), w')"
      "memory_items w' = memory_items w1 @ rows" "distinct (map c_memory_id rows)"
      "set (map c_memory_id rows) = gene_uuids L genes - stored_ids w1" "no_faults w'" by blast
    then show ?thesis
      using duplicate by (intro exI [of _ rows] exI [of _ w']) (auto simp: tryE_def ids stored_ids_def)
  next
    case (stored row w1)
    have "\<forall>g \<in> set genes. lp_parse_uuid L (g_id g) \<noteq> None" using Cons.prems(2) by simp
    from Cons.IH [OF stored(5) this, of "k + 1"] obtain rows w' where
      rest: "migrate_each (store_gene L tenant) genes (k + 1) w1 = (Inr (k + 1 + length rows), w')"
      "memory_items w' = memory_items w1 @ rows" "distinct (map c_memory_id rows)"
      "set (map c_memory_id rows) = gene_uuids L genes - stored_ids w1" "no_faults w'" by blast
    have "stored_ids w1 = insert u (stored_ids w)" by (simp add: stored_ids_def stored)
    then show ?thesis
      using rest stored by (intro exI [of _ "row # rows"] exI [of _ w']) (auto simp: tryE_def ids)
  qed
qed

lemma migrate_genes_run:
  assumes "no_faults w" and "read_legacy_genes L f = Inr genes"
    and "\<forall>g \<in> set genes. lp_parse_uuid L (g_id g) \<noteq> None"
  obtains rows w' where "migrate_genes L f w = (Inr (length rows), w')" and "memory_items w' = memory_items w @ rows"
    and "distinct (map c_memory_id rows)" and "set (map c_memory_id rows) = gene_uuids L genes - stored_ids w"
    and "no_faults w'"
proof -
  have "migrate_genes L f = migrate_each (store_gene L (legacy_tenant f)) genes 0"
    by (simp add: migrate_genes_def assms(2) store_gene_def [abs_def])
  with migrate_genes_loop [OF assms(1,3), of "legacy_tenant f" 0] that show ?thesis by auto
qed

text \<open>
  Of the genes whose ids are UUIDs, a migration without database faults stores
  exactly one for each id that was not stored before, and counts these: further versions of
  a gene have the same id, so their inserts fail and the versions are dropped.
\<close>

theorem one_version_survives:
  assumes "no_faults w" and "read_legacy_genes L f = Inr genes"
    and "\<forall>g \<in> set genes. lp_parse_uuid L (g_id g) \<noteq> None"
  shows "\<exists>rows w'. migrate_genes L f w = (Inr (length rows), w') \<and> memory_items w' = memory_items w @ rows \<and>
    distinct (map c_memory_id rows) \<and> set (map c_memory_id rows) = gene_uuids L genes - stored_ids w"
  using migrate_genes_run [OF assms] by metis

text \<open>
  C29 (equivalence).  Genes with UUIDs may be migrated again.  When the file can be read, every gene
  in it has a UUID for its id and no statement fails (in either run), a second run over the same
  file, on the store the first run left, stores nothing more and reports none.
\<close>

theorem rerun_adds_nothing:
  assumes "no_faults w" and "read_legacy_genes L f = Inr genes"
    and "\<forall>g \<in> set genes. lp_parse_uuid L (g_id g) \<noteq> None"
    and "migrate_genes L f w = (r, w1)"
  shows "\<exists>w2. migrate_genes L f w1 = (Inr 0, w2) \<and> memory_items w2 = memory_items w1"
proof -
  obtain rows where rows: "memory_items w1 = memory_items w @ rows"
    "set (map c_memory_id rows) = gene_uuids L genes - stored_ids w" "no_faults w1"
    using migrate_genes_run [OF assms(1-3)] assms(4) by (metis prod.inject)
  then have "gene_uuids L genes - stored_ids w1 = {}" by (auto simp: stored_ids_def)
  with migrate_genes_run [OF rows(3) assms(2,3)] show ?thesis by (metis append_Nil2 list.map_disc_iff list.size(3) set_empty)
qed

section \<open>What the control plane reads\<close>

lemma mapping_agrees:
  "map_lifecycle_to_status l = lifecycle_to_status l" "map_scope sc = experience_scope_to_scope sc"
  by (cases l; simp) (cases sc; simp)

lemma migrated_row_id: "c_memory_id (migrated_row item) = mi_memory_id item"
  by (simp add: migrated_row_def)

lemma find_append_new: "\<not> list_ex P xs \<Longrightarrow> P x \<Longrightarrow> find P (xs @ [x]) = Some x"
  by (induction xs) auto

text \<open>
  The control plane never reads a migrated gene: the migration stores the gene under
  a key of the payload, where the control plane decodes the payload itself, and a gene cannot be
  decoded without its id.
\<close>

theorem migrated_genes_unreadable:
  assumes "\<forall>j g. gc_from_value L j = Some g \<longrightarrow> json_get j ''id'' \<noteq> None"
    and "gene_to_memory_item L g tenant w = (Inr item, w1)" and "insert_memory_item item w1 = (Inr (), w2)"
  shows "\<exists>e w3. mcp_get_gene (gene_codec.truncate L) (mi_memory_id item) w2 = (Inl e, w3)"
proof -
  have payload: "mi_structured_payload item = Some (build_gene_payload L g)"
    using assms(2) by (auto simp: gene_to_memory_item_def Let_def bindE_def ret_def split: prod.splits sum.splits)
  have "json_get (build_gene_payload L g) ''id'' = None" by (simp add: build_gene_payload_def)
  then have refused: "gc_from_value (gene_codec.truncate L) (build_gene_payload L g) = None"
    using assms(1) by (cases "gc_from_value L (build_gene_payload L g)") (auto simp: gene_codec.defs)
  have "memory_items w2 = memory_items w1 @ [migrated_row item]"
    and "mi_memory_id item \<notin> c_memory_id ` set (memory_items w1)"
    using assms(3) by (auto simp: insert_memory_item_def map_err_def exec_def split: if_splits)
  then have "find (\<lambda>r. c_memory_id r = mi_memory_id item) (memory_items w2) = Some (migrated_row item)"
    by (metis (mono_tags, lifting) find_append_new image_eqI list_ex_iff migrated_row_id)
  moreover have "mi_structured_payload (map_row_to_memory_item (migrated_row item)) = Some (build_gene_payload L g)"
    by (simp add: map_row_to_memory_item_def migrated_row_def payload)
  ultimately show ?thesis
    by (simp add: mcp_get_gene_def in_repo_def repo_get_by_id_def map_err_def exec_def gets_def ret_def bindE_def
        item_to_gene_def ok_or_def throw_def refused)
qed

section \<open>Witnesses\<close>

definition demo_legacy :: legacy_params where
  "demo_legacy = \<lparr>gc_to_value = (\<lambda>g. JObject [(''id'', JString (g_id g))]),
     gc_from_value = (\<lambda>j. case json_get j ''id'' of Some _ \<Rightarrow> Some (demo_gene LcStable) | None \<Rightarrow> None),
     lp_gene_text = (\<lambda>t. Some (demo_gene LcStable)), lp_capsule_text = (\<lambda>t. None), lp_receipt_text = (\<lambda>t. None),
     lp_capsule = (\<lambda>_. JNull), lp_provenance = (\<lambda>_. JNull), lp_safety = (\<lambda>_. JNull), lp_cost = (\<lambda>_. JNull),
     lp_parse_uuid = Some, lp_rounding = id\<rparr>"

definition demo_file :: sqlite_file where
  "demo_file = \<lparr>sf_opens = True, sf_tenant = Some ''t'',
     sf_genes = Some \<lparr>lt_data_column = True, lt_rows = [Some ''version 1'', Some ''version 2'']\<rparr>,
     sf_capsules = None, sf_receipts = None\<rparr>"

lemma demo_genes: "read_legacy_genes demo_legacy demo_file = Inr [demo_gene LcStable, demo_gene LcStable]"
  by (simp add: read_legacy_genes_def read_table_def demo_file_def demo_legacy_def)

lemma demo_premises:
  "no_faults empty_world" "\<forall>g \<in> set [demo_gene LcStable, demo_gene LcStable]. lp_parse_uuid demo_legacy (g_id g) \<noteq> None"
  by (simp_all add: no_faults_def empty_world_def demo_legacy_def)

lemma one_version_survives_witness:
  "\<exists>row w'. migrate_genes demo_legacy demo_file empty_world = (Inr 1, w') \<and> memory_items w' = [row]"
proof -
  have ids: "gene_uuids demo_legacy [demo_gene LcStable, demo_gene LcStable] - stored_ids empty_world = {g_id (demo_gene LcStable)}"
    by (simp add: gene_uuids_def stored_ids_def empty_world_def demo_legacy_def)
  obtain rows w' where run: "migrate_genes demo_legacy demo_file empty_world = (Inr (length rows), w')"
    "memory_items w' = memory_items empty_world @ rows" "distinct (map c_memory_id rows)"
    "set (map c_memory_id rows) = {g_id (demo_gene LcStable)}"
    using one_version_survives [OF demo_premises(1) demo_genes demo_premises(2)] unfolding ids by blast
  then have "length rows = 1"
    using distinct_card [of "map c_memory_id rows"] by simp
  then show ?thesis using run by (auto simp: length_Suc_conv empty_world_def)
qed

lemma rerun_adds_nothing_witness:
  "\<exists>w2. migrate_genes demo_legacy demo_file (snd (migrate_genes demo_legacy demo_file empty_world)) = (Inr 0, w2)"
  using rerun_adds_nothing [OF demo_premises(1) demo_genes demo_premises(2), of "fst (migrate_genes demo_legacy demo_file empty_world)"
      "snd (migrate_genes demo_legacy demo_file empty_world)"]
  by auto

lemma migrated_genes_unreadable_witness:
  "\<exists>e w3. mcp_get_gene (gene_codec.truncate demo_legacy) (g_id (demo_gene LcStable))
     (snd (store_gene demo_legacy ''t'' (demo_gene LcStable) empty_world)) = (Inl e, w3)"
proof -
  obtain item w1 where item: "(gene_to_memory_item demo_legacy (demo_gene LcStable) ''t'' empty_world
      :: (migration_error + memory_item) \<times> world) = (Inr item, w1)" "mi_memory_id item = g_id (demo_gene LcStable)"
      "w1 = empty_world"
    by (simp add: gene_to_memory_item_def legacy_id_def demo_legacy_def Let_def) (simp add: ret_def)
  obtain w2 where w2: "insert_memory_item item w1 = (Inr (), w2)"
    by (simp add: insert_memory_item_def map_err_def exec_def item(3) empty_world_def)
  have "\<forall>j g. gc_from_value demo_legacy j = Some g \<longrightarrow> json_get j ''id'' \<noteq> None"
    by (auto simp: demo_legacy_def split: option.splits)
  from migrated_genes_unreadable [OF this item(1) w2] show ?thesis
    using item w2 by (simp add: store_gene_def bindE_def)
qed

end
