(* ===== verification/Oen.thy ===== *)
theory Oen
  imports Contract Schema
begin

text \<open>
  \<open>oen/\<close>: the signed envelope of the evolution network and its verifier with the cache of
  verified signatures.  Parsing of timestamps, the JSON text of a payload, base64, hex and
  Ed25519 are parameters.  The lemmas show what an accepted envelope has passed, and what the
  signature does not bind: neither the timestamp nor, while the cache is warm, the payload.
\<close>

section \<open>Envelopes\<close>

datatype message_type_oen = MtPublish | MtFetch | MtReport | MtRevoke | MtFeedback

fun message_type_text :: "message_type_oen \<Rightarrow> string" where
  "message_type_text MtPublish = ''Publish''"
| "message_type_text MtFetch = ''Fetch''"
| "message_type_text MtReport = ''Report''"
| "message_type_text MtRevoke = ''Revoke''"
| "message_type_text MtFeedback = ''Feedback''"

datatype network_asset = GeneAsset gene_v1 | CapsuleAsset capsule_v1

record envelope_manifest =
  em_publisher :: string
  em_sender_id :: string
  em_asset_ids :: "string list"
  em_asset_hash :: string

record oen_envelope =
  oe_sender_id :: string
  oe_message_type :: message_type_oen
  oe_payload :: json
  oe_signature :: string
  oe_timestamp :: string
  oe_protocol :: string
  oe_protocol_version :: string
  oe_message_id :: string
  oe_assets :: "network_asset list"
  oe_content_hash :: string
  oe_manifest :: "envelope_manifest option"

definition minimal_envelope :: "string \<Rightarrow> message_type_oen \<Rightarrow> json \<Rightarrow> string \<Rightarrow> string \<Rightarrow> oen_envelope" where
  "minimal_envelope sender_id message_type payload signature timestamp =
     \<lparr>oe_sender_id = sender_id, oe_message_type = message_type, oe_payload = payload, oe_signature = signature,
      oe_timestamp = timestamp, oe_protocol = [], oe_protocol_version = [], oe_message_id = [], oe_assets = [],
      oe_content_hash = [], oe_manifest = None\<rparr>"

datatype oen_error =
    InvalidEnvelope
  | InvalidMessageType string string
  | SenderMismatch string string
  | TimestampExpired int int
  | SignatureFailed
  | MissingSignature
  | ContentHashMismatch
  | SigningError string
  | ParseError string

section \<open>The verifier\<close>

text \<open>
  Bytes are strings.  \<open>oc_verify key message signature\<close> is Ed25519's check for a key that
  \<open>oc_key_ok\<close> accepts.
\<close>

record oen_crypto =
  oc_parse_time :: "string \<Rightarrow> time option"
  oc_to_vec :: "json \<Rightarrow> string"
  oc_base64 :: "string \<Rightarrow> string option"
  oc_hex :: "string \<Rightarrow> string option"
  oc_key_ok :: "string \<Rightarrow> bool"
  oc_verify :: "string \<Rightarrow> string \<Rightarrow> string \<Rightarrow> bool"

text \<open>
  The state the verifier reads and writes: its cache, and the monotonic clock \<open>Instant::now\<close>
  beside the environment's UTC clock.
\<close>

record oen_state = env +
  instants :: "nat \<Rightarrow> time"
  oen_tolerance_secs :: int
  oen_ttl_secs :: int
  oen_cache :: "string \<rightharpoonup> time"

type_synonym 'a oen_op = "(oen_state, oen_error, 'a) op"

definition DEFAULT_TOLERANCE_SECS :: int where
  "DEFAULT_TOLERANCE_SECS = 300"

definition DEFAULT_SIGNATURE_TTL_SECS :: int where
  "DEFAULT_SIGNATURE_TTL_SECS = 60"

definition instant_now :: "time oen_op" where
  "instant_now = (\<lambda>s. (Inr (instants s (tick s)), s\<lparr>tick := Suc (tick s)\<rparr>))"

definition clear_cache_for_sender :: "string \<Rightarrow> unit oen_op" where
  "clear_cache_for_sender sender = modify (\<lambda>s. s\<lparr>oen_cache :=
     (\<lambda>k. if str_starts_with k (sender @ '':'') then None else oen_cache s k)\<rparr>)"

definition clear_cache :: "unit oen_op" where
  "clear_cache = modify (\<lambda>s. s\<lparr>oen_cache := Map.empty\<rparr>)"

definition cache_key :: "oen_envelope \<Rightarrow> string \<Rightarrow> string" where
  "cache_key e key_hex = oe_sender_id e @ '':'' @ key_hex @ '':'' @ oe_signature e"

text \<open>\<open>(a - b).num_seconds().abs()\<close>: seconds are cut towards zero.\<close>

definition seconds_apart :: "time \<Rightarrow> time \<Rightarrow> int" where
  "seconds_apart a b = \<bar>a - b\<bar> div 1000000000"

definition check_timestamp :: "oen_crypto \<Rightarrow> oen_envelope \<Rightarrow> unit oen_op" where
  "check_timestamp c e =
     bindE (ok_or (oc_parse_time c (oe_timestamp e)) (ParseError ''invalid timestamp format'')) (\<lambda>timestamp.
     bindE utc_now (\<lambda>now.
     let diff = seconds_apart now timestamp in
     bindE (gets oen_tolerance_secs) (\<lambda>tolerance.
     if diff > tolerance then throw (TimestampExpired diff tolerance) else ret ())))"

text \<open>\<open>entry.at.elapsed() < ttl\<close>; the monotonic clock is read only when there is an entry.\<close>

definition cached_fresh :: "string \<Rightarrow> bool oen_op" where
  "cached_fresh k =
     bindE (gets oen_cache) (\<lambda>cache.
     case cache k of
       None \<Rightarrow> ret False
     | Some since \<Rightarrow> bindE instant_now (\<lambda>now. bindE (gets oen_ttl_secs) (\<lambda>ttl. ret (max 0 (now - since) < secs ttl))))"

definition check_signature :: "oen_crypto \<Rightarrow> oen_envelope \<Rightarrow> string \<Rightarrow> oen_error + unit" where
  "check_signature c e key_hex =
     (case oc_base64 c (oe_signature e) of
        None \<Rightarrow> Inl SignatureFailed
      | Some sig \<Rightarrow>
          if length sig \<noteq> 64 then Inl SignatureFailed
          else (case oc_hex c key_hex of
                  None \<Rightarrow> Inl (SigningError ''invalid public key hex'')
                | Some key \<Rightarrow>
                    if length key \<noteq> 32 then Inl (SigningError ''expected 32-byte public key'')
                    else if \<not> oc_key_ok c key then Inl (SigningError ''invalid public key'')
                    else if \<not> oc_verify c key (oc_to_vec c (oe_payload e)) sig then Inl SignatureFailed
                    else Inr ()))"

definition verify_envelope :: "oen_crypto \<Rightarrow> oen_envelope \<Rightarrow> string \<Rightarrow> string \<Rightarrow> unit oen_op" where
  "verify_envelope c e expected_agent_id key_hex =
     (if oe_message_type e \<noteq> MtPublish
      then throw (InvalidMessageType (message_type_text MtPublish) (message_type_text (oe_message_type e)))
      else if oe_sender_id e \<noteq> expected_agent_id then throw (SenderMismatch expected_agent_id (oe_sender_id e))
      else
     bindE (check_timestamp c e) (\<lambda>_.
     bindE (cached_fresh (cache_key e key_hex)) (\<lambda>fresh.
     if fresh then ret ()
     else case check_signature c e key_hex of
            Inl err \<Rightarrow> throw err
          | Inr _ \<Rightarrow> bindE instant_now (\<lambda>now.
                modify (\<lambda>s. s\<lparr>oen_cache := (oen_cache s)(cache_key e key_hex \<mapsto> now)\<rparr>)))))"

section \<open>What acceptance means\<close>

text \<open>An entry that is younger than the lifetime at the reading after the timestamp's.\<close>

definition warm :: "oen_state \<Rightarrow> string \<Rightarrow> bool" where
  "warm s k \<longleftrightarrow> (\<exists>since. oen_cache s k = Some since \<and> max 0 (instants s (Suc (tick s)) - since) < secs (oen_ttl_secs s))"

definition timely :: "oen_crypto \<Rightarrow> oen_envelope \<Rightarrow> oen_state \<Rightarrow> bool" where
  "timely c e s \<longleftrightarrow> (\<exists>t. oc_parse_time c (oe_timestamp e) = Some t \<and> seconds_apart (clock s (tick s)) t \<le> oen_tolerance_secs s)"

lemma check_timestamp_run:
  "check_timestamp c e s =
     (case oc_parse_time c (oe_timestamp e) of
        None \<Rightarrow> (Inl (ParseError ''invalid timestamp format''), s)
      | Some t \<Rightarrow> (if timely c e s then Inr () else Inl (TimestampExpired (seconds_apart (clock s (tick s)) t) (oen_tolerance_secs s)),
                  s\<lparr>tick := Suc (tick s)\<rparr>))"
  by (simp add: check_timestamp_def utc_now_def monad_defs Let_def timely_def split: option.split)

lemma cached_fresh_run:
  "cached_fresh k s =
     (case oen_cache s k of
        None \<Rightarrow> (Inr False, s)
      | Some since \<Rightarrow> (Inr (max 0 (instants s (tick s) - since) < secs (oen_ttl_secs s)), s\<lparr>tick := Suc (tick s)\<rparr>))"
  by (simp add: cached_fresh_def instant_now_def monad_defs split: option.split)

text \<open>
  A valid signature, written out: 64 base64 bytes that Ed25519 accepts, under the 32-byte key the
  hex names, for the serialised payload.
\<close>

definition valid_signature :: "oen_crypto \<Rightarrow> string \<Rightarrow> oen_envelope \<Rightarrow> bool" where
  "valid_signature c key_hex e \<longleftrightarrow> (\<exists>sig key.
     oc_base64 c (oe_signature e) = Some sig \<and> length sig = 64 \<and>
     oc_hex c key_hex = Some key \<and> length key = 32 \<and> oc_key_ok c key \<and>
     oc_verify c key (oc_to_vec c (oe_payload e)) sig)"

lemma check_signature_iff: "check_signature c e key_hex = Inr () \<longleftrightarrow> valid_signature c key_hex e"
  by (auto simp: check_signature_def valid_signature_def split: option.splits if_splits)

lemma seconds_apart_le: "seconds_apart a b \<le> n \<longleftrightarrow> \<bar>a - b\<bar> < secs (n + 1)"
proof -
  have "\<bar>a - b\<bar> div 1000000000 * 1000000000 \<le> \<bar>a - b\<bar>"
    and "\<bar>a - b\<bar> < \<bar>a - b\<bar> div 1000000000 * 1000000000 + 1000000000"
    using div_mult_mod_eq [of "\<bar>a - b\<bar>" 1000000000] pos_mod_bound [of 1000000000 "\<bar>a - b\<bar>"]
      pos_mod_sign [of 1000000000 "\<bar>a - b\<bar>"] by linarith+
  then have "\<bar>a - b\<bar> div 1000000000 \<le> n \<longleftrightarrow> \<bar>a - b\<bar> < n * 1000000000 + 1000000000"
    by (intro iffI) linarith+
  then show ?thesis by (simp add: seconds_apart_def secs_def)
qed

lemma verify_iff:
  "fst (verify_envelope c e agent key_hex s) = Inr () \<longleftrightarrow>
     oe_message_type e = MtPublish \<and> oe_sender_id e = agent \<and> timely c e s \<and>
     (warm s (cache_key e key_hex) \<or> valid_signature c key_hex e)"
proof (cases "oe_message_type e = MtPublish \<and> oe_sender_id e = agent \<and> timely c e s")
  case False
  then show ?thesis
    by (auto simp: verify_envelope_def check_timestamp_run bindE_def throw_def timely_def split: option.split)
next
  case True
  then obtain t where t: "oc_parse_time c (oe_timestamp e) = Some t" by (auto simp: timely_def)
  have rest: "fst (bindE (cached_fresh (cache_key e key_hex)) (\<lambda>fresh.
      if fresh then ret () else case check_signature c e key_hex of Inl err \<Rightarrow> throw err
        | Inr _ \<Rightarrow> bindE instant_now (\<lambda>now. modify (\<lambda>s. s\<lparr>oen_cache := (oen_cache s)(cache_key e key_hex \<mapsto> now)\<rparr>)))
      (s\<lparr>tick := Suc (tick s)\<rparr>)) = Inr () \<longleftrightarrow>
    warm s (cache_key e key_hex) \<or> check_signature c e key_hex = Inr ()"
    by (cases "oen_cache s (cache_key e key_hex)"; cases "check_signature c e key_hex")
       (auto simp: bindE_def cached_fresh_run instant_now_def monad_defs warm_def split: sum.splits)
  show ?thesis
    using True t rest
    by (simp add: verify_envelope_def bindE_def [of "check_timestamp c e"] check_timestamp_run check_signature_iff)
qed

text \<open>
  C18 (equivalence).  An envelope is accepted exactly when it is a publication of the expected
  agent, its timestamp is less than a second beyond the tolerance away from the clock, and
  either its signature is 64 bytes that Ed25519 accepts for the payload under the given 32-byte
  key, or the cache holds an entry for its sender, key and signature, whatever the payload, that
  is younger than the cache's lifetime.
\<close>

theorem accepted_iff:
  "fst (verify_envelope c e agent key_hex s) = Inr () \<longleftrightarrow>
     oe_message_type e = MtPublish \<and> oe_sender_id e = agent \<and>
     (\<exists>t. oc_parse_time c (oe_timestamp e) = Some t \<and>
        \<bar>clock s (tick s) - t\<bar> < (oen_tolerance_secs s + 1) * 1000000000) \<and>
     ((\<exists>sig key. oc_base64 c (oe_signature e) = Some sig \<and> length sig = 64 \<and>
        oc_hex c key_hex = Some key \<and> length key = 32 \<and> oc_key_ok c key \<and>
        oc_verify c key (oc_to_vec c (oe_payload e)) sig) \<or>
      (\<exists>since. oen_cache s (oe_sender_id e @ '':'' @ key_hex @ '':'' @ oe_signature e) = Some since \<and>
        max 0 (instants s (tick s + 1) - since) < oen_ttl_secs s * 1000000000))"
  unfolding verify_iff timely_def seconds_apart_le warm_def valid_signature_def cache_key_def secs_def
  by auto

lemma check_signature_frame: "check_signature c (e\<lparr>oe_timestamp := t\<rparr>) key_hex = check_signature c e key_hex"
  by (simp add: check_signature_def cong: if_cong option.case_cong)

text \<open>The cache only holds signatures that were valid for some payload.\<close>

definition cache_sound :: "oen_crypto \<Rightarrow> oen_state \<Rightarrow> bool" where
  "cache_sound c s \<longleftrightarrow> (\<forall>k \<in> dom (oen_cache s). \<exists>e key_hex. k = cache_key e key_hex \<and> check_signature c e key_hex = Inr ())"

inductive oen_step :: "oen_crypto \<Rightarrow> oen_state \<Rightarrow> oen_state \<Rightarrow> bool" for c where
  step_verify: "verify_envelope c e agent key_hex s = (r, s') \<Longrightarrow> oen_step c s s'"
| step_clear_sender: "clear_cache_for_sender sender s = (r, s') \<Longrightarrow> oen_step c s s'"
| step_clear: "clear_cache s = (r, s') \<Longrightarrow> oen_step c s s'"

lemma cache_sound_tick [simp]: "cache_sound c (s\<lparr>tick := t\<rparr>) = cache_sound c s"
  by (simp add: cache_sound_def)

lemma keeps_cache_sound_reads:
  "keeps (cache_sound c) instant_now" "keeps (cache_sound c) (check_timestamp c e)" "keeps (cache_sound c) (cached_fresh k)"
proof -
  show instant: "keeps (cache_sound c) instant_now" by (simp add: keeps_def instant_now_def)
  show "keeps (cache_sound c) (check_timestamp c e)"
    unfolding check_timestamp_def Let_def by (intro keep_intros) simp_all
  show "keeps (cache_sound c) (cached_fresh k)"
    unfolding cached_fresh_def by (intro keep_intros instant)
qed

lemma keeps_cache_sound_verify: "keeps (cache_sound c) (verify_envelope c e agent key_hex)"
proof (cases "check_signature c e key_hex")
  case (Inl err)
  then show ?thesis
    unfolding verify_envelope_def by (simp only: sum.case) (intro keep_intros keeps_cache_sound_reads)
next
  case (Inr u)
  have "cache_sound c (s\<lparr>oen_cache := (oen_cache s)(cache_key e key_hex \<mapsto> now)\<rparr>)" if "cache_sound c s" for s now
    using that Inr by (auto simp: cache_sound_def)
  then show ?thesis
    using Inr unfolding verify_envelope_def by (simp only: sum.case) (intro keep_intros keeps_cache_sound_reads)
qed

text \<open>
  Whatever envelopes are verified and whichever entries are cleared, every
  signature in the cache has passed the full check with its key, for some payload.
\<close>

theorem cache_stays_sound:
  assumes "(oen_step c)\<^sup>*\<^sup>* s s'" and "cache_sound c s"
  shows "cache_sound c s'"
  using assms
proof (induction rule: rtranclp_induct)
  case (step t u)
  have sound: "cache_sound c t" by (rule step.IH [OF step.prems])
  from step(2) show ?case
  proof cases
    case step_verify
    then show ?thesis using keepsD [OF keeps_cache_sound_verify sound] by blast
  qed (use sound in \<open>auto simp: clear_cache_for_sender_def clear_cache_def modify_def cache_sound_def dom_def split: if_splits\<close>)
qed simp

section \<open>What the signature does not bind\<close>

lemma first_acceptance:
  assumes "verify_envelope c e agent key_hex s = (Inr (), s1)" and "oen_cache s (cache_key e key_hex) = None"
  shows "s1 = s\<lparr>tick := Suc (Suc (tick s)),
     oen_cache := (oen_cache s)(cache_key e key_hex \<mapsto> instants s (Suc (tick s)))\<rparr>"
proof -
  have ok: "oe_message_type e = MtPublish" "oe_sender_id e = agent" "timely c e s" "valid_signature c key_hex e"
    using verify_iff [of c e agent key_hex s] assms by (auto simp: warm_def)
  obtain t where "oc_parse_time c (oe_timestamp e) = Some t" using ok(3) by (auto simp: timely_def)
  then have "verify_envelope c e agent key_hex s = (Inr (), s\<lparr>tick := Suc (Suc (tick s)),
     oen_cache := (oen_cache s)(cache_key e key_hex \<mapsto> instants s (Suc (tick s)))\<rparr>)"
    using ok assms(2) ok(4) [folded check_signature_iff]
    by (simp add: verify_envelope_def bindE_def check_timestamp_run cached_fresh_run instant_now_def modify_def)
  then show ?thesis using assms(1) by simp
qed

text \<open>
  C33 (safety).  The call that verifies an envelope for the first time opens the door to any
  content: the next call, within the cache's lifetime of that acceptance and with the timestamp
  still within the tolerance, accepts the same envelope with whatever payload put in its
  place, whether or not the signature is valid for it.
\<close>

theorem cached_signature_admits_any_payload:
  assumes "verify_envelope c e agent key_hex s = (Inr (), s1)" and "oen_cache s (cache_key e key_hex) = None"
    and "timely c e s1" and "max 0 (instants s1 (tick s1 + 1) - instants s (tick s + 1)) < secs (oen_ttl_secs s)"
  shows "fst (verify_envelope c (e\<lparr>oe_payload := forged\<rparr>) agent key_hex s1) = Inr ()"
proof -
  note s1 = first_acceptance [OF assms(1,2)]
  have "oe_message_type e = MtPublish" "oe_sender_id e = agent"
    using verify_iff [of c e agent key_hex s] assms(1) by simp_all
  moreover have "timely c (e\<lparr>oe_payload := forged\<rparr>) s1" using assms(3) by (simp add: timely_def)
  moreover have "warm s1 (cache_key (e\<lparr>oe_payload := forged\<rparr>) key_hex)"
    using assms(4) by (simp add: warm_def cache_key_def s1)
  ultimately show ?thesis by (simp add: verify_iff)
qed

text \<open>
  The timestamp is not signed: an envelope whose signature is valid is accepted at
  any later time once its timestamp is rewritten to that time, so it can be replayed for ever.
\<close>

theorem signature_outlives_timestamp:
  assumes "check_signature c e key_hex = Inr ()" and "oe_message_type e = MtPublish"
    and "oc_parse_time c fresh = Some (clock s (tick s))" and "0 \<le> oen_tolerance_secs s"
  shows "fst (verify_envelope c (e\<lparr>oe_timestamp := fresh\<rparr>) (oe_sender_id e) key_hex s) = Inr ()"
proof -
  have "timely c (e\<lparr>oe_timestamp := fresh\<rparr>) s"
    using assms by (simp add: timely_def seconds_apart_def)
  moreover have "check_signature c (e\<lparr>oe_timestamp := fresh\<rparr>) key_hex = Inr ()"
    using assms(1) by (simp only: check_signature_frame)
  ultimately show ?thesis
    using assms(2)
    by (auto simp: verify_envelope_def bindE_def check_timestamp_run cached_fresh_run instant_now_def monad_defs
        timely_def split: option.splits)
qed

section \<open>Witnesses\<close>

text \<open>A toy scheme: a signature is valid for the message its first byte repeats.\<close>

definition demo_crypto :: oen_crypto where
  "demo_crypto = \<lparr>oc_parse_time = (\<lambda>s. if s = ''now'' then Some 0 else None),
     oc_to_vec = (\<lambda>payload. if payload = JNull then ''x'' else ''y''),
     oc_base64 = (\<lambda>s. Some (take 64 (s @ replicate 64 CHR ''0''))), oc_hex = (\<lambda>_. Some (replicate 32 CHR ''k'')),
     oc_key_ok = (\<lambda>_. True), oc_verify = (\<lambda>k m s. take 1 s = m)\<rparr>"

definition demo_envelope :: oen_envelope where
  "demo_envelope = minimal_envelope ''a'' MtPublish JNull ''x'' ''now''"

definition oen_world :: oen_state where
  "oen_world = \<lparr>tick = 0, clock = int, uuids = (\<lambda>n. replicate (Suc n) CHR ''a''), fails = (\<lambda>_. False),
     instants = int, oen_tolerance_secs = DEFAULT_TOLERANCE_SECS, oen_ttl_secs = DEFAULT_SIGNATURE_TTL_SECS,
     oen_cache = Map.empty\<rparr>"

lemma demo_signature: "check_signature demo_crypto demo_envelope ''k'' = Inr ()"
  by (simp add: check_signature_def demo_crypto_def demo_envelope_def minimal_envelope_def)

lemma cache_stays_sound_witness:
  "cache_sound demo_crypto (snd (verify_envelope demo_crypto demo_envelope ''a'' ''k'' oen_world))"
proof (rule cache_stays_sound [OF r_into_rtranclp])
  show "oen_step demo_crypto oen_world (snd (verify_envelope demo_crypto demo_envelope ''a'' ''k'' oen_world))"
    by (rule oen_step.intros(1)) (simp add: prod_eq_iff)
qed (simp add: cache_sound_def oen_world_def)

text \<open>A forged payload for which the signature is not valid.\<close>

lemma cached_signature_admits_any_payload_witness:
  "\<exists>s1. verify_envelope demo_crypto demo_envelope ''a'' ''k'' oen_world = (Inr (), s1) \<and>
     \<not> valid_signature demo_crypto ''k'' (demo_envelope\<lparr>oe_payload := JString ''forged''\<rparr>) \<and>
     fst (verify_envelope demo_crypto (demo_envelope\<lparr>oe_payload := JString ''forged''\<rparr>) ''a'' ''k'' s1) = Inr ()"
proof -
  have "fst (verify_envelope demo_crypto demo_envelope ''a'' ''k'' oen_world) = Inr ()"
    using demo_signature [unfolded check_signature_iff]
    by (simp add: verify_iff timely_def seconds_apart_def DEFAULT_TOLERANCE_SECS_def oen_world_def demo_envelope_def
        minimal_envelope_def demo_crypto_def)
  then obtain s1 where run: "verify_envelope demo_crypto demo_envelope ''a'' ''k'' oen_world = (Inr (), s1)"
    by (metis prod.collapse)
  have cold: "oen_cache oen_world (cache_key demo_envelope ''k'') = None" by (simp add: oen_world_def)
  note s1 = first_acceptance [OF run cold]
  have "timely demo_crypto demo_envelope s1"
    by (simp add: s1 timely_def seconds_apart_def DEFAULT_TOLERANCE_SECS_def oen_world_def demo_envelope_def
        minimal_envelope_def demo_crypto_def)
  moreover have "max 0 (instants s1 (tick s1 + 1) - instants oen_world (tick oen_world + 1)) < secs (oen_ttl_secs oen_world)"
    by (simp add: s1 oen_world_def DEFAULT_SIGNATURE_TTL_SECS_def secs_def)
  moreover have "\<not> valid_signature demo_crypto ''k'' (demo_envelope\<lparr>oe_payload := JString ''forged''\<rparr>)"
    by (simp add: valid_signature_def demo_crypto_def demo_envelope_def minimal_envelope_def)
  ultimately show ?thesis using cached_signature_admits_any_payload [OF run cold] run by blast
qed

lemma signature_outlives_timestamp_witness:
  "fst (verify_envelope demo_crypto (demo_envelope\<lparr>oe_timestamp := ''now''\<rparr>) ''a'' ''k'' oen_world) = Inr ()"
  using signature_outlives_timestamp [OF demo_signature, of "''now''" oen_world]
  by (simp add: oen_world_def demo_envelope_def minimal_envelope_def demo_crypto_def DEFAULT_TOLERANCE_SECS_def)

end
