(* ===== verification/Gateway.thy ===== *)
theory Gateway
  imports GeneStore Oen RateLimit Skill ExperienceSearch Poison
begin

text \<open>
  \<open>AppState\<close> and the shared part of \<open>server/handlers.rs\<close>, with \<open>error.rs\<close>: the stores behind the
  HTTP server, each with its own environment, the errors of requests, and the checks a
  handler starts with.  The lemmas lift what a store keeps to the gateway.
\<close>

section \<open>State, errors and parameters\<close>

record gateway = env +
  gw_keys :: keystore
  gw_exp :: expstore
  gw_genes :: genestore
  gw_oen :: oen_state
  gw_limits :: rate_limiters

text \<open>Texts of internal errors are left out; \<open>HandlerPanic\<close> is the panic of an overflowing expiry date.\<close>

datatype repo_error =
    ApiKeyMissing | InvalidApiKey | ApiKeyExpired | ApiKeyRevoked | AgentIdMismatch
  | EnvelopeInvalid | SignatureInvalid | EnvelopeExpired | EnvelopeSenderMismatch
  | SenderKeyNotFound | SenderKeyInvalid
  | RateLimitExceeded nat
  | QueryParseError
  | GeneStoreFailure
  | KeyServiceFailure
  | OenFailure
  | DuplicateGene
  | Forbidden string
  | AssetNotFound string
  | InvalidContract "(contract_error + string) + string"
  | InternalError
  | HandlerPanic

type_synonym 'a repo_op = "(gateway, repo_error, 'a) op"

fun repo_error_of_key :: "key_service_error \<Rightarrow> repo_error" where
  "repo_error_of_key KeyNotFound = InvalidApiKey"
| "repo_error_of_key InvalidKey = InvalidApiKey"
| "repo_error_of_key Expired = ApiKeyExpired"
| "repo_error_of_key Revoked = ApiKeyRevoked"
| "repo_error_of_key AgentMismatch = AgentIdMismatch"
| "repo_error_of_key KeyAlreadyExists = InternalError"
| "repo_error_of_key (StoreError e) = KeyServiceFailure"
| "repo_error_of_key PublicKeyNotFound = SenderKeyNotFound"
| "repo_error_of_key InvalidPublicKey = SenderKeyInvalid"
| "repo_error_of_key KeyPanic = HandlerPanic"

fun repo_error_of_oen :: "oen_error \<Rightarrow> repo_error" where
  "repo_error_of_oen Oen.InvalidEnvelope = EnvelopeInvalid"
| "repo_error_of_oen (InvalidMessageType a b) = EnvelopeInvalid"
| "repo_error_of_oen (SenderMismatch a b) = EnvelopeSenderMismatch"
| "repo_error_of_oen (TimestampExpired a b) = EnvelopeExpired"
| "repo_error_of_oen SignatureFailed = SignatureInvalid"
| "repo_error_of_oen MissingSignature = SignatureInvalid"
| "repo_error_of_oen ContentHashMismatch = SignatureInvalid"
| "repo_error_of_oen (SigningError t) = InternalError"
| "repo_error_of_oen (ParseError t) = EnvelopeInvalid"

fun map_control_error :: "control_plane_error \<Rightarrow> repo_error" where
  "map_control_error (CpNotFound i) = AssetNotFound i"
| "map_control_error GovernanceRequired = Forbidden ''governance permission required''"
| "map_control_error (CpContract m) = InvalidContract (Inl m)"
| "map_control_error (InvalidTransition m) = InvalidContract (Inr m)"
| "map_control_error (CpStorage e) = InternalError"
| "map_control_error CpSerialization = InternalError"

fun status_of :: "repo_error \<Rightarrow> nat \<times> string" where
  "status_of ApiKeyMissing = (401, ''API_KEY_MISSING'')"
| "status_of InvalidApiKey = (401, ''INVALID_API_KEY'')"
| "status_of ApiKeyExpired = (401, ''KEY_EXPIRED'')"
| "status_of ApiKeyRevoked = (401, ''KEY_REVOKED'')"
| "status_of AgentIdMismatch = (403, ''AGENT_MISMATCH'')"
| "status_of EnvelopeInvalid = (400, ''INVALID_ENVELOPE'')"
| "status_of SignatureInvalid = (403, ''INVALID_SIGNATURE'')"
| "status_of EnvelopeExpired = (403, ''TIMESTAMP_EXPIRED'')"
| "status_of EnvelopeSenderMismatch = (403, ''SENDER_MISMATCH'')"
| "status_of SenderKeyNotFound = (404, ''PUBLIC_KEY_NOT_FOUND'')"
| "status_of SenderKeyInvalid = (400, ''INVALID_PUBLIC_KEY'')"
| "status_of (RateLimitExceeded t) = (429, ''RATE_LIMIT_EXCEEDED'')"
| "status_of QueryParseError = (400, ''QUERY_ERROR'')"
| "status_of DuplicateGene = (409, ''DUPLICATE_GENE'')"
| "status_of (Forbidden t) = (403, ''FORBIDDEN'')"
| "status_of (AssetNotFound i) = (404, ''ASSET_NOT_FOUND'')"
| "status_of (InvalidContract m) = (422, ''INVALID_EXPERIENCE_CONTRACT'')"
| "status_of GeneStoreFailure = (500, ''GENE_STORE_ERROR'')"
| "status_of KeyServiceFailure = (500, ''KEY_SERVICE_ERROR'')"
| "status_of OenFailure = (500, ''OEN_ERROR'')"
| "status_of InternalError = (500, ''INTERNAL_ERROR'')"
| "status_of HandlerPanic = (500, [])"

text \<open>
  The code outside the repository: SHA-256, lower-casing, rounding of doubles, the search
  measures, the JSON texts, serde's decoding of a query's environment, of a legacy gene, of a
  list of assets and of the arguments of the MCP tools, and the parsing of UUIDs.
\<close>

record server_params =
  sp_sha256 :: "string \<Rightarrow> string"
  sp_lower :: "string \<Rightarrow> string"
  sp_rnd :: rounding
  sp_relevance :: relevance
  sp_to_string :: json_text
  sp_pretty :: "experience_bundle_v1 \<Rightarrow> string"
  sp_crypto :: oen_crypto
  sp_environment :: "string \<Rightarrow> (string \<times> json) list option"
  sp_decode_gene :: "json \<Rightarrow> gene option"
  sp_decode_assets :: "json \<Rightarrow> network_asset list option"
  sp_parse_uuid :: "string \<Rightarrow> uuid option"
  sp_query :: "json \<Rightarrow> experience_query option"
  sp_bundle :: "json \<Rightarrow> experience_bundle_v1 option"
  sp_receipt :: "json \<Rightarrow> usage_receipt_v1 option"
  sp_capsule :: "json \<Rightarrow> capsule_v1 option"
  sp_scope :: "json \<Rightarrow> experience_scope option"

section \<open>Calls of the parts\<close>

definition in_keys :: "(keystore, key_service_error, 'a) op \<Rightarrow> 'a repo_op" where
  "in_keys m = (\<lambda>g. case m (gw_keys g) of
     (Inl e, k) \<Rightarrow> (Inl (repo_error_of_key e), g\<lparr>gw_keys := k\<rparr>) | (Inr x, k) \<Rightarrow> (Inr x, g\<lparr>gw_keys := k\<rparr>))"

definition in_exp :: "'a exp_op \<Rightarrow> 'a repo_op" where
  "in_exp m = (\<lambda>g. case m (gw_exp g) of
     (Inl e, k) \<Rightarrow> (Inl (map_control_error e), g\<lparr>gw_exp := k\<rparr>) | (Inr x, k) \<Rightarrow> (Inr x, g\<lparr>gw_exp := k\<rparr>))"

definition in_genes :: "'a gene_op \<Rightarrow> 'a repo_op" where
  "in_genes m = (\<lambda>g. case m (gw_genes g) of
     (Inl e, k) \<Rightarrow> (Inl GeneStoreFailure, g\<lparr>gw_genes := k\<rparr>) | (Inr x, k) \<Rightarrow> (Inr x, g\<lparr>gw_genes := k\<rparr>))"

definition in_oen :: "'a oen_op \<Rightarrow> 'a repo_op" where
  "in_oen m = (\<lambda>g. case m (gw_oen g) of
     (Inl e, k) \<Rightarrow> (Inl (repo_error_of_oen e), g\<lparr>gw_oen := k\<rparr>) | (Inr x, k) \<Rightarrow> (Inr x, g\<lparr>gw_oen := k\<rparr>))"

definition check_rate_limit :: "http_method \<Rightarrow> string \<Rightarrow> string \<Rightarrow> unit repo_op" where
  "check_rate_limit m path client =
     bindE utc_now (\<lambda>now. \<lambda>g.
     case registry_check m path client (nat (now div 1000000000)) (gw_limits g) of
       (Inl wait, l) \<Rightarrow> (Inl (RateLimitExceeded wait), g\<lparr>gw_limits := l\<rparr>)
     | (Inr _, l) \<Rightarrow> (Inr (), g\<lparr>gw_limits := l\<rparr>))"

definition limited :: "headers \<Rightarrow> http_method \<Rightarrow> string \<Rightarrow> unit repo_op" where
  "limited h m path = check_rate_limit m path (extract_client_id h)"

definition api_key_of :: "headers \<Rightarrow> string repo_op" where
  "api_key_of h = ok_or (header_str h ''x-api-key'') ApiKeyMissing"

definition verified :: "server_params \<Rightarrow> headers \<Rightarrow> api_key_info repo_op" where
  "verified P h = bindE (api_key_of h) (\<lambda>raw. in_keys (verify_key (sp_sha256 P) raw))"

definition authenticate :: "server_params \<Rightarrow> headers \<Rightarrow> string \<Rightarrow> api_key_info repo_op" where
  "authenticate P h sc =
     bindE (verified P h) (\<lambda>info.
     if \<not> has_scope info sc then throw (Forbidden (''missing scope '' @ sc)) else ret info)"

section \<open>Frames\<close>

text \<open>The parts have clocks of their own, which the record package does not tell from the gateway's.\<close>

lemma gateway_tick [simp]:
  "gw_keys (g\<lparr>tick := t\<rparr>) = gw_keys g" "gw_exp (g\<lparr>tick := t\<rparr>) = gw_exp g"
  "gw_genes (g\<lparr>tick := t\<rparr>) = gw_genes g" "gw_oen (g\<lparr>tick := t\<rparr>) = gw_oen g"
  "gw_limits (g\<lparr>tick := t\<rparr>) = gw_limits g"
  by (cases g; simp)+

lemma keeps_in_keys:
  "(\<And>g r k. Q g \<Longrightarrow> m (gw_keys g) = (r, k) \<Longrightarrow> Q (g\<lparr>gw_keys := k\<rparr>)) \<Longrightarrow> keeps Q (in_keys m)"
  by (rule keepsI) (auto simp: in_keys_def split: prod.splits sum.splits)

lemma keeps_in_exp:
  "(\<And>g r k. Q g \<Longrightarrow> m (gw_exp g) = (r, k) \<Longrightarrow> Q (g\<lparr>gw_exp := k\<rparr>)) \<Longrightarrow> keeps Q (in_exp m)"
  by (rule keepsI) (auto simp: in_exp_def split: prod.splits sum.splits)

lemma keeps_in_genes:
  "(\<And>g r k. Q g \<Longrightarrow> m (gw_genes g) = (r, k) \<Longrightarrow> Q (g\<lparr>gw_genes := k\<rparr>)) \<Longrightarrow> keeps Q (in_genes m)"
  by (rule keepsI) (auto simp: in_genes_def split: prod.splits sum.splits)

lemma keeps_in_oen: "(\<And>g k. Q g \<Longrightarrow> Q (g\<lparr>gw_oen := k\<rparr>)) \<Longrightarrow> keeps Q (in_oen m)"
  by (rule keepsI) (auto simp: in_oen_def split: prod.splits sum.splits)

lemma keeps_limited:
  "(\<And>g t. Q g \<Longrightarrow> Q (g\<lparr>tick := t\<rparr>)) \<Longrightarrow> (\<And>g l. Q g \<Longrightarrow> Q (g\<lparr>gw_limits := l\<rparr>)) \<Longrightarrow> keeps Q (limited h m path)"
  unfolding limited_def check_rate_limit_def
  by (intro keep_intros keepsI) (auto split: prod.splits sum.splits)

end
