(* ===== verification/Mcp.thy ===== *)
theory Mcp
  imports Gateway
begin

text \<open>
  \<open>mcp.rs\<close> and the \<open>/mcp\<close> handler of \<open>server/handlers.rs\<close>: the JSON-RPC methods and tools
  over the experience store and the key store.  Of the answers the values are kept; the
  JSON around them, the prose and the schemas of the tools are left out.  The lemmas show
  that the tools a caller is not shown are refused to it.
\<close>

section \<open>Requests, errors and answers\<close>

definition READ_TOOL_NAMES :: "string list" where
  "READ_TOOL_NAMES = [''oris_experience_search'', ''oris_experience_get'', ''oris_experience_project_skill'']"

definition WRITE_TOOL_NAMES :: "string list" where
  "WRITE_TOOL_NAMES = [''oris_experience_propose'', ''oris_experience_begin_use'', ''oris_experience_record_outcome'',
     ''oris_experience_register_public_key'', ''oris_experience_revoke_public_key'']"

definition GOVERN_TOOL_NAMES :: "string list" where
  "GOVERN_TOOL_NAMES = [''oris_experience_promote'', ''oris_experience_revoke'']"

definition ADMIN_TOOL_NAMES :: "string list" where
  "ADMIN_TOOL_NAMES = [''oris_experience_list_api_keys'', ''oris_experience_create_api_key'',
     ''oris_experience_rotate_api_key'', ''oris_experience_revoke_api_key'', ''oris_experience_list_public_keys'']"

definition SUPPORTED_PROTOCOL_VERSIONS :: "string list" where
  "SUPPORTED_PROTOCOL_VERSIONS = [''2024-11-05'', ''2025-03-26'', ''2025-06-18'', ''2025-11-25'']"

record mcp_auth =
  ma_agent_id :: string
  ma_can_read :: bool
  ma_can_write :: bool
  ma_can_govern :: bool
  ma_can_admin :: bool

record rpc_request =
  rq_jsonrpc :: string
  rq_id :: "json option"
  rq_method :: string
  rq_params :: json

text \<open>\<open>RpcPanic\<close> is a panic of the key store, which no answer reports.\<close>

datatype rpc_error =
    InvalidVersion
  | MethodNotFound string
  | UnknownTool string
  | InvalidParams string
  | RpcForbidden string
  | RpcStore
  | RpcPanic

fun rpc_code :: "rpc_error \<Rightarrow> int" where
  "rpc_code InvalidVersion = -32600"
| "rpc_code (MethodNotFound m) = -32601"
| "rpc_code (UnknownTool t) = -32601"
| "rpc_code (InvalidParams m) = -32602"
| "rpc_code (RpcForbidden m) = -32003"
| "rpc_code RpcStore = -32000"
| "rpc_code RpcPanic = 0"

datatype tool_result =
    TrResults "experience_result list"
  | TrBundle experience_bundle_v1
  | TrBundleSkill experience_bundle_v1 portable_skill
  | TrSkill portable_skill
  | TrGene gene_v1
  | TrSession use_session
  | TrPublicKey public_key
  | TrPublicKeyRevoked string
  | TrKeys "api_key_info list"
  | TrKeyCreated string api_key_info
  | TrKeyRevoked string
  | TrPublicKeys "public_key list"

datatype rpc_result =
    RrInitialized string
  | RrPong
  | RrTools "string list"
  | RrTool tool_result
  | RrResources
  | RrResourceTemplates
  | RrInstructions
  | RrCapabilities "string list" "string list" "string list"
  | RrBundle experience_bundle_v1
  | RrCapsule capsule_v1
  | RrPrompts "string list"
  | RrPrompt string string string

type_synonym 'a rpc_op = "(gateway, rpc_error, 'a) op"

definition store_failed :: "repo_error \<Rightarrow> rpc_error" where
  "store_failed e = (if e = HandlerPanic then RpcPanic else RpcStore)"

section \<open>Arguments\<close>

fun as_bool :: "json \<Rightarrow> bool option" where
  "as_bool (JBool b) = Some b"
| "as_bool _ = None"

fun as_i64 :: "json \<Rightarrow> int option" where
  "as_i64 (JInt n) = (if - (2 ^ 63) \<le> n \<and> n < 2 ^ 63 then Some n else None)"
| "as_i64 _ = None"

definition rpc_require :: "bool \<Rightarrow> string \<Rightarrow> unit rpc_op" where
  "rpc_require granted sc = (if granted then ret () else throw (RpcForbidden (''missing scope '' @ sc)))"

definition required_str :: "json \<Rightarrow> string \<Rightarrow> string rpc_op" where
  "required_str v k = ok_or (Option.bind (json_get v k) as_str) (InvalidParams (''missing '' @ k))"

text \<open>The cast to \<open>u32\<close> drops the high bits.\<close>

definition optional_u32 :: "json \<Rightarrow> string \<Rightarrow> nat option" where
  "optional_u32 v k = map_option (\<lambda>n. n mod 2 ^ 32) (Option.bind (json_get v k) as_u64)"

definition required_u32 :: "json \<Rightarrow> string \<Rightarrow> nat rpc_op" where
  "required_u32 v k = ok_or (optional_u32 v k) (InvalidParams (''missing '' @ k))"

fun strings_of :: "string \<Rightarrow> json list \<Rightarrow> string list rpc_op" where
  "strings_of k [] = ret []"
| "strings_of k (x # xs) =
     bindE (ok_or (as_str x) (InvalidParams (k @ '' must contain strings''))) (\<lambda>s.
     bindE (strings_of k xs) (\<lambda>ss. ret (s # ss)))"

definition optional_string_vec :: "json \<Rightarrow> string \<Rightarrow> string list rpc_op" where
  "optional_string_vec v k =
     bindE (ok_or (Option.bind (json_get v k) as_array) (InvalidParams (''missing '' @ k))) (strings_of k)"

definition decoded :: "'a option \<Rightarrow> 'a rpc_op" where
  "decoded v = ok_or v (InvalidParams ''decode'')"

section \<open>Tools\<close>

definition tools_for_auth :: "mcp_auth \<Rightarrow> string list" where
  "tools_for_auth a =
     (if ma_can_read a then READ_TOOL_NAMES else []) @ (if ma_can_write a then WRITE_TOOL_NAMES else []) @
     (if ma_can_govern a then GOVERN_TOOL_NAMES else []) @ (if ma_can_admin a then ADMIN_TOOL_NAMES else [])"

definition tool_named :: "string \<Rightarrow> string \<Rightarrow> bool" where
  "tool_named name tool \<longleftrightarrow> name = ''oris_experience_'' @ tool \<or> name = ''oris.experience.'' @ tool"

definition rpc_exp :: "'a exp_op \<Rightarrow> 'a rpc_op" where
  "rpc_exp m = map_err store_failed (in_exp m)"

text \<open>A transport without a key store, such as the one over standard input, has \<open>keys\<close> false.\<close>

definition rpc_keys :: "bool \<Rightarrow> (keystore, key_service_error, 'a) op \<Rightarrow> 'a rpc_op" where
  "rpc_keys keys m =
     (if keys then map_err store_failed (in_keys m)
      else throw (RpcForbidden ''key management is unavailable on this transport''))"

definition key_store_available :: "bool \<Rightarrow> unit rpc_op" where
  "key_store_available keys = rpc_keys keys (ret ())"

definition read_tool :: "server_params \<Rightarrow> string \<Rightarrow> json \<Rightarrow> tool_result rpc_op" where
  "read_tool P tool args =
     (if tool = ''search'' then
        bindE (decoded (sp_query P args)) (\<lambda>q.
        bindE (rpc_exp (search_experience (sp_relevance P) (sp_to_string P) q)) (\<lambda>rs. ret (TrResults rs)))
      else
        bindE (required_str args ''id'') (\<lambda>i.
        let version = optional_u32 args ''version'';
            skill = rpc_exp (skill_projection (sp_lower P) (sp_pretty P) i version) in
        if tool = ''get'' then
          bindE (rpc_exp (experience_bundle i version)) (\<lambda>b.
          if Option.bind (json_get args ''include_skill_projection'') as_bool = Some True
          then bindE skill (\<lambda>s. ret (TrBundleSkill b s))
          else ret (TrBundle b))
        else bindE skill (\<lambda>s. ret (TrSkill s))))"

definition write_tool :: "server_params \<Rightarrow> bool \<Rightarrow> string \<Rightarrow> json \<Rightarrow> mcp_auth \<Rightarrow> tool_result rpc_op" where
  "write_tool P keys tool args a =
     (if tool = ''propose'' then
        bindE (decoded (sp_bundle P (case json_get args ''bundle'' of Some b \<Rightarrow> b | None \<Rightarrow> args))) (\<lambda>b.
        bindE (rpc_exp (propose b)) (\<lambda>g. ret (TrGene g)))
      else if tool = ''begin_use'' then
        bindE (required_str args ''gene_id'') (\<lambda>i.
        bindE (required_u32 args ''gene_version'') (\<lambda>version.
        bindE (required_str args ''run_id'') (\<lambda>run_id.
        bindE (required_str args ''task_context_hash'') (\<lambda>ctx.
        bindE (rpc_exp (begin_use i version (ma_agent_id a) run_id ctx)) (\<lambda>s. ret (TrSession s))))))
      else if tool = ''record_outcome'' then
        bindE (ok_or (json_get args ''receipt'') (InvalidParams ''missing receipt'')) (\<lambda>v.
        bindE (decoded (sp_receipt P v)) (\<lambda>receipt.
        if ma_agent_id a \<noteq> [] \<and> ur_agent_id receipt \<noteq> ma_agent_id a
        then throw (RpcForbidden ''receipt agent_id does not match caller'')
        else
        bindE (case json_get args ''capsule'' of
                 None \<Rightarrow> ret None | Some c \<Rightarrow> bindE (decoded (sp_capsule P c)) (\<lambda>c'. ret (Some c'))) (\<lambda>capsule.
        bindE (rpc_exp (record_outcome receipt capsule)) (\<lambda>g. ret (TrGene g)))))
      else
        bindE (required_str args ''sender_id'') (\<lambda>sender.
        if sender \<noteq> ma_agent_id a then throw (RpcForbidden ''public key sender_id does not match caller'')
        else if tool = ''register_public_key'' then
          bindE (key_store_available keys) (\<lambda>_.
          bindE (required_str args ''public_key_hex'') (\<lambda>hex.
          bindE (rpc_keys keys (register_public_key sender hex)) (\<lambda>k. ret (TrPublicKey k))))
        else bindE (rpc_keys keys (revoke_public_key sender)) (\<lambda>_. ret (TrPublicKeyRevoked sender))))"

definition govern_tool :: "server_params \<Rightarrow> string \<Rightarrow> json \<Rightarrow> tool_result rpc_op" where
  "govern_tool P tool args =
     (if tool = ''promote'' then
        bindE (ok_or (json_get args ''scope'') (InvalidParams ''missing scope'')) (\<lambda>v.
        bindE (decoded (sp_scope P v)) (\<lambda>sc.
        bindE (required_str args ''gene_id'') (\<lambda>i.
        bindE (required_u32 args ''gene_version'') (\<lambda>version.
        bindE (rpc_exp (promote_gene i version sc True)) (\<lambda>g. ret (TrGene g))))))
      else
        let quarantine = (case Option.bind (json_get args ''quarantine'') as_bool of Some b \<Rightarrow> b | None \<Rightarrow> False) in
        bindE (required_str args ''gene_id'') (\<lambda>i.
        bindE (required_u32 args ''gene_version'') (\<lambda>version.
        bindE (rpc_exp (revoke_gene i version quarantine True)) (\<lambda>g. ret (TrGene g)))))"

definition admin_tool :: "server_params \<Rightarrow> bool \<Rightarrow> string \<Rightarrow> json \<Rightarrow> mcp_auth \<Rightarrow> tool_result rpc_op" where
  "admin_tool P keys tool args a =
     (let ttl = Option.bind (json_get args ''ttl_days'') as_i64 in
      if tool = ''list_api_keys'' then bindE (rpc_keys keys list_keys) (\<lambda>ks. ret (TrKeys ks))
      else if tool = ''create_api_key'' then
        bindE (optional_string_vec args ''scopes'') (\<lambda>scopes.
        if list_ex (\<lambda>sc. sc = ''experience:govern'') scopes \<and> \<not> ma_can_govern a
        then throw (RpcForbidden ''only governance callers can delegate experience:govern'')
        else
        bindE (key_store_available keys) (\<lambda>_.
        bindE (required_str args ''agent_id'') (\<lambda>agent.
        bindE (rpc_keys keys (create_key_with_scopes (sp_sha256 P) agent
           (Option.bind (json_get args ''description'') as_str) ttl scopes)) (\<lambda>(raw, info). ret (TrKeyCreated raw info)))))
      else if tool = ''rotate_api_key'' then
        bindE (required_str args ''key_id'') (\<lambda>i.
        bindE (rpc_keys keys (rotate_key (sp_sha256 P) i ttl)) (\<lambda>(raw, info). ret (TrKeyCreated raw info)))
      else if tool = ''revoke_api_key'' then
        bindE (required_str args ''key_id'') (\<lambda>i.
        bindE (rpc_keys keys (revoke_key i)) (\<lambda>_. ret (TrKeyRevoked i)))
      else bindE (rpc_keys keys list_public_keys) (\<lambda>ks. ret (TrPublicKeys ks)))"

definition call_tool :: "server_params \<Rightarrow> bool \<Rightarrow> string \<Rightarrow> json \<Rightarrow> mcp_auth \<Rightarrow> tool_result rpc_op" where
  "call_tool P keys name args a =
     (case find (tool_named name) [''search'', ''get'', ''project_skill''] of
        Some tool \<Rightarrow> bindE (rpc_require (ma_can_read a) ''experience:read'') (\<lambda>_. read_tool P tool args)
      | None \<Rightarrow>
     (case find (tool_named name) [''propose'', ''begin_use'', ''record_outcome'', ''register_public_key'', ''revoke_public_key''] of
        Some tool \<Rightarrow> bindE (rpc_require (ma_can_write a) ''experience:write'') (\<lambda>_. write_tool P keys tool args a)
      | None \<Rightarrow>
     (case find (tool_named name) [''promote'', ''revoke''] of
        Some tool \<Rightarrow> bindE (rpc_require (ma_can_govern a) ''experience:govern'') (\<lambda>_. govern_tool P tool args)
      | None \<Rightarrow>
     (case find (tool_named name) [''list_api_keys'', ''create_api_key'', ''rotate_api_key'', ''revoke_api_key'', ''list_public_keys''] of
        Some tool \<Rightarrow> bindE (rpc_require (ma_can_admin a) ''experience:admin'') (\<lambda>_. admin_tool P keys tool args a)
      | None \<Rightarrow> throw (UnknownTool name)))))"

section \<open>Methods\<close>

definition negotiated_protocol_version :: "json \<Rightarrow> string" where
  "negotiated_protocol_version params =
     (case Option.bind (json_get params ''protocolVersion'') as_str of
        Some v \<Rightarrow> (if v \<in> set SUPPORTED_PROTOCOL_VERSIONS then v else ''2025-06-18'')
      | None \<Rightarrow> ''2025-06-18'')"

definition granted_scopes :: "mcp_auth \<Rightarrow> string list" where
  "granted_scopes a = (if ma_can_read a then [''experience:read''] else []) @
     (if ma_can_write a then [''experience:write''] else []) @
     (if ma_can_govern a then [''experience:govern''] else []) @ (if ma_can_admin a then [''experience:admin''] else [])"

definition manifest_prompts :: "mcp_auth \<Rightarrow> string list" where
  "manifest_prompts a = (if ma_can_read a then [''oris_experience_reuse''] else []) @
     (if ma_can_read a \<and> ma_can_write a then [''oris_experience_contribute''] else []) @
     (if ma_can_read a \<and> ma_can_govern a then [''oris_experience_govern''] else [])"

definition capability_manifest :: "mcp_auth \<Rightarrow> rpc_result" where
  "capability_manifest a = RrCapabilities (granted_scopes a) (tools_for_auth a) (manifest_prompts a)"

definition prompt :: "string \<Rightarrow> json \<Rightarrow> mcp_auth \<Rightarrow> rpc_result rpc_op" where
  "prompt name args a =
     (if name = ''oris_experience_reuse'' then
        bindE (required_str args ''task'') (\<lambda>task.
        ret (RrPrompt name task (case Option.bind (json_get args ''project_id'') as_str of
           Some p \<Rightarrow> p | None \<Rightarrow> ''the current project'')))
      else if name = ''oris_experience_contribute'' then
        bindE (rpc_require (ma_can_write a) ''experience:write'') (\<lambda>_.
        bindE (required_str args ''result'') (\<lambda>result. ret (RrPrompt name result [])))
      else if name = ''oris_experience_govern'' then
        bindE (rpc_require (ma_can_govern a) ''experience:govern'') (\<lambda>_.
        bindE (required_str args ''gene_id'') (\<lambda>i. ret (RrPrompt name i [])))
      else throw (InvalidParams ''unknown prompt name''))"

definition strip_prefix :: "string \<Rightarrow> string \<Rightarrow> string option" where
  "strip_prefix p s = (if str_starts_with s p then Some (drop (length p) s) else None)"

definition read_resource :: "string \<Rightarrow> mcp_auth \<Rightarrow> rpc_result rpc_op" where
  "read_resource uri a =
     (if uri = ''oris://instructions'' then ret RrInstructions
      else if uri = ''oris://capabilities'' then ret (capability_manifest a)
      else case strip_prefix ''oris://genes/'' uri of
        Some i \<Rightarrow> bindE (rpc_exp (experience_bundle i None)) (\<lambda>b. ret (RrBundle b))
      | None \<Rightarrow> (case strip_prefix ''oris://capsules/'' uri of
          Some i \<Rightarrow> bindE (rpc_exp (get_capsule i)) (\<lambda>c. ret (RrCapsule c))
        | None \<Rightarrow> throw (InvalidParams ''unsupported resource URI'')))"

definition arguments_of :: "json \<Rightarrow> json" where
  "arguments_of params = (case json_get params ''arguments'' of Some v \<Rightarrow> v | None \<Rightarrow> JObject [])"

definition listed_prompts :: "mcp_auth \<Rightarrow> string list" where
  "listed_prompts a = [''oris_experience_reuse''] @ (if ma_can_write a then [''oris_experience_contribute''] else []) @
     (if ma_can_govern a then [''oris_experience_govern''] else [])"

definition dispatch :: "server_params \<Rightarrow> bool \<Rightarrow> string \<Rightarrow> json \<Rightarrow> mcp_auth \<Rightarrow> rpc_result rpc_op" where
  "dispatch P keys meth params a =
     (let reading = rpc_require (ma_can_read a) ''experience:read'';
          text_param = (\<lambda>k what. ok_or (Option.bind (json_get params k) as_str) (InvalidParams (''missing '' @ what))) in
      if meth = ''initialize'' then ret (RrInitialized (negotiated_protocol_version params))
      else if meth = ''ping'' then ret RrPong
      else if meth = ''tools/list'' then
        (if Option.bind (json_get params ''cursor'') as_str \<noteq> None then throw (InvalidParams ''invalid tools cursor'')
         else ret (RrTools (tools_for_auth a)))
      else if meth = ''tools/call'' then
        bindE (text_param ''name'' ''tool name'') (\<lambda>name.
        bindE (call_tool P keys name (arguments_of params) a) (\<lambda>r. ret (RrTool r)))
      else if meth = ''resources/list'' then bindE reading (\<lambda>_. ret RrResources)
      else if meth = ''resources/templates/list'' then bindE reading (\<lambda>_. ret RrResourceTemplates)
      else if meth = ''resources/read'' then
        bindE reading (\<lambda>_. bindE (text_param ''uri'' ''resource uri'') (\<lambda>uri. read_resource uri a))
      else if meth = ''prompts/list'' then bindE reading (\<lambda>_. ret (RrPrompts (listed_prompts a)))
      else if meth = ''prompts/get'' then
        bindE reading (\<lambda>_. bindE (text_param ''name'' ''prompt name'') (\<lambda>name. prompt name (arguments_of params) a))
      else throw (MethodNotFound meth))"

record rpc_response =
  rs_id :: "json option"
  rs_result :: "rpc_error + rpc_result"

text \<open>A notification, a request without an id, is dropped before it is dispatched.\<close>

definition mcp_handle :: "server_params \<Rightarrow> bool \<Rightarrow> rpc_request \<Rightarrow> mcp_auth \<Rightarrow> rpc_response option repo_op" where
  "mcp_handle P keys req a =
     (if rq_jsonrpc req \<noteq> ''2.0'' then ret (Some \<lparr>rs_id = rq_id req, rs_result = Inl InvalidVersion\<rparr>)
      else if rq_id req = None then ret None
      else tryE (dispatch P keys (rq_method req) (rq_params req) a) (\<lambda>r.
        if r = Inl RpcPanic then throw HandlerPanic
        else ret (Some \<lparr>rs_id = rq_id req, rs_result = r\<rparr>)))"

definition auth_of :: "api_key_info \<Rightarrow> mcp_auth" where
  "auth_of caller = \<lparr>ma_agent_id = ki_agent_id caller, ma_can_read = has_scope caller ''experience:read'',
     ma_can_write = has_scope caller ''experience:write'', ma_can_govern = has_scope caller ''experience:govern'',
     ma_can_admin = has_scope caller ''experience:admin''\<rparr>"

definition mcp_http :: "server_params \<Rightarrow> headers \<Rightarrow> rpc_request \<Rightarrow> rpc_response option repo_op" where
  "mcp_http P h req = bindE (verified P h) (\<lambda>caller. mcp_handle P True req (auth_of caller))"

section \<open>What is refused\<close>

lemma tool_names:
  "READ_TOOL_NAMES = map ((@) ''oris_experience_'') [''search'', ''get'', ''project_skill'']"
  "WRITE_TOOL_NAMES = map ((@) ''oris_experience_'')
     [''propose'', ''begin_use'', ''record_outcome'', ''register_public_key'', ''revoke_public_key'']"
  "GOVERN_TOOL_NAMES = map ((@) ''oris_experience_'') [''promote'', ''revoke'']"
  "ADMIN_TOOL_NAMES = map ((@) ''oris_experience_'')
     [''list_api_keys'', ''create_api_key'', ''rotate_api_key'', ''revoke_api_key'', ''list_public_keys'']"
  by (simp_all add: READ_TOOL_NAMES_def WRITE_TOOL_NAMES_def GOVERN_TOOL_NAMES_def ADMIN_TOOL_NAMES_def)

lemma tool_named_prefix:
  assumes "name = ''oris_experience_'' @ t \<or> name = ''oris.experience.'' @ t"
  shows "tool_named name = (\<lambda>tool. tool = t)"
  using assms by (auto simp: tool_named_def fun_eq_iff)

lemma find_named: "find (\<lambda>x. x = t) xs = (if t \<in> set xs then Some t else None)"
  by (induction xs) auto

lemma refused_group:
  assumes "\<not> (granted \<and> t \<in> set xs)" and "\<exists>e. other g = (Inl e, g)"
  shows "\<exists>e. (case find (\<lambda>x. x = t) xs of
     Some tool \<Rightarrow> bindE (rpc_require granted sc) (\<lambda>_. f tool) | None \<Rightarrow> other) g = (Inl e, g)"
  using assms by (auto simp: find_named rpc_require_def throw_def bindE_def)

lemma listed_iff: "''oris_experience_'' @ t \<in> set (map ((@) ''oris_experience_'') xs) \<longleftrightarrow> t \<in> set xs"
  by (simp only: set_map image_iff same_append_eq) simp

text \<open>
  C11 (safety).  A tool that is not listed for a caller is refused to it under both of its names,
  whatever the arguments, before anything is read or written.
\<close>

theorem unlisted_tools_refused:
  assumes "''oris_experience_'' @ tool \<notin> set (tools_for_auth a)"
    and "name \<in> {''oris_experience_'' @ tool, ''oris.experience.'' @ tool}"
  shows "\<exists>e. call_tool P keys name args a g = (Inl e, g)"
proof -
  have named: "tool_named name = (\<lambda>t. t = tool)" by (rule tool_named_prefix) (use assms(2) in blast)
  have "\<not> (ma_can_read a \<and> tool \<in> set [''search'', ''get'', ''project_skill''])"
    and "\<not> (ma_can_write a \<and> tool \<in> set [''propose'', ''begin_use'', ''record_outcome'', ''register_public_key'', ''revoke_public_key''])"
    and "\<not> (ma_can_govern a \<and> tool \<in> set [''promote'', ''revoke''])"
    and "\<not> (ma_can_admin a \<and> tool \<in> set [''list_api_keys'', ''create_api_key'', ''rotate_api_key'', ''revoke_api_key'', ''list_public_keys''])"
    using assms(1) unfolding tools_for_auth_def tool_names by (auto simp only: set_append Un_iff listed_iff if_True)
  moreover have "\<exists>e. (throw (UnknownTool name) :: tool_result rpc_op) g = (Inl e, g)" by (simp add: throw_def)
  ultimately show ?thesis
    unfolding call_tool_def named by (intro refused_group)
qed

lemma unlisted_tools_refused_witness:
  "\<forall>P args g. \<exists>e. call_tool P False ''oris.experience.promote'' args
     \<lparr>ma_agent_id = ''a'', ma_can_read = True, ma_can_write = True, ma_can_govern = False, ma_can_admin = False\<rparr> g = (Inl e, g)"
proof (intro allI)
  fix P args and g :: gateway
  have "''oris_experience_'' @ ''promote'' \<notin> set (tools_for_auth
      \<lparr>ma_agent_id = ''a'', ma_can_read = True, ma_can_write = True, ma_can_govern = False, ma_can_admin = False\<rparr>)"
    by (simp add: tools_for_auth_def READ_TOOL_NAMES_def WRITE_TOOL_NAMES_def)
  from unlisted_tools_refused [OF this, of "''oris.experience.promote''"]
  show "\<exists>e. call_tool P False ''oris.experience.promote'' args
     \<lparr>ma_agent_id = ''a'', ma_can_read = True, ma_can_write = True, ma_can_govern = False, ma_can_admin = False\<rparr> g = (Inl e, g)"
    by simp
qed

end
