(* ===== verification/Server.thy ===== *)
theory Server
  imports Mcp
begin

text \<open>
  \<open>server/handlers.rs\<close>, \<open>error.rs\<close> and \<open>api/request.rs\<close>: the HTTP handlers over the key
  store, the experience store, the legacy gene store, the envelope verifier and the rate
  limiter.  Each store keeps its own environment.  The lemmas show what a request without a
  key can change, what needs governance, and how any key reaches it.
\<close>

section \<open>The legacy experience endpoints\<close>

definition nonempty_parts :: "(string \<Rightarrow> string) \<Rightarrow> string \<Rightarrow> string list" where
  "nonempty_parts f text = filter (\<lambda>p. p \<noteq> []) (map (\<lambda>p. f (trim p)) (split_on CHR '','' text))"

record fetch_query =
  fq_q :: "string option"
  fq_min_confidence :: rat
  fq_limit :: nat
  fq_cursor :: "string option"

definition default_min_confidence :: rat where "default_min_confidence = 1 / 2"
definition default_limit :: nat where "default_limit = 10"

definition signals :: "(string \<Rightarrow> string) \<Rightarrow> fetch_query \<Rightarrow> string list" where
  "signals lower q = (case fq_q q of Some text \<Rightarrow> nonempty_parts lower text | None \<Rightarrow> [])"

record fetched_asset =
  fa_id :: string
  fa_signals :: "string list"
  fa_strategy :: "string list"
  fa_validation :: "string list"
  fa_confidence :: rat
  fa_quality_score :: rat
  fa_use_count :: nat
  fa_success_count :: nat
  fa_created_at :: time
  fa_contributor_id :: "string option"

definition asset_of_gene :: "gene \<Rightarrow> fetched_asset" where
  "asset_of_gene g = \<lparr>fa_id = ge_id g, fa_signals = ge_tags g, fa_strategy = text_lines (ge_template g),
     fa_validation = ge_validation_steps g, fa_confidence = ge_confidence g, fa_quality_score = ge_quality_score g,
     fa_use_count = ge_use_count g, fa_success_count = ge_success_count g, fa_created_at = ge_created_at g,
     fa_contributor_id = ge_contributor_id g\<rparr>"

definition fetch_experiences :: "server_params \<Rightarrow> headers \<Rightarrow> fetch_query \<Rightarrow> fetched_asset list repo_op" where
  "fetch_experiences P h q =
     bindE (limited h MGet ''/experience'') (\<lambda>_.
     bindE (in_genes (search_genes (sp_rnd P) (sp_lower P) \<lparr>gq_min_confidence = fq_min_confidence q, gq_limit = fq_limit q,
        gq_required_tags = [], gq_problem_description = join '','' (signals (sp_lower P) q)\<rparr>)) (\<lambda>matches.
     ret (map (asset_of_gene \<circ> gm_gene) matches)))"

text \<open>A payload that decodes as a gene is taken as it is; the fallback id of an unparsable one is fresh.\<close>

definition gene_of_v1 :: "server_params \<Rightarrow> gene_v1 \<Rightarrow> string \<Rightarrow> uuid \<Rightarrow> gene" where
  "gene_of_v1 P g contributor fresh = \<lparr>ge_id = (case sp_parse_uuid P (g_id g) of Some u \<Rightarrow> u | None \<Rightarrow> fresh),
     ge_name = g_name g, ge_description = g_description g, ge_tags = ap_required_signals (g_applicability g),
     ge_template = join [CHR 0x0A] (map ps_instruction (g_steps g)), ge_preconditions = [],
     ge_validation_steps = map vc_command_or_assertion (va_checks (g_validation g)), ge_confidence = 1 / 2,
     ge_use_count = 0, ge_success_count = 0, ge_quality_score = 1 / 2, ge_created_at = g_created_at g,
     ge_last_used_at = None, ge_last_boosted_at = None, ge_contributor_id = Some contributor\<rparr>"

definition decode_legacy_gene :: "server_params \<Rightarrow> json \<Rightarrow> string \<Rightarrow> gene repo_op" where
  "decode_legacy_gene P payload contributor =
     (case sp_decode_gene P payload of
        Some gene \<Rightarrow> ret gene
      | None \<Rightarrow>
          bindE (ok_or (sp_decode_assets P payload) EnvelopeInvalid) (\<lambda>assets.
          case assets of
            [GeneAsset g] \<Rightarrow>
              (case sp_parse_uuid P (g_id g) of
                 Some u \<Rightarrow> ret (gene_of_v1 P g contributor u)
               | None \<Rightarrow> bindE new_v4 (\<lambda>fresh. ret (gene_of_v1 P g contributor fresh)))
          | [CapsuleAsset c] \<Rightarrow> throw (InvalidContract (Inr ''legacy /experience cannot represent Capsule assets without field loss''))
          | _ \<Rightarrow> throw (InvalidContract (Inr ''legacy /experience accepts exactly one Gene asset; use /v1/experience-assets for lossless bundles''))))"

definition share_experience :: "server_params \<Rightarrow> headers \<Rightarrow> oen_envelope \<Rightarrow> (uuid \<times> string \<times> time) repo_op" where
  "share_experience P h e =
     bindE (limited h MPost ''/experience'') (\<lambda>_.
     bindE (verified P h) (\<lambda>caller.
     bindE (in_keys (get_public_key (oe_sender_id e))) (\<lambda>found.
     bindE (ok_or found SenderKeyNotFound) (\<lambda>key.
     bindE (in_oen (verify_envelope (sp_crypto P) e (ki_agent_id caller) (pk_public_key_hex key))) (\<lambda>_.
     if oe_sender_id e \<noteq> ki_agent_id caller then throw EnvelopeSenderMismatch
     else
     bindE (decode_legacy_gene P (oe_payload e) (ki_agent_id caller)) (\<lambda>gene.
     bindE (in_genes (store_upsert_gene gene)) (\<lambda>_.
     bindE utc_now (\<lambda>now. ret (ge_id gene, ''published'', now)))))))))"

section \<open>The canonical endpoints\<close>

record search_http_query =
  shq_text :: string
  shq_task_category :: "string option"
  shq_project_id :: "string option"
  shq_tenant_id :: "string option"
  shq_available_tools :: "string option"
  shq_environment :: "string option"
  shq_limit :: "nat option"
  shq_cursor :: "string option"

definition into_search_query :: "server_params \<Rightarrow> search_http_query \<Rightarrow> experience_query repo_op" where
  "into_search_query P q =
     bindE (case shq_environment q of None \<Rightarrow> ret [] | Some raw \<Rightarrow> ok_or (sp_environment P raw) QueryParseError) (\<lambda>env.
     ret \<lparr>eq_text = shq_text q, eq_task_category = shq_task_category q, eq_project_id = shq_project_id q,
          eq_tenant_id = (case shq_tenant_id q of Some t \<Rightarrow> t | None \<Rightarrow> default_tenant),
          eq_available_tools = (case shq_available_tools q of Some text \<Rightarrow> nonempty_parts (\<lambda>p. p) text | None \<Rightarrow> []),
          eq_environment = env, eq_limit = (case shq_limit q of Some n \<Rightarrow> n | None \<Rightarrow> default_search_limit),
          eq_cursor = shq_cursor q\<rparr>)"

definition search_experience_assets :: "server_params \<Rightarrow> headers \<Rightarrow> search_http_query \<Rightarrow> (experience_result list \<times> string option) repo_op" where
  "search_experience_assets P h q =
     bindE (authenticate P h ''experience:read'') (\<lambda>_.
     bindE (into_search_query P q) (\<lambda>query.
     bindE (in_exp (search_experience (sp_relevance P) (sp_to_string P) query)) (\<lambda>results.
     ret (results, (case results of [] \<Rightarrow> None | r # _ \<Rightarrow> xres_next_cursor r)))))"

definition propose_experience_asset :: "server_params \<Rightarrow> headers \<Rightarrow> experience_bundle_v1 \<Rightarrow> gene_v1 repo_op" where
  "propose_experience_asset P h b =
     bindE (authenticate P h ''experience:write'') (\<lambda>caller.
     if pv_source_agent (g_provenance (eb_gene b)) \<noteq> ki_agent_id caller
     then throw (Forbidden ''provenance.source_agent must match the API key agent'')
     else in_exp (propose b))"

definition get_experience_asset :: "server_params \<Rightarrow> headers \<Rightarrow> string \<Rightarrow> nat option \<Rightarrow> experience_bundle_v1 repo_op" where
  "get_experience_asset P h i version =
     bindE (authenticate P h ''experience:read'') (\<lambda>_. in_exp (experience_bundle i version))"

definition get_experience_skill :: "server_params \<Rightarrow> headers \<Rightarrow> string \<Rightarrow> nat option \<Rightarrow> portable_skill repo_op" where
  "get_experience_skill P h i version =
     bindE (authenticate P h ''experience:read'') (\<lambda>_. in_exp (skill_projection (sp_lower P) (sp_pretty P) i version))"

definition begin_experience_use :: "server_params \<Rightarrow> headers \<Rightarrow> string \<Rightarrow> nat \<Rightarrow> string \<Rightarrow> string \<Rightarrow> use_session repo_op" where
  "begin_experience_use P h i version run_id task_context_hash =
     bindE (authenticate P h ''experience:write'') (\<lambda>caller.
     in_exp (begin_use i version (ki_agent_id caller) run_id task_context_hash))"

definition record_experience_outcome :: "server_params \<Rightarrow> headers \<Rightarrow> string \<Rightarrow> usage_receipt_v1 \<Rightarrow> capsule_v1 option \<Rightarrow> gene_v1 repo_op" where
  "record_experience_outcome P h i receipt capsule =
     bindE (authenticate P h ''experience:write'') (\<lambda>caller.
     if ur_gene_id receipt \<noteq> i \<or> ur_agent_id receipt \<noteq> ki_agent_id caller
     then throw (Forbidden ''outcome identity does not match caller or route'')
     else in_exp (record_outcome receipt capsule))"

definition promote_experience_asset :: "server_params \<Rightarrow> headers \<Rightarrow> string \<Rightarrow> nat \<Rightarrow> experience_scope \<Rightarrow> gene_v1 repo_op" where
  "promote_experience_asset P h i version sc =
     bindE (authenticate P h ''experience:govern'') (\<lambda>_. in_exp (promote_gene i version sc True))"

definition revoke_experience_asset :: "server_params \<Rightarrow> headers \<Rightarrow> string \<Rightarrow> nat \<Rightarrow> bool \<Rightarrow> gene_v1 repo_op" where
  "revoke_experience_asset P h i version quarantine =
     bindE (authenticate P h ''experience:govern'') (\<lambda>_. in_exp (revoke_gene i version quarantine True))"

section \<open>Key management\<close>

record create_key_request =
  ckr_agent_id :: string
  ckr_ttl_days :: "int option"
  ckr_description :: "string option"
  ckr_scopes :: "string list"

definition http_list_keys :: "server_params \<Rightarrow> headers \<Rightarrow> api_key_info list repo_op" where
  "http_list_keys P h =
     bindE (limited h MGet ''/keys'') (\<lambda>_. bindE (verified P h) (\<lambda>_. in_keys list_keys))"

definition http_create_key :: "server_params \<Rightarrow> headers \<Rightarrow> create_key_request \<Rightarrow> (string \<times> api_key_info) repo_op" where
  "http_create_key P h req =
     bindE (limited h MPost ''/keys'') (\<lambda>_.
     bindE (verified P h) (\<lambda>caller.
     if list_ex (\<lambda>sc. sc = ''experience:govern'') (ckr_scopes req) \<and> \<not> has_scope caller ''experience:govern''
     then throw (Forbidden ''only governance keys can delegate governance'')
     else if ckr_scopes req = []
     then in_keys (create_key (sp_sha256 P) (ckr_agent_id req) (ckr_description req) (ckr_ttl_days req))
     else in_keys (create_key_with_scopes (sp_sha256 P) (ckr_agent_id req) (ckr_description req) (ckr_ttl_days req) (ckr_scopes req))))"

definition http_revoke_key :: "server_params \<Rightarrow> headers \<Rightarrow> string \<Rightarrow> unit repo_op" where
  "http_revoke_key P h key_id =
     bindE (limited h MDelete ''/keys'') (\<lambda>_. bindE (verified P h) (\<lambda>_. in_keys (revoke_key key_id)))"

definition http_rotate_key :: "server_params \<Rightarrow> headers \<Rightarrow> string \<Rightarrow> int option \<Rightarrow> (string \<times> api_key_info \<times> time) repo_op" where
  "http_rotate_key P h key_id ttl_days =
     bindE (limited h MPost ''/keys'') (\<lambda>_.
     bindE (verified P h) (\<lambda>_.
     bindE (in_keys (rotate_key (sp_sha256 P) key_id ttl_days)) (\<lambda>(raw, info).
     bindE utc_now (\<lambda>now. ret (raw, info, now)))))"

text \<open>\<open>PublicKeyInfo\<close> leaves the key itself out.\<close>

definition http_list_public_keys :: "headers \<Rightarrow> (string \<times> int \<times> public_key_status \<times> time) list repo_op" where
  "http_list_public_keys h =
     bindE (limited h MGet ''/public-keys'') (\<lambda>_.
     bindE (api_key_of h) (\<lambda>_.
     bindE (in_keys list_public_keys) (\<lambda>keys.
     ret (map (\<lambda>k. (pk_sender_id k, pk_version k, pk_status k, pk_created_at k)) keys))))"

definition http_register_public_key :: "server_params \<Rightarrow> headers \<Rightarrow> string \<Rightarrow> string \<Rightarrow> public_key repo_op" where
  "http_register_public_key P h sender_id key_hex =
     bindE (limited h MPost ''/public-keys'') (\<lambda>_.
     bindE (verified P h) (\<lambda>caller.
     if sender_id \<noteq> ki_agent_id caller then throw EnvelopeSenderMismatch
     else in_keys (register_public_key sender_id key_hex)))"

definition http_revoke_public_key :: "server_params \<Rightarrow> headers \<Rightarrow> string \<Rightarrow> unit repo_op" where
  "http_revoke_public_key P h sender_id =
     bindE (limited h MDelete ''/public-keys'') (\<lambda>_.
     bindE (verified P h) (\<lambda>caller.
     if sender_id \<noteq> ki_agent_id caller then throw EnvelopeSenderMismatch
     else in_keys (revoke_public_key sender_id)))"

section \<open>The router\<close>

datatype http_request =
    RqFetch fetch_query
  | RqShare oen_envelope
  | RqSearch search_http_query
  | RqPropose experience_bundle_v1
  | RqAsset string "nat option"
  | RqSkill string "nat option"
  | RqBeginUse string nat string string
  | RqOutcome string usage_receipt_v1 "capsule_v1 option"
  | RqPromote string nat experience_scope
  | RqRevoke string nat bool
  | RqListKeys
  | RqCreateKey create_key_request
  | RqRevokeKey string
  | RqRotateKey string "int option"
  | RqListPublicKeys
  | RqRegisterPublicKey string string
  | RqRevokePublicKey string
  | RqMcp rpc_request
  | RqHealth

definition void :: "'a repo_op \<Rightarrow> unit repo_op" where
  "void m = bindE m (\<lambda>_. ret ())"

fun handle :: "server_params \<Rightarrow> headers \<Rightarrow> http_request \<Rightarrow> unit repo_op" where
  "handle P h (RqFetch q) = void (fetch_experiences P h q)"
| "handle P h (RqShare e) = void (share_experience P h e)"
| "handle P h (RqSearch q) = void (search_experience_assets P h q)"
| "handle P h (RqPropose b) = void (propose_experience_asset P h b)"
| "handle P h (RqAsset i v) = void (get_experience_asset P h i v)"
| "handle P h (RqSkill i v) = void (get_experience_skill P h i v)"
| "handle P h (RqBeginUse i v run ctx) = void (begin_experience_use P h i v run ctx)"
| "handle P h (RqOutcome i r c) = void (record_experience_outcome P h i r c)"
| "handle P h (RqPromote i v sc) = void (promote_experience_asset P h i v sc)"
| "handle P h (RqRevoke i v quarantine) = void (revoke_experience_asset P h i v quarantine)"
| "handle P h RqListKeys = void (http_list_keys P h)"
| "handle P h (RqCreateKey r) = void (http_create_key P h r)"
| "handle P h (RqRevokeKey i) = void (http_revoke_key P h i)"
| "handle P h (RqRotateKey i ttl) = void (http_rotate_key P h i ttl)"
| "handle P h RqListPublicKeys = void (http_list_public_keys h)"
| "handle P h (RqRegisterPublicKey sender key) = void (http_register_public_key P h sender key)"
| "handle P h (RqRevokePublicKey sender) = void (http_revoke_public_key P h sender)"
| "handle P h (RqMcp r) = void (mcp_http P h r)"
| "handle P h RqHealth = ret ()"

lemma keeps_void: "keeps Q m \<Longrightarrow> keeps Q (void m)"
  unfolding void_def by (intro keep_intros)

section \<open>Requests without a key\<close>

text \<open>Everything that is stored: the tables of the three databases.\<close>

definition stored :: "gateway \<Rightarrow> (gene_row list \<times> capsule_row list \<times> receipt_row list \<times> session_row list) \<times>
    (gene list \<times> (uuid \<times> string) list \<times> gene_capsule list) \<times>
    (api_key_row list \<times> (string \<times> string) list \<times> public_key_row list)" where
  "stored g = ((exp_genes (gw_exp g), exp_capsules (gw_exp g), exp_receipts (gw_exp g), exp_sessions (gw_exp g)),
     (gs_genes (gw_genes g), gs_tags (gw_genes g), gs_capsules (gw_genes g)),
     (api_keys (gw_keys g), api_key_scopes (gw_keys g), public_keys (gw_keys g)))"

definition unknown_key :: "server_params \<Rightarrow> headers \<Rightarrow> gateway \<Rightarrow> bool" where
  "unknown_key P h g \<longleftrightarrow> (\<forall>raw. header_str h ''x-api-key'' = Some raw \<longrightarrow>
     (\<forall>r \<in> set (api_keys (gw_keys g)). k_api_key_hash r \<noteq> sp_sha256 P raw))"

text \<open>\<open>m\<close> ends in an error and keeps \<open>Q\<close>.\<close>

definition refuses :: "('s \<Rightarrow> bool) \<Rightarrow> ('s, 'e, 'a) op \<Rightarrow> bool" where
  "refuses Q m \<longleftrightarrow> (\<forall>s r t. Q s \<longrightarrow> m s = (r, t) \<longrightarrow> (\<exists>e. r = Inl e) \<and> Q t)"

lemma refusesI: "(\<And>s r t. Q s \<Longrightarrow> m s = (r, t) \<Longrightarrow> (\<exists>e. r = Inl e) \<and> Q t) \<Longrightarrow> refuses Q m"
  unfolding refuses_def by blast

lemma refusesD: "refuses Q m \<Longrightarrow> Q s \<Longrightarrow> m s = (r, t) \<Longrightarrow> (\<exists>e. r = Inl e) \<and> Q t"
  unfolding refuses_def by blast

lemma refuses_first: "refuses Q m \<Longrightarrow> refuses Q (bindE m f)"
  by (rule refusesI, erule bindE_E) (auto dest: refusesD)

lemma refuses_later: "keeps Q m \<Longrightarrow> (\<And>x. refuses Q (f x)) \<Longrightarrow> refuses Q (bindE m f)"
  by (rule refusesI, erule bindE_E) (blast dest: refusesD keepsD)+

lemma refuses_void: "refuses Q m \<Longrightarrow> refuses Q (void m)"
  unfolding void_def by (rule refuses_first)

definition public_read :: "http_request \<Rightarrow> bool" where
  "public_read req \<longleftrightarrow> (case req of RqFetch q \<Rightarrow> True | RqListPublicKeys \<Rightarrow> True | RqHealth \<Rightarrow> True | _ \<Rightarrow> False)"

text \<open>Reading a state that is kept whatever the clocks and limiters do.\<close>

definition unkeyed_at :: "server_params \<Rightarrow> headers \<Rightarrow> gateway \<Rightarrow> gateway \<Rightarrow> bool" where
  "unkeyed_at P h g0 g \<longleftrightarrow> unknown_key P h g \<and> stored g = stored g0"

lemma unkeyed_frame [simp]:
  "unkeyed_at P h g0 (g\<lparr>tick := t\<rparr>) = unkeyed_at P h g0 g"
  "unkeyed_at P h g0 (g\<lparr>gw_limits := l\<rparr>) = unkeyed_at P h g0 g"
  "unkeyed_at P h g0 (g\<lparr>gw_keys := (gw_keys g)\<lparr>tick := t\<rparr>\<rparr>) = unkeyed_at P h g0 g"
  by (simp_all add: unkeyed_at_def stored_def unknown_key_def)

lemma verified_refuses: "refuses (unkeyed_at P h g0) (verified P h)"
proof (rule refusesI)
  fix g r g' assume at: "unkeyed_at P h g0 g" and run: "verified P h g = (r, g')"
  show "(\<exists>e. r = Inl e) \<and> unkeyed_at P h g0 g'"
  proof (cases "header_str h ''x-api-key''")
    case None
    then show ?thesis using at run by (auto simp: verified_def api_key_of_def ok_or_def throw_def bindE_def)
  next
    case (Some raw)
    then have "find (\<lambda>r. k_api_key_hash r = sp_sha256 P raw) (api_keys (gw_keys g)) = None"
      using at by (simp add: unkeyed_at_def unknown_key_def find_None_iff)
    then have "verify_key (sp_sha256 P) raw (gw_keys g) = (Inl InvalidKey, (gw_keys g)\<lparr>tick := Suc (tick (gw_keys g))\<rparr>)"
      by (simp add: verify_key_def query_key_def bindE_def map_err_def exec_def)
    then show ?thesis using at run Some by (auto simp: verified_def api_key_of_def ok_or_def in_keys_def)
  qed
qed

lemma keeps_unkeyed_limited: "keeps (unkeyed_at P h g0) (limited h m path)"
  by (rule keeps_limited) simp_all

text \<open>Every endpoint but the public reads verifies the key before it touches a store.\<close>

lemma keyed_handlers_refuse:
  assumes "\<not> public_read req"
  shows "refuses (unkeyed_at P h g0) (handle P h req)"
proof -
  have auth: "refuses (unkeyed_at P h g0) (authenticate P h sc)" for sc
    unfolding authenticate_def by (rule refuses_first [OF verified_refuses])
  note rules = refuses_void refuses_first [OF auth] refuses_first [OF verified_refuses]
    refuses_later [OF keeps_unkeyed_limited]
  note defs = share_experience_def search_experience_assets_def propose_experience_asset_def get_experience_asset_def
    get_experience_skill_def begin_experience_use_def record_experience_outcome_def promote_experience_asset_def
    revoke_experience_asset_def http_list_keys_def http_create_key_def http_revoke_key_def http_rotate_key_def
    http_register_public_key_def http_revoke_public_key_def mcp_http_def
  show ?thesis
    using assms by (cases req) (simp_all only: handle.simps defs, auto simp: public_read_def intro!: rules)
qed

text \<open>
  C10 (safety).  A request without the key of a stored row changes nothing that is stored, and
  all but the three public endpoints refuse it.
\<close>

theorem unkeyed_requests_change_nothing:
  assumes "unknown_key P h g" and "handle P h req g = (r, g')"
  shows "stored g' = stored g \<and> (public_read req \<or> (\<exists>e. r = Inl e))"
proof -
  have start: "unkeyed_at P h g g" using assms(1) by (simp add: unkeyed_at_def)
  show ?thesis
  proof (cases "public_read req")
    case False
    then show ?thesis using refusesD [OF keyed_handlers_refuse start assms(2)] by (simp add: unkeyed_at_def)
  next
    case True
    have genes: "keeps (unkeyed_at P h g) (in_genes (search_genes rnd lower q))" for rnd lower q
    proof (rule keeps_in_genes)
      fix w r k assume at: "unkeyed_at P h g w" and run: "search_genes rnd lower q (gw_genes w) = (r, k)"
      have "keeps (\<lambda>k. gs_genes k = gs_genes (gw_genes w) \<and> gs_tags k = gs_tags (gw_genes w) \<and>
          gs_capsules k = gs_capsules (gw_genes w)) (search_genes rnd lower q)"
        unfolding search_genes_def by (intro keep_intros) simp_all
      from keepsD [OF this _ run] show "unkeyed_at P h g (w\<lparr>gw_genes := k\<rparr>)"
        using at by (simp add: unkeyed_at_def stored_def unknown_key_def)
    qed
    have keys: "keeps (unkeyed_at P h g) (in_keys list_public_keys)"
    proof (rule keeps_in_keys)
      fix w r k assume at: "unkeyed_at P h g w" and run: "list_public_keys (gw_keys w) = (r, k)"
      have "k = (gw_keys w)\<lparr>tick := Suc (tick (gw_keys w))\<rparr>"
        using run by (auto simp: list_public_keys_def map_err_def exec_def gets_def split: if_splits)
      then show "unkeyed_at P h g (w\<lparr>gw_keys := k\<rparr>)" using at by simp
    qed
    have "keeps (unkeyed_at P h g) (handle P h req)"
      using True
      by (cases req) (auto simp: public_read_def fetch_experiences_def http_list_public_keys_def api_key_of_def
          intro!: keep_intros keeps_void keeps_unkeyed_limited genes keys)
    from keepsD [OF this start assms(2)] show ?thesis using True by (simp add: unkeyed_at_def)
  qed
qed

section \<open>Governance\<close>

lemma verify_key_InrD:
  assumes "verify_key h raw s = (Inr info, t)"
  shows "\<exists>r \<in> set (api_keys s). k_api_key_hash r = h raw \<and> k_status r \<noteq> ''Revoked'' \<and> k_status r \<noteq> ''Expired'' \<and>
     ki_agent_id info = k_agent_id r \<and> ki_scopes info = scopes_of s (k_key_id r)"
  using assms
  by (auto simp: verify_key_def query_key_def update_key_rows_def utc_now_def with_scopes_run map_row_to_api_key_def
      info_of_api_key_def parse_key_status_def Let_def throw_def ret_def
      elim!: bindE_InrE exec_InrE dest!: find_Some_in_set split: if_splits option.splits key_status.splits intro!: rev_bexI)

lemma verified_InrD:
  assumes "verified P h g = (Inr info, g')"
  obtains raw r where "header_str h ''x-api-key'' = Some raw" and "r \<in> set (api_keys (gw_keys g))"
    and "k_api_key_hash r = sp_sha256 P raw" and "k_status r \<noteq> ''Revoked''" and "ki_agent_id info = k_agent_id r"
    and "ki_scopes info = scopes_of (gw_keys g) (k_key_id r)" and "gw_exp g' = gw_exp g"
proof -
  from assms obtain raw k where raw: "header_str h ''x-api-key'' = Some raw"
    "verify_key (sp_sha256 P) raw (gw_keys g) = (Inr info, k)" "g' = g\<lparr>gw_keys := k\<rparr>"
    by (auto simp: verified_def api_key_of_def ok_or_def throw_def in_keys_def bindE_def ret_def
        split: option.splits prod.splits sum.splits)
  then show thesis using that verify_key_InrD [OF raw(2)] by auto
qed

text \<open>The key of the request is stored for no scope of governance.\<close>

definition not_governing :: "server_params \<Rightarrow> headers \<Rightarrow> gateway \<Rightarrow> bool" where
  "not_governing P h g \<longleftrightarrow> (\<forall>raw r. header_str h ''x-api-key'' = Some raw \<longrightarrow> r \<in> set (api_keys (gw_keys g)) \<longrightarrow>
     k_api_key_hash r = sp_sha256 P raw \<longrightarrow>
     set (scopes_of (gw_keys g) (k_key_id r)) \<inter> {''experience:govern'', ''*''} = {})"

lemma verified_keeps_exp: "verified P h g = (r, g') \<Longrightarrow> gw_exp g' = gw_exp g"
  by (auto simp: verified_def api_key_of_def ok_or_def throw_def in_keys_def bindE_def ret_def
      split: option.splits prod.splits sum.splits)

lemma verified_not_governing:
  assumes "not_governing P h g" and "verified P h g = (Inr info, g')"
  shows "\<not> has_scope info ''experience:govern''"
proof -
  obtain raw k where "header_str h ''x-api-key'' = Some raw" and "k \<in> set (api_keys (gw_keys g))"
    and "k_api_key_hash k = sp_sha256 P raw" and scopes: "ki_scopes info = scopes_of (gw_keys g) (k_key_id k)"
    by (rule verified_InrD [OF assms(2)])
  then have "set (scopes_of (gw_keys g) (k_key_id k)) \<inter> {''experience:govern'', ''*''} = {}"
    using assms(1) unfolding not_governing_def by blast
  then show ?thesis by (simp only: has_scope_def scopes list_ex_iff) blast
qed

lemma govern_refused:
  assumes "not_governing P h g" and "bindE (authenticate P h ''experience:govern'') f g = (r, g')"
  shows "(\<exists>e. r = Inl e) \<and> gw_exp g' = gw_exp g"
proof (cases "verified P h g")
  case (Pair res g1)
  show ?thesis
  proof (cases res)
    case (Inl e)
    then show ?thesis using Pair assms(2) verified_keeps_exp by (fastforce simp: authenticate_def bindE_def)
  next
    case (Inr info)
    with verified_not_governing [OF assms(1) Pair [unfolded Inr]] verified_keeps_exp [OF Pair] show ?thesis
      using Pair assms(2) by (auto simp: authenticate_def bindE_def throw_def)
  qed
qed

text \<open>A law of the experience store is kept by every request but a promotion, here first over MCP.\<close>

lemma keeps_exp_others [keep_intros]:
  "keeps (\<lambda>g. P0 (gw_exp g)) (in_keys m1)" "keeps (\<lambda>g. P0 (gw_exp g)) (in_genes m2)"
  "keeps (\<lambda>g. P0 (gw_exp g)) (in_oen m3)" "keeps (\<lambda>g. P0 (gw_exp g)) (limited h m path)"
  "keeps (\<lambda>g. P0 (gw_exp g)) (api_key_of h)"
proof -
  show "keeps (\<lambda>g. P0 (gw_exp g)) (in_keys m1)" by (rule keeps_in_keys) simp
  show "keeps (\<lambda>g. P0 (gw_exp g)) (in_genes m2)" by (rule keeps_in_genes) simp
  show "keeps (\<lambda>g. P0 (gw_exp g)) (in_oen m3)" by (rule keeps_in_oen) simp
  show "keeps (\<lambda>g. P0 (gw_exp g)) (limited h m path)" by (rule keeps_limited) simp_all
  show "keeps (\<lambda>g. P0 (gw_exp g)) (api_key_of h)" unfolding api_key_of_def by (rule keeps_ok_or)
qed

lemma keeps_exp_auth [keep_intros]:
  "keeps (\<lambda>g. P0 (gw_exp g)) (verified P h)" "keeps (\<lambda>g. P0 (gw_exp g)) (authenticate P h sc)"
  unfolding authenticate_def verified_def by (intro keep_intros)+

lemma keeps_exp_store: "keeps P0 m \<Longrightarrow> keeps (\<lambda>g. P0 (gw_exp g)) (in_exp m)"
  by (rule keeps_in_exp) (auto dest: keepsD)

lemma keeps_exp_search:
  "store_law P0 ok \<Longrightarrow> keeps P0 (search_experience rel to_string q)"
  unfolding search_experience_def by (intro keep_intros store_law.keeps_statement)

lemma keeps_exp_skill: "store_law P0 ok \<Longrightarrow> keeps P0 (skill_projection lower pretty i v)"
  unfolding skill_projection_def by (intro keep_intros store_law.experience_bundle)

lemma keeps_rpc [keep_intros]:
  "keeps P0 m \<Longrightarrow> keeps (\<lambda>g. P0 (gw_exp g)) (rpc_exp m)" "keeps (\<lambda>g. P0 (gw_exp g)) (rpc_keys keys k)"
  "keeps Q (rpc_require granted sc)" "keeps Q (required_str v f)" "keeps Q (required_u32 v f)" "keeps Q (decoded d)"
  unfolding rpc_exp_def rpc_keys_def rpc_require_def required_str_def required_u32_def decoded_def
  by (intro keep_intros keeps_exp_store | assumption)+

lemma keeps_strings [keep_intros]: "keeps Q (strings_of f xs)" "keeps Q (optional_string_vec v f)"
proof -
  show "keeps Q (strings_of f xs)" for xs by (induction xs) (auto intro!: keep_intros)
  then show "keeps Q (optional_string_vec v f)" unfolding optional_string_vec_def by (intro keep_intros)
qed

lemma keeps_store_law_mcp:
  assumes law: "store_law P0 ok" and low: "\<not> ma_can_govern a"
  shows "keeps (\<lambda>g. P0 (gw_exp g)) (mcp_handle P keys req a)"
proof -
  let ?K = "\<lambda>m. keeps (\<lambda>g. P0 (gw_exp g)) m"
  note laws = store_law.propose [OF law] store_law.record_outcome [OF law] store_law.begin_use [OF law]
    store_law.experience_bundle [OF law] keeps_exp_search [OF law] keeps_exp_skill [OF law]
  have capsule: "keeps P0 (get_capsule i)" for i
    unfolding get_capsule_def by (intro keep_intros store_law.keeps_statement [OF law])
  have "?K (read_tool P tool args)" for tool args
    unfolding read_tool_def Let_def by (intro keep_intros laws)
  moreover have "?K (write_tool P keys tool args a)" for tool args
    unfolding write_tool_def key_store_available_def by (intro keep_intros laws)
  moreover have "?K (admin_tool P keys tool args a)" for tool args
    unfolding admin_tool_def key_store_available_def Let_def split_def by (intro keep_intros)
  moreover have refused: "bindE (rpc_require (ma_can_govern a) sc) f = throw (RpcForbidden (''missing scope '' @ sc))"
    for sc and f :: "unit \<Rightarrow> tool_result rpc_op"
    using low by (simp add: rpc_require_def)
  ultimately have "?K (call_tool P keys name args a)" for name args
    unfolding call_tool_def refused by (intro keep_intros)
  moreover have "?K (read_resource uri a)" for uri
    unfolding read_resource_def by (intro keep_intros laws capsule)
  moreover have "?K (prompt name args a)" for name args
    unfolding prompt_def by (intro keep_intros)
  ultimately have "?K (dispatch P keys meth params a)" for meth params
    unfolding dispatch_def Let_def by (intro keep_intros)
  then show ?thesis unfolding mcp_handle_def by (intro keep_intros)
qed

lemma keeps_store_law_handle:
  assumes law: "store_law P0 ok" and req: "\<And>i v sc. req \<noteq> RqPromote i v sc" "\<And>r. req \<noteq> RqMcp r"
  shows "keeps (\<lambda>g. P0 (gw_exp g)) (handle P h req)"
proof -
  note laws = store_law.propose [OF law] store_law.record_outcome [OF law] store_law.revoke_gene [OF law]
    store_law.begin_use [OF law] store_law.experience_bundle [OF law] keeps_exp_search [OF law] keeps_exp_skill [OF law]
  note defs = fetch_experiences_def share_experience_def search_experience_assets_def propose_experience_asset_def
    get_experience_asset_def get_experience_skill_def begin_experience_use_def record_experience_outcome_def
    revoke_experience_asset_def http_list_keys_def http_create_key_def http_revoke_key_def http_rotate_key_def
    http_list_public_keys_def http_register_public_key_def http_revoke_public_key_def
  have decode: "keeps (\<lambda>g. P0 (gw_exp g)) (decode_legacy_gene P payload contributor)" for payload contributor
  proof -
    have "keeps (\<lambda>g. P0 (gw_exp g)) (case assets of
        [GeneAsset g] \<Rightarrow> (case sp_parse_uuid P (g_id g) of
           Some u \<Rightarrow> ret (gene_of_v1 P g contributor u)
         | None \<Rightarrow> bindE new_v4 (\<lambda>fresh. ret (gene_of_v1 P g contributor fresh)))
      | [CapsuleAsset c] \<Rightarrow> throw e1 | _ \<Rightarrow> throw e2)" for assets e1 e2
      by (auto split: list.split network_asset.split option.split intro!: keep_intros)
    then show ?thesis unfolding decode_legacy_gene_def by (intro keep_intros)
  qed
  have query: "keeps (\<lambda>g. P0 (gw_exp g)) (into_search_query P q)" for q
    unfolding into_search_query_def by (intro keep_intros)
  show ?thesis
    using req by (cases req) (simp_all only: handle.simps defs,
      auto intro!: keep_intros keeps_void keeps_exp_store laws decode query simp: split_beta)
qed

text \<open>
  C9 (safety).  Over HTTP only a key with the scope of governance shares a gene beyond the
  tenant: any request with another key leaves every stored gene narrow, whatever it asks for.
\<close>

theorem sharing_needs_governance:
  assumes "all_narrow (gw_exp g)" and "not_governing P h g" and "handle P h req g = (r, g')"
  shows "all_narrow (gw_exp g')"
proof (cases req)
  case (RqPromote i v sc)
  obtain r2 g2 where run: "promote_experience_asset P h i v sc g = (r2, g2)" by fastforce
  from govern_refused [OF assms(2) run [unfolded promote_experience_asset_def]]
  show ?thesis using assms(1,3) run by (auto simp: RqPromote void_def bindE_def)
next
  case (RqMcp m)
  obtain r2 g2 where run: "mcp_http P h m g = (r2, g2)" by fastforce
  have "all_narrow (gw_exp g2)"
    using run [unfolded mcp_http_def]
  proof (cases rule: bindE_E)
    case (err e)
    then show ?thesis using assms(1) verified_keeps_exp by metis
  next
    case (step caller g1)
    have "\<not> ma_can_govern (auth_of caller)"
      using verified_not_governing [OF assms(2) step(1)] by (simp add: auth_of_def)
    from keepsD [OF keeps_store_law_mcp [OF sharing.store_law_axioms this] _ step(2)] show ?thesis
      using assms(1) verified_keeps_exp [OF step(1)] by simp
  qed
  then show ?thesis using assms(3) run by (auto simp: RqMcp void_def bindE_def ret_def split: sum.splits)
qed (rule keepsD [OF keeps_store_law_handle [OF sharing.store_law_axioms] assms(1,3)]; simp)+

section \<open>Escalation by any key\<close>

lemma limited_InrD:
  assumes "limited h m path g = (Inr u, g')"
  shows "gw_keys g' = gw_keys g"
  using assms
  by (auto simp: limited_def check_rate_limit_def utc_now_def split: prod.splits sum.splits elim!: bindE_InrE)

lemma in_keys_InrD:
  "in_keys m g = (Inr x, g') \<Longrightarrow> m (gw_keys g) = (Inr x, gw_keys g')"
  by (auto simp: in_keys_def split: prod.splits sum.splits)

text \<open>A verification only stamps the row it found.\<close>

lemma verify_key_stamps:
  assumes "verify_key h raw s = (Inr info, t)"
  shows "map (\<lambda>r. (k_key_id r, k_agent_id r)) (api_keys t) = map (\<lambda>r. (k_key_id r, k_agent_id r)) (api_keys s) \<and>
     api_key_scopes t = api_key_scopes s"
proof -
  have "map (\<lambda>r. (k_key_id r, k_agent_id r)) (sql_update p (\<lambda>r. r\<lparr>k_last_used_at := x\<rparr>) rows)
      = map (\<lambda>r. (k_key_id r, k_agent_id r)) rows" for p x rows
    by (simp add: sql_update_def)
  with assms show ?thesis
    by (auto simp: verify_key_def query_key_def update_key_rows_def utc_now_def with_scopes_run Let_def throw_def ret_def
        elim!: bindE_InrE exec_InrE split: if_splits option.splits key_status.splits)
qed

lemma verified_keysD:
  assumes "verified P h g = (Inr info, g')"
  shows "map (\<lambda>r. (k_key_id r, k_agent_id r)) (api_keys (gw_keys g')) = map (\<lambda>r. (k_key_id r, k_agent_id r)) (api_keys (gw_keys g)) \<and>
     api_key_scopes (gw_keys g') = api_key_scopes (gw_keys g)"
proof (cases "header_str h ''x-api-key''")
  case None
  then show ?thesis using assms by (simp add: verified_def api_key_of_def ok_or_def throw_def bindE_def)
next
  case (Some raw)
  then have "in_keys (verify_key (sp_sha256 P) raw) g = (Inr info, g')"
    using assms by (simp add: verified_def api_key_of_def ok_or_def)
  from verify_key_stamps [OF in_keys_InrD [OF this]] show ?thesis .
qed

text \<open>In a store without failing statements the creation of a fresh key succeeds.\<close>

lemma insert_scopes_runs:
  "(\<And>n. \<not> fails s n) \<Longrightarrow> \<exists>t. insert_scopes k scs s = (Inr (), t) \<and> fails t = fails s"
proof (induction scs arbitrary: s)
  case (Cons sc scs)
  then show ?case by (auto simp: bindE_def map_err_def exec_def modify_def)
qed (simp add: ret_def)

lemma create_key_runs:
  assumes "\<And>n. \<not> fails s n" and "uuids s (tick s) \<notin> k_key_id ` set (api_keys s)"
    and "h (raw_key_of (uuids s (Suc (tick s)))) \<notin> k_api_key_hash ` set (api_keys s)"
  shows "\<exists>raw info t. create_key h a d None s = (Inr (raw, info), t) \<and> fails t = fails s"
proof -
  let ?row = "new_key_row (uuids s (tick s)) (h (raw_key_of (uuids s (Suc (tick s))))) a d (clock s (Suc (Suc (tick s)))) None"
  let ?s = "s\<lparr>tick := Suc (Suc (Suc (Suc (tick s)))), api_keys := api_keys s @ [?row]\<rparr>"
  obtain t where "insert_scopes (uuids s (tick s)) default_scopes ?s = (Inr (), t)" "fails t = fails s"
    using insert_scopes_runs [of ?s "uuids s (tick s)" default_scopes] assms(1) by auto
  then show ?thesis
    using assms by (simp add: create_key_def new_v4_def utc_now_def insert_key_row_def exec_def bindE_def map_err_def
        ret_def Let_def with_scopes_run info_of_api_key_def)
qed

lemma create_key_with_scopes_runs:
  assumes "\<And>n. \<not> fails s n" and "uuids s (tick s) \<notin> k_key_id ` set (api_keys s)"
    and "h (raw_key_of (uuids s (Suc (tick s)))) \<notin> k_api_key_hash ` set (api_keys s)"
  shows "\<exists>raw info t. create_key_with_scopes h a d None scopes s = (Inr (raw, info), t) \<and> fails t = fails s"
proof -
  obtain raw info t where run: "create_key h a d None s = (Inr (raw, info), t)" and ok: "fails t = fails s"
    using create_key_runs [of s h, OF assms(1-3)] by blast
  let ?t = "t\<lparr>tick := Suc (tick t), api_key_scopes := filter (\<lambda>(k, sc). k \<noteq> ki_key_id info) (api_key_scopes t)\<rparr>"
  obtain t' where "insert_scopes (ki_key_id info) scopes ?t = (Inr (), t')" "fails t' = fails s"
    using insert_scopes_runs [of ?t "ki_key_id info" scopes] assms(1) ok by auto
  then show ?thesis
    using run assms(1) ok
    by (simp add: create_key_with_scopes_def bindE_def map_err_def exec_def modify_def ret_def with_scopes_run)
qed

lemma verify_key_pairs:
  assumes "verify_key h raw s = (Inr info, t)"
  shows "fails t = fails s \<and> uuids t = uuids s \<and>
     map (\<lambda>r. (k_key_id r, k_api_key_hash r)) (api_keys t) = map (\<lambda>r. (k_key_id r, k_api_key_hash r)) (api_keys s)"
proof -
  have "map (\<lambda>r. (k_key_id r, k_api_key_hash r)) (sql_update p (\<lambda>r. r\<lparr>k_last_used_at := x\<rparr>) rows)
      = map (\<lambda>r. (k_key_id r, k_api_key_hash r)) rows" for p x rows
    by (simp add: sql_update_def)
  with assms show ?thesis
    by (auto simp: verify_key_def query_key_def update_key_rows_def utc_now_def with_scopes_run Let_def throw_def ret_def
        elim!: bindE_InrE exec_InrE split: if_splits option.splits key_status.splits)
qed

lemma verify_key_frame:
  assumes "verify_key h raw s = (Inr info, t)"
  shows "fails t = fails s \<and> uuids t = uuids s \<and> k_key_id ` set (api_keys t) = k_key_id ` set (api_keys s) \<and>
     k_api_key_hash ` set (api_keys t) = k_api_key_hash ` set (api_keys s)"
proof -
  have "k_key_id ` set rows = fst ` set (map (\<lambda>r. (k_key_id r, k_api_key_hash r)) rows)"
    "k_api_key_hash ` set rows = snd ` set (map (\<lambda>r. (k_key_id r, k_api_key_hash r)) rows)" for rows
    by (simp_all add: image_image)
  then show ?thesis
    using verify_key_pairs [OF assms] by metis
qed

lemma verified_frame:
  assumes "verified P h g = (Inr info, g')"
  shows "fails (gw_keys g') = fails (gw_keys g) \<and> uuids (gw_keys g') = uuids (gw_keys g) \<and>
     k_key_id ` set (api_keys (gw_keys g')) = k_key_id ` set (api_keys (gw_keys g)) \<and>
     k_api_key_hash ` set (api_keys (gw_keys g')) = k_api_key_hash ` set (api_keys (gw_keys g))"
proof (cases "header_str h ''x-api-key''")
  case None
  then show ?thesis using assms by (simp add: verified_def api_key_of_def ok_or_def throw_def bindE_def)
next
  case (Some raw)
  then have "in_keys (verify_key (sp_sha256 P) raw) g = (Inr info, g')"
    using assms by (simp add: verified_def api_key_of_def ok_or_def)
  from verify_key_frame [OF in_keys_InrD [OF this]] show ?thesis .
qed

text \<open>
  C32 (safety).  Creating a key guards the scope \<open>experience:govern\<close> only by name.  A caller
  whose request passes the rate limit and whose key verifies, but does not govern, is refused a key
  with that scope; the same caller asking for the scope \<open>*\<close> (without a lifetime) gets a secret,
  and that secret verifies as a key that governs, for the agent it named.  The key store is one
  without failing statements, whose random UUIDs are not those of stored keys.
\<close>

theorem wildcard_key_escalates:
  assumes "limited h MPost ''/keys'' g = (Inr u, g1)" and "verified P h g1 = (Inr caller, g2)"
    and "\<not> has_scope caller ''experience:govern''" and "ckr_ttl_days req = None"
    and "\<And>n. \<not> fails (gw_keys g) n"
    and "\<And>n. uuids (gw_keys g) n \<notin> k_key_id ` set (api_keys (gw_keys g))"
    and "\<And>n. sp_sha256 P (raw_key_of (uuids (gw_keys g) n)) \<notin> k_api_key_hash ` set (api_keys (gw_keys g))"
  shows "fst (http_create_key P h (req\<lparr>ckr_scopes := [''experience:govern'']\<rparr>) g) =
       Inl (Forbidden ''only governance keys can delegate governance'') \<and>
     (\<exists>raw info g' info'. http_create_key P h (req\<lparr>ckr_scopes := [''*'']\<rparr>) g = (Inr (raw, info), g') \<and>
       fst (verify_key (sp_sha256 P) raw (gw_keys g')) = Inr info' \<and>
       has_scope info' ''experience:govern'' \<and> ki_agent_id info' = ckr_agent_id req)"
proof
  show "fst (http_create_key P h (req\<lparr>ckr_scopes := [''experience:govern'']\<rparr>) g) =
      Inl (Forbidden ''only governance keys can delegate governance'')"
    using assms(1-3) by (simp add: http_create_key_def bindE_def throw_def)
  let ?create = "create_key_with_scopes (sp_sha256 P) (ckr_agent_id req) (ckr_description req) None [''*'']"
  have frame: "fails (gw_keys g2) = fails (gw_keys g)" "uuids (gw_keys g2) = uuids (gw_keys g)"
    "k_key_id ` set (api_keys (gw_keys g2)) = k_key_id ` set (api_keys (gw_keys g))"
    "k_api_key_hash ` set (api_keys (gw_keys g2)) = k_api_key_hash ` set (api_keys (gw_keys g))"
    using verified_frame [OF assms(2)] limited_InrD [OF assms(1)] by simp_all
  obtain raw info k where run: "?create (gw_keys g2) = (Inr (raw, info), k)" and ok: "fails k = fails (gw_keys g2)"
    using create_key_with_scopes_runs [of "gw_keys g2" "sp_sha256 P"] assms(5-7) unfolding frame by metis
  then have call: "http_create_key P h (req\<lparr>ckr_scopes := [''*'']\<rparr>) g = (Inr (raw, info), g2\<lparr>gw_keys := k\<rparr>)"
    using assms(1,2,4) by (simp add: http_create_key_def bindE_def in_keys_def)
  obtain i now e where new: "api_keys k = api_keys (gw_keys g2) @
        [new_key_row i (sp_sha256 P raw) (ckr_agent_id req) (ckr_description req) now e]"
    and scopes: "set (ki_scopes info) = set (if [''*''] = [] then default_scopes else [''*''])"
    and fresh: "sp_sha256 P raw \<notin> k_api_key_hash ` set (api_keys (gw_keys g2))"
    and here: "ki_scopes info = scopes_of k i" and "None = (None :: int option) \<longrightarrow> e = None"
    using create_key_with_scopesE [OF run] .
  then have "e = None" by simp
  then have "\<exists>info'. fst (verify_key (sp_sha256 P) raw k) = Inr info' \<and>
      has_scope info' ''experience:govern'' \<and> ki_agent_id info' = ckr_agent_id req"
    using verify_new_row [of k "gw_keys g2" i "sp_sha256 P" raw, OF new fresh] assms(5) scopes here ok frame(1)
    by (auto simp: read_time_option_def has_scope_def list_ex_iff)
  with call show "\<exists>raw info g' info'. http_create_key P h (req\<lparr>ckr_scopes := [''*'']\<rparr>) g = (Inr (raw, info), g') \<and>
       fst (verify_key (sp_sha256 P) raw (gw_keys g')) = Inr info' \<and>
       has_scope info' ''experience:govern'' \<and> ki_agent_id info' = ckr_agent_id req"
    by auto
qed

text \<open>
  Rotation asks for any valid key, not for the rotated one: whoever holds a key
  gets, for any key id, a secret with that key's agent and scopes.
\<close>

theorem rotation_hands_over_any_key:
  assumes "http_rotate_key P h i None g = (Inr (raw, info, now), g')" and "\<And>n. \<not> fails (gw_keys g') n"
  shows "\<exists>r \<in> set (api_keys (gw_keys g)). k_key_id r = i \<and>
     (\<exists>info'. fst (verify_key (sp_sha256 P) raw (gw_keys g')) = Inr info' \<and> ki_agent_id info' = k_agent_id r \<and>
        set (ki_scopes info') = set (scopes_of (gw_keys g) i))"
proof -
  from assms(1) obtain g1 g2 caller u where lim: "limited h MPost ''/keys'' g = (Inr u, g1)"
    and ver: "verified P h g1 = (Inr caller, g2)"
    and rot: "rotate_key (sp_sha256 P) i None (gw_keys g2) = (Inr (raw, info), gw_keys g')"
    by (auto simp: http_rotate_key_def utc_now_def ret_def elim!: bindE_InrE dest!: in_keys_InrD)
  from rot obtain r s2 where r: "r \<in> set (api_keys (gw_keys g2))" "k_key_id r = i"
    and cr: "create_key_with_scopes (sp_sha256 P) (k_agent_id r) None None (scopes_of (gw_keys g2) i) s2 = (Inr (raw, info), gw_keys g')"
    by (rule rotate_keyE)
  have same: "scopes_of (gw_keys g2) i = scopes_of (gw_keys g) i"
    using verified_keysD [OF ver] limited_InrD [OF lim] by (simp add: scopes_of_def)
  have "(i, k_agent_id r) \<in> set (map (\<lambda>r. (k_key_id r, k_agent_id r)) (api_keys (gw_keys g2)))"
    using r by force
  then obtain r0 where r0: "r0 \<in> set (api_keys (gw_keys g))" "k_key_id r0 = i" "k_agent_id r0 = k_agent_id r"
    unfolding verified_keysD [OF ver, THEN conjunct1] limited_InrD [OF lim] by auto
  have ne: "scopes_of (gw_keys g) i \<noteq> []"
    by (simp add: scopes_of_def Let_def default_scopes_def)
  from cr obtain j t e where new: "api_keys (gw_keys g') = api_keys s2 @ [new_key_row j (sp_sha256 P raw) (k_agent_id r) None t e]"
    and scopes: "set (ki_scopes info) = set (if scopes_of (gw_keys g2) i = [] then default_scopes else scopes_of (gw_keys g2) i)"
    and fresh: "sp_sha256 P raw \<notin> k_api_key_hash ` set (api_keys s2)"
    and here: "ki_scopes info = scopes_of (gw_keys g') j" and "None = (None :: int option) \<longrightarrow> e = None"
    by (rule create_key_with_scopesE)
  then have "e = None" by simp
  then have "\<exists>info'. fst (verify_key (sp_sha256 P) raw (gw_keys g')) = Inr info' \<and> ki_agent_id info' = k_agent_id r0 \<and>
        set (ki_scopes info') = set (scopes_of (gw_keys g) i)"
    using verify_new_row [of "gw_keys g'" s2 j "sp_sha256 P" raw, OF new fresh assms(2)] scopes here same ne r0
    by (simp add: read_time_option_def)
  with r0 show ?thesis by blast
qed

section \<open>A gateway with one key\<close>

definition demo_server :: server_params where
  "demo_server = \<lparr>sp_sha256 = id, sp_lower = id, sp_rnd = id, sp_relevance = demo_relevance, sp_to_string = (\<lambda>_. []),
     sp_pretty = (\<lambda>_. []), sp_crypto = \<lparr>oc_parse_time = (\<lambda>_. Some 0), oc_to_vec = (\<lambda>_. []), oc_base64 = Some,
     oc_hex = Some, oc_key_ok = (\<lambda>_. True), oc_verify = (\<lambda>_ _ _. True)\<rparr>, sp_environment = (\<lambda>_. Some []),
     sp_decode_gene = (\<lambda>_. None), sp_decode_assets = (\<lambda>_. None), sp_parse_uuid = Some, sp_query = (\<lambda>_. None),
     sp_bundle = (\<lambda>_. None), sp_receipt = (\<lambda>_. None), sp_capsule = (\<lambda>_. None), sp_scope = (\<lambda>_. None)\<rparr>"

definition demo_gateway :: gateway where
  "demo_gateway = \<lparr>tick = 0, clock = int, uuids = (\<lambda>n. replicate (Suc n) CHR ''a''), fails = (\<lambda>_. False),
     gw_keys = one_key_world ''Active'', gw_exp = exp_world, gw_genes = gene_world,
     gw_oen = \<lparr>tick = 0, clock = int, uuids = (\<lambda>n. replicate (Suc n) CHR ''a''), fails = (\<lambda>_. False),
       instants = int, oen_tolerance_secs = 300, oen_ttl_secs = 60, oen_cache = Map.empty\<rparr>,
     gw_limits = new_registry default_rate_limits\<rparr>"

definition demo_headers :: "string \<Rightarrow> headers" where
  "demo_headers key = (\<lambda>name. if name = ''x-api-key'' then Some key else None)"

lemma unkeyed_requests_change_nothing_witness:
  "stored (snd (handle demo_server (demo_headers ''other'') (RqRevokeKey ''k'') demo_gateway)) = stored demo_gateway \<and>
   (\<exists>e. fst (handle demo_server (demo_headers ''other'') (RqRevokeKey ''k'') demo_gateway) = Inl e)"
proof -
  have "unknown_key demo_server (demo_headers ''other'') demo_gateway"
    by (simp add: unknown_key_def demo_server_def demo_gateway_def one_key_world_def stored_key_def header_str_def demo_headers_def)
  from unkeyed_requests_change_nothing [OF this prod.collapse [symmetric], of "RqRevokeKey ''k''"]
  show ?thesis by (simp add: public_read_def)
qed

lemma sharing_needs_governance_witness:
  "all_narrow (gw_exp (snd (handle demo_server (demo_headers ''k'') (RqPromote ''g1'' 1 EsLocal) demo_gateway)))"
proof (rule sharing_needs_governance)
  show "all_narrow (gw_exp demo_gateway)" by (simp add: demo_gateway_def all_narrow_def exp_world_def)
  show "not_governing demo_server (demo_headers ''k'') demo_gateway"
    by (auto simp: not_governing_def demo_server_def demo_gateway_def one_key_world_def scopes_of_def default_scopes_def Let_def key_world_def)
qed (rule prod.collapse [symmetric])

lemma keeps_key_env:
  "keeps (\<lambda>g. fails (gw_keys g) = F \<and> clock (gw_keys g) = C) (http_create_key P h req)"
  "keeps (\<lambda>g. fails (gw_keys g) = F \<and> clock (gw_keys g) = C) (http_rotate_key P h i ttl)"
proof -
  let ?Q = "\<lambda>g. fails (gw_keys g) = F \<and> clock (gw_keys g) = C"
  have keys: "keeps ?Q (in_keys m)" if "keeps (\<lambda>w. fails w = F \<and> clock w = C) m" for m :: "(keystore, key_service_error, 'a) op"
  proof (rule keeps_in_keys)
    fix w r k assume "?Q w" and run: "m (gw_keys w) = (r, k)"
    then have "fails k = F \<and> clock k = C" by (intro keepsD [OF that _ run]) simp
    then show "?Q (w\<lparr>gw_keys := k\<rparr>)" by simp
  qed
  have start: "keeps ?Q (limited h m path)" "keeps ?Q (verified P h)" for m path
    unfolding verified_def api_key_of_def
    by (rule keeps_limited, simp_all) (intro keep_intros keys key_env.verify_key)
  show "keeps ?Q (http_create_key P h req)"
    unfolding http_create_key_def
    by (intro keep_intros start keys key_env.create_key key_env.create_key_with_scopes)
  show "keeps ?Q (http_rotate_key P h i ttl)"
    unfolding http_rotate_key_def split_def
    by (intro keep_intros start keys key_env.rotate_key) simp_all
qed

definition wildcard_request :: create_key_request where
  "wildcard_request = \<lparr>ckr_agent_id = ''other'', ckr_ttl_days = None, ckr_description = None, ckr_scopes = [''*'']\<rparr>"

lemma wildcard_key_escalates_witness:
  "\<exists>raw info g' info'. http_create_key demo_server (demo_headers ''k'') wildcard_request demo_gateway = (Inr (raw, info), g') \<and>
     fst (verify_key id raw (gw_keys g')) = Inr info' \<and> has_scope info' ''experience:govern'' \<and> ki_agent_id info' = ''other''"
proof -
  let ?lim = "limited (demo_headers ''k'') MPost ''/keys'' demo_gateway"
  let ?ver = "verified demo_server (demo_headers ''k'') (snd ?lim)"
  have "fst ?lim = Inr ()" by code_simp
  then have lim: "?lim = (Inr (), snd ?lim)" by (metis prod.collapse)
  have "case fst ?ver of Inl _ \<Rightarrow> False | Inr i \<Rightarrow> \<not> has_scope i ''experience:govern''" by code_simp
  then obtain caller where ver: "?ver = (Inr caller, snd ?ver)" and weak: "\<not> has_scope caller ''experience:govern''"
    by (cases ?ver) (auto split: sum.splits)
  have store: "\<not> fails (gw_keys demo_gateway) n" "uuids (gw_keys demo_gateway) n \<notin> k_key_id ` set (api_keys (gw_keys demo_gateway))"
    "sp_sha256 demo_server (raw_key_of (uuids (gw_keys demo_gateway) n)) \<notin> k_api_key_hash ` set (api_keys (gw_keys demo_gateway))" for n
    by (simp_all add: demo_gateway_def demo_server_def one_key_world_def key_world_def stored_key_def raw_key_of_def)
  have req: "ckr_ttl_days wildcard_request = None" "wildcard_request\<lparr>ckr_scopes := [''*'']\<rparr> = wildcard_request"
    "ckr_agent_id wildcard_request = ''other''" "sp_sha256 demo_server = id"
    by (simp_all add: wildcard_request_def demo_server_def)
  from wildcard_key_escalates [OF lim ver weak req(1) store] show ?thesis
    unfolding req by blast
qed

lemma rotation_hands_over_any_key_witness:
  "\<exists>raw info now g' info'. http_rotate_key demo_server (demo_headers ''k'') ''k'' None demo_gateway = (Inr (raw, info, now), g') \<and>
     fst (verify_key id raw (gw_keys g')) = Inr info' \<and> ki_agent_id info' = ''agent''"
proof -
  let ?run = "http_rotate_key demo_server (demo_headers ''k'') ''k'' None demo_gateway"
  have "case fst ?run of Inl _ \<Rightarrow> False | Inr _ \<Rightarrow> True" by code_simp
  then obtain raw info now g' where run: "?run = (Inr (raw, info, now), g')"
    by (cases ?run) (auto split: sum.splits)
  have "\<not> fails (gw_keys g') n" for n
    using keepsD [OF keeps_key_env(2) [of "\<lambda>_. False" int] _ run] by (simp add: demo_gateway_def one_key_world_def key_world_def)
  from rotation_hands_over_any_key [OF run this] show ?thesis
    using run by (auto simp: demo_server_def demo_gateway_def one_key_world_def stored_key_def)
qed

end
