(* ===== verification/Spec2Isabelle.thy ===== *)
theory Spec2Isabelle
  imports Forget Versioning Retention Acl Resilience Promotion Conflict Poison WritePipeline Router Degradation Keys SharedTask CanonicalUser Identity Assembler ExperienceSearch Skill RateLimit Replay Decision MemoryControl ContextPackage Migrate Server
begin

text \<open>
  The oris memory server keeps the memories of software agents.  A control
  plane (crate oris-control-plane) accepts proposals, decides who may read and
  promote them, scores their quality and governs their life cycle; a store
  (crate oris-memory-store) keeps them in PostgreSQL and caches them in Redis;
  an outbox carries each change of the database to the caches.  Beside it runs
  the experience repository: an HTTP server over three SQLite databases that
  hold agent keys, experience bundles and legacy genes.  This development
  models these parts as executable functions and proves what each promises.

  How the model reads the code.  A struct is a record, an enum a datatype, a
  32-bit float an exact real with the rounding written out (Float32), a
  64-bit float a rational with its rounding a parameter, a Rust integer an
  int or nat with the wrap-around or saturation written out where the code can
  reach it.  A table is the list of its rows in insertion order, and each SQL
  statement of the source is a function on that list (Schema); Redis is a map
  with expiry times (Redis).  An async function is a state transformer over the
  record of all tables, whose result is a sum with the error on the left
  (Prelude, Schema); clock readings, fresh UUIDs and the statement-level
  failures come from the environment's component of the state, so a theorem
  about a returned error or value covers every way a statement may fail.

  The theories, and the files under src/crates they model:
  Prelude (result and state monad, list and map lemmas), TextOps (str methods),
  StableSort (sort_by), Float32 (f32 arithmetic), Json (serde_json values and
  the jsonb operators), MemoryTypes (memory_types.rs), Schema (the migrations
  and the row types), MemoryRepo (postgres/memory.rs), Redis
  (redis/hot_context.rs, session.rs, cache.rs, lock.rs), Outbox (outbox.rs,
  outbox_worker.rs), AccessAudit, LegalHold, Forget, Versioning, Retention, Acl
  (the governance modules of the same names), Breaker (engines registry and
  circuit breaker), Resilience, Escalation and Promotion (promotion of scope
  and its approvals), Conflict (conflict_resolver.rs), Poison
  (poison_guard.rs), Entity and GraphSearch (the entity graph, its store and
  its searches), WritePipeline (write_pipeline.rs), Router (router.rs),
  Degradation, Keys (key_service), SharedTask (shared_task.rs), CanonicalUser
  (canonical_user.rs), Identity (identity.rs), Search (postgres/search.rs),
  Assembler (context_assembler.rs), Contract (crate oris-memory-contract),
  ExperienceStore and ExperienceSearch (control_plane.rs), Skill
  (skill_projection.rs), GeneStore (oris-memory-store/store.rs, types.rs),
  Replay (replay_hook.rs), Oen (oen/verifier.rs), RateLimit
  @@ (server/handlers.rs, error.rs,
  api/request.rs).

  How the parts interact.  A write goes through the pipeline, whose guard,
  duplicate test and scoring decide the state of the row it inserts and the
  outbox event it leaves; a promotion moves rows between scopes after the
  approvals it needs; forgetting a memory walks the graph of derivations,
  respects legal holds, audits each step and leaves revocation events; the
  worker drains the outbox and deletes the keys of the caches; the assembler
  joins what router, search and caches give it within a token budget.  A
  request to the experience repository passes the rate limiter, the key store
  and, where it shares a gene, the envelope verifier, before it reaches a
  store; the record gateway holds the states of all of them.  The lemmas of
  each theory show what each operation does to each table on every branch,
  and that it leaves the other tables alone; the properties join them.

  Specifications are stated apart from the code they judge: the documented
  steps of a decision (Decision), the table of degradation levels
  (Degradation), the rows a search may show (Search), the statistics of a
  gene's outcomes (ExperienceStore), the distances of the entity graph (Entity)
  and the derivation closure of a memory (Forget) are relations and sets of
  their own, and the properties compare the operations with them.

  Interfaces are locales: keyed_cache and expiring_lock (what the Redis
  clients rely on), hold_registry (what forgetting asks of legal holds),
  approval_ledger and strict_ledger (the two approval stores), key_table_law
  (what every operation on agent keys keeps), store_law (what every statement
  on the experience tables keeps).  Each is interpreted on the model's own
  definitions; store_law three times, for the agreement of columns and
  payloads, for the narrow scopes and for the health of the environment.

  Loops are total functions, with the measure of the Rust loop where the
  recursion is not structural.  The walk along parent keys is a
  partial_function, since the code's loop ends only on a finite chain, and it is
  proved to return on the chains a breadth-first search builds.

  Parameters stand for what is not in the repository: the lower-casing of
  Unicode text, SHA-256, Ed25519, base64 and hex, the parsing of timestamps and
  UUIDs, the JSON text and the decoding of serde, the rounding of doubles and
  the full-text and similarity measures, the replies of Redis SCAN, the
  order of hash maps, what sort_by does with a comparator that is no total order
  (it may panic, which the assembler returns as an error), the columns of the deployed tables where the migrations
  and the queries disagree.

  Not modelled: the transport of HTTP and MCP requests and the schemas of the
  MCP tools, metrics and logging,
  the encryption primitives, the embedding and graph services behind HTTP,
  the proof-of-concept and evaluation harnesses, the simulations and dashboards
  in double arithmetic, and the partitioning of tables; each is listed with its
  reason in the manifest.
\<close>

end
